(* ===== verification/Prelude.thy ===== *)
theory Prelude
  imports Main "HOL-Library.Word" "HOL-Library.AList" "HOL-Library.Multiset"
begin

text \<open>
  Shared vocabulary of the development.

  \<^item> Control flow of the Rust sources: a computation that may panic has type \<open>'a rs\<close>,
    a \<open>Result\<close> is the sum \<open>'e + 'a\<close> (\<open>Inl\<close> the error), an \<open>Option\<close> is \<open>option\<close>, and
    \<open>std::cmp::Ordering\<close> is \<open>ordering\<close>.
  \<^item> Characters: a Rust \<open>char\<close> is modelled by \<open>char\<close>, read as the code points U+0000 to U+00FF.
    This is the alphabet that \<open>load_non_utf8_path\<close> (src/rust/src/nasl/syntax/loader.rs) produces:
    it turns every byte of a file into one character. The character classes below are the Unicode
    classes of the standard library restricted to that range, and \<open>utf8_len\<close> is the number of
    bytes such a character takes in a Rust \<open>str\<close>.
  \<^item> Collections: \<open>swap_remove\<close>, \<open>position_of\<close> and the association-list lemmas used for
    \<open>HashMap\<close>s whose iteration order is observable.
\<close>

named_theorems result_simps \<open>unfolding of the error-propagation combinators\<close>
named_theorems char_class_simps \<open>unfolding of the character classes\<close>

lemma length_dropWhile_less_Suc [termination_simp]: "length (dropWhile P xs) < Suc (length xs)"
  by (simp add: length_dropWhile_le less_Suc_eq_le)

section \<open>Panics, results and orderings\<close>

text \<open>A computation that either panics or returns a value.\<close>

datatype 'a rs = Panic | Ret 'a

definition rs_bind :: "'a rs \<Rightarrow> ('a \<Rightarrow> 'b rs) \<Rightarrow> 'b rs" where
  "rs_bind m f = (case m of Panic \<Rightarrow> Panic | Ret x \<Rightarrow> f x)"

lemma rs_bind_simps [simp, result_simps]:
  "rs_bind Panic f = Panic"
  "rs_bind (Ret x) f = f x"
  by (simp_all add: rs_bind_def)

lemma rs_bind_Ret_iff [simp]:
  "rs_bind m f = Ret y \<longleftrightarrow> (\<exists>x. m = Ret x \<and> f x = Ret y)"
  by (cases m) auto

text \<open>The question mark operator on \<open>Result\<close>.\<close>

definition try_bind :: "'e + 'a \<Rightarrow> ('a \<Rightarrow> 'e + 'b) \<Rightarrow> 'e + 'b" where
  "try_bind m f = (case m of Inl e \<Rightarrow> Inl e | Inr x \<Rightarrow> f x)"

lemma try_bind_simps [simp, result_simps]:
  "try_bind (Inl e) f = Inl e"
  "try_bind (Inr x) f = f x"
  by (simp_all add: try_bind_def)

lemma try_bind_Inr_iff:
  "try_bind m f = Inr y \<longleftrightarrow> (\<exists>x. m = Inr x \<and> f x = Inr y)"
  by (cases m) auto

text \<open>\<open>std::cmp::Ordering\<close>.\<close>

datatype ordering = OLess | OEqual | OGreater

fun ord_reverse :: "ordering \<Rightarrow> ordering" where
  "ord_reverse OLess = OGreater"
| "ord_reverse OEqual = OEqual"
| "ord_reverse OGreater = OLess"

lemma ord_reverse_reverse [simp]: "ord_reverse (ord_reverse c) = c"
  by (cases c) simp_all

lemma ord_reverse_eq_iff [simp]:
  "ord_reverse c = OLess \<longleftrightarrow> c = OGreater"
  "ord_reverse c = OEqual \<longleftrightarrow> c = OEqual"
  "ord_reverse c = OGreater \<longleftrightarrow> c = OLess"
  by (cases c; simp)+

text \<open>
  The contract of a total comparison function (\<open>Ord::cmp\<close>): equality means equal arguments,
  swapping the arguments reverses the answer, and the strict part is transitive.
\<close>

locale comparator =
  fixes cmp :: "'a \<Rightarrow> 'a \<Rightarrow> ordering"
  assumes cmp_Equal_iff: "cmp a b = OEqual \<longleftrightarrow> a = b"
    and cmp_reverse: "ord_reverse (cmp a b) = cmp b a"
    and cmp_Less_trans: "cmp a b = OLess \<Longrightarrow> cmp b c = OLess \<Longrightarrow> cmp a c = OLess"
begin

lemma cmp_refl: "cmp a a = OEqual"
  by (simp add: cmp_Equal_iff)

lemma cmp_Greater_iff: "cmp a b = OGreater \<longleftrightarrow> cmp b a = OLess"
  by (metis cmp_reverse ord_reverse_eq_iff(3) ord_reverse_reverse)

end

definition cmp_nat :: "nat \<Rightarrow> nat \<Rightarrow> ordering" where
  "cmp_nat a b = (if a < b then OLess else if a = b then OEqual else OGreater)"

lemma cmp_nat_iff:
  "cmp_nat a b = OLess \<longleftrightarrow> a < b"
  "cmp_nat a b = OEqual \<longleftrightarrow> a = b"
  "cmp_nat a b = OGreater \<longleftrightarrow> b < a"
  by (auto simp: cmp_nat_def)

interpretation nat_cmp: comparator cmp_nat
  by unfold_locales (auto simp: cmp_nat_iff, simp add: cmp_nat_def)

text \<open>Lexicographic comparison of sequences, the \<open>Ord\<close> instance of slices and strings.\<close>

fun lex_cmp :: "('a \<Rightarrow> 'a \<Rightarrow> ordering) \<Rightarrow> 'a list \<Rightarrow> 'a list \<Rightarrow> ordering" where
  "lex_cmp f [] [] = OEqual"
| "lex_cmp f [] (_ # _) = OLess"
| "lex_cmp f (_ # _) [] = OGreater"
| "lex_cmp f (a # as) (b # bs) = (case f a b of OEqual \<Rightarrow> lex_cmp f as bs | c \<Rightarrow> c)"

context comparator
begin

lemma lex_cmp_Equal_iff: "lex_cmp cmp as bs = OEqual \<longleftrightarrow> as = bs"
  by (induction as bs rule: list_induct2') (auto simp: cmp_refl cmp_Equal_iff split: ordering.splits)

lemma lex_cmp_reverse: "ord_reverse (lex_cmp cmp as bs) = lex_cmp cmp bs as"
proof (induction as bs rule: list_induct2')
  case (4 a as b bs)
  then show ?case
    using cmp_reverse [of a b] by (cases "cmp a b"; cases "cmp b a") (auto simp: cmp_refl cmp_Equal_iff)
qed auto

lemma lex_cmp_Less_trans:
  "lex_cmp cmp as bs = OLess \<Longrightarrow> lex_cmp cmp bs cs = OLess \<Longrightarrow> lex_cmp cmp as cs = OLess"
proof (induction as bs arbitrary: cs rule: list_induct2')
  case (3 b bs)
  then show ?case by (cases cs) auto
next
  case (4 a as b bs)
  then obtain c cs' where cs: "cs = c # cs'" by (cases cs) auto
  show ?case
  proof (cases "cmp a b = OLess \<and> cmp b c = OLess")
    case True
    then have "cmp a c = OLess" using cmp_Less_trans by blast
    then show ?thesis by (simp add: cs)
  next
    case False
    with "4.prems" have "a = b \<or> b = c" by (auto simp: cs cmp_Equal_iff split: ordering.splits)
    with "4.prems" "4.IH" [of cs'] show ?thesis
      by (auto simp: cs cmp_refl split: ordering.splits)
  qed
qed auto

lemma comparator_lex_cmp: "comparator (lex_cmp cmp)"
  by unfold_locales (rule lex_cmp_Equal_iff lex_cmp_reverse lex_cmp_Less_trans; assumption)+

end

text \<open>
  Comparison of strings: Rust compares the UTF-8 bytes, which on valid UTF-8 is the lexicographic
  comparison of the code points.
\<close>

definition str_cmp :: "string \<Rightarrow> string \<Rightarrow> ordering" where
  "str_cmp a b = lex_cmp cmp_nat (map of_char a) (map of_char b)"

interpretation nats_cmp: comparator "lex_cmp cmp_nat"
  by (rule nat_cmp.comparator_lex_cmp)

interpretation str_cmp: comparator str_cmp
proof
  show "str_cmp a b = OEqual \<longleftrightarrow> a = b" for a b
    unfolding str_cmp_def nats_cmp.cmp_Equal_iff by (simp add: inj_map_eq_map inj_def)
  show "ord_reverse (str_cmp a b) = str_cmp b a" for a b
    unfolding str_cmp_def by (rule nats_cmp.cmp_reverse)
  show "str_cmp a b = OLess \<Longrightarrow> str_cmp b c = OLess \<Longrightarrow> str_cmp a c = OLess" for a b c
    unfolding str_cmp_def by (rule nats_cmp.cmp_Less_trans)
qed

section \<open>Characters\<close>

type_synonym codepoint = nat

definition is_ascii_digit :: "char \<Rightarrow> bool" where
  "is_ascii_digit c = (let n = of_char c in 48 \<le> (n::nat) \<and> n \<le> 57)"

definition is_ascii_hexdigit :: "char \<Rightarrow> bool" where
  "is_ascii_hexdigit c = (let n = of_char c in is_ascii_digit c \<or> (65 \<le> (n::nat) \<and> n \<le> 70) \<or> (97 \<le> n \<and> n \<le> 102))"

text \<open>\<open>char::is_alphabetic\<close> on U+0000 to U+00FF.\<close>

definition is_alphabetic :: "char \<Rightarrow> bool" where
  "is_alphabetic c = (let n = of_char c in
     (65 \<le> (n::nat) \<and> n \<le> 90) \<or> (97 \<le> n \<and> n \<le> 122) \<or> n = 170 \<or> n = 181 \<or> n = 186 \<or>
     (192 \<le> n \<and> n \<noteq> 215 \<and> n \<noteq> 247))"

text \<open>\<open>char::is_numeric\<close> (general categories Nd, Nl, No) on U+0000 to U+00FF.\<close>

definition is_numeric :: "char \<Rightarrow> bool" where
  "is_numeric c = (let n = of_char c in
     (48 \<le> (n::nat) \<and> n \<le> 57) \<or> n = 178 \<or> n = 179 \<or> n = 185 \<or> n = 188 \<or> n = 189 \<or> n = 190)"

text \<open>\<open>char::is_whitespace\<close> on U+0000 to U+00FF.\<close>

definition is_whitespace :: "char \<Rightarrow> bool" where
  "is_whitespace c = (let n = of_char c in
     (9 \<le> (n::nat) \<and> n \<le> 13) \<or> n = 32 \<or> n = 133 \<or> n = 160)"

text \<open>\<open>char::to_lowercase\<close> on U+0000 to U+00FF, where it yields one character.\<close>

definition char_to_lower :: "char \<Rightarrow> char" where
  "char_to_lower c = (let n = of_char c in
     if (65 \<le> (n::nat) \<and> n \<le> 90) \<or> (192 \<le> n \<and> n \<le> 222 \<and> n \<noteq> 215) then char_of (n + 32) else c)"

definition to_lowercase :: "string \<Rightarrow> string" where
  "to_lowercase = map char_to_lower"

lemmas char_class_defs [char_class_simps] =
  is_ascii_digit_def is_ascii_hexdigit_def is_alphabetic_def is_numeric_def is_whitespace_def
  char_to_lower_def Let_def

definition utf8_len :: "char \<Rightarrow> nat" where
  "utf8_len c = (if (of_char c :: nat) < 128 then 1 else 2)"

definition str_len :: "string \<Rightarrow> nat" where
  "str_len s = sum_list (map utf8_len s)"

lemma utf8_len_pos [simp]: "0 < utf8_len c"
  by (simp add: utf8_len_def)

lemma str_len_simps [simp]:
  "str_len [] = 0"
  "str_len (c # s) = utf8_len c + str_len s"
  "str_len (s @ t) = str_len s + str_len t"
  by (simp_all add: str_len_def)

lemma str_len_eq_0_iff [simp]: "str_len s = 0 \<longleftrightarrow> s = []"
  by (cases s) (simp_all add: utf8_len_def)

lemma length_le_str_len: "length s \<le> str_len s"
  by (induction s) (auto simp: utf8_len_def)

text \<open>\<open>str::trim\<close>.\<close>

definition trim :: "string \<Rightarrow> string" where
  "trim s = rev (dropWhile is_whitespace (rev (dropWhile is_whitespace s)))"

lemma dropWhile_hd_id: "s = [] \<or> \<not> P (hd s) \<Longrightarrow> dropWhile P s = s"
  by (cases s) auto

lemma trim_id: "s = [] \<or> (\<not> is_whitespace (hd s) \<and> \<not> is_whitespace (last s)) \<Longrightarrow> trim s = s"
  by (auto simp: trim_def dropWhile_hd_id hd_rev)

text \<open>The decimal value of a string of digits, most significant first, and its printer.\<close>

definition digit_val :: "char \<Rightarrow> nat" where
  "digit_val c = of_char c - 48"

definition dec_val :: "string \<Rightarrow> nat" where
  "dec_val s = foldl (\<lambda>acc c. acc * 10 + digit_val c) 0 s"

fun show_nat :: "nat \<Rightarrow> string" where
  "show_nat n = (if n < 10 then [char_of (48 + n)] else show_nat (n div 10) @ [char_of (48 + n mod 10)])"

declare show_nat.simps [simp del]

lemma of_char_char_of_digit: "n < 10 \<Longrightarrow> of_char (char_of (48 + n) :: char) = (48 + n :: nat)"
  by simp

lemma dec_val_snoc [simp]: "dec_val (s @ [c]) = dec_val s * 10 + digit_val c"
  by (simp add: dec_val_def)

lemma dec_val_Nil [simp]: "dec_val [] = 0"
  by (simp add: dec_val_def)

lemma show_nat_small: "n < 10 \<Longrightarrow> show_nat n = [char_of (48 + n)]"
  by (subst show_nat.simps) simp

lemma show_nat_step: "\<not> n < 10 \<Longrightarrow> show_nat n = show_nat (n div 10) @ [char_of (48 + n mod 10)]"
  by (subst show_nat.simps) simp

lemma is_ascii_digit_char_of: "(n::nat) < 10 \<Longrightarrow> is_ascii_digit (char_of (48 + n))"
  by (simp add: is_ascii_digit_def)

lemma digit_val_char_of: "n < 10 \<Longrightarrow> digit_val (char_of (48 + n)) = n"
  by (simp add: digit_val_def)

lemma show_nat_digits: "list_all is_ascii_digit (show_nat n) \<and> show_nat n \<noteq> []"
proof (induction n rule: show_nat.induct)
  case (1 n)
  have m: "is_ascii_digit (char_of (48 + n mod 10))"
    by (rule is_ascii_digit_char_of) simp
  show ?case
  proof (cases "n < 10")
    case True
    then show ?thesis by (simp add: show_nat_small is_ascii_digit_char_of)
  next
    case False
    with 1 m show ?thesis by (simp add: show_nat_step)
  qed
qed

lemma dec_val_show_nat [simp]: "dec_val (show_nat n) = n"
proof (induction n rule: show_nat.induct)
  case (1 n)
  have m: "digit_val (char_of (48 + n mod 10)) = n mod 10"
    by (rule digit_val_char_of) simp
  show ?case
  proof (cases "n < 10")
    case True
    then show ?thesis
      by (simp add: show_nat_small digit_val_char_of dec_val_def)
  next
    case False
    with 1 m show ?thesis by (simp add: show_nat_step)
  qed
qed

text \<open>\<open>str::parse::<u64>\<close>: an optional plus sign, at least one digit, no overflow.\<close>

definition parse_u64 :: "string \<Rightarrow> nat option" where
  "parse_u64 s =
     (let ds = (case s of c # cs \<Rightarrow> (if c = CHR ''+'' then cs else s) | [] \<Rightarrow> [])
      in if ds = [] \<or> \<not> list_all is_ascii_digit ds then None
         else if dec_val ds < 2 ^ 64 then Some (dec_val ds) else None)"

lemma parse_u64_empty [simp]: "parse_u64 [] = None"
  by (simp add: parse_u64_def)

lemma parse_u64_show_nat: "n < 2 ^ 64 \<Longrightarrow> parse_u64 (show_nat n) = Some n"
proof -
  assume n: "n < 2 ^ 64"
  have d: "list_all is_ascii_digit (show_nat n)" "show_nat n \<noteq> []"
    using show_nat_digits by auto
  then obtain c cs where c: "show_nat n = c # cs" "is_ascii_digit c"
    by (cases "show_nat n") auto
  then have "c \<noteq> CHR ''+''" by (auto simp: is_ascii_digit_def)
  then have "(case show_nat n of c # cs \<Rightarrow> (if c = CHR ''+'' then cs else show_nat n) | [] \<Rightarrow> []) = show_nat n"
    by (simp add: c(1))
  then show ?thesis
    using n d by (simp add: parse_u64_def Let_def)
qed

lemma parse_u64_bound: "parse_u64 s = Some n \<Longrightarrow> n < 2 ^ 64"
  by (auto simp: parse_u64_def Let_def split: if_splits)

section \<open>Vectors\<close>

text \<open>\<open>Iterator::position\<close> with an equality test.\<close>

fun position_of :: "'a \<Rightarrow> 'a list \<Rightarrow> nat option" where
  "position_of x [] = None"
| "position_of x (y # ys) = (if y = x then Some 0 else map_option Suc (position_of x ys))"

lemma position_of_None_iff: "position_of x xs = None \<longleftrightarrow> x \<notin> set xs"
  by (induction xs) auto

lemma position_of_Some: "position_of x xs = Some i \<Longrightarrow> i < length xs \<and> xs ! i = x"
  by (induction xs arbitrary: i) (auto split: if_splits)

text \<open>\<open>Vec::swap_remove\<close>: the last element replaces the removed one; out of range it panics,
  which no caller of this development reaches.\<close>

definition swap_remove :: "nat \<Rightarrow> 'a list \<Rightarrow> 'a list" where
  "swap_remove i xs = butlast (xs[i := last xs])"

lemma length_swap_remove [simp]: "i < length xs \<Longrightarrow> length (swap_remove i xs) = length xs - 1"
  by (simp add: swap_remove_def)

lemma mset_swap_remove:
  assumes "i < length xs"
  shows "mset (swap_remove i xs) = mset xs - {#xs ! i#}"
proof (cases xs rule: rev_cases)
  case Nil
  with assms show ?thesis by simp
next
  case (snoc ys y)
  show ?thesis
  proof (cases "i = length ys")
    case True
    then show ?thesis by (simp add: swap_remove_def snoc)
  next
    case False
    with assms snoc have i: "i < length ys" by simp
    have "swap_remove i xs = ys[i := y]"
      using i by (simp add: swap_remove_def snoc list_update_append)
    moreover have "mset (ys[i := y]) = add_mset y (mset ys - {#ys ! i#})"
      using i by (simp add: mset_update)
    moreover have "ys ! i \<in># mset ys" using i by simp
    ultimately show ?thesis
      using i by (simp add: snoc nth_append)
  qed
qed

lemma set_swap_remove_subset: "i < length xs \<Longrightarrow> set (swap_remove i xs) \<subseteq> set xs"
  by (metis in_diffD mset_swap_remove set_mset_mset subsetI)

lemma distinct_swap_remove:
  assumes "i < length xs" "distinct xs"
  shows "distinct (swap_remove i xs) \<and> set (swap_remove i xs) = set xs - {xs ! i}"
proof -
  have m: "mset (swap_remove i xs) = mset xs - {#xs ! i#}"
    using assms(1) by (rule mset_swap_remove)
  have c: "\<And>a. count (mset (swap_remove i xs)) a = (if a \<in> set xs - {xs ! i} then 1 else 0)"
    using assms by (auto simp: m distinct_count_atmost_1)
  then have s: "set (swap_remove i xs) = set xs - {xs ! i}"
    by (metis (no_types, lifting) count_eq_zero_iff set_eqI set_mset_mset zero_neq_one)
  then show ?thesis
    using c by (simp add: distinct_count_atmost_1)
qed

text \<open>Removal of the first occurrence, the idiom of the scheduler.\<close>

definition remove_id :: "'a \<Rightarrow> 'a list \<Rightarrow> 'a list" where
  "remove_id x xs = (case position_of x xs of Some i \<Rightarrow> swap_remove i xs | None \<Rightarrow> xs)"

lemma remove_id_Some: "x \<in> set xs \<Longrightarrow> \<exists>i < length xs. xs ! i = x \<and> remove_id x xs = swap_remove i xs"
  by (cases "position_of x xs") (auto simp: remove_id_def position_of_None_iff dest: position_of_Some)

lemma remove_id_absent [simp]: "x \<notin> set xs \<Longrightarrow> remove_id x xs = xs"
  by (simp add: remove_id_def position_of_None_iff [THEN iffD2])

lemma distinct_remove_id:
  assumes "distinct xs"
  shows "distinct (remove_id x xs) \<and> set (remove_id x xs) = set xs - {x}"
proof (cases "x \<in> set xs")
  case True
  then obtain i where "i < length xs" "xs ! i = x" "remove_id x xs = swap_remove i xs"
    using remove_id_Some by metis
  with assms show ?thesis using distinct_swap_remove by metis
next
  case False
  with assms show ?thesis by auto
qed

lemma length_remove_id:
  "length (remove_id x xs) = (if x \<in> set xs then length xs - 1 else length xs)"
  using remove_id_Some [of x xs] by auto

lemma set_remove_id_subset: "set (remove_id x xs) \<subseteq> set xs"
  using remove_id_Some [of x xs] set_swap_remove_subset by (cases "x \<in> set xs") fastforce+

section \<open>Ordered maps\<close>

text \<open>A \<open>BTreeMap\<close> is the list of its entries in the order of the keys; \<open>btree_insert\<close> replaces the
  value of a present key. A \<open>HashMap\<close> whose entries are only looked up is a function to \<open>option\<close>; one
  that is iterated over is the list of its entries in the order the iterator gives them, with
  \<open>AList.update\<close> as insertion and \<open>AList.delete\<close> as removal. The theorems quantify over the maps, and
  thereby over every iteration order.\<close>

fun btree_insert :: "'k::linorder \<Rightarrow> 'v \<Rightarrow> ('k \<times> 'v) list \<Rightarrow> ('k \<times> 'v) list" where
  "btree_insert k v [] = [(k, v)]"
| "btree_insert k v ((k', v') # m) =
    (if k < k' then (k, v) # (k', v') # m
     else if k = k' then (k, v) # m
     else (k', v') # btree_insert k v m)"

lemma keys_btree_insert [simp]: "fst ` set (btree_insert k v m) = insert k (fst ` set m)"
  by (induction k v m rule: btree_insert.induct) auto

lemma sorted_btree_insert:
  "sorted_wrt (<) (map fst m) \<Longrightarrow> sorted_wrt (<) (map fst (btree_insert k v m))"
proof (induction k v m rule: btree_insert.induct)
  case (2 k v k' v' m)
  have "set (map fst (btree_insert k v m)) = insert k (set (map fst m))" by simp
  with 2 show ?case by auto
qed simp

lemma map_of_btree_insert [simp]: "sorted_wrt (<) (map fst m) \<Longrightarrow> map_of (btree_insert k v m) = (map_of m)(k \<mapsto> v)"
proof (induction k v m rule: btree_insert.induct)
  case (2 k v k' v' m)
  then show ?case by (auto simp: fun_eq_iff)
qed simp

section \<open>Signed decimal numbers\<close>

text \<open>\<open>str::parse::<i64>\<close>: an optional sign and at least one ASCII digit; \<open>None\<close> outside of the range.\<close>

definition parse_i64 :: "string \<Rightarrow> int option" where
  "parse_i64 s =
    (let (sign, digits) =
       (case s of c # cs \<Rightarrow> if c = CHR ''-'' then (-1, cs) else if c = CHR ''+'' then (1, cs) else (1, s)
        | [] \<Rightarrow> (1 :: int, []))
     in if digits = [] \<or> \<not> list_all is_ascii_digit digits then None
        else let n = sign * int (dec_val digits) in
          if - (2 ^ 63) \<le> n \<and> n < 2 ^ 63 then Some n else None)"

lemma parse_i64_bounds: "parse_i64 s = Some n \<Longrightarrow> - (2 ^ 63) \<le> n \<and> n < 2 ^ 63"
  by (auto simp: parse_i64_def Let_def split: list.splits if_splits)

section \<open>UTF-8\<close>

text \<open>\<open>str::as_bytes\<close> and \<open>String::from_utf8\<close> on the code points of the model; a byte sequence that
  encodes another code point has no counterpart here and is treated as invalid.\<close>

definition utf8_char :: "char \<Rightarrow> 8 word list" where
  "utf8_char c =
    (let n = of_char c :: nat in
     if n < 128 then [word_of_nat n] else [word_of_nat (192 + n div 64), word_of_nat (128 + n mod 64)])"

definition as_bytes :: "string \<Rightarrow> 8 word list" where
  "as_bytes s = concat (map utf8_char s)"

fun from_utf8 :: "8 word list \<Rightarrow> string option" where
  "from_utf8 [] = Some []"
| "from_utf8 (b # bs) =
    (if unat b < 128 then map_option (Cons (char_of (unat b))) (from_utf8 bs)
     else case bs of
       c # cs \<Rightarrow>
         if (unat b = 194 \<or> unat b = 195) \<and> 128 \<le> unat c \<and> unat c < 192
         then map_option (Cons (char_of ((unat b - 192) * 64 + (unat c - 128)))) (from_utf8 cs)
         else None
     | [] \<Rightarrow> None)"

lemma unat_byte: "k < 256 \<Longrightarrow> unat (word_of_nat k :: 8 word) = k"
  by (simp add: unat_of_nat take_bit_eq_mod)

lemma from_utf8_char: "from_utf8 (utf8_char c @ bs) = map_option (Cons c) (from_utf8 bs)"
proof -
  define n where "n = (of_char c :: nat)"
  have n: "n < 256" by (simp add: n_def)
  have c: "char_of n = c" by (simp add: n_def)
  show ?thesis
  proof (cases "n < 128")
    case True
    then show ?thesis using c by (simp add: utf8_char_def n_def [symmetric] unat_of_nat take_bit_eq_mod)
  next
    case False
    have d: "n div 64 = 2 \<or> n div 64 = 3" using n False by auto
    have m: "n mod 64 < 64" by simp
    have e: "n div 64 * 64 + n mod 64 = n" by (rule div_mult_mod_eq)
    have u: "unat (word_of_nat (192 + n div 64) :: 8 word) = 192 + n div 64"
        "unat (word_of_nat (128 + n mod 64) :: 8 word) = 128 + n mod 64"
      by (rule unat_byte, use d in linarith) (rule unat_byte, use m in linarith)
    show ?thesis using False d m e c
      by (simp add: utf8_char_def n_def [symmetric] u del: of_nat_add)
  qed
qed

lemma from_utf8_as_bytes [simp]: "from_utf8 (as_bytes s) = Some s"
  by (induction s) (simp_all add: as_bytes_def from_utf8_char)

end
