(* ===== verification/Notus_Version.thy ===== *)
theory Notus_Version
  imports Prelude
begin

text \<open>
  Comparison of package versions, src/rust/src/notus/packages/mod.rs.

  \<open>PackageVersion\<close> wraps a string. Its \<open>partial_cmp\<close> splits both strings with the regular
  expression \<open>(\d+|.)\<close> and compares the parts from left to right. The splitting is done by the
  \<open>regex\<close> crate, so it is the parameter \<open>find_iter\<close> of the model; \<open>splits_version\<close> states what
  the crate documents for this expression. The comparison itself is \<open>cmp_parts\<close>.

  The lemmas relate \<open>cmp_parts\<close> to a specification: map every part to a key, a number to its value,
  append the key of the end of the string and compare lexicographically (\<open>version_key\<close>, \<open>spec_cmp\<close>).
  On parts that are in lower case the code implements that order, with \<open>None\<close> for keys that agree.
\<close>

section \<open>Model\<close>

type_synonym find_iter = "string \<Rightarrow> string list"

datatype package_version = PackageVersion (version_string: string)

abbreviation tilde :: string where
  "tilde \<equiv> ''~''"

definition trim_zeros :: "string \<Rightarrow> string" where
  "trim_zeros = dropWhile (\<lambda>c. c = CHR ''0'')"

abbreviation all_numeric :: "string \<Rightarrow> bool" where
  "all_numeric p \<equiv> list_all is_numeric p"

abbreviation all_alphabetic :: "string \<Rightarrow> bool" where
  "all_alphabetic p \<equiv> list_all is_alphabetic p"

text \<open>
  One turn of the loop on two different parts: \<open>None\<close> means that the loop goes on with the next
  parts, \<open>Some c\<close> that it returns \<open>c\<close>.
\<close>

definition cmp_numbers :: "string \<Rightarrow> string \<Rightarrow> ordering option" where
  "cmp_numbers a b =
     (case cmp_nat (str_len (trim_zeros a)) (str_len (trim_zeros b)) of
        OEqual \<Rightarrow> (case str_cmp (trim_zeros a) (trim_zeros b) of OEqual \<Rightarrow> None | c \<Rightarrow> Some c)
      | c \<Rightarrow> Some c)"

definition cmp_part :: "string \<Rightarrow> string \<Rightarrow> ordering option" where
  "cmp_part a b =
     (if all_numeric a \<and> all_numeric b then cmp_numbers a b
      else if all_numeric a then Some OGreater
      else if all_numeric b then Some OLess
      else if all_alphabetic a \<and> all_alphabetic b then
        Some (str_cmp (to_lowercase a) (to_lowercase b))
      else if all_alphabetic a then
        (if b = tilde then Some OGreater else Some OLess)
      else if all_alphabetic b then
        (if a = tilde then Some OLess else Some OGreater)
      else if (a \<noteq> tilde \<and> str_cmp a b = OGreater) \<or> b = tilde then Some OGreater
      else Some OLess)"

fun cmp_parts :: "string list \<Rightarrow> string list \<Rightarrow> ordering option" where
  "cmp_parts [] [] = None"
| "cmp_parts [] (b # _) = Some (if b = tilde then OGreater else OLess)"
| "cmp_parts (a # _) [] = Some (if a = tilde then OLess else OGreater)"
| "cmp_parts (a # as) (b # bs) =
     (if a = b then cmp_parts as bs
      else case cmp_part a b of None \<Rightarrow> cmp_parts as bs | Some c \<Rightarrow> Some c)"

definition package_version_cmp :: "find_iter \<Rightarrow> package_version \<Rightarrow> package_version \<Rightarrow> ordering option" where
  "package_version_cmp find_iter v w =
     (if version_string v = version_string w then Some OEqual
      else cmp_parts (find_iter (version_string v)) (find_iter (version_string w)))"

text \<open>
  What the \<open>regex\<close> crate documents for the expression \<open>(\d+|.)\<close>: the matches are successive and
  do not overlap, each is a maximal run of digits or one character other than a line feed, and
  only line feeds are skipped.
\<close>

fun digit_runs_maximal :: "string list \<Rightarrow> bool" where
  "digit_runs_maximal (a # b # ps) =
     (\<not> (list_all is_ascii_digit a \<and> list_all is_ascii_digit b) \<and> digit_runs_maximal (b # ps))"
| "digit_runs_maximal _ = True"

definition splits_version :: "find_iter \<Rightarrow> string \<Rightarrow> bool" where
  "splits_version find_iter s \<longleftrightarrow>
     concat (find_iter s) = filter (\<lambda>c. c \<noteq> CHR 0x0A) s \<and>
     (\<forall>p \<in> set (find_iter s). p \<noteq> [] \<and> (list_all is_ascii_digit p \<or> length p = 1)) \<and>
     (CHR 0x0A \<notin> set s \<longrightarrow> digit_runs_maximal (find_iter s))"

text \<open>A splitter with the documented behaviour, used to evaluate the model on concrete versions.\<close>

fun split_version :: "string \<Rightarrow> string list" where
  "split_version [] = []"
| "split_version (c # s) =
     (if is_ascii_digit c then (c # takeWhile is_ascii_digit s) # split_version (dropWhile is_ascii_digit s)
      else if c = CHR 0x0A then split_version s
      else [c] # split_version s)"

lemma split_version_concat: "concat (split_version s) = filter (\<lambda>c. c \<noteq> CHR 0x0A) s"
proof (induction s rule: split_version.induct)
  case (2 c s)
  have "filter (\<lambda>c. c \<noteq> CHR 0x0A) (takeWhile is_ascii_digit s) = takeWhile is_ascii_digit s"
    by (auto simp: filter_id_conv is_ascii_digit_def dest!: set_takeWhileD)
  then have "takeWhile is_ascii_digit s @ filter (\<lambda>c. c \<noteq> CHR 0x0A) (dropWhile is_ascii_digit s) =
      filter (\<lambda>c. c \<noteq> CHR 0x0A) (takeWhile is_ascii_digit s @ dropWhile is_ascii_digit s)"
    by (simp only: filter_append)
  then have "takeWhile is_ascii_digit s @ filter (\<lambda>c. c \<noteq> CHR 0x0A) (dropWhile is_ascii_digit s) =
      filter (\<lambda>c. c \<noteq> CHR 0x0A) s"
    by (simp only: takeWhile_dropWhile_id)
  then show ?case using 2 by (auto simp: is_ascii_digit_def)
qed simp

lemma split_version_parts:
  "p \<in> set (split_version s) \<Longrightarrow> p \<noteq> [] \<and> (list_all is_ascii_digit p \<or> length p = 1)"
  by (induction s rule: split_version.induct)
    (auto simp: list_all_iff split: if_splits dest: set_takeWhileD)

lemma split_version_hd:
  "split_version s = a # ps \<Longrightarrow> list_all is_ascii_digit a \<Longrightarrow> CHR 0x0A \<notin> set s \<Longrightarrow>
    s \<noteq> [] \<and> is_ascii_digit (hd s)"
  by (cases s) (auto split: if_splits)

lemma split_version_maximal: "CHR 0x0A \<notin> set s \<Longrightarrow> digit_runs_maximal (split_version s)"
proof (induction s rule: split_version.induct)
  case (2 c s)
  have ih: "is_ascii_digit c \<Longrightarrow> digit_runs_maximal (split_version (dropWhile is_ascii_digit s))"
    using 2 set_dropWhileD by fastforce
  show ?case
  proof (cases "is_ascii_digit c")
    case True
    show ?thesis
    proof (cases "split_version (dropWhile is_ascii_digit s)")
      case (Cons b ps)
      have "\<not> list_all is_ascii_digit b"
      proof
        assume "list_all is_ascii_digit b"
        then have "dropWhile is_ascii_digit s \<noteq> [] \<and> is_ascii_digit (hd (dropWhile is_ascii_digit s))"
          using split_version_hd [OF Cons] "2.prems" set_dropWhileD by fastforce
        then show False using hd_dropWhile by blast
      qed
      with True ih Cons show ?thesis by simp
    qed (simp add: True)
  next
    case False
    with 2 show ?thesis by (cases "split_version s") auto
  qed
qed simp

lemma splits_version_split: "splits_version split_version s"
  unfolding splits_version_def
  using split_version_concat split_version_parts split_version_maximal by blast

section \<open>Specification: keys in lexicographic order\<close>

text \<open>
  The tilde sorts first, then the end of the string, then letters, then other symbols, then
  numbers by their value.
\<close>

definition end_key :: "nat list" where
  "end_key = [1]"

definition version_key :: "string \<Rightarrow> nat list" where
  "version_key p =
     (if all_numeric p then [4, dec_val p]
      else if all_alphabetic p then 2 # map of_char (to_lowercase p)
      else if p = tilde then [0]
      else 3 # map of_char p)"

definition spec_cmp :: "string list \<Rightarrow> string list \<Rightarrow> ordering" where
  "spec_cmp as bs =
     lex_cmp (lex_cmp cmp_nat) (map version_key as @ [end_key]) (map version_key bs @ [end_key])"

interpretation keys_cmp: comparator "lex_cmp (lex_cmp cmp_nat)"
  by (rule nats_cmp.comparator_lex_cmp)

abbreviation lower_part :: "string \<Rightarrow> bool" where
  "lower_part p \<equiv> to_lowercase p = p"

text \<open>A part that is compared by its key: in lower case, and with ASCII digits only where it is a number.\<close>

definition plain_part :: "string \<Rightarrow> bool" where
  "plain_part p \<longleftrightarrow> lower_part p \<and> (all_numeric p \<longrightarrow> list_all is_ascii_digit p)"

text \<open>A part that is the only one with its key: in addition a number has no leading zeros; the number zero is
  written with one digit.\<close>

definition canonical_part :: "string \<Rightarrow> bool" where
  "canonical_part p \<longleftrightarrow> plain_part p \<and> p \<noteq> [] \<and> (all_numeric p \<longrightarrow> trim_zeros p = p \<or> p = ''0'')"

lemma tilde_class [simp]: "\<not> is_numeric CHR ''~''" "\<not> is_alphabetic CHR ''~''"
  by (simp_all add: is_numeric_def is_alphabetic_def)

lemma key_cmp_end:
  "lex_cmp cmp_nat end_key (version_key b) = (if b = tilde then OGreater else OLess)"
  "lex_cmp cmp_nat (version_key a) end_key = (if a = tilde then OLess else OGreater)"
  by (simp_all add: end_key_def version_key_def cmp_nat_def)

text \<open>Digits without leading zeros are ordered by their number and then from left to right as their values are.\<close>

lemma dec_val_Cons: "dec_val (c # s) = digit_val c * 10 ^ length s + dec_val s"
  by (induction s rule: rev_induct) (simp_all add: dec_val_def algebra_simps)

lemma dec_val_bound: "list_all is_ascii_digit s \<Longrightarrow> dec_val s < 10 ^ length s"
proof (induction s)
  case (Cons c s)
  then have "digit_val c \<le> 9" "dec_val s < 10 ^ length s" by (auto simp: is_ascii_digit_def digit_val_def Let_def)
  then have "digit_val c * 10 ^ length s + dec_val s < 9 * 10 ^ length s + 10 ^ length s"
    by (intro add_le_less_mono mult_le_mono1)
  then show ?case by (simp add: dec_val_Cons)
qed simp

lemma dec_val_trim_zeros [simp]: "dec_val (trim_zeros s) = dec_val s"
  by (induction s) (simp_all add: trim_zeros_def dec_val_Cons digit_val_def)

lemma digits_str_len: "list_all is_ascii_digit s \<Longrightarrow> str_len s = length s"
  by (induction s) (auto simp: is_ascii_digit_def utf8_len_def Let_def)

lemma digits_trim_zeros: "list_all is_ascii_digit s \<Longrightarrow> list_all is_ascii_digit (trim_zeros s)"
  by (auto simp: list_all_iff trim_zeros_def dest: set_dropWhileD)

lemma digits_cmp_same_length:
  assumes "list_all is_ascii_digit a" "list_all is_ascii_digit b" "length a = length b"
  shows "str_cmp a b = cmp_nat (dec_val a) (dec_val b)"
  using assms(3,1,2)
proof (induction a b rule: list_induct2)
  case (Cons c a d b)
  have v: "dec_val a < 10 ^ length a" "dec_val b < 10 ^ length a" using Cons dec_val_bound [of a] dec_val_bound [of b] by simp_all
  have less: "x * m + p < y * m + q" if "x < y" "p < m" for x y p q m :: nat
    using that mult_le_mono1 [of "Suc x" y m] by simp
  have "(of_char c :: nat) = 48 + digit_val c" "(of_char d :: nat) = 48 + digit_val d"
    using Cons.prems by (auto simp: is_ascii_digit_def digit_val_def Let_def)
  moreover have "digit_val c < digit_val d \<Longrightarrow> dec_val (c # a) < dec_val (d # b)" "digit_val d < digit_val c \<Longrightarrow> dec_val (d # b) < dec_val (c # a)"
    using less v Cons.hyps by (simp_all add: dec_val_Cons)
  moreover have "digit_val c = digit_val d \<Longrightarrow> cmp_nat (dec_val (c # a)) (dec_val (d # b)) = str_cmp a b"
    using Cons by (simp add: dec_val_Cons cmp_nat_def)
  ultimately show ?case
    by (cases "digit_val c" "digit_val d" rule: linorder_cases) (simp_all add: str_cmp_def cmp_nat_def)
qed (simp add: str_cmp_def cmp_nat_def)

lemma of_char_eq_48: "(of_char c :: nat) = 48 \<longleftrightarrow> c = CHR ''0''"
  using of_char_eq_iff [of c "CHR ''0''", where ?'a = nat] by simp

lemma digits_shorter_less:
  assumes "list_all is_ascii_digit a" "list_all is_ascii_digit b" "length a < length (trim_zeros b)"
  shows "dec_val a < dec_val b"
proof -
  obtain c s where b: "trim_zeros b = c # s" using assms(3) by (cases "trim_zeros b") auto
  then have "(of_char c :: nat) \<noteq> 48" using hd_dropWhile [of "\<lambda>c. c = CHR ''0''" b] by (simp add: trim_zeros_def of_char_eq_48)
  moreover have "is_ascii_digit c" using digits_trim_zeros [OF assms(2)] b by simp
  ultimately have "1 \<le> digit_val c"
    unfolding is_ascii_digit_def digit_val_def Let_def by linarith
  then have "1 * 10 ^ length s \<le> digit_val c * 10 ^ length s" by (rule mult_le_mono1)
  then have "10 ^ length s \<le> dec_val (trim_zeros b)" by (simp only: b dec_val_Cons mult_1 trans_le_add1)
  moreover have "(10::nat) ^ length a \<le> 10 ^ length s" using assms(3) b by (intro power_increasing) auto
  ultimately show ?thesis using dec_val_bound [OF assms(1)] unfolding dec_val_trim_zeros by linarith
qed

lemma cmp_numbers_value:
  assumes "list_all is_ascii_digit a" "list_all is_ascii_digit b"
  shows "cmp_numbers a b = (case cmp_nat (dec_val a) (dec_val b) of OEqual \<Rightarrow> None | c \<Rightarrow> Some c)"
proof -
  let ?a = "trim_zeros a" and ?b = "trim_zeros b"
  note d = digits_trim_zeros [OF assms(1)] digits_trim_zeros [OF assms(2)]
  consider "length ?a < length ?b" | "length ?a = length ?b" | "length ?b < length ?a" by linarith
  then show ?thesis
  proof cases
    case 1
    then show ?thesis using digits_shorter_less [OF d(1) assms(2)] d
      by (simp add: cmp_numbers_def digits_str_len cmp_nat_def)
  next
    case 2
    then show ?thesis using digits_cmp_same_length [OF d] d
      by (simp add: cmp_numbers_def digits_str_len cmp_nat_def)
  next
    case 3
    then show ?thesis using digits_shorter_less [OF d(2) assms(1)] d
      by (simp add: cmp_numbers_def digits_str_len cmp_nat_def)
  qed
qed

text \<open>The key comparison of two parts agrees with one turn of the loop.\<close>

lemma cmp_part_key:
  assumes "plain_part a" "plain_part b" "a \<noteq> b"
  shows "cmp_part a b =
    (case lex_cmp cmp_nat (version_key a) (version_key b) of OEqual \<Rightarrow> None | c \<Rightarrow> Some c)"
proof -
  have ne: "str_cmp a b \<noteq> OEqual" using assms(3) by (simp add: str_cmp.cmp_Equal_iff)
  show ?thesis
  proof (cases "all_numeric a \<and> all_numeric b")
    case True
    then show ?thesis using assms(1,2) cmp_numbers_value [of a b]
      by (simp add: plain_part_def cmp_part_def version_key_def cmp_nat_def)
  next
    case False
    then show ?thesis using assms ne
      by (auto simp: plain_part_def cmp_part_def version_key_def str_cmp_def cmp_nat_def split: ordering.splits)
  qed
qed

lemma cmp_parts_spec:
  assumes "\<forall>p \<in> set as \<union> set bs. plain_part p"
  shows "cmp_parts as bs = (case spec_cmp as bs of OEqual \<Rightarrow> None | c \<Rightarrow> Some c)"
  using assms
proof (induction as bs rule: cmp_parts.induct)
  case (4 a as b bs)
  show ?case
  proof (cases "a = b")
    case True
    with 4 show ?thesis by (simp add: spec_cmp_def nats_cmp.cmp_refl)
  next
    case False
    with 4 have "cmp_part a b =
        (case lex_cmp cmp_nat (version_key a) (version_key b) of OEqual \<Rightarrow> None | c \<Rightarrow> Some c)"
      by (intro cmp_part_key) auto
    with False 4 show ?thesis
      by (auto simp: spec_cmp_def split: ordering.splits)
  qed
qed (simp_all add: spec_cmp_def key_cmp_end nats_cmp.cmp_refl)

section \<open>Order laws\<close>

lemma cmp_numbers_reverse: "cmp_numbers b a = map_option ord_reverse (cmp_numbers a b)"
  unfolding cmp_numbers_def
    str_cmp.cmp_reverse [symmetric, of "trim_zeros a" "trim_zeros b"]
    nat_cmp.cmp_reverse [symmetric, of "str_len (trim_zeros a)" "str_len (trim_zeros b)"]
  by (simp split: ordering.splits)

lemma cmp_part_reverse:
  assumes "a \<noteq> b"
  shows "cmp_part b a = map_option ord_reverse (cmp_part a b)"
proof -
  have l: "str_cmp (to_lowercase b) (to_lowercase a) = ord_reverse (str_cmp (to_lowercase a) (to_lowercase b))"
    by (simp add: str_cmp.cmp_reverse)
  have r: "str_cmp b a = OGreater \<longleftrightarrow> str_cmp a b \<noteq> OGreater"
    using assms str_cmp.cmp_reverse [of a b] str_cmp.cmp_Equal_iff [of a b] by (cases "str_cmp a b") auto
  show ?thesis
    unfolding cmp_part_def l r cmp_numbers_reverse [of b a] using assms by auto
qed

lemma cmp_parts_reverse: "cmp_parts bs as = map_option ord_reverse (cmp_parts as bs)"
proof (induction as bs rule: cmp_parts.induct)
  case (4 a as b bs)
  then show ?case using cmp_part_reverse [of a b] by (cases "cmp_part a b") auto
qed auto

lemma spec_cmp_Less_trans:
  "spec_cmp as bs = OLess \<Longrightarrow> spec_cmp bs cs = OLess \<Longrightarrow> spec_cmp as cs = OLess"
  unfolding spec_cmp_def by (rule keys_cmp.cmp_Less_trans)

lemma spec_cmp_refl: "spec_cmp as as = OEqual"
  unfolding spec_cmp_def by (rule keys_cmp.cmp_refl)

lemma number_value_inj:
  assumes "list_all is_ascii_digit a" "list_all is_ascii_digit b" "a \<noteq> []" "b \<noteq> []" "dec_val a = dec_val b"
    and "trim_zeros a = a \<or> a = ''0''" "trim_zeros b = b \<or> b = ''0''"
  shows "a = b"
proof -
  have "length (trim_zeros a) = length (trim_zeros b)"
    using digits_shorter_less [OF digits_trim_zeros assms(2), OF assms(1)]
      digits_shorter_less [OF digits_trim_zeros assms(1), OF assms(2)] assms(5)
    by (metis dec_val_trim_zeros linorder_neqE_nat less_irrefl)
  then have t: "trim_zeros a = trim_zeros b"
    using digits_cmp_same_length [OF digits_trim_zeros [OF assms(1)] digits_trim_zeros [OF assms(2)]] assms(5)
    by (simp add: cmp_nat_def str_cmp.cmp_Equal_iff)
  have z: "trim_zeros ''0'' = []" by (simp add: trim_zeros_def)
  show ?thesis using assms(3,4,6,7) t z by metis
qed

lemma version_key_inj:
  assumes "canonical_part a" "canonical_part b" "version_key a = version_key b"
  shows "a = b"
proof -
  have inj: "map (of_char :: char \<Rightarrow> nat) x = map of_char y \<longleftrightarrow> x = y" for x y
    by (simp add: inj_map_eq_map inj_def)
  show ?thesis
    using assms number_value_inj [of a b] by (auto simp: version_key_def canonical_part_def plain_part_def inj split: if_splits)
qed

lemma spec_cmp_Equal_iff:
  assumes "\<forall>p \<in> set as \<union> set bs. canonical_part p"
  shows "spec_cmp as bs = OEqual \<longleftrightarrow> as = bs"
proof -
  have "inj_on version_key (set as \<union> set bs)"
    using assms version_key_inj by (meson inj_onI)
  then show ?thesis
    by (simp add: spec_cmp_def keys_cmp.cmp_Equal_iff inj_on_map_eq_map)
qed

lemma splits_version_inj:
  assumes "splits_version f s" "splits_version f t" "CHR 0x0A \<notin> set s" "CHR 0x0A \<notin> set t" "f s = f t"
  shows "s = t"
proof -
  have "filter (\<lambda>c. c \<noteq> CHR 0x0A) s = filter (\<lambda>c. c \<noteq> CHR 0x0A) t"
    using assms(1,2,5) unfolding splits_version_def by metis
  moreover have "filter (\<lambda>c. c \<noteq> CHR 0x0A) s = s" "filter (\<lambda>c. c \<noteq> CHR 0x0A) t = t"
    using assms(3,4) by (auto simp: filter_id_conv)
  ultimately show ?thesis by simp
qed

text \<open>Versions on which the comparison is meant to be total: one line, split as documented, letters
  in lower case and numbers of ASCII digits without leading zeros.\<close>

definition canonical_version :: "find_iter \<Rightarrow> package_version \<Rightarrow> bool" where
  "canonical_version f v \<longleftrightarrow>
     splits_version f (version_string v) \<and> CHR 0x0A \<notin> set (version_string v) \<and>
     (\<forall>p \<in> set (f (version_string v)). canonical_part p)"

lemma canonical_plain: "canonical_part p \<Longrightarrow> plain_part p"
  by (simp add: canonical_part_def)

lemma canonical_cmp:
  assumes "canonical_version f v" "canonical_version f w"
  shows "package_version_cmp f v w = Some (spec_cmp (f (version_string v)) (f (version_string w)))"
    and "spec_cmp (f (version_string v)) (f (version_string w)) = OEqual \<longleftrightarrow> v = w"
proof -
  let ?as = "f (version_string v)" and ?bs = "f (version_string w)"
  have can: "\<forall>p \<in> set ?as \<union> set ?bs. canonical_part p"
    using assms by (auto simp: canonical_version_def)
  have "?as = ?bs \<longleftrightarrow> version_string v = version_string w"
    using assms splits_version_inj unfolding canonical_version_def by metis
  then show eq: "spec_cmp ?as ?bs = OEqual \<longleftrightarrow> v = w"
    using spec_cmp_Equal_iff [OF can] by (cases v; cases w) simp
  have "cmp_parts ?as ?bs = (case spec_cmp ?as ?bs of OEqual \<Rightarrow> None | c \<Rightarrow> Some c)"
    using can canonical_plain by (intro cmp_parts_spec) blast
  then show "package_version_cmp f v w = Some (spec_cmp ?as ?bs)"
    using eq spec_cmp_refl
    by (cases v; cases w) (auto simp: package_version_cmp_def split: ordering.splits)
qed

text \<open>The equations that evaluate a comparison of concrete versions.\<close>

lemmas version_eval =
  package_version_cmp_def cmp_part_def cmp_numbers_def canonical_part_def plain_part_def to_lowercase_def trim_zeros_def
  cmp_nat_def utf8_len_def str_cmp_def char_class_defs char_of_eq_iff

section \<open>Properties\<close>

text \<open>Comparing two versions in the other order gives the reversed answer, whatever the regular
  expression engine returns; in particular \<open>v < w\<close> and \<open>w < v\<close> never hold together and
  incomparability is symmetric.\<close>

theorem version_cmp_antisym:
  "package_version_cmp find_iter w v = map_option ord_reverse (package_version_cmp find_iter v w)"
  by (auto simp: package_version_cmp_def intro: cmp_parts_reverse)



text \<open>Numbers that differ only in leading zeros make two versions incomparable instead of equal:
  the loop runs past them and ends without an answer when nothing else differs.\<close>

theorem version_cmp_leading_zeros:
  assumes "find_iter s = ps @ [replicate k (CHR ''0'') @ n]" "find_iter t = ps @ [n]"
    and "all_numeric n" "s \<noteq> t"
  shows "package_version_cmp find_iter (PackageVersion s) (PackageVersion t) = None"
proof -
  have z: "trim_zeros (replicate k (CHR ''0'') @ n) = trim_zeros n"
    by (induction k) (simp_all add: trim_zeros_def)
  have "all_numeric (replicate k (CHR ''0'') @ n)"
    using assms(3) by (auto simp: list_all_iff is_numeric_def)
  then have "cmp_part (replicate k (CHR ''0'') @ n) n = None"
    using assms(3) by (simp only: cmp_part_def cmp_numbers_def z str_cmp.cmp_refl nat_cmp.cmp_refl) simp
  then have "cmp_parts (ps @ [replicate k (CHR ''0'') @ n]) (ps @ [n]) = None"
    by (induction ps) auto
  with assms show ?thesis by (simp add: package_version_cmp_def)
qed

theorem version_cmp_leading_zeros_witness:
  "package_version_cmp split_version (PackageVersion ''1.01'') (PackageVersion ''1.1'') = None"
  by (rule version_cmp_leading_zeros [where ps = "[''1'', ''.'']" and k = 1 and n = "''1''"]; simp add: version_eval)

text \<open>Two letters that differ only in case end the comparison with the answer equal, whatever
  follows them in the two versions.\<close>

theorem version_cmp_case_stops:
  assumes "find_iter s = ps @ a # as" "find_iter t = ps @ b # bs"
    and "a \<noteq> b" "to_lowercase a = to_lowercase b" "\<not> all_numeric a" "\<not> all_numeric b"
    and "all_alphabetic a" "all_alphabetic b" "s \<noteq> t"
  shows "package_version_cmp find_iter (PackageVersion s) (PackageVersion t) = Some OEqual"
proof -
  have "cmp_part a b = Some OEqual"
    using assms by (simp add: cmp_part_def str_cmp.cmp_refl)
  then have "cmp_parts (ps @ a # as) (ps @ b # bs) = Some OEqual"
    using assms(3) by (induction ps) auto
  with assms show ?thesis by (simp add: package_version_cmp_def)
qed

theorem version_cmp_case_stops_witness:
  "package_version_cmp split_version (PackageVersion ''1.0A2'') (PackageVersion ''1.0a3'') = Some OEqual"
  by (rule version_cmp_case_stops [where ps = "[''1'', ''.'', ''0'']" and a = "''A''" and b = "''a''"
        and as = "[''2'']" and bs = "[''3'']"]; simp add: version_eval)

end
