(* ===== verification/Notus_Package.thy ===== *)
theory Notus_Package
  imports Notus_Version
begin

text \<open>
  Packages of the five supported packaging systems: src/rust/src/notus/packages/deb.rs, ebuild.rs,
  rpm.rs, slack.rs and windows.rs.

  The trait \<open>Package\<close> is the record \<open>package_ops\<close> of its functions, and each implementation is one
  value of that record (\<open>deb_ops\<close>, \<open>ebuild_ops\<close>, \<open>rpm_ops\<close>, \<open>slack_ops\<close>, \<open>windows_ops\<close>). The regular
  expressions are run by the \<open>regex\<close> crate: a compiled expression is a function from the text to
  its capture groups, and the nine expressions of the five files are the fields of \<open>notus_regex\<close>,
  a parameter of the model. Calls of \<open>unwrap\<close> on a failed parse are \<open>Panic\<close>.

  The locale \<open>package_contract\<close> states what the clients in Notus\_Scan rely on; it is interpreted for all five
  implementations.
\<close>

section \<open>The trait and its expressions\<close>

type_synonym captures = "nat \<Rightarrow> string option"
type_synonym regex = "string \<Rightarrow> captures option"

record notus_regex =
  version_RE :: find_iter
  deb_RE :: regex
  deb_RE_WO_REVISION :: regex
  deb_RE_VERSION :: regex
  deb_RE_VERSION_WO_REVISION :: regex
  rpm_RE :: regex
  rpm_RE_VERSION :: regex
  slack_RE :: regex
  slack_RE_VERSION :: regex

record 'p package_ops =
  get_name :: "'p \<Rightarrow> string"
  get_version :: "'p \<Rightarrow> string"
  from_full_name :: "string \<Rightarrow> 'p option rs"
  from_name_and_full_version :: "string \<Rightarrow> string \<Rightarrow> 'p option rs"
  partial_cmp :: "'p \<Rightarrow> 'p \<Rightarrow> ordering option"

text \<open>\<open>c.get(i).map_or(d, |m| m.as_str())\<close>\<close>

definition group_or :: "string \<Rightarrow> captures \<Rightarrow> nat \<Rightarrow> string" where
  "group_or d c i = (case c i of None \<Rightarrow> d | Some m \<Rightarrow> m)"

text \<open>\<open>if let Some(comp) = c { if comp.is_ne() { return Some(comp) } }\<close> followed by \<open>d\<close>.\<close>

definition or_else_cmp :: "ordering option \<Rightarrow> ordering option \<Rightarrow> ordering option" where
  "or_else_cmp c d = (case c of Some OLess \<Rightarrow> Some OLess | Some OGreater \<Rightarrow> Some OGreater | _ \<Rightarrow> d)"

lemma or_else_cmp_reverse:
  "map_option ord_reverse (or_else_cmp c d) =
    or_else_cmp (map_option ord_reverse c) (map_option ord_reverse d)"
  by (auto simp: or_else_cmp_def split: option.splits ordering.splits)

lemma or_else_cmp_Equal [simp]: "or_else_cmp (Some OEqual) d = d"
  by (simp add: or_else_cmp_def)

definition epoch_cmp :: "nat \<Rightarrow> nat \<Rightarrow> ordering" where
  "epoch_cmp a b = (if a > b then OGreater else OLess)"

section \<open>Debian packages\<close>

record deb =
  deb_name :: string
  deb_epoch :: nat
  upstream_version :: package_version
  debian_revision :: package_version

definition deb_partial_cmp :: "notus_regex \<Rightarrow> deb \<Rightarrow> deb \<Rightarrow> ordering option" where
  "deb_partial_cmp R self other =
     (if deb_name self \<noteq> deb_name other then None
      else if deb_epoch self \<noteq> deb_epoch other then Some (epoch_cmp (deb_epoch self) (deb_epoch other))
      else or_else_cmp
        (package_version_cmp (version_RE R) (upstream_version self) (upstream_version other))
        (package_version_cmp (version_RE R) (debian_revision self) (debian_revision other)))"

definition deb_from_full_name :: "notus_regex \<Rightarrow> string \<Rightarrow> deb option rs" where
  "deb_from_full_name R full =
     (if full = [] then Ret None
      else
        let full_name = trim full;
            fields =
              (case deb_RE R full_name of
                 Some c \<Rightarrow> Some (group_or [] c 1, group_or [] c 2, group_or [] c 3, group_or [] c 4)
               | None \<Rightarrow>
                   (case deb_RE_WO_REVISION R full_name of
                      None \<Rightarrow> None
                    | Some c \<Rightarrow> Some (group_or [] c 1, group_or [] c 2, group_or [] c 3, [])))
        in (case fields of
              None \<Rightarrow> Ret None
            | Some (name, epochstr, upstream, revision) \<Rightarrow>
                Ret (Some \<lparr>deb_name = name,
                  deb_epoch = (case parse_u64 epochstr of Some n \<Rightarrow> n | None \<Rightarrow> 0),
                  upstream_version = PackageVersion upstream,
                  debian_revision = PackageVersion revision\<rparr>)))"

definition deb_from_name_and_full_version :: "notus_regex \<Rightarrow> string \<Rightarrow> string \<Rightarrow> deb option rs" where
  "deb_from_name_and_full_version R nm fv =
     (if nm = [] \<or> fv = [] then Ret None
      else
        let name = trim nm; full_version = trim fv;
            fields =
              (case deb_RE_VERSION R full_version of
                 Some c \<Rightarrow> Some (group_or ''0'' c 1, group_or [] c 2, group_or [] c 3)
               | None \<Rightarrow>
                   (case deb_RE_VERSION_WO_REVISION R full_version of
                      None \<Rightarrow> None
                    | Some c \<Rightarrow> Some (group_or ''0'' c 1, group_or [] c 2, [])))
        in (case fields of
              None \<Rightarrow> Ret None
            | Some (epochstr, upstream, revision) \<Rightarrow>
                (case parse_u64 epochstr of
                   None \<Rightarrow> Panic
                 | Some epoch \<Rightarrow>
                     Ret (Some \<lparr>deb_name = name, deb_epoch = epoch,
                       upstream_version = PackageVersion upstream,
                       debian_revision = PackageVersion revision\<rparr>))))"

definition deb_get_version :: "deb \<Rightarrow> string" where
  "deb_get_version p =
     (if deb_epoch p > 0 then show_nat (deb_epoch p) @ '':'' else []) @
     version_string (upstream_version p) @
     (if version_string (debian_revision p) \<noteq> [] then ''-'' @ version_string (debian_revision p) else [])"

definition deb_ops :: "notus_regex \<Rightarrow> deb package_ops" where
  "deb_ops R = \<lparr>get_name = deb_name, get_version = deb_get_version,
     from_full_name = deb_from_full_name R,
     from_name_and_full_version = deb_from_name_and_full_version R,
     partial_cmp = deb_partial_cmp R\<rparr>"

section \<open>Gentoo packages\<close>

record ebuild =
  ebuild_name :: string
  ebuild_version :: package_version

definition ebuild_partial_cmp :: "notus_regex \<Rightarrow> ebuild \<Rightarrow> ebuild \<Rightarrow> ordering option" where
  "ebuild_partial_cmp R self other =
     (if ebuild_name self \<noteq> ebuild_name other then None
      else package_version_cmp (version_RE R) (ebuild_version self) (ebuild_version other))"

definition ebuild_from_full_name :: "string \<Rightarrow> ebuild option rs" where
  "ebuild_from_full_name full_name =
     (if full_name = [] then Ret None
      else
        let base_name =
              (if CHR ''/'' \<in> set full_name then tl (dropWhile (\<lambda>c. c \<noteq> CHR ''/'') full_name)
               else full_name)
        in if base_name = [] then Ret None
           else
             let full_version = dropWhile (\<lambda>c. c \<noteq> CHR ''-'') base_name
             in if full_version = [] then Ret None
                else Ret (Some \<lparr>ebuild_name = take (length full_name - length full_version) full_name,
                       ebuild_version = PackageVersion full_version\<rparr>))"

definition ebuild_from_name_and_full_version :: "string \<Rightarrow> string \<Rightarrow> ebuild option rs" where
  "ebuild_from_name_and_full_version name full_version =
     (if name = [] \<or> full_version = [] then Ret None
      else Ret (Some \<lparr>ebuild_name = trim name, ebuild_version = PackageVersion (trim full_version)\<rparr>))"

definition ebuild_ops :: "notus_regex \<Rightarrow> ebuild package_ops" where
  "ebuild_ops R = \<lparr>get_name = ebuild_name, get_version = \<lambda>p. version_string (ebuild_version p),
     from_full_name = ebuild_from_full_name,
     from_name_and_full_version = ebuild_from_name_and_full_version,
     partial_cmp = ebuild_partial_cmp R\<rparr>"

section \<open>RPM packages\<close>

record rpm =
  rpm_name :: string
  rpm_epoch :: nat
  rpm_version :: package_version
  rpm_release :: package_version
  rpm_arch :: string

text \<open>\<open>str::contains\<close> with a string pattern.\<close>

fun contains_str :: "string \<Rightarrow> string \<Rightarrow> bool" where
  "contains_str [] pat = (pat = [])"
| "contains_str (c # s) pat = (take (length pat) (c # s) = pat \<or> contains_str s pat)"

definition EXCEPTIONS :: "string list" where
  "EXCEPTIONS = [''_fips'', ''.ksplice'']"

definition find_any_exception :: "string \<Rightarrow> string" where
  "find_any_exception name =
     (case List.find (contains_str name) EXCEPTIONS of Some e \<Rightarrow> e | None \<Rightarrow> [])"

definition rpm_partial_cmp :: "notus_regex \<Rightarrow> rpm \<Rightarrow> rpm \<Rightarrow> ordering option" where
  "rpm_partial_cmp R self other =
     (if rpm_name self \<noteq> rpm_name other then None
      else if rpm_arch self \<noteq> rpm_arch other then None
      else if find_any_exception (version_string (rpm_release self)) \<noteq>
              find_any_exception (version_string (rpm_release other)) then None
      else if rpm_epoch self \<noteq> rpm_epoch other then Some (epoch_cmp (rpm_epoch self) (rpm_epoch other))
      else or_else_cmp
        (package_version_cmp (version_RE R) (rpm_version self) (rpm_version other))
        (package_version_cmp (version_RE R) (rpm_release self) (rpm_release other)))"

definition rpm_from_full_name :: "notus_regex \<Rightarrow> string \<Rightarrow> rpm option rs" where
  "rpm_from_full_name R full =
     (if full = [] then Ret None
      else
        (case rpm_RE R (trim full) of
           None \<Rightarrow> Ret None
         | Some c \<Rightarrow>
             (case parse_u64 (group_or ''0'' c 2) of
                None \<Rightarrow> Panic
              | Some epoch \<Rightarrow>
                  Ret (Some \<lparr>rpm_name = group_or [] c 1, rpm_epoch = epoch,
                    rpm_version = PackageVersion (group_or [] c 3),
                    rpm_release = PackageVersion (group_or [] c 4),
                    rpm_arch = group_or [] c 5\<rparr>))))"

definition rpm_from_name_and_full_version :: "notus_regex \<Rightarrow> string \<Rightarrow> string \<Rightarrow> rpm option rs" where
  "rpm_from_name_and_full_version R name fv =
     (if name = [] \<or> fv = [] then Ret None
      else
        (case rpm_RE_VERSION R (trim fv) of
           None \<Rightarrow> Ret None
         | Some c \<Rightarrow>
             (case parse_u64 (group_or ''0'' c 1) of
                None \<Rightarrow> Panic
              | Some epoch \<Rightarrow>
                  Ret (Some \<lparr>rpm_name = trim name, rpm_epoch = epoch,
                    rpm_version = PackageVersion (group_or [] c 2),
                    rpm_release = PackageVersion (group_or [] c 3),
                    rpm_arch = group_or [] c 4\<rparr>))))"

definition rpm_get_version :: "rpm \<Rightarrow> string" where
  "rpm_get_version p =
     (if rpm_epoch p > 0 then show_nat (rpm_epoch p) @ '':'' else []) @
     version_string (rpm_version p) @ ''-'' @ version_string (rpm_release p) @ ''.'' @ rpm_arch p"

definition rpm_ops :: "notus_regex \<Rightarrow> rpm package_ops" where
  "rpm_ops R = \<lparr>get_name = rpm_name, get_version = rpm_get_version,
     from_full_name = rpm_from_full_name R,
     from_name_and_full_version = rpm_from_name_and_full_version R,
     partial_cmp = rpm_partial_cmp R\<rparr>"

section \<open>Slackware packages\<close>

record slack =
  slack_name :: string
  slack_build :: package_version
  slack_target :: package_version
  slack_version :: package_version
  slack_arch :: string

definition slack_partial_cmp :: "notus_regex \<Rightarrow> slack \<Rightarrow> slack \<Rightarrow> ordering option" where
  "slack_partial_cmp R self other =
     (if slack_name self \<noteq> slack_name other then None
      else if slack_arch self \<noteq> slack_arch other then None
      else or_else_cmp
        (package_version_cmp (version_RE R) (slack_version self) (slack_version other))
        (or_else_cmp
          (package_version_cmp (version_RE R) (slack_target self) (slack_target other))
          (package_version_cmp (version_RE R) (slack_build self) (slack_build other))))"

definition slack_from_full_name :: "notus_regex \<Rightarrow> string \<Rightarrow> slack option rs" where
  "slack_from_full_name R full =
     (if full = [] then Ret None
      else
        (case slack_RE R (trim full) of
           None \<Rightarrow> Ret None
         | Some c \<Rightarrow>
             Ret (Some \<lparr>slack_name = group_or [] c 1,
               slack_build = PackageVersion (group_or [] c 4),
               slack_target = PackageVersion (group_or [] c 5),
               slack_version = PackageVersion (group_or [] c 2),
               slack_arch = group_or [] c 3\<rparr>)))"

definition slack_from_name_and_full_version :: "notus_regex \<Rightarrow> string \<Rightarrow> string \<Rightarrow> slack option rs" where
  "slack_from_name_and_full_version R name fv =
     (if name = [] \<or> fv = [] then Ret None
      else
        (case slack_RE_VERSION R (trim fv) of
           None \<Rightarrow> Ret None
         | Some c \<Rightarrow>
             Ret (Some \<lparr>slack_name = trim name,
               slack_build = PackageVersion (group_or [] c 3),
               slack_target = PackageVersion (group_or [] c 4),
               slack_version = PackageVersion (group_or [] c 1),
               slack_arch = group_or [] c 2\<rparr>)))"

definition slack_get_version :: "slack \<Rightarrow> string" where
  "slack_get_version p =
     version_string (slack_version p) @ ''-'' @ slack_arch p @ ''-'' @ version_string (slack_build p) @
     (if version_string (slack_target p) \<noteq> [] then ''_slack'' @ version_string (slack_target p) else [])"

definition slack_ops :: "notus_regex \<Rightarrow> slack package_ops" where
  "slack_ops R = \<lparr>get_name = slack_name, get_version = slack_get_version,
     from_full_name = slack_from_full_name R,
     from_name_and_full_version = slack_from_name_and_full_version R,
     partial_cmp = slack_partial_cmp R\<rparr>"

section \<open>Windows packages\<close>

record windows =
  windows_full_name :: string
  windows_build :: string
  windows_revision :: package_version

definition windows_partial_cmp :: "notus_regex \<Rightarrow> windows \<Rightarrow> windows \<Rightarrow> ordering option" where
  "windows_partial_cmp R self other =
     (if windows_build self \<noteq> windows_build other then None
      else if windows_full_name self = windows_full_name other then Some OEqual
      else package_version_cmp (version_RE R) (windows_revision self) (windows_revision other))"

text \<open>\<open>str::rsplit_once\<close> with a character pattern.\<close>

definition rsplit_once :: "char \<Rightarrow> string \<Rightarrow> (string \<times> string) option" where
  "rsplit_once d s =
     (if d \<in> set s
      then Some (rev (tl (dropWhile (\<lambda>c. c \<noteq> d) (rev s))), rev (takeWhile (\<lambda>c. c \<noteq> d) (rev s)))
      else None)"

definition windows_from_full_name :: "string \<Rightarrow> windows option rs" where
  "windows_from_full_name full =
     (if full = [] then Ret None
      else
        let full_name = trim full
        in (case rsplit_once (CHR ''.'') full_name of
              None \<Rightarrow> Ret None
            | Some (build, revision) \<Rightarrow>
                Ret (Some \<lparr>windows_full_name = full_name, windows_build = build,
                  windows_revision = PackageVersion revision\<rparr>)))"

definition windows_from_name_and_full_version :: "string \<Rightarrow> string \<Rightarrow> windows option rs" where
  "windows_from_name_and_full_version name full_version =
     (if name = [] \<or> full_version = [] then Ret None
      else Ret (Some \<lparr>windows_full_name = trim name @ ''.'' @ full_version,
             windows_build = trim name, windows_revision = PackageVersion (trim full_version)\<rparr>))"

definition windows_ops :: "notus_regex \<Rightarrow> windows package_ops" where
  "windows_ops R = \<lparr>get_name = windows_build, get_version = \<lambda>p. version_string (windows_revision p),
     from_full_name = windows_from_full_name,
     from_name_and_full_version = windows_from_name_and_full_version,
     partial_cmp = windows_partial_cmp R\<rparr>"

section \<open>What clients rely on\<close>

text \<open>
  The contract of the trait: a package equals itself, comparison is antisymmetric, only packages of
  the same name are comparable, and a package made from a name and a version carries that name.
\<close>

locale package_contract =
  fixes ops :: "'p package_ops"
  assumes cmp_refl: "partial_cmp ops p p = Some OEqual"
    and cmp_reverse: "partial_cmp ops q p = map_option ord_reverse (partial_cmp ops p q)"
    and cmp_same_name: "partial_cmp ops p q = Some c \<Longrightarrow> get_name ops p = get_name ops q"
    and from_parts_name: "from_name_and_full_version ops n v = Ret (Some p) \<Longrightarrow> get_name ops p = trim n"
begin

lemma cmp_Less_Greater: "partial_cmp ops p q = Some OLess \<longleftrightarrow> partial_cmp ops q p = Some OGreater"
  using cmp_reverse [of q p] by (cases "partial_cmp ops p q"; cases "the (partial_cmp ops p q)") auto

lemma cmp_Equal_sym: "partial_cmp ops p q = Some OEqual \<longleftrightarrow> partial_cmp ops q p = Some OEqual"
  using cmp_reverse [of q p] by (cases "partial_cmp ops p q"; cases "the (partial_cmp ops p q)") auto

lemma cmp_other_name: "get_name ops p \<noteq> get_name ops q \<Longrightarrow> partial_cmp ops p q = None"
  using cmp_same_name by (cases "partial_cmp ops p q") auto

end

lemma version_cmp_self [simp]: "package_version_cmp f v v = Some OEqual"
  by (simp add: package_version_cmp_def)

lemma version_cmp_swap:
  "package_version_cmp f w v = map_option ord_reverse (package_version_cmp f v w)"
  by (auto simp: package_version_cmp_def intro: cmp_parts_reverse)

lemma epoch_cmp_swap: "a \<noteq> b \<Longrightarrow> epoch_cmp b a = ord_reverse (epoch_cmp a b)"
  by (auto simp: epoch_cmp_def)

lemma deb_cmp_swap: "deb_partial_cmp R q p = map_option ord_reverse (deb_partial_cmp R p q)"
proof -
  have v: "package_version_cmp (version_RE R) (upstream_version q) (upstream_version p) =
        map_option ord_reverse (package_version_cmp (version_RE R) (upstream_version p) (upstream_version q))"
      "package_version_cmp (version_RE R) (debian_revision q) (debian_revision p) =
        map_option ord_reverse (package_version_cmp (version_RE R) (debian_revision p) (debian_revision q))"
    by (rule version_cmp_swap)+
  show ?thesis
    unfolding deb_partial_cmp_def v by (auto simp: epoch_cmp_def or_else_cmp_reverse)
qed

lemma rpm_cmp_swap: "rpm_partial_cmp R q p = map_option ord_reverse (rpm_partial_cmp R p q)"
proof -
  have v: "package_version_cmp (version_RE R) (rpm_version q) (rpm_version p) =
        map_option ord_reverse (package_version_cmp (version_RE R) (rpm_version p) (rpm_version q))"
      "package_version_cmp (version_RE R) (rpm_release q) (rpm_release p) =
        map_option ord_reverse (package_version_cmp (version_RE R) (rpm_release p) (rpm_release q))"
    by (rule version_cmp_swap)+
  show ?thesis
    unfolding rpm_partial_cmp_def v by (auto simp: epoch_cmp_def or_else_cmp_reverse)
qed

lemma slack_cmp_swap: "slack_partial_cmp R q p = map_option ord_reverse (slack_partial_cmp R p q)"
proof -
  have v: "package_version_cmp (version_RE R) (slack_version q) (slack_version p) =
        map_option ord_reverse (package_version_cmp (version_RE R) (slack_version p) (slack_version q))"
      "package_version_cmp (version_RE R) (slack_target q) (slack_target p) =
        map_option ord_reverse (package_version_cmp (version_RE R) (slack_target p) (slack_target q))"
      "package_version_cmp (version_RE R) (slack_build q) (slack_build p) =
        map_option ord_reverse (package_version_cmp (version_RE R) (slack_build p) (slack_build q))"
    by (rule version_cmp_swap)+
  show ?thesis
    unfolding slack_partial_cmp_def v by (auto simp: or_else_cmp_reverse)
qed

interpretation deb_package: package_contract "deb_ops R" for R
proof
  show "partial_cmp (deb_ops R) p p = Some OEqual" for p
    by (simp add: deb_ops_def deb_partial_cmp_def)
  show "partial_cmp (deb_ops R) q p = map_option ord_reverse (partial_cmp (deb_ops R) p q)" for p q
    by (simp add: deb_ops_def) (rule deb_cmp_swap)
  show "get_name (deb_ops R) p = get_name (deb_ops R) q"
    if "partial_cmp (deb_ops R) p q = Some c" for p q c
    using that by (auto simp: deb_ops_def deb_partial_cmp_def split: if_splits)
  show "get_name (deb_ops R) p = trim n"
    if "from_name_and_full_version (deb_ops R) n v = Ret (Some p)" for n v p
    using that
    by (auto simp: deb_ops_def deb_from_name_and_full_version_def Let_def split: if_splits option.splits)
qed

interpretation ebuild_package: package_contract "ebuild_ops R" for R
proof
  show "partial_cmp (ebuild_ops R) p p = Some OEqual" for p
    by (simp add: ebuild_ops_def ebuild_partial_cmp_def)
  show "partial_cmp (ebuild_ops R) q p = map_option ord_reverse (partial_cmp (ebuild_ops R) p q)" for p q
    by (auto simp: ebuild_ops_def ebuild_partial_cmp_def intro: version_cmp_swap)
  show "get_name (ebuild_ops R) p = get_name (ebuild_ops R) q"
    if "partial_cmp (ebuild_ops R) p q = Some c" for p q c
    using that by (auto simp: ebuild_ops_def ebuild_partial_cmp_def split: if_splits)
  show "get_name (ebuild_ops R) p = trim n"
    if "from_name_and_full_version (ebuild_ops R) n v = Ret (Some p)" for n v p
    using that by (auto simp: ebuild_ops_def ebuild_from_name_and_full_version_def split: if_splits)
qed

interpretation rpm_package: package_contract "rpm_ops R" for R
proof
  show "partial_cmp (rpm_ops R) p p = Some OEqual" for p
    by (simp add: rpm_ops_def rpm_partial_cmp_def)
  show "partial_cmp (rpm_ops R) q p = map_option ord_reverse (partial_cmp (rpm_ops R) p q)" for p q
    by (simp add: rpm_ops_def) (rule rpm_cmp_swap)
  show "get_name (rpm_ops R) p = get_name (rpm_ops R) q"
    if "partial_cmp (rpm_ops R) p q = Some c" for p q c
    using that by (auto simp: rpm_ops_def rpm_partial_cmp_def split: if_splits)
  show "get_name (rpm_ops R) p = trim n"
    if "from_name_and_full_version (rpm_ops R) n v = Ret (Some p)" for n v p
    using that by (auto simp: rpm_ops_def rpm_from_name_and_full_version_def split: if_splits option.splits)
qed

interpretation slack_package: package_contract "slack_ops R" for R
proof
  show "partial_cmp (slack_ops R) p p = Some OEqual" for p
    by (simp add: slack_ops_def slack_partial_cmp_def)
  show "partial_cmp (slack_ops R) q p = map_option ord_reverse (partial_cmp (slack_ops R) p q)" for p q
    by (simp add: slack_ops_def) (rule slack_cmp_swap)
  show "get_name (slack_ops R) p = get_name (slack_ops R) q"
    if "partial_cmp (slack_ops R) p q = Some c" for p q c
    using that by (auto simp: slack_ops_def slack_partial_cmp_def split: if_splits)
  show "get_name (slack_ops R) p = trim n"
    if "from_name_and_full_version (slack_ops R) n v = Ret (Some p)" for n v p
    using that
    by (auto simp: slack_ops_def slack_from_name_and_full_version_def split: if_splits option.splits)
qed

interpretation windows_package: package_contract "windows_ops R" for R
proof
  show "partial_cmp (windows_ops R) p p = Some OEqual" for p
    by (simp add: windows_ops_def windows_partial_cmp_def)
  show "partial_cmp (windows_ops R) q p = map_option ord_reverse (partial_cmp (windows_ops R) p q)" for p q
    by (auto simp: windows_ops_def windows_partial_cmp_def intro: version_cmp_swap)
  show "get_name (windows_ops R) p = get_name (windows_ops R) q"
    if "partial_cmp (windows_ops R) p q = Some c" for p q c
    using that by (auto simp: windows_ops_def windows_partial_cmp_def split: if_splits)
  show "get_name (windows_ops R) p = trim n"
    if "from_name_and_full_version (windows_ops R) n v = Ret (Some p)" for n v p
    using that by (auto simp: windows_ops_def windows_from_name_and_full_version_def split: if_splits)
qed

section \<open>Properties\<close>

lemma splits_version_first:
  assumes "splits_version f (c # s)" "c \<noteq> CHR 0x0A"
  shows "\<exists>p ps. f (c # s) = p # ps \<and> p \<noteq> [] \<and> hd p = c \<and> (list_all is_ascii_digit p \<or> length p = 1)"
proof -
  have cc: "concat (f (c # s)) = c # filter (\<lambda>c. c \<noteq> CHR 0x0A) s"
    using assms by (simp add: splits_version_def)
  then obtain p ps where f: "f (c # s) = p # ps" by (cases "f (c # s)") auto
  then have p: "p \<noteq> [] \<and> (list_all is_ascii_digit p \<or> length p = 1)"
    using assms(1) by (auto simp: splits_version_def)
  with cc f have "hd p = c" by (cases p) auto
  with f p show ?thesis by blast
qed

lemma ascii_digits_numeric: "list_all is_ascii_digit p \<Longrightarrow> all_numeric p"
  by (auto simp: list_all_iff is_ascii_digit_def is_numeric_def Let_def)

lemma dash_version_less:
  assumes "splits_version f (CHR ''-'' # s)" "splits_version f (d # t)" "is_ascii_digit d"
  shows "package_version_cmp f (PackageVersion (CHR ''-'' # s)) (PackageVersion (d # t)) = Some OLess"
proof -
  have dash: "\<not> is_numeric (CHR ''-'')" "\<not> is_ascii_digit (CHR ''-'')"
    by (simp_all add: is_numeric_def is_ascii_digit_def)
  have nl: "d \<noteq> CHR 0x0A" "d \<noteq> CHR ''-''" using assms(3) by (auto simp: is_ascii_digit_def)
  obtain p ps where p: "f (CHR ''-'' # s) = p # ps" "p \<noteq> []" "hd p = CHR ''-''"
    using splits_version_first [OF assms(1)] by auto
  obtain q qs where q: "f (d # t) = q # qs" "q \<noteq> []" "hd q = d" "list_all is_ascii_digit q \<or> length q = 1"
    using splits_version_first [OF assms(2) nl(1)] by auto
  have "\<not> all_numeric p" using p dash by (cases p) auto
  moreover have "list_all is_ascii_digit q"
    using q assms(3) by (cases q) auto
  then have "all_numeric q" by (rule ascii_digits_numeric)
  ultimately have "cmp_part p q = Some OLess" "p \<noteq> q"
    by (auto simp: cmp_part_def)
  with p q nl show ?thesis by (simp add: package_version_cmp_def)
qed

text \<open>A Gentoo package read from its full name keeps the hyphen in front of its version. It
  therefore compares as older than every package of that name whose version, given separately,
  starts with a digit: the two ways of making a package do not agree.\<close>

theorem ebuild_full_name_older_than_any_version:
  assumes "from_full_name (ebuild_ops R) full_name = Ret (Some installed)"
    and "from_name_and_full_version (ebuild_ops R) (get_name (ebuild_ops R) installed) fixed = Ret (Some q)"
    and "trim (ebuild_name installed) = ebuild_name installed"
    and "trim fixed = d # t" "is_ascii_digit d"
    and "splits_version (version_RE R) (version_string (ebuild_version installed))"
    and "splits_version (version_RE R) (trim fixed)"
  shows "partial_cmp (ebuild_ops R) installed q = Some OLess"
proof -
  have i: "\<exists>s. version_string (ebuild_version installed) = CHR ''-'' # s"
  proof -
    have "\<exists>s. dropWhile (\<lambda>c. c \<noteq> CHR ''-'') b = CHR ''-'' # s"
      if "dropWhile (\<lambda>c. c \<noteq> CHR ''-'') b \<noteq> []" for b
      using that hd_dropWhile [OF that] by (cases "dropWhile (\<lambda>c. c \<noteq> CHR ''-'') b") auto
    with assms(1) show ?thesis
      by (auto simp: ebuild_ops_def ebuild_from_full_name_def Let_def split: if_splits)
  qed
  then obtain s where s: "version_string (ebuild_version installed) = CHR ''-'' # s" by blast
  have q: "q = \<lparr>ebuild_name = ebuild_name installed, ebuild_version = PackageVersion (d # t)\<rparr>"
    using assms(2,3,4) by (auto simp: ebuild_ops_def ebuild_from_name_and_full_version_def split: if_splits)
  have "ebuild_version installed = PackageVersion (CHR ''-'' # s)"
    using s by (cases "ebuild_version installed") simp
  with q s assms dash_version_less show ?thesis
    by (simp add: ebuild_ops_def ebuild_partial_cmp_def)
qed

text \<open>The expressions that the witnesses of this theory evaluate: versions are split as documented,
  all other expressions fail except where a witness replaces them.\<close>

definition no_regex :: notus_regex where
  "no_regex = \<lparr>version_RE = split_version, deb_RE = \<lambda>_. None, deb_RE_WO_REVISION = \<lambda>_. None,
     deb_RE_VERSION = \<lambda>_. None, deb_RE_VERSION_WO_REVISION = \<lambda>_. None, rpm_RE = \<lambda>_. None,
     rpm_RE_VERSION = \<lambda>_. None, slack_RE = \<lambda>_. None, slack_RE_VERSION = \<lambda>_. None\<rparr>"

lemmas package_eval =
  version_eval no_regex_def trim_def deb_ops_def ebuild_ops_def rpm_ops_def slack_ops_def windows_ops_def
  ebuild_from_full_name_def ebuild_from_name_and_full_version_def ebuild_partial_cmp_def
  windows_from_full_name_def windows_from_name_and_full_version_def rsplit_once_def
  deb_from_name_and_full_version_def group_or_def parse_u64_def

theorem ebuild_full_name_older_than_any_version_witness:
  "partial_cmp (ebuild_ops no_regex)
     \<lparr>ebuild_name = ''www-servers/apache'', ebuild_version = PackageVersion ''-9.9.9''\<rparr>
     \<lparr>ebuild_name = ''www-servers/apache'', ebuild_version = PackageVersion ''2.4.51-r3''\<rparr> = Some OLess"
proof (rule ebuild_full_name_older_than_any_version
    [where full_name = "''www-servers/apache-9.9.9''" and fixed = "''2.4.51-r3''" and d = "CHR ''2''"
      and t = "''.4.51-r3''"])
  show "splits_version (version_RE no_regex)
      (version_string (ebuild_version
        \<lparr>ebuild_name = ''www-servers/apache'', ebuild_version = PackageVersion ''-9.9.9''\<rparr>))"
    "splits_version (version_RE no_regex) (trim ''2.4.51-r3'')"
    by (simp_all add: no_regex_def splits_version_split)
qed (simp_all add: package_eval)

lemma parse_u64_digits:
  assumes "list_all is_ascii_digit e"
  shows "parse_u64 e = (if e \<noteq> [] \<and> dec_val e < 2 ^ 64 then Some (dec_val e) else None)"
proof (cases e)
  case (Cons c cs)
  with assms have "c \<noteq> CHR ''+''" by (auto simp: is_ascii_digit_def)
  with Cons assms show ?thesis by (simp add: parse_u64_def)
qed simp

text \<open>Reading a Debian version panics exactly when the epoch that the expression captured (a
  possibly empty run of digits) is empty or does not fit into 64 bits; a version that starts with
  a colon therefore aborts the process although the function can report a parse failure.\<close>

theorem deb_version_panics_iff:
  assumes "nm \<noteq> []" "fv \<noteq> []"
    and "deb_RE_VERSION R (trim fv) = Some c"
    and "c 1 = None \<or> (\<exists>e. c 1 = Some e \<and> list_all is_ascii_digit e)"
  shows "deb_from_name_and_full_version R nm fv = Panic \<longleftrightarrow>
    (\<exists>e. c 1 = Some e \<and> (e = [] \<or> 2 ^ 64 \<le> dec_val e))"
proof (cases "c 1")
  case None
  have "parse_u64 ''0'' = Some 0"
    by (simp add: parse_u64_def is_ascii_digit_def dec_val_def digit_val_def)
  with None assms show ?thesis
    by (simp add: deb_from_name_and_full_version_def group_or_def)
next
  case (Some e)
  with assms show ?thesis
    by (auto simp: deb_from_name_and_full_version_def group_or_def parse_u64_digits)
qed

theorem deb_version_panics_iff_witness:
  "deb_from_name_and_full_version
     (no_regex\<lparr>deb_RE_VERSION := \<lambda>_. Some [1 \<mapsto> [], 2 \<mapsto> ''1.2'', 3 \<mapsto> ''3'']\<rparr>) ''foo'' '':1.2-3'' = Panic"
  by (subst deb_version_panics_iff [where c = "[1 \<mapsto> [], 2 \<mapsto> ''1.2'', 3 \<mapsto> ''3'']"]) simp_all

text \<open>For Windows packages the two ways of reading agree: a full name made of a build, a dot and
  a revision without dots is read as the package that the build and the revision give separately.\<close>

theorem windows_full_name_roundtrip:
  assumes "trim name = name" "trim revision = revision" "name \<noteq> []" "revision \<noteq> []"
    and "trim (name @ ''.'' @ revision) = name @ ''.'' @ revision" "CHR ''.'' \<notin> set revision"
  shows "from_full_name (windows_ops R) (name @ ''.'' @ revision) =
    from_name_and_full_version (windows_ops R) name revision"
proof -
  have r: "c \<in> set (rev revision) \<Longrightarrow> c \<noteq> CHR ''.''" for c
    using assms(6) by auto
  have d: "dropWhile (\<lambda>c. c \<noteq> CHR ''.'') (rev revision @ CHR ''.'' # rev name) = CHR ''.'' # rev name"
      "takeWhile (\<lambda>c. c \<noteq> CHR ''.'') (rev revision @ CHR ''.'' # rev name) = rev revision"
    using r by (subst dropWhile_append2 takeWhile_append2; simp)+
  have "rsplit_once (CHR ''.'') (name @ ''.'' @ revision) = Some (name, revision)"
    by (simp add: rsplit_once_def d)
  with assms show ?thesis
    by (simp add: windows_ops_def windows_from_full_name_def windows_from_name_and_full_version_def)
qed

theorem windows_full_name_roundtrip_witness:
  "from_full_name (windows_ops no_regex) ''10.0.22631.3447'' =
    from_name_and_full_version (windows_ops no_regex) ''10.0.22631'' ''3447''"
  using windows_full_name_roundtrip [of "''10.0.22631''" "''3447''" no_regex]
  by (simp add: trim_def is_whitespace_def)

end
