(* ===== verification/Notus_Scan.thy ===== *)
theory Notus_Scan
  imports Notus_Package
begin

text \<open>
  Vulnerability tests and the scan of a package list: src/rust/src/notus/vts.rs,
  src/rust/src/notus/notus.rs and the data of src/rust/src/models/product.rs and result.rs.

  \<open>HashMap\<close>s that are only looked up are maps. A product loader is the record \<open>product_loader\<close> of
  the trait's functions; it reads files, so every call takes the loader as it answers at that
  moment. \<open>scan\<close> returns the result together with the new cache, and an early return with the
  question mark operator keeps the cache as it is at that point.
\<close>

section \<open>Data\<close>

datatype specifier = GT | LT | GE | LE | EQ

record version_range =
  range_start :: string
  range_end :: string

datatype fixed_package =
    ByFullName string specifier
  | ByNameAndFullVersion string string specifier
  | ByRange string version_range

datatype package_type = DEB | EBUILD | RPM | SLACK | MSP

record vulnerability_test_model =
  model_oid :: string
  fixed_packages :: "fixed_package list"

record product_model =
  product_version :: string
  package_type :: package_type
  vulnerability_tests :: "vulnerability_test_model list"

datatype 'p package_information = Single specifier 'p | Range 'p 'p

record 'p vulnerability_test =
  vt_oid :: string
  package_information :: "'p package_information"

type_synonym 'p vulnerability_tests = "string \<rightharpoonup> 'p vulnerability_test list"

datatype product =
    Deb "deb vulnerability_tests"
  | EBuild "ebuild vulnerability_tests"
  | Rpm "rpm vulnerability_tests"
  | Slack "slack vulnerability_tests"
  | Windows "windows vulnerability_tests"

datatype fixed_version = FixedSingle string specifier | FixedRange string string

record vulnerable_package =
  vp_name :: string
  installed_version :: string
  vp_fixed_version :: fixed_version

type_synonym notus_results = "string \<rightharpoonup> vulnerable_package list"

datatype verify_error = SumsFileCorrupt string | VerifyLoadError string | HashInvalid string string string
  | BadSignature string | MissingKeyring

text \<open>The errors of src/rust/src/notus/error.rs; the payloads of foreign error types are their messages.\<close>

datatype notus_error =
    MissingProductsDir string | ProductsDirIsFile string | UnreadableProductsDir string string
  | UnknownProduct string | LoadProductError string string | JSONParseError string string
  | UnsupportedVersion string string string | PackageParseError string
  | VulnerabilityTestParseError string fixed_package
  | HashsumLoadError verify_error | SignatureCheckError verify_error

section \<open>Vulnerability tests\<close>

definition lt_pkg :: "'p package_ops \<Rightarrow> 'p \<Rightarrow> 'p \<Rightarrow> bool" where
  "lt_pkg ops a b \<longleftrightarrow> partial_cmp ops a b = Some OLess"

definition le_pkg :: "'p package_ops \<Rightarrow> 'p \<Rightarrow> 'p \<Rightarrow> bool" where
  "le_pkg ops a b \<longleftrightarrow> partial_cmp ops a b = Some OLess \<or> partial_cmp ops a b = Some OEqual"

definition gt_pkg :: "'p package_ops \<Rightarrow> 'p \<Rightarrow> 'p \<Rightarrow> bool" where
  "gt_pkg ops a b \<longleftrightarrow> partial_cmp ops a b = Some OGreater"

definition ge_pkg :: "'p package_ops \<Rightarrow> 'p \<Rightarrow> 'p \<Rightarrow> bool" where
  "ge_pkg ops a b \<longleftrightarrow> partial_cmp ops a b = Some OGreater \<or> partial_cmp ops a b = Some OEqual"

definition is_vulnerable :: "'p package_ops \<Rightarrow> 'p vulnerability_test \<Rightarrow> 'p \<Rightarrow> bool" where
  "is_vulnerable ops vt pkg =
     (case package_information vt of
        Single specifier package \<Rightarrow>
          (case specifier of
             GT \<Rightarrow> le_pkg ops pkg package
           | LT \<Rightarrow> ge_pkg ops pkg package
           | GE \<Rightarrow> lt_pkg ops pkg package
           | LE \<Rightarrow> gt_pkg ops pkg package
           | EQ \<Rightarrow> pkg \<noteq> package)
      | Range start end \<Rightarrow> ge_pkg ops pkg start \<and> lt_pkg ops pkg end)"

definition get_fixed_version :: "'p package_ops \<Rightarrow> 'p vulnerability_test \<Rightarrow> fixed_version" where
  "get_fixed_version ops vt =
     (case package_information vt of
        Single specifier package \<Rightarrow> FixedSingle (get_version ops package) specifier
      | Range start end \<Rightarrow> FixedRange (get_version ops start) (get_version ops end))"

text \<open>\<open>VulnerabilityTest::create\<close>\<close>

definition create :: "'p package_ops \<Rightarrow> string \<Rightarrow> fixed_package \<Rightarrow> (string \<times> 'p vulnerability_test) option rs" where
  "create ops oid fp =
     (case fp of
        ByFullName full_name specifier \<Rightarrow>
          rs_bind (from_full_name ops full_name) (\<lambda>r. Ret (map_option (\<lambda>package.
            (get_name ops package, \<lparr>vt_oid = oid, package_information = Single specifier package\<rparr>)) r))
      | ByNameAndFullVersion name full_version specifier \<Rightarrow>
          rs_bind (from_name_and_full_version ops name full_version) (\<lambda>r. Ret (map_option (\<lambda>package.
            (get_name ops package, \<lparr>vt_oid = oid, package_information = Single specifier package\<rparr>)) r))
      | ByRange name rng \<Rightarrow>
          rs_bind (from_name_and_full_version ops name (range_start rng)) (\<lambda>r.
            case r of
              None \<Rightarrow> Ret None
            | Some start \<Rightarrow>
                rs_bind (from_name_and_full_version ops name (range_end rng)) (\<lambda>r.
                  Ret (map_option (\<lambda>end.
                    (get_name ops start, \<lparr>vt_oid = oid, package_information = Range start end\<rparr>)) r))))"

definition push_entry :: "('k \<rightharpoonup> 'v list) \<Rightarrow> 'k \<Rightarrow> 'v \<Rightarrow> ('k \<rightharpoonup> 'v list)" where
  "push_entry m k v = (case m k of Some vs \<Rightarrow> m(k \<mapsto> vs @ [v]) | None \<Rightarrow> m(k \<mapsto> [v]))"

fun transform_packages :: "'p package_ops \<Rightarrow> string \<Rightarrow> fixed_package list \<Rightarrow> 'p vulnerability_tests \<Rightarrow>
    (notus_error + 'p vulnerability_tests) rs" where
  "transform_packages ops oid [] vts = Ret (Inr vts)"
| "transform_packages ops oid (fp # fps) vts =
     rs_bind (create ops oid fp) (\<lambda>r.
       case r of
         None \<Rightarrow> Ret (Inl (VulnerabilityTestParseError [] fp))
       | Some (pkg_name, adv) \<Rightarrow> transform_packages ops oid fps (push_entry vts pkg_name adv))"

fun transform_tests :: "'p package_ops \<Rightarrow> vulnerability_test_model list \<Rightarrow> 'p vulnerability_tests \<Rightarrow>
    (notus_error + 'p vulnerability_tests) rs" where
  "transform_tests ops [] vts = Ret (Inr vts)"
| "transform_tests ops (m # ms) vts =
     rs_bind (transform_packages ops (model_oid m) (fixed_packages m) vts) (\<lambda>r.
       case r of Inl e \<Rightarrow> Ret (Inl e) | Inr vts \<Rightarrow> transform_tests ops ms vts)"

text \<open>\<open>Product::transform\<close>\<close>

definition transform :: "'p package_ops \<Rightarrow> vulnerability_test_model list \<Rightarrow>
    (notus_error + 'p vulnerability_tests) rs" where
  "transform ops ms = transform_tests ops ms Map.empty"

definition product_try_from :: "notus_regex \<Rightarrow> product_model \<Rightarrow> (notus_error + product) rs" where
  "product_try_from R value =
     (case package_type value of
        DEB \<Rightarrow> rs_bind (transform (deb_ops R) (vulnerability_tests value)) (\<lambda>r. Ret (map_sum id Deb r))
      | EBUILD \<Rightarrow> rs_bind (transform (ebuild_ops R) (vulnerability_tests value)) (\<lambda>r. Ret (map_sum id EBuild r))
      | RPM \<Rightarrow> rs_bind (transform (rpm_ops R) (vulnerability_tests value)) (\<lambda>r. Ret (map_sum id Rpm r))
      | SLACK \<Rightarrow> rs_bind (transform (slack_ops R) (vulnerability_tests value)) (\<lambda>r. Ret (map_sum id Slack r))
      | MSP \<Rightarrow> rs_bind (transform (windows_ops R) (vulnerability_tests value)) (\<lambda>r. Ret (map_sum id Windows r)))"

section \<open>Notus\<close>

record 'stamp product_loader =
  load_product :: "string \<Rightarrow> notus_error + (product_model \<times> 'stamp)"
  get_products :: "notus_error + string list"
  has_changed :: "string \<Rightarrow> 'stamp \<Rightarrow> bool"
  verify_signature :: "verify_error + unit"

record 'stamp notus =
  loaded_products :: "string \<rightharpoonup> product \<times> 'stamp"
  signature_check_enabled :: bool

definition load_new_product :: "notus_regex \<Rightarrow> 's product_loader \<Rightarrow> string \<Rightarrow> (notus_error + (product \<times> 's)) rs" where
  "load_new_product R loader os =
     (case load_product loader os of
        Inl e \<Rightarrow> Ret (Inl e)
      | Inr (model, stamp) \<Rightarrow>
          rs_bind (product_try_from R model) (\<lambda>r.
            Ret (case r of
              Inr adv \<Rightarrow> Inr (adv, stamp)
            | Inl (VulnerabilityTestParseError _ pkg) \<Rightarrow> Inl (VulnerabilityTestParseError os pkg)
            | Inl err \<Rightarrow> Inl err)))"

fun parse_packages :: "'p package_ops \<Rightarrow> string list \<Rightarrow> (notus_error + 'p list) rs" where
  "parse_packages ops [] = Ret (Inr [])"
| "parse_packages ops (p # ps) =
     rs_bind (from_full_name ops p) (\<lambda>r.
       case r of
         None \<Rightarrow> Ret (Inl (PackageParseError p))
       | Some package \<Rightarrow>
           rs_bind (parse_packages ops ps) (\<lambda>rest. Ret (map_sum id (Cons package) rest)))"

definition vulnerable_entry :: "'p package_ops \<Rightarrow> 'p \<Rightarrow> 'p vulnerability_test \<Rightarrow> vulnerable_package" where
  "vulnerable_entry ops package vt =
     \<lparr>vp_name = get_name ops package, installed_version = get_version ops package,
      vp_fixed_version = get_fixed_version ops vt\<rparr>"

fun compare_tests :: "'p package_ops \<Rightarrow> 'p \<Rightarrow> 'p vulnerability_test list \<Rightarrow> notus_results \<Rightarrow> notus_results" where
  "compare_tests ops package [] results = results"
| "compare_tests ops package (vt # vts) results =
     compare_tests ops package vts
       (if is_vulnerable ops vt package
        then push_entry results (vt_oid vt) (vulnerable_entry ops package vt) else results)"

fun compare_packages :: "'p package_ops \<Rightarrow> 'p list \<Rightarrow> 'p vulnerability_tests \<Rightarrow> notus_results \<Rightarrow> notus_results" where
  "compare_packages ops [] vts results = results"
| "compare_packages ops (p # ps) vts results =
     compare_packages ops ps vts
       (case vts (get_name ops p) of
          Some tests \<Rightarrow> compare_tests ops p tests results
        | None \<Rightarrow> results)"

text \<open>\<open>Notus::compare\<close>\<close>

definition compare :: "'p package_ops \<Rightarrow> 'p list \<Rightarrow> 'p vulnerability_tests \<Rightarrow> notus_results" where
  "compare ops packages vts = compare_packages ops packages vts Map.empty"

definition parse_and_compare :: "'p package_ops \<Rightarrow> string list \<Rightarrow> 'p vulnerability_tests \<Rightarrow>
    (notus_error + notus_results) rs" where
  "parse_and_compare ops packages vts =
     rs_bind (parse_packages ops packages) (\<lambda>r. Ret (map_sum id (\<lambda>ps. compare ops ps vts) r))"

definition signature_check :: "'s product_loader \<Rightarrow> 's notus \<Rightarrow> notus_error + unit" where
  "signature_check loader self =
     (if signature_check_enabled self then
        (case verify_signature loader of
           Inr _ \<Rightarrow> Inr ()
         | Inl MissingKeyring \<Rightarrow> Inl (SignatureCheckError MissingKeyring)
         | Inl (BadSignature e) \<Rightarrow> Inl (SignatureCheckError (BadSignature e))
         | Inl e \<Rightarrow> Inl (HashsumLoadError e))
      else Inr ())"

definition compare_product :: "notus_regex \<Rightarrow> product \<Rightarrow> string list \<Rightarrow> (notus_error + notus_results) rs" where
  "compare_product R product packages =
     (case product of
        Deb adv \<Rightarrow> parse_and_compare (deb_ops R) packages adv
      | EBuild adv \<Rightarrow> parse_and_compare (ebuild_ops R) packages adv
      | Rpm adv \<Rightarrow> parse_and_compare (rpm_ops R) packages adv
      | Slack adv \<Rightarrow> parse_and_compare (slack_ops R) packages adv
      | Windows adv \<Rightarrow> parse_and_compare (windows_ops R) packages adv)"

text \<open>The part of \<open>scan\<close> that finds the product: the result and the cache afterwards.\<close>

definition scan_product :: "notus_regex \<Rightarrow> 's product_loader \<Rightarrow> string \<Rightarrow> 's notus \<Rightarrow>
    ((notus_error + product) \<times> 's notus) rs" where
  "scan_product R loader os self =
     (case loaded_products self os of
        Some (adv, stamp) \<Rightarrow>
          if has_changed loader os stamp then
            (case signature_check loader self of
               Inl e \<Rightarrow> Ret (Inl e, self)
             | Inr _ \<Rightarrow>
                 let removed = self\<lparr>loaded_products := (loaded_products self)(os := None)\<rparr>
                 in rs_bind (load_new_product R loader os) (\<lambda>r.
                      case r of
                        Inl e \<Rightarrow> Ret (Inl e, removed)
                      | Inr entry \<Rightarrow>
                          Ret (Inr (fst entry),
                            removed\<lparr>loaded_products := (loaded_products removed)(os \<mapsto> entry)\<rparr>)))
          else Ret (Inr adv, self)
      | None \<Rightarrow>
          (case signature_check loader self of
             Inl e \<Rightarrow> Ret (Inl e, self)
           | Inr _ \<Rightarrow>
               rs_bind (load_new_product R loader os) (\<lambda>r.
                 case r of
                   Inl e \<Rightarrow> Ret (Inl e, self)
                 | Inr entry \<Rightarrow>
                     Ret (Inr (fst entry), self\<lparr>loaded_products := (loaded_products self)(os \<mapsto> entry)\<rparr>))))"

definition scan :: "notus_regex \<Rightarrow> 's product_loader \<Rightarrow> string \<Rightarrow> string list \<Rightarrow> 's notus \<Rightarrow>
    ((notus_error + notus_results) \<times> 's notus) rs" where
  "scan R loader os packages self =
     rs_bind (scan_product R loader os self) (\<lambda>(r, self').
       case r of
         Inl e \<Rightarrow> Ret (Inl e, self')
       | Inr product \<Rightarrow> rs_bind (compare_product R product packages) (\<lambda>res. Ret (res, self')))"

definition get_available_os :: "'s product_loader \<Rightarrow> 's notus \<Rightarrow> notus_error + string list" where
  "get_available_os loader self =
     (case signature_check loader self of Inl e \<Rightarrow> Inl e | Inr _ \<Rightarrow> get_products loader)"

section \<open>Lemmas\<close>

text \<open>Maps from keys to vectors, read with the empty vector for an absent key.\<close>

definition entries :: "('k \<rightharpoonup> 'v list) \<Rightarrow> 'k \<Rightarrow> 'v list" where
  "entries m k = (case m k of Some vs \<Rightarrow> vs | None \<Rightarrow> [])"

definition no_empty :: "('k \<rightharpoonup> 'v list) \<Rightarrow> bool" where
  "no_empty m \<longleftrightarrow> (\<forall>k. m k \<noteq> Some [])"

lemma entries_push [simp]: "entries (push_entry m k v) k' = entries m k' @ (if k' = k then [v] else [])"
  by (auto simp: entries_def push_entry_def split: option.splits)

lemma no_empty_push [intro]: "no_empty m \<Longrightarrow> no_empty (push_entry m k v)"
  by (auto simp: no_empty_def push_entry_def split: option.splits)

lemma entries_empty [simp]: "entries Map.empty k = []" "no_empty Map.empty"
  by (simp_all add: entries_def no_empty_def)

lemma no_empty_lookup: "no_empty m \<Longrightarrow> m k = (if entries m k = [] then None else Some (entries m k))"
  by (auto simp: no_empty_def entries_def split: option.splits)

definition findings :: "'p package_ops \<Rightarrow> 'p vulnerability_test list \<Rightarrow> string \<Rightarrow> 'p \<Rightarrow> vulnerable_package list" where
  "findings ops tests oid p =
     map (vulnerable_entry ops p) (filter (\<lambda>vt. vt_oid vt = oid \<and> is_vulnerable ops vt p) tests)"

lemma compare_tests_entries:
  "entries (compare_tests ops p vts results) oid = entries results oid @ findings ops vts oid p"
  by (induction vts arbitrary: results) (auto simp: findings_def)

lemma compare_tests_no_empty: "no_empty results \<Longrightarrow> no_empty (compare_tests ops p vts results)"
  by (induction vts arbitrary: results) auto

lemma compare_packages_entries:
  "entries (compare_packages ops ps vts results) oid =
    entries results oid @ concat (map (\<lambda>p. findings ops (entries vts (get_name ops p)) oid p) ps)"
proof (induction ps arbitrary: results)
  case (Cons p ps)
  show ?case
  proof (cases "vts (get_name ops p)")
    case None
    then have "entries vts (get_name ops p) = []" by (simp add: entries_def)
    with None Cons.IH show ?thesis by (simp add: findings_def)
  next
    case (Some tests)
    then have "entries vts (get_name ops p) = tests" by (simp add: entries_def)
    with Some Cons.IH show ?thesis by (simp add: compare_tests_entries)
  qed
qed simp

lemma compare_packages_no_empty: "no_empty results \<Longrightarrow> no_empty (compare_packages ops ps vts results)"
proof (induction ps arbitrary: results)
  case (Cons p ps)
  then show ?case by (cases "vts (get_name ops p)") (simp_all add: compare_tests_no_empty)
qed simp

text \<open>All fixed packages of a product with the OID of their test, in file order.\<close>

definition fixed_of :: "vulnerability_test_model list \<Rightarrow> (string \<times> fixed_package) list" where
  "fixed_of ms = concat (map (\<lambda>m. map (Pair (model_oid m)) (fixed_packages m)) ms)"

lemma transform_packages_spec:
  "transform_packages ops oid fps vts = Ret (Inr vts') \<Longrightarrow>
    \<exists>advs. map (create ops oid) fps = map (\<lambda>a. Ret (Some a)) advs
      \<and> (\<forall>n. entries vts' n = entries vts n @ map snd (filter (\<lambda>a. fst a = n) advs))"
proof (induction fps arbitrary: vts)
  case (Cons fp fps)
  from Cons.prems obtain nm adv where c: "create ops oid fp = Ret (Some (nm, adv))"
      and "transform_packages ops oid fps (push_entry vts nm adv) = Ret (Inr vts')"
    by (cases "create ops oid fp") (auto split: option.split_asm)
  then obtain advs where a: "map (create ops oid) fps = map (\<lambda>a. Ret (Some a)) advs"
      "\<forall>n. entries vts' n = entries (push_entry vts nm adv) n @ map snd (filter (\<lambda>a. fst a = n) advs)"
    using Cons.IH by blast
  show ?case by (rule exI [of _ "(nm, adv) # advs"]) (use c a in auto)
qed simp

lemma transform_tests_spec:
  "transform_tests ops ms vts = Ret (Inr vts') \<Longrightarrow>
    \<exists>advs. map (\<lambda>(oid, fp). create ops oid fp) (fixed_of ms) = map (\<lambda>a. Ret (Some a)) advs
      \<and> (\<forall>n. entries vts' n = entries vts n @ map snd (filter (\<lambda>a. fst a = n) advs))"
proof (induction ms arbitrary: vts)
  case (Cons m ms)
  from Cons.prems obtain vts1 where
      t: "transform_packages ops (model_oid m) (fixed_packages m) vts = Ret (Inr vts1)"
      "transform_tests ops ms vts1 = Ret (Inr vts')"
    by (cases "transform_packages ops (model_oid m) (fixed_packages m) vts") (auto split: sum.split_asm)
  obtain a1 where 1: "map (create ops (model_oid m)) (fixed_packages m) = map (\<lambda>a. Ret (Some a)) a1"
      "\<forall>n. entries vts1 n = entries vts n @ map snd (filter (\<lambda>a. fst a = n) a1)"
    using transform_packages_spec [OF t(1)] by blast
  obtain a2 where 2: "map (\<lambda>(oid, fp). create ops oid fp) (fixed_of ms) = map (\<lambda>a. Ret (Some a)) a2"
      "\<forall>n. entries vts' n = entries vts1 n @ map snd (filter (\<lambda>a. fst a = n) a2)"
    using Cons.IH [OF t(2)] by blast
  show ?case by (rule exI [of _ "a1 @ a2"]) (use 1 2 in \<open>auto simp: fixed_of_def o_def\<close>)
qed (simp add: fixed_of_def)

text \<open>Consequences of the contract of packages for a single vulnerability test.\<close>

context package_contract
begin

abbreviation ge_test :: "string \<Rightarrow> 'a \<Rightarrow> 'a vulnerability_test" where
  "ge_test oid fixed \<equiv> \<lparr>vt_oid = oid, package_information = Single GE fixed\<rparr>"

lemma vulnerable_same_name:
  "is_vulnerable ops \<lparr>vt_oid = oid, package_information = Single sp fixed\<rparr> p \<Longrightarrow> sp \<noteq> EQ \<Longrightarrow>
    get_name ops p = get_name ops fixed"
  by (cases sp) (auto simp: is_vulnerable_def lt_pkg_def le_pkg_def gt_pkg_def ge_pkg_def dest: cmp_same_name)

lemma fixed_not_vulnerable:
  "\<not> is_vulnerable ops \<lparr>vt_oid = oid, package_information = Single sp fixed\<rparr> fixed" if "sp = GE \<or> sp = LE \<or> sp = EQ"
  using that by (auto simp: is_vulnerable_def lt_pkg_def gt_pkg_def cmp_refl)

lemma vulnerable_GE_asym:
  "is_vulnerable ops (ge_test oid fixed) p \<Longrightarrow> \<not> is_vulnerable ops (ge_test oid' p) fixed"
  using cmp_Less_Greater [of p fixed] by (auto simp: is_vulnerable_def lt_pkg_def)

lemma vulnerable_GE_GT:
  "is_vulnerable ops \<lparr>vt_oid = oid, package_information = Single GT fixed\<rparr> p \<longleftrightarrow>
    is_vulnerable ops (ge_test oid fixed) p \<or> partial_cmp ops p fixed = Some OEqual"
  by (auto simp: is_vulnerable_def lt_pkg_def le_pkg_def)

end

section \<open>Properties\<close>

text \<open>C1: The comparison of a package list reports under every OID exactly the pairs of an installed
  package and a vulnerable test of that OID registered for the package's name, in the order of the
  packages and of the tests, and no OID without a finding.\<close>

theorem compare_exact:
  "compare ops packages vts oid =
    (let found = concat (map (\<lambda>p. findings ops (entries vts (get_name ops p)) oid p) packages)
     in if found = [] then None else Some found)"
proof -
  have "no_empty (compare ops packages vts)"
    by (simp add: compare_def compare_packages_no_empty)
  from no_empty_lookup [OF this, of oid] show ?thesis
    by (simp add: compare_def compare_packages_entries Let_def)
qed

text \<open>Loading a product registers every fixed package of the file, under the name it was parsed
  with and in file order; it fails instead of skipping an entry.\<close>

theorem transform_complete:
  assumes "transform ops ms = Ret (Inr vts)"
  shows "\<exists>advs. map (\<lambda>(oid, fp). create ops oid fp) (fixed_of ms) = map (\<lambda>a. Ret (Some a)) advs
    \<and> (\<forall>n. entries vts n = map snd (filter (\<lambda>a. fst a = n) advs))"
  using transform_tests_spec assms by (fastforce simp: transform_def)

theorem transform_complete_witness:
  "\<exists>advs. map (\<lambda>(oid, fp). create (windows_ops no_regex) oid fp)
      (fixed_of [\<lparr>model_oid = ''1'', fixed_packages = [ByNameAndFullVersion ''10.0'' ''3447'' GE]\<rparr>])
        = map (\<lambda>a. Ret (Some a)) advs
    \<and> (\<forall>n. entries [''10.0'' \<mapsto> [\<lparr>vt_oid = ''1'', package_information = Single GE
            \<lparr>windows_full_name = ''10.0.3447'', windows_build = ''10.0'',
             windows_revision = PackageVersion ''3447''\<rparr>\<rparr>]] n
        = map snd (filter (\<lambda>a. fst a = n) advs))"
  by (rule transform_complete)
    (simp add: transform_def create_def push_entry_def package_eval)

text \<open>For each of the five packaging systems, a package reported through a fixed version with a
  lower or upper bound has the name of the fixed package, and the fixed version itself is not
  reported when the bound is inclusive.\<close>

theorem vulnerable_only_same_name:
  assumes "sp \<noteq> EQ"
  shows "(is_vulnerable (deb_ops R) \<lparr>vt_oid = oid, package_information = Single sp d\<rparr> d' \<longrightarrow> deb_name d' = deb_name d)
    \<and> (is_vulnerable (ebuild_ops R) \<lparr>vt_oid = oid, package_information = Single sp e\<rparr> e' \<longrightarrow> ebuild_name e' = ebuild_name e)
    \<and> (is_vulnerable (rpm_ops R) \<lparr>vt_oid = oid, package_information = Single sp r\<rparr> r' \<longrightarrow> rpm_name r' = rpm_name r)
    \<and> (is_vulnerable (slack_ops R) \<lparr>vt_oid = oid, package_information = Single sp s\<rparr> s' \<longrightarrow> slack_name s' = slack_name s)
    \<and> (is_vulnerable (windows_ops R) \<lparr>vt_oid = oid, package_information = Single sp w\<rparr> w' \<longrightarrow> windows_build w' = windows_build w)
    \<and> (sp = GE \<or> sp = LE \<longrightarrow>
        \<not> is_vulnerable (deb_ops R) \<lparr>vt_oid = oid, package_information = Single sp d\<rparr> d
      \<and> \<not> is_vulnerable (ebuild_ops R) \<lparr>vt_oid = oid, package_information = Single sp e\<rparr> e
      \<and> \<not> is_vulnerable (rpm_ops R) \<lparr>vt_oid = oid, package_information = Single sp r\<rparr> r
      \<and> \<not> is_vulnerable (slack_ops R) \<lparr>vt_oid = oid, package_information = Single sp s\<rparr> s
      \<and> \<not> is_vulnerable (windows_ops R) \<lparr>vt_oid = oid, package_information = Single sp w\<rparr> w)"
proof -
  have n: "get_name (deb_ops R) = deb_name" "get_name (ebuild_ops R) = ebuild_name"
      "get_name (rpm_ops R) = rpm_name" "get_name (slack_ops R) = slack_name"
      "get_name (windows_ops R) = windows_build"
    by (simp_all add: deb_ops_def ebuild_ops_def rpm_ops_def slack_ops_def windows_ops_def)
  have s0: "deb_name d' = deb_name d"
    if "is_vulnerable (deb_ops R) \<lparr>vt_oid = oid, package_information = Single sp d\<rparr> d'"
    using deb_package.vulnerable_same_name [OF that assms] by (simp add: n)
  have f0: "\<not> is_vulnerable (deb_ops R) \<lparr>vt_oid = oid, package_information = Single sp d\<rparr> d"
    if "sp = GE \<or> sp = LE"
    using that by (intro deb_package.fixed_not_vulnerable) auto
  have s1: "ebuild_name e' = ebuild_name e"
    if "is_vulnerable (ebuild_ops R) \<lparr>vt_oid = oid, package_information = Single sp e\<rparr> e'"
    using ebuild_package.vulnerable_same_name [OF that assms] by (simp add: n)
  have f1: "\<not> is_vulnerable (ebuild_ops R) \<lparr>vt_oid = oid, package_information = Single sp e\<rparr> e"
    if "sp = GE \<or> sp = LE"
    using that by (intro ebuild_package.fixed_not_vulnerable) auto
  have s2: "rpm_name r' = rpm_name r"
    if "is_vulnerable (rpm_ops R) \<lparr>vt_oid = oid, package_information = Single sp r\<rparr> r'"
    using rpm_package.vulnerable_same_name [OF that assms] by (simp add: n)
  have f2: "\<not> is_vulnerable (rpm_ops R) \<lparr>vt_oid = oid, package_information = Single sp r\<rparr> r"
    if "sp = GE \<or> sp = LE"
    using that by (intro rpm_package.fixed_not_vulnerable) auto
  have s3: "slack_name s' = slack_name s"
    if "is_vulnerable (slack_ops R) \<lparr>vt_oid = oid, package_information = Single sp s\<rparr> s'"
    using slack_package.vulnerable_same_name [OF that assms] by (simp add: n)
  have f3: "\<not> is_vulnerable (slack_ops R) \<lparr>vt_oid = oid, package_information = Single sp s\<rparr> s"
    if "sp = GE \<or> sp = LE"
    using that by (intro slack_package.fixed_not_vulnerable) auto
  have s4: "windows_build w' = windows_build w"
    if "is_vulnerable (windows_ops R) \<lparr>vt_oid = oid, package_information = Single sp w\<rparr> w'"
    using windows_package.vulnerable_same_name [OF that assms] by (simp add: n)
  have f4: "\<not> is_vulnerable (windows_ops R) \<lparr>vt_oid = oid, package_information = Single sp w\<rparr> w"
    if "sp = GE \<or> sp = LE"
    using that by (intro windows_package.fixed_not_vulnerable) auto
  show ?thesis
    using s0 s1 s2 s3 s4 f0 f1 f2 f3 f4 by simp
qed

theorem vulnerable_only_same_name_witness:
  "is_vulnerable (windows_ops no_regex) \<lparr>vt_oid = ''1'', package_information = Single GE
       \<lparr>windows_full_name = ''10.0.3449'', windows_build = ''10.0'', windows_revision = PackageVersion ''3449''\<rparr>\<rparr>
     \<lparr>windows_full_name = ''10.0.3447'', windows_build = ''10.0'', windows_revision = PackageVersion ''3447''\<rparr>
   \<and> \<not> is_vulnerable (windows_ops no_regex) \<lparr>vt_oid = ''1'', package_information = Single GE
       \<lparr>windows_full_name = ''10.0.3449'', windows_build = ''10.0'', windows_revision = PackageVersion ''3449''\<rparr>\<rparr>
     \<lparr>windows_full_name = ''10.0.3449'', windows_build = ''10.0'', windows_revision = PackageVersion ''3449''\<rparr>"
proof -
  have "is_vulnerable (windows_ops no_regex) \<lparr>vt_oid = ''1'', package_information = Single GE
       \<lparr>windows_full_name = ''10.0.3449'', windows_build = ''10.0'', windows_revision = PackageVersion ''3449''\<rparr>\<rparr>
     \<lparr>windows_full_name = ''10.0.3447'', windows_build = ''10.0'', windows_revision = PackageVersion ''3447''\<rparr>"
    by (simp add: is_vulnerable_def lt_pkg_def windows_partial_cmp_def package_eval)
  then show ?thesis
    using vulnerable_only_same_name [of GE no_regex "''1''"] by simp
qed

lemma scan_product_cases:
  assumes "scan_product R loader os self = Ret (r, self')"
  shows "(\<forall>os'. os' \<noteq> os \<longrightarrow> loaded_products self' os' = loaded_products self os')
    \<and> signature_check_enabled self' = signature_check_enabled self
    \<and> (\<forall>product. r = Inr product \<longrightarrow> (\<exists>stamp. loaded_products self' os = Some (product, stamp)))"
proof (cases "load_new_product R loader os")
  case Panic
  with assms show ?thesis
    by (auto simp: scan_product_def Let_def split: option.splits if_splits sum.splits)
next
  case (Ret loaded)
  with assms show ?thesis
    by (auto simp: scan_product_def Let_def split: option.splits if_splits sum.splits)
qed

text \<open>A scan touches only the cache entry of the scanned system, and results are always computed
  from the product that is in the cache for that system afterwards.\<close>

theorem scan_cache_frame:
  assumes "scan R loader os packages self = Ret (res, self')"
  shows "(\<forall>os'. os' \<noteq> os \<longrightarrow> loaded_products self' os' = loaded_products self os')
    \<and> signature_check_enabled self' = signature_check_enabled self
    \<and> (\<forall>results. res = Inr results \<longrightarrow>
        (\<exists>product stamp. loaded_products self' os = Some (product, stamp)
          \<and> compare_product R product packages = Ret (Inr results)))"
proof -
  obtain r where r: "scan_product R loader os self = Ret (r, self')"
    and c: "case r of Inl e \<Rightarrow> res = Inl e
            | Inr product \<Rightarrow> compare_product R product packages = Ret res"
    using assms
    by (cases "scan_product R loader os self") (auto simp: scan_def split: sum.splits)
  from scan_product_cases [OF r] c show ?thesis
    by (cases r) auto
qed

definition sample_product :: product_model where
  "sample_product = \<lparr>product_version = ''1.0'', package_type = MSP,
     vulnerability_tests = [\<lparr>model_oid = ''1.3.6'', fixed_packages = [ByNameAndFullVersion ''10.0'' ''3449'' GE]\<rparr>]\<rparr>"

definition sample_loader :: "nat product_loader" where
  "sample_loader = \<lparr>load_product = \<lambda>_. Inr (sample_product, 7), get_products = Inr [''windows_10''],
     has_changed = \<lambda>_ stamp. stamp \<noteq> 7, verify_signature = Inr ()\<rparr>"

definition sample_notus :: "nat notus" where
  "sample_notus = \<lparr>loaded_products = Map.empty, signature_check_enabled = True\<rparr>"

text \<open>With signature checking enabled, a scan of a system that is not cached, or whose cached file
  has changed, reports the failed signature verification and leaves the cache untouched: no
  unverified product is loaded.\<close>

theorem scan_rejects_bad_signature:
  assumes "signature_check_enabled self" "verify_signature loader = Inl e"
    and "\<forall>product stamp. loaded_products self os = Some (product, stamp) \<longrightarrow> has_changed loader os stamp"
  shows "scan R loader os packages self =
    Ret (Inl (if e = MissingKeyring \<or> (\<exists>m. e = BadSignature m) then SignatureCheckError e else HashsumLoadError e), self)"
  using assms
  by (cases e) (auto simp: scan_def scan_product_def signature_check_def split: option.splits)

theorem scan_rejects_bad_signature_witness:
  "scan no_regex (sample_loader\<lparr>verify_signature := Inl (BadSignature ''x'')\<rparr>) ''windows_10'' [''10.0.3447''] sample_notus
    = Ret (Inl (SignatureCheckError (BadSignature ''x'')), sample_notus)"
  using scan_rejects_bad_signature
    [of sample_notus "sample_loader\<lparr>verify_signature := Inl (BadSignature ''x'')\<rparr>" "BadSignature ''x''"
      "''windows_10''" no_regex "[''10.0.3447'']"]
  by (simp add: sample_notus_def)

text \<open>When a cached product file has changed and its reload fails, the scan fails and the stale
  product is dropped from the cache, so that the next scan loads it anew.\<close>

theorem scan_failed_reload_drops_entry:
  assumes "loaded_products self os = Some (product, stamp)" "has_changed loader os stamp"
    and "signature_check loader self = Inr ()" "load_new_product R loader os = Ret (Inl e)"
  shows "scan R loader os packages self =
    Ret (Inl e, self\<lparr>loaded_products := (loaded_products self)(os := None)\<rparr>)"
  using assms by (simp add: scan_def scan_product_def Let_def)

theorem scan_failed_reload_drops_entry_witness:
  "scan no_regex (sample_loader\<lparr>load_product := \<lambda>_. Inl (UnknownProduct ''windows_10'')\<rparr>) ''windows_10'' []
      (sample_notus\<lparr>loaded_products := [''windows_10'' \<mapsto> (Windows Map.empty, 6)]\<rparr>)
    = Ret (Inl (UnknownProduct ''windows_10''), sample_notus\<lparr>loaded_products := Map.empty\<rparr>)"
proof -
  let ?n = "sample_notus\<lparr>loaded_products := [''windows_10'' \<mapsto> (Windows Map.empty, 6)]\<rparr>"
  let ?l = "sample_loader\<lparr>load_product := \<lambda>_. Inl (UnknownProduct ''windows_10'')\<rparr>"
  have "scan no_regex ?l ''windows_10'' [] ?n =
      Ret (Inl (UnknownProduct ''windows_10''), ?n\<lparr>loaded_products := (loaded_products ?n)(''windows_10'' := None)\<rparr>)"
    by (rule scan_failed_reload_drops_entry [where product = "Windows Map.empty" and stamp = 6])
      (simp_all add: sample_notus_def sample_loader_def signature_check_def load_new_product_def)
  then show ?thesis by simp
qed

theorem scan_cache_frame_witness:
  "\<exists>product stamp results. loaded_products (sample_notus\<lparr>loaded_products := [''windows_10'' \<mapsto> (Windows Map.empty, 7)]\<rparr>) ''windows_10''
      = Some (product, stamp)
    \<and> compare_product no_regex product [''10.0.3447''] = Ret (Inr results)"
proof -
  let ?n = "sample_notus\<lparr>loaded_products := [''windows_10'' \<mapsto> (Windows Map.empty, 7)]\<rparr>"
  have "scan no_regex sample_loader ''windows_10'' [''10.0.3447''] ?n = Ret (Inr Map.empty, ?n)"
    by (simp add: scan_def scan_product_def sample_notus_def sample_loader_def compare_product_def
        parse_and_compare_def compare_def package_eval)
  from scan_cache_frame [OF this] show ?thesis by blast
qed

end
