(* ===== verification/Storage_Item.thy ===== *)
theory Storage_Item
  imports Prelude
begin

text \<open>
  The items of the storage layer: src/rust/src/storage/item.rs and types.rs, the advisories of
  src/rust/src/models/advisories.rs and the results of src/rust/src/models/result.rs.

  The metadata of a vulnerability test (\<open>Nvt\<close>) is collected field by field (\<open>set_from_field\<close>),
  searched by field (\<open>matches_field\<close>) and projected to one kind of field (\<open>key_as_field\<close>). The
  enumerations that the macro \<open>make_str_lookup_enum\<close> generates have one table each, \<open>_as_ref\<close>, and
  \<open>str_lookup\<close> is the lookup that the macro's \<open>from_str\<close> does.
\<close>

section \<open>Errors\<close>

datatype storage_error =
    Retry string | RetryExhausted | ConnectionLost string | UnexpectedData string | Dirty string | NotFound string

section \<open>Enumerations\<close>

datatype act =
    Init | Scanner | Settings | GatherInfo | Attack | MixedAttack | DestructiveAttack | Denial | KillHost | Flood | End

definition act_from_str :: "string \<Rightarrow> storage_error + act" where
  "act_from_str s =
    (if s = ''0'' then Inr Init else if s = ''1'' then Inr Scanner else if s = ''2'' then Inr Settings
     else if s = ''3'' then Inr GatherInfo else if s = ''4'' then Inr Attack else if s = ''5'' then Inr MixedAttack
     else if s = ''6'' then Inr DestructiveAttack else if s = ''7'' then Inr Denial else if s = ''8'' then Inr KillHost
     else if s = ''9'' then Inr Flood else if s = ''10'' then Inr End
     else Inl (UnexpectedData s))"

text \<open>The \<open>from_str\<close> that \<open>make_str_lookup_enum\<close> generates: the first key whose text is the input.\<close>

definition str_lookup :: "string \<Rightarrow> ('a \<Rightarrow> string) \<Rightarrow> 'a list \<Rightarrow> string \<Rightarrow> storage_error + 'a" where
  "str_lookup enum_name as_ref keys s =
    (case find (\<lambda>k. as_ref k = s) keys of
       Some k \<Rightarrow> Inr k
     | None \<Rightarrow> Inl (UnexpectedData (enum_name @ '': '' @ s)))"

datatype tag_key =
    Affected | CreationDate | CvssBase | CvssBaseVector | Deprecated | Impact
  | Insight | LastModification | Qod | QodTypeTag | SeverityDate | SeverityOrigin
  | SeverityVector | Solution | SolutionMethod | SolutionTypeTag | Summary | Vuldetect

fun tag_key_as_ref :: "tag_key \<Rightarrow> string" where
  "tag_key_as_ref Affected = ''affected''"
| "tag_key_as_ref CreationDate = ''creation_date''"
| "tag_key_as_ref CvssBase = ''cvss_base''"
| "tag_key_as_ref CvssBaseVector = ''cvss_base_vector''"
| "tag_key_as_ref Deprecated = ''deprecated''"
| "tag_key_as_ref Impact = ''impact''"
| "tag_key_as_ref Insight = ''insight''"
| "tag_key_as_ref LastModification = ''last_modification''"
| "tag_key_as_ref Qod = ''qod''"
| "tag_key_as_ref QodTypeTag = ''qod_type''"
| "tag_key_as_ref SeverityDate = ''severity_date''"
| "tag_key_as_ref SeverityOrigin = ''severity_origin''"
| "tag_key_as_ref SeverityVector = ''severity_vector''"
| "tag_key_as_ref Solution = ''solution''"
| "tag_key_as_ref SolutionMethod = ''solution_method''"
| "tag_key_as_ref SolutionTypeTag = ''solution_type''"
| "tag_key_as_ref Summary = ''summary''"
| "tag_key_as_ref Vuldetect = ''vuldetect''"

definition tag_keys :: "tag_key list" where
  "tag_keys = [Affected, CreationDate, CvssBase, CvssBaseVector, Deprecated, Impact, Insight, LastModification, Qod, QodTypeTag, SeverityDate, SeverityOrigin, SeverityVector, Solution, SolutionMethod, SolutionTypeTag, Summary, Vuldetect]"

definition tag_key_from_str :: "string \<Rightarrow> storage_error + tag_key" where
  "tag_key_from_str s = str_lookup ''TagKey'' tag_key_as_ref tag_keys s"

datatype solution_type =
    Mitigation | NoneAvailable | VendorFix | WillNotFix | Workaround

fun solution_type_as_ref :: "solution_type \<Rightarrow> string" where
  "solution_type_as_ref Mitigation = ''Mitigation''"
| "solution_type_as_ref NoneAvailable = ''NoneAvailable''"
| "solution_type_as_ref VendorFix = ''VendorFix''"
| "solution_type_as_ref WillNotFix = ''WillNotFix''"
| "solution_type_as_ref Workaround = ''Workaround''"

definition solution_types :: "solution_type list" where
  "solution_types = [Mitigation, NoneAvailable, VendorFix, WillNotFix, Workaround]"

definition solution_type_from_str :: "string \<Rightarrow> storage_error + solution_type" where
  "solution_type_from_str s = str_lookup ''SolutionType'' solution_type_as_ref solution_types s"

datatype qod_type =
    ExecutableVersion | ExecutableVersionUnreliable | Exploit | GeneralNote | Package | Registry
  | RemoteActive | RemoteAnalysis | RemoteApp | RemoteBanner | RemoteBannerUnreliable | RemoteProbe
  | RemoteVul | PackageUnreliable | DefaultQod

fun qod_type_as_ref :: "qod_type \<Rightarrow> string" where
  "qod_type_as_ref ExecutableVersion = ''executable_version''"
| "qod_type_as_ref ExecutableVersionUnreliable = ''executable_version_unreliable''"
| "qod_type_as_ref Exploit = ''exploit''"
| "qod_type_as_ref GeneralNote = ''general_note''"
| "qod_type_as_ref Package = ''package''"
| "qod_type_as_ref Registry = ''registry''"
| "qod_type_as_ref RemoteActive = ''remote_active''"
| "qod_type_as_ref RemoteAnalysis = ''remote_analysis''"
| "qod_type_as_ref RemoteApp = ''remote_app''"
| "qod_type_as_ref RemoteBanner = ''remote_banner''"
| "qod_type_as_ref RemoteBannerUnreliable = ''remote_banner_unreliable''"
| "qod_type_as_ref RemoteProbe = ''remote_probe''"
| "qod_type_as_ref RemoteVul = ''remote_vul''"
| "qod_type_as_ref PackageUnreliable = ''package_unreliable''"
| "qod_type_as_ref DefaultQod = ''default''"

definition qod_types :: "qod_type list" where
  "qod_types = [ExecutableVersion, ExecutableVersionUnreliable, Exploit, GeneralNote, Package, Registry, RemoteActive, RemoteAnalysis, RemoteApp, RemoteBanner, RemoteBannerUnreliable, RemoteProbe, RemoteVul, PackageUnreliable, DefaultQod]"

definition qod_type_from_str :: "string \<Rightarrow> storage_error + qod_type" where
  "qod_type_from_str s = str_lookup ''QodType'' qod_type_as_ref qod_types s"

datatype preference_type =
    CheckBox | Entry | File | Password | Radio | SshLogin
  | Integer

fun preference_type_as_ref :: "preference_type \<Rightarrow> string" where
  "preference_type_as_ref CheckBox = ''checkbox''"
| "preference_type_as_ref Entry = ''entry''"
| "preference_type_as_ref File = ''file''"
| "preference_type_as_ref Password = ''password''"
| "preference_type_as_ref Radio = ''radio''"
| "preference_type_as_ref SshLogin = ''sshlogin''"
| "preference_type_as_ref Integer = ''integer''"

definition preference_types :: "preference_type list" where
  "preference_types = [CheckBox, Entry, File, Password, Radio, SshLogin, Integer]"

definition preference_type_from_str :: "string \<Rightarrow> storage_error + preference_type" where
  "preference_type_from_str s = str_lookup ''PreferenceType'' preference_type_as_ref preference_types s"

fun qod_value :: "qod_type \<Rightarrow> int" where
  "qod_value Exploit = 100"
| "qod_value RemoteVul = 99"
| "qod_value RemoteApp = 98"
| "qod_value Package = 97"
| "qod_value Registry = 97"
| "qod_value RemoteActive = 95"
| "qod_value RemoteBanner = 80"
| "qod_value ExecutableVersion = 80"
| "qod_value RemoteAnalysis = 70"
| "qod_value RemoteProbe = 50"
| "qod_value PackageUnreliable = 30"
| "qod_value RemoteBannerUnreliable = 30"
| "qod_value ExecutableVersionUnreliable = 30"
| "qod_value GeneralNote = 1"
| "qod_value DefaultQod = 70"

text \<open>The derived order of \<open>TagKey\<close> is the order of its declaration.\<close>

fun index_in :: "'a \<Rightarrow> 'a list \<Rightarrow> nat" where
  "index_in x [] = 0"
| "index_in x (y # ys) = (if x = y then 0 else Suc (index_in x ys))"

lemma index_in_inject: "x \<in> set ys \<Longrightarrow> index_in x ys = index_in x' ys \<Longrightarrow> x = x'"
  by (induction ys) (auto split: if_splits)

lemma tag_keys_complete: "k \<in> set tag_keys"
  by (cases k) (simp_all add: tag_keys_def)

instantiation tag_key :: linorder
begin

definition less_eq_tag_key :: "tag_key \<Rightarrow> tag_key \<Rightarrow> bool" where
  "less_eq_tag_key k k' \<longleftrightarrow> index_in k tag_keys \<le> index_in k' tag_keys"

definition less_tag_key :: "tag_key \<Rightarrow> tag_key \<Rightarrow> bool" where
  "less_tag_key k k' \<longleftrightarrow> index_in k tag_keys < index_in k' tag_keys"

instance
  by standard (auto simp: less_eq_tag_key_def less_tag_key_def
      intro: index_in_inject [OF tag_keys_complete])

end

section \<open>Values\<close>

datatype primitive =
    PString string | PData "8 word list" | PNumber int | PArray "primitive list"
  | PDict "(string \<times> primitive) list" | PBoolean bool | PNull

fun primitive_to_bool :: "primitive \<Rightarrow> bool" where
  "primitive_to_bool (PString s) = (s \<noteq> [] \<and> s \<noteq> ''0'')"
| "primitive_to_bool (PArray v) = (v \<noteq> [])"
| "primitive_to_bool (PData v) = (v \<noteq> [])"
| "primitive_to_bool (PBoolean b) = b"
| "primitive_to_bool PNull = False"
| "primitive_to_bool (PNumber n) = (n \<noteq> 0)"
| "primitive_to_bool (PDict v) = (v \<noteq> [])"

fun primitive_to_i64 :: "primitive \<Rightarrow> int" where
  "primitive_to_i64 (PString s) = 1"
| "primitive_to_i64 (PNumber n) = n"
| "primitive_to_i64 (PArray v) = 1"
| "primitive_to_i64 (PData v) = 1"
| "primitive_to_i64 (PDict v) = 1"
| "primitive_to_i64 (PBoolean b) = (if b then 1 else 0)"
| "primitive_to_i64 PNull = 0"

text \<open>\<open>TagValue::parse\<close>. The time formats are parsed by the \<open>time\<close> crate, which is the parameter
  \<open>as_timestamp\<close>; \<open>debug\<close> is the text that the derived \<open>Debug\<close> gives a key.\<close>

definition tag_value_parse ::
  "(string \<Rightarrow> int option) \<Rightarrow> (tag_key \<Rightarrow> string) \<Rightarrow> tag_key \<Rightarrow> string \<Rightarrow> storage_error + primitive" where
  "tag_value_parse as_timestamp debug key v =
    (let error = UnexpectedData (debug key @ '' => '' @ v) in
     if key \<in> {CreationDate, LastModification, SeverityDate} then
       (case as_timestamp v of Some n \<Rightarrow> Inr (PNumber n) | None \<Rightarrow> Inl error)
     else if key = CvssBase then Inr PNull
     else if key = Deprecated then
       (if v \<in> {''TRUE'', ''true'', ''1''} then Inr (PBoolean True)
        else if v \<in> {''FALSE'', ''false'', ''0''} then Inr (PBoolean False)
        else Inl error)
     else if key = SolutionTypeTag then
       try_bind (solution_type_from_str v) (\<lambda>x. Inr (PString (solution_type_as_ref x)))
     else if key = QodTypeTag then
       try_bind (qod_type_from_str v) (\<lambda>x. Inr (PString (qod_type_as_ref x)))
     else if key = Qod then
       (case parse_i64 v of Some n \<Rightarrow> Inr (PNumber n) | None \<Rightarrow> Inl error)
     else Inr (PString v))"

section \<open>Vulnerability tests\<close>

record nvt_preference =
  pref_id :: "int option"
  pref_class :: preference_type
  pref_name :: string
  pref_default :: string

record nvt_ref =
  ref_class :: string
  ref_id :: string

record nvt =
  nvt_oid :: string
  nvt_name :: string
  nvt_filename :: string
  nvt_tag :: "(tag_key \<times> primitive) list"
  nvt_dependencies :: "string list"
  nvt_required_keys :: "string list"
  nvt_mandatory_keys :: "string list"
  nvt_excluded_keys :: "string list"
  nvt_required_ports :: "string list"
  nvt_required_udp_ports :: "string list"
  nvt_references :: "nvt_ref list"
  nvt_preferences :: "nvt_preference list"
  nvt_category :: act
  nvt_family :: string

definition default_nvt :: nvt where
  "default_nvt = \<lparr>nvt_oid = [], nvt_name = [], nvt_filename = [], nvt_tag = [], nvt_dependencies = [],
     nvt_required_keys = [], nvt_mandatory_keys = [], nvt_excluded_keys = [], nvt_required_ports = [],
     nvt_required_udp_ports = [], nvt_references = [], nvt_preferences = [], nvt_category = End,
     nvt_family = []\<rparr>"

datatype nvt_field =
    Oid string | FileName string | Version string | Name string | Tag tag_key primitive
  | Dependencies "string list" | RequiredKeys "string list" | MandatoryKeys "string list"
  | ExcludedKeys "string list" | RequiredPorts "string list" | RequiredUdpPorts "string list"
  | Preference nvt_preference | Reference "nvt_ref list" | Category act | Family string
  | NvtField nvt | NoOp

datatype nvt_key =
    KOid | KFileName | KVersion | KName | KTag | KDependencies | KRequiredKeys | KMandatoryKeys
  | KExcludedKeys | KRequiredPorts | KRequiredUdpPorts | KPreference | KReference | KCategory | KFamily
  | KNvt | KNoOp

text \<open>\<open>Nvt::set_from_field\<close>: \<open>Err\<close> with the feed version, the updated record otherwise.\<close>

fun set_from_field :: "nvt \<Rightarrow> nvt_field \<Rightarrow> string + nvt" where
  "set_from_field n (Oid x) = Inr (n\<lparr>nvt_oid := x\<rparr>)"
| "set_from_field n (FileName s) = Inr (n\<lparr>nvt_filename := s\<rparr>)"
| "set_from_field n (Version s) = Inl s"
| "set_from_field n (Name s) = Inr (n\<lparr>nvt_name := s\<rparr>)"
| "set_from_field n (Tag key v) = Inr (n\<lparr>nvt_tag := btree_insert key v (nvt_tag n)\<rparr>)"
| "set_from_field n (Dependencies s) = Inr (n\<lparr>nvt_dependencies := nvt_dependencies n @ s\<rparr>)"
| "set_from_field n (RequiredKeys s) = Inr (n\<lparr>nvt_required_keys := nvt_required_keys n @ s\<rparr>)"
| "set_from_field n (MandatoryKeys s) = Inr (n\<lparr>nvt_mandatory_keys := nvt_mandatory_keys n @ s\<rparr>)"
| "set_from_field n (ExcludedKeys s) = Inr (n\<lparr>nvt_excluded_keys := nvt_excluded_keys n @ s\<rparr>)"
| "set_from_field n (RequiredPorts s) = Inr (n\<lparr>nvt_required_ports := nvt_required_ports n @ s\<rparr>)"
| "set_from_field n (RequiredUdpPorts s) = Inr (n\<lparr>nvt_required_udp_ports := nvt_required_udp_ports n @ s\<rparr>)"
| "set_from_field n (Preference s) = Inr (n\<lparr>nvt_preferences := nvt_preferences n @ [s]\<rparr>)"
| "set_from_field n (Reference s) = Inr (n\<lparr>nvt_references := nvt_references n @ s\<rparr>)"
| "set_from_field n (Category s) = Inr (n\<lparr>nvt_category := s\<rparr>)"
| "set_from_field n (Family s) = Inr (n\<lparr>nvt_family := s\<rparr>)"
| "set_from_field n NoOp = Inr n"
| "set_from_field n (NvtField x) = Inr x"

fun matches_nvt_field :: "nvt \<Rightarrow> nvt_field \<Rightarrow> bool" where
  "matches_nvt_field n (Oid x) = (nvt_oid n = x)"
| "matches_nvt_field n (FileName x) = (nvt_filename n = x)"
| "matches_nvt_field n (Name x) = (nvt_name n = x)"
| "matches_nvt_field n (Tag a _) = (a \<in> fst ` set (nvt_tag n))"
| "matches_nvt_field n (Dependencies x) = (nvt_dependencies n = x)"
| "matches_nvt_field n (RequiredKeys x) = (nvt_required_keys n = x)"
| "matches_nvt_field n (MandatoryKeys x) = (nvt_mandatory_keys n = x)"
| "matches_nvt_field n (ExcludedKeys x) = (nvt_excluded_keys n = x)"
| "matches_nvt_field n (RequiredPorts x) = (nvt_required_ports n = x)"
| "matches_nvt_field n (RequiredUdpPorts x) = (nvt_required_udp_ports n = x)"
| "matches_nvt_field n (Preference x) = (x \<in> set (nvt_preferences n))"
| "matches_nvt_field n (Reference x) = (nvt_references n = x)"
| "matches_nvt_field n (Category x) = (nvt_category n = x)"
| "matches_nvt_field n (Family x) = (nvt_family n = x)"
| "matches_nvt_field n (NvtField x) = (n = x)"
| "matches_nvt_field n NoOp = False"
| "matches_nvt_field n (Version _) = False"

text \<open>\<open>Nvt::key_as_field\<close>; asking for the tags of a record that has tags is a \<open>todo!\<close>, a panic.\<close>

abbreviation non_empty :: "('a list \<Rightarrow> nvt_field) \<Rightarrow> 'a list \<Rightarrow> nvt_field list rs" where
  "non_empty f xs \<equiv> Ret (if xs = [] then [] else [f xs])"

fun key_as_field :: "nvt \<Rightarrow> nvt_key \<Rightarrow> nvt_field list rs" where
  "key_as_field n KOid = non_empty Oid (nvt_oid n)"
| "key_as_field n KFileName = non_empty FileName (nvt_filename n)"
| "key_as_field n KVersion = Ret []"
| "key_as_field n KName = non_empty Name (nvt_name n)"
| "key_as_field n KTag = (if nvt_tag n = [] then Ret [] else Panic)"
| "key_as_field n KDependencies = non_empty Dependencies (nvt_dependencies n)"
| "key_as_field n KRequiredKeys = non_empty RequiredKeys (nvt_required_keys n)"
| "key_as_field n KMandatoryKeys = non_empty MandatoryKeys (nvt_mandatory_keys n)"
| "key_as_field n KExcludedKeys = non_empty ExcludedKeys (nvt_excluded_keys n)"
| "key_as_field n KRequiredPorts = non_empty RequiredPorts (nvt_required_ports n)"
| "key_as_field n KRequiredUdpPorts = non_empty RequiredUdpPorts (nvt_required_udp_ports n)"
| "key_as_field n KPreference = Ret (map Preference (nvt_preferences n))"
| "key_as_field n KReference = non_empty Reference (nvt_references n)"
| "key_as_field n KCategory = Ret [Category (nvt_category n)]"
| "key_as_field n KFamily = non_empty Family (nvt_family n)"
| "key_as_field n KNvt = Ret [NvtField n]"
| "key_as_field n KNoOp = Ret []"

text \<open>\<open>From<NVTField> for Nvt\<close>\<close>

fun nvt_from_field :: "nvt_field \<Rightarrow> nvt" where
  "nvt_from_field (Oid x) = default_nvt\<lparr>nvt_oid := x\<rparr>"
| "nvt_from_field (FileName x) = default_nvt\<lparr>nvt_filename := x\<rparr>"
| "nvt_from_field (Version _) = default_nvt"
| "nvt_from_field (Name x) = default_nvt\<lparr>nvt_name := x\<rparr>"
| "nvt_from_field (Tag k v) = default_nvt\<lparr>nvt_tag := [(k, v)]\<rparr>"
| "nvt_from_field (Dependencies x) = default_nvt\<lparr>nvt_dependencies := x\<rparr>"
| "nvt_from_field (RequiredKeys x) = default_nvt\<lparr>nvt_required_keys := x\<rparr>"
| "nvt_from_field (MandatoryKeys x) = default_nvt\<lparr>nvt_mandatory_keys := x\<rparr>"
| "nvt_from_field (ExcludedKeys x) = default_nvt\<lparr>nvt_excluded_keys := x\<rparr>"
| "nvt_from_field (RequiredPorts x) = default_nvt\<lparr>nvt_required_ports := x\<rparr>"
| "nvt_from_field (RequiredUdpPorts x) = default_nvt\<lparr>nvt_required_udp_ports := x\<rparr>"
| "nvt_from_field (Preference x) = default_nvt\<lparr>nvt_preferences := [x]\<rparr>"
| "nvt_from_field (Reference x) = default_nvt\<lparr>nvt_references := x\<rparr>"
| "nvt_from_field (Category x) = default_nvt\<lparr>nvt_category := x\<rparr>"
| "nvt_from_field (Family x) = default_nvt\<lparr>nvt_family := x\<rparr>"
| "nvt_from_field (NvtField x) = x"
| "nvt_from_field NoOp = default_nvt"

section \<open>Notus advisories\<close>

record severity =
  sev_origin :: string
  sev_date :: nat
  cvss_v2 :: "string option"
  cvss_v3 :: "string option"

record advisories =
  adv_title :: string
  adv_oid :: string
  adv_creation_date :: nat
  adv_last_modification :: nat
  adv_advisory_id :: string
  adv_advisory_xref :: string
  adv_cves :: "string list"
  adv_summary :: string
  adv_insight :: string
  adv_affected :: string
  adv_xrefs :: "string list"
  adv_qod_type :: string
  adv_severity :: severity

record vulnerability_data =
  vd_adv :: advisories
  vd_family :: string
  vd_filename :: string

record vulnerability =
  vt_params :: "string list"
  vul_creation_date :: nat
  vul_last_modification :: nat
  vul_summary :: string
  vul_impact :: string
  vul_affected :: string
  vul_insight :: string
  vul_solution :: string
  vul_solution_type :: string
  vul_vuldetect :: string
  vul_qod_type :: string
  vul_severity_vector :: string
  vul_filename :: string
  vul_refs :: "(string \<times> string list) list"
  vul_family :: string
  vul_name :: string
  vul_category :: string

definition vulnerability_from_data :: "vulnerability_data \<Rightarrow> vulnerability" where
  "vulnerability_from_data d =
    (let a = vd_adv d;
         sv = (case cvss_v2 (adv_severity a) of
             Some cvss \<Rightarrow> cvss
           | None \<Rightarrow> (case cvss_v3 (adv_severity a) of Some cvss \<Rightarrow> cvss | None \<Rightarrow> []))
     in \<lparr>vt_params = [], vul_creation_date = adv_creation_date a,
         vul_last_modification = adv_last_modification a, vul_summary = adv_summary a, vul_impact = [],
         vul_affected = adv_affected a, vul_insight = adv_insight a,
         vul_solution = ''Please install the updated package(s).'',
         vul_solution_type = ''VendorFix'',
         vul_vuldetect = ''Checks if a vulnerable package version is present on the target host.'',
         vul_qod_type = adv_qod_type a, vul_severity_vector = sv, vul_filename = vd_filename d,
         vul_refs = [], vul_family = vd_family d, vul_name = adv_title a, vul_category = ''3''\<rparr>)"

text \<open>\<open>n as i64\<close> for an unsigned 64 bit number\<close>

definition u64_as_i64 :: "nat \<Rightarrow> int" where
  "u64_as_i64 n = sint (word_of_nat n :: 64 word)"

definition tag_str :: "tag_key \<Rightarrow> string \<Rightarrow> (tag_key \<times> primitive) list \<Rightarrow> (tag_key \<times> primitive) list" where
  "tag_str k s tags = (if s \<noteq> [] then btree_insert k (PString s) tags else tags)"

definition tag_date :: "tag_key \<Rightarrow> nat \<Rightarrow> (tag_key \<times> primitive) list \<Rightarrow> (tag_key \<times> primitive) list" where
  "tag_date k n tags = (if n \<noteq> 0 then btree_insert k (PNumber (u64_as_i64 n)) tags else tags)"

definition tag_to_vec :: "vulnerability \<Rightarrow> (tag_key \<times> primitive) list" where
  "tag_to_vec v =
    (let tags = [];
         tags = tag_str Affected (vul_affected v) tags;
         tags = tag_str Summary (vul_summary v) tags;
         tags = tag_str Impact (vul_impact v) tags;
         tags = tag_str Insight (vul_insight v) tags;
         tags = tag_str Solution (vul_solution v) tags;
         tags = tag_str SolutionTypeTag (vul_solution_type v) tags;
         tags = tag_str Vuldetect (vul_vuldetect v) tags;
         tags = tag_str QodTypeTag (vul_qod_type v) tags;
         tags = tag_str SeverityVector (vul_severity_vector v) tags;
         tags = tag_date CreationDate (vul_creation_date v) tags;
         tags = tag_date LastModification (vul_last_modification v) tags
     in tags)"

definition get_refs :: "(string \<times> string list) list \<Rightarrow> nvt_ref list" where
  "get_refs references =
    concat (map (\<lambda>(reftype, vals). map (\<lambda>r. \<lparr>ref_class = reftype, ref_id = r\<rparr>) vals) references)"

definition nvt_from_vulnerability :: "string \<Rightarrow> vulnerability \<Rightarrow> nvt" where
  "nvt_from_vulnerability oid adv =
    \<lparr>nvt_oid = oid, nvt_name = vul_name adv, nvt_filename = vul_filename adv, nvt_tag = tag_to_vec adv,
     nvt_dependencies = [], nvt_required_keys = [], nvt_mandatory_keys = [], nvt_excluded_keys = [],
     nvt_required_ports = [], nvt_required_udp_ports = [], nvt_references = get_refs (vul_refs adv),
     nvt_preferences = [], nvt_category = GatherInfo, nvt_family = vul_family adv\<rparr>"

definition nvt_from_advisory :: "vulnerability_data \<Rightarrow> nvt" where
  "nvt_from_advisory d = nvt_from_vulnerability (adv_oid (vd_adv d)) (vulnerability_from_data d)"

section \<open>Results\<close>

datatype protocol = UDP | TCP

datatype result_type = Alarm | Log | ErrorResult | HostStart | HostEnd | DeadHost | HostDetail

record source =
  s_type :: string
  s_name :: string
  s_description :: string

record detail =
  d_name :: string
  d_value :: string
  d_source :: source

record result =
  r_id :: nat
  r_type :: result_type
  r_ip_address :: "string option"
  r_hostname :: "string option"
  r_oid :: "string option"
  r_port :: "int option"
  r_protocol :: "protocol option"
  r_message :: "string option"
  r_detail :: "detail option"

section \<open>Lemmas\<close>

lemma find_injective:
  assumes "x \<in> set xs" "\<And>y. y \<in> set xs \<Longrightarrow> f y = f x \<Longrightarrow> y = x"
  shows "find (\<lambda>k. f k = f x) xs = Some x"
  using assms by (induction xs) auto

lemma str_lookup_roundtrip:
  assumes "set keys = UNIV" "inj as_ref"
  shows "str_lookup nm as_ref keys s = Inr k \<longleftrightarrow> s = as_ref k"
proof
  assume "str_lookup nm as_ref keys s = Inr k"
  then show "s = as_ref k"
    by (auto simp: str_lookup_def find_Some_iff split: option.splits)
next
  assume s: "s = as_ref k"
  have "find (\<lambda>k'. as_ref k' = as_ref k) keys = Some k"
    using assms by (intro find_injective) (auto dest: injD)
  with s show "str_lookup nm as_ref keys s = Inr k" by (simp add: str_lookup_def)
qed

lemma tag_key_as_ref_inj: "inj tag_key_as_ref"
proof (rule injI)
  fix x y
  have *: "list_all (\<lambda>x. list_all (\<lambda>y. tag_key_as_ref x = tag_key_as_ref y \<longrightarrow> x = y) tag_keys) tag_keys"
    by (simp add: tag_keys_def)
  show "tag_key_as_ref x = tag_key_as_ref y \<Longrightarrow> x = y"
    using * tag_keys_complete [of x] tag_keys_complete [of y] by (simp add: list_all_iff)
qed

lemma qod_type_as_ref_inj: "inj qod_type_as_ref"
proof (rule injI)
  fix x y
  have *: "list_all (\<lambda>x. list_all (\<lambda>y. qod_type_as_ref x = qod_type_as_ref y \<longrightarrow> x = y) qod_types) qod_types"
    by (simp add: qod_types_def)
  have "x \<in> set qod_types" "y \<in> set qod_types"
    by (cases x; simp add: qod_types_def; fail) (cases y; simp add: qod_types_def; fail)
  with * show "qod_type_as_ref x = qod_type_as_ref y \<Longrightarrow> x = y"
    by (simp add: list_all_iff)
qed

lemma tag_to_vec_sorted: "sorted_wrt (<) (map fst (tag_to_vec v))"
  by (simp add: tag_to_vec_def tag_str_def tag_date_def sorted_btree_insert Let_def)

definition wf_nvt :: "nvt \<Rightarrow> bool" where
  "wf_nvt n \<longleftrightarrow> sorted_wrt (<) (map fst (nvt_tag n))"

lemma wf_default_nvt [simp]: "wf_nvt default_nvt"
  by (simp add: wf_nvt_def default_nvt_def)

lemma wf_nvt_from_advisory: "wf_nvt (nvt_from_advisory d)"
  by (simp add: wf_nvt_def nvt_from_advisory_def nvt_from_vulnerability_def tag_to_vec_sorted)

lemma set_from_field_wf:
  assumes "set_from_field n f = Inr n'" "wf_nvt n" "\<And>x. f = NvtField x \<Longrightarrow> wf_nvt x"
  shows "wf_nvt n'"
  using assms by (cases f) (auto simp: wf_nvt_def sorted_btree_insert)

lemma set_from_field_default:
  "set_from_field default_nvt f = (case f of Version v \<Rightarrow> Inl v | _ \<Rightarrow> Inr (nvt_from_field f))"
  by (cases f) (simp_all add: default_nvt_def)

end
