(* ===== verification/Storage_Dispatcher.thy ===== *)
theory Storage_Dispatcher
  imports Storage_Item
begin

text \<open>
  The in-memory storage, src/rust/src/storage/mod.rs and retrieve.rs, and the dispatcher that
  collects the metadata of a script during its description run, \<open>PerItemDispatcher\<close> of item.rs.

  \<open>default_dispatcher\<close> is the state behind the locks of \<open>DefaultDispatcher\<close>; every operation takes
  and returns it. A lock is poisoned only when a thread panicked while it held it; the model has no
  such thread, so the \<open>Dirty\<close> errors of the lock acquisitions do not appear. The maps that the code
  iterates over (\<open>vts\<close>, \<open>advisories\<close>, the knowledge base of a context) are lists of entries.

  The locale \<open>kb_store\<close> is the contract of a knowledge base; the in-memory storage is its instance.
\<close>

section \<open>Model\<close>

subsection \<open>Keys, fields and retrieve commands\<close>

datatype context_key = ScanKey string "string option" | FileNameKey string

fun context_key_as_ref :: "context_key \<Rightarrow> string" where
  "context_key_as_ref (ScanKey x _) = x"
| "context_key_as_ref (FileNameKey x) = x"

fun context_key_display :: "context_key \<Rightarrow> string" where
  "context_key_display (ScanKey i None) = ''scan_id='' @ i"
| "context_key_display (ScanKey i (Some target)) = ''scan_id='' @ i @ '' target='' @ target"
| "context_key_display (FileNameKey n) = ''file='' @ n"

definition default_context_key :: context_key where
  "default_context_key = FileNameKey []"

record kb =
  kb_key :: string
  kb_value :: primitive
  kb_expire :: "nat option"

datatype field =
    NVTF nvt_field | KBF kb | ResultF result | NotusAdvisoryF "vulnerability_data option"

datatype retrieve =
    RetrieveNVT "nvt_key option" | RetrieveKB string | RetrieveNotusAdvisory "string option"
  | RetrieveResult "nat option"

fun nvt_key_for_field :: "nvt_key \<Rightarrow> nvt_field \<Rightarrow> bool" where
  "nvt_key_for_field KOid f = (case f of Oid _ \<Rightarrow> True | _ \<Rightarrow> False)"
| "nvt_key_for_field KFileName f = (case f of FileName _ \<Rightarrow> True | _ \<Rightarrow> False)"
| "nvt_key_for_field KVersion f = (case f of Version _ \<Rightarrow> True | _ \<Rightarrow> False)"
| "nvt_key_for_field KName f = (case f of Name _ \<Rightarrow> True | _ \<Rightarrow> False)"
| "nvt_key_for_field KTag f = (case f of Tag _ _ \<Rightarrow> True | _ \<Rightarrow> False)"
| "nvt_key_for_field KDependencies f = (case f of Dependencies _ \<Rightarrow> True | _ \<Rightarrow> False)"
| "nvt_key_for_field KRequiredKeys f = (case f of RequiredKeys _ \<Rightarrow> True | _ \<Rightarrow> False)"
| "nvt_key_for_field KMandatoryKeys f = (case f of MandatoryKeys _ \<Rightarrow> True | _ \<Rightarrow> False)"
| "nvt_key_for_field KExcludedKeys f = (case f of ExcludedKeys _ \<Rightarrow> True | _ \<Rightarrow> False)"
| "nvt_key_for_field KRequiredPorts f = (case f of RequiredPorts _ \<Rightarrow> True | _ \<Rightarrow> False)"
| "nvt_key_for_field KRequiredUdpPorts f = (case f of RequiredUdpPorts _ \<Rightarrow> True | _ \<Rightarrow> False)"
| "nvt_key_for_field KPreference f = (case f of Preference _ \<Rightarrow> True | _ \<Rightarrow> False)"
| "nvt_key_for_field KReference f = (case f of Reference _ \<Rightarrow> True | _ \<Rightarrow> False)"
| "nvt_key_for_field KCategory f = (case f of Category _ \<Rightarrow> True | _ \<Rightarrow> False)"
| "nvt_key_for_field KFamily f = (case f of Family _ \<Rightarrow> True | _ \<Rightarrow> False)"
| "nvt_key_for_field KNoOp f = (f = NoOp)"
| "nvt_key_for_field KNvt f = (case f of NvtField _ \<Rightarrow> True | _ \<Rightarrow> False)"

fun for_field :: "retrieve \<Rightarrow> field \<Rightarrow> bool" where
  "for_field (RetrieveNVT None) f = (case f of NVTF _ \<Rightarrow> True | _ \<Rightarrow> False)"
| "for_field (RetrieveNVT (Some k)) f = (case f of NVTF x \<Rightarrow> nvt_key_for_field k x | _ \<Rightarrow> False)"
| "for_field (RetrieveKB s) f = (case f of KBF kb \<Rightarrow> kb_key kb = s | _ \<Rightarrow> False)"
| "for_field (RetrieveNotusAdvisory _) f = (case f of NotusAdvisoryF _ \<Rightarrow> True | _ \<Rightarrow> False)"
| "for_field (RetrieveResult None) f = (case f of ResultF _ \<Rightarrow> True | _ \<Rightarrow> False)"
| "for_field (RetrieveResult (Some i)) f = (case f of ResultF r \<Rightarrow> r_id r = i | _ \<Rightarrow> False)"

fun matches_field :: "nvt \<Rightarrow> field \<Rightarrow> bool" where
  "matches_field n (NVTF f) = matches_nvt_field n f"
| "matches_field n _ = False"

definition matches_any_field :: "nvt \<Rightarrow> field list \<Rightarrow> bool" where
  "matches_any_field n fs = list_ex (matches_field n) fs"

subsection \<open>The in-memory storage\<close>

record default_dispatcher =
  dd_vts :: "(string \<times> nvt) list"
  dd_feed_version :: string
  dd_advisories :: "vulnerability_data list"
  dd_kbs :: "(context_key \<times> (string \<times> kb list) list) list"
  dd_results :: "string \<rightharpoonup> result list"

definition new_dispatcher :: default_dispatcher where
  "new_dispatcher = \<lparr>dd_vts = [], dd_feed_version = [], dd_advisories = [], dd_kbs = [], dd_results = Map.empty\<rparr>"

definition set_vts :: "(string \<times> nvt) list \<Rightarrow> default_dispatcher \<Rightarrow> default_dispatcher" where
  "set_vts vts d = d\<lparr>dd_vts := vts\<rparr>"

definition cache_nvt_field :: "string \<Rightarrow> nvt_field \<Rightarrow> default_dispatcher \<Rightarrow> default_dispatcher" where
  "cache_nvt_field filename field d =
    (case map_of (dd_vts d) filename of
       Some vt \<Rightarrow>
         (case set_from_field vt field of
            Inl feed_version \<Rightarrow> d\<lparr>dd_feed_version := feed_version\<rparr>
          | Inr vt' \<Rightarrow> d\<lparr>dd_vts := AList.update filename vt' (dd_vts d)\<rparr>)
     | None \<Rightarrow>
         (case set_from_field default_nvt field of
            Inl feed_version \<Rightarrow> d\<lparr>dd_feed_version := feed_version\<rparr>
          | Inr nvt \<Rightarrow>
              let nvt = (if nvt_filename nvt = [] then nvt\<lparr>nvt_filename := filename\<rparr> else nvt)
              in d\<lparr>dd_vts := AList.update (nvt_filename nvt) nvt (dd_vts d)\<rparr>))"

definition cache_kb :: "context_key \<Rightarrow> kb \<Rightarrow> default_dispatcher \<Rightarrow> default_dispatcher" where
  "cache_kb ck kb d =
    (case map_of (dd_kbs d) ck of
       Some scan_entry \<Rightarrow>
         (case map_of scan_entry (kb_key kb) of
            Some kb_entry \<Rightarrow>
              if \<not> list_ex (\<lambda>x. kb_value x = kb_value kb) kb_entry
              then d\<lparr>dd_kbs := AList.update ck (AList.update (kb_key kb) (kb_entry @ [kb]) scan_entry) (dd_kbs d)\<rparr>
              else d
          | None \<Rightarrow> d\<lparr>dd_kbs := AList.update ck (AList.update (kb_key kb) [kb] scan_entry) (dd_kbs d)\<rparr>)
     | None \<Rightarrow> d\<lparr>dd_kbs := AList.update ck [(kb_key kb, [kb])] (dd_kbs d)\<rparr>)"

definition replace_kb :: "context_key \<Rightarrow> kb \<Rightarrow> default_dispatcher \<Rightarrow> default_dispatcher" where
  "replace_kb ck kb d =
    (case map_of (dd_kbs d) ck of
       Some scan_entry \<Rightarrow> d\<lparr>dd_kbs := AList.update ck (AList.update (kb_key kb) [kb] scan_entry) (dd_kbs d)\<rparr>
     | None \<Rightarrow> d\<lparr>dd_kbs := AList.update ck [(kb_key kb, [kb])] (dd_kbs d)\<rparr>)"

definition cache_result :: "string \<Rightarrow> result \<Rightarrow> default_dispatcher \<Rightarrow> default_dispatcher" where
  "cache_result scan_id result d =
    (case dd_results d scan_id of
       Some entry \<Rightarrow> d\<lparr>dd_results := (dd_results d)(scan_id \<mapsto> entry @ [result])\<rparr>
     | None \<Rightarrow> d\<lparr>dd_results := (dd_results d)(scan_id \<mapsto> [result])\<rparr>)"

definition cache_notus_advisory :: "vulnerability_data \<Rightarrow> default_dispatcher \<Rightarrow> default_dispatcher" where
  "cache_notus_advisory adv d = d\<lparr>dd_advisories := List.insert adv (dd_advisories d)\<rparr>"

definition all_vts :: "default_dispatcher \<Rightarrow> nvt list" where
  "all_vts d = map snd (dd_vts d) @ map nvt_from_advisory (dd_advisories d)"

definition clean_vts :: "default_dispatcher \<Rightarrow> default_dispatcher" where
  "clean_vts d = d\<lparr>dd_vts := [], dd_feed_version := []\<rparr>"

definition clean_advisories :: "default_dispatcher \<Rightarrow> default_dispatcher" where
  "clean_advisories d = d\<lparr>dd_advisories := []\<rparr>"

definition remove_kb :: "context_key \<Rightarrow> string option \<Rightarrow> default_dispatcher \<Rightarrow> kb list option \<times> default_dispatcher" where
  "remove_kb key kbk d =
    (case kbk of
       None \<Rightarrow> (map_option (\<lambda>x. concat (map snd x)) (map_of (dd_kbs d) key),
                d\<lparr>dd_kbs := AList.delete key (dd_kbs d)\<rparr>)
     | Some x \<Rightarrow>
         (case map_of (dd_kbs d) key of
            Some kbs \<Rightarrow> (map_of kbs x, d\<lparr>dd_kbs := AList.update key (AList.delete x kbs) (dd_kbs d)\<rparr>)
          | None \<Rightarrow> (None, d)))"

definition remove_result :: "context_key \<Rightarrow> nat option \<Rightarrow> default_dispatcher \<Rightarrow> result list option \<times> default_dispatcher" where
  "remove_result key result_id d =
    (let k = context_key_as_ref key in
     case result_id of
       Some i \<Rightarrow>
         (case dd_results d k of
            Some results \<Rightarrow>
              (case position_of i (map r_id results) of
                 Some p \<Rightarrow> (Some [results ! p],
                            d\<lparr>dd_results := (dd_results d)(k \<mapsto> take p results @ drop (Suc p) results)\<rparr>)
               | None \<Rightarrow> (None, d))
          | None \<Rightarrow> (None, d))
     | None \<Rightarrow> (dd_results d k, d\<lparr>dd_results := (dd_results d)(k := None)\<rparr>))"

definition dispatch :: "context_key \<Rightarrow> field \<Rightarrow> default_dispatcher \<Rightarrow> default_dispatcher" where
  "dispatch key scope d =
    (case scope of
       NVTF x \<Rightarrow> cache_nvt_field (context_key_as_ref key) x d
     | KBF x \<Rightarrow> cache_kb key x d
     | NotusAdvisoryF x \<Rightarrow> (case x of Some x \<Rightarrow> cache_notus_advisory x d | None \<Rightarrow> d)
     | ResultF x \<Rightarrow> cache_result (context_key_as_ref key) x d)"

definition dispatch_replace :: "context_key \<Rightarrow> field \<Rightarrow> default_dispatcher \<Rightarrow> default_dispatcher" where
  "dispatch_replace key scope d =
    (case scope of
       NVTF x \<Rightarrow> cache_nvt_field (context_key_as_ref key) x d
     | KBF x \<Rightarrow> replace_kb key x d
     | NotusAdvisoryF x \<Rightarrow> (case x of Some x \<Rightarrow> cache_notus_advisory x d | None \<Rightarrow> d)
     | ResultF x \<Rightarrow> cache_result (context_key_as_ref key) x d)"

text \<open>\<open>Storage::scan_finished\<close> and \<open>Storage::remove_scan\<close>\<close>

definition scan_finished :: "context_key \<Rightarrow> default_dispatcher \<Rightarrow> default_dispatcher" where
  "scan_finished key d = snd (remove_kb key None d)"

definition remove_scan :: "context_key \<Rightarrow> default_dispatcher \<Rightarrow> result list \<times> default_dispatcher" where
  "remove_scan key d =
    (let (results, d) = remove_result key None (snd (remove_kb key None d))
     in (case results of Some r \<Rightarrow> r | None \<Rightarrow> [], d))"

text \<open>\<open>flat_map\<close> over an iterator whose function may panic\<close>

fun rs_flat_map :: "('a \<Rightarrow> 'b list rs) \<Rightarrow> 'a list \<Rightarrow> 'b list rs" where
  "rs_flat_map f [] = Ret []"
| "rs_flat_map f (x # xs) = rs_bind (f x) (\<lambda>ys. rs_bind (rs_flat_map f xs) (\<lambda>zs. Ret (ys @ zs)))"

text \<open>The iterators of \<open>retrieve\<close> and \<open>retrieve_by_fields\<close> as the lists they yield.\<close>

definition retrieve_fields :: "context_key \<Rightarrow> retrieve \<Rightarrow> default_dispatcher \<Rightarrow> field list rs" where
  "retrieve_fields key scope d =
    (case scope of
       RetrieveNVT None \<Rightarrow> Ret (map (\<lambda>x. NVTF (NvtField x)) (all_vts d))
     | RetrieveNVT (Some KNvt) \<Rightarrow> Ret (map (\<lambda>x. NVTF (NvtField x)) (all_vts d))
     | RetrieveNVT (Some KVersion) \<Rightarrow> Ret [NVTF (Version (dd_feed_version d))]
     | RetrieveNVT (Some k) \<Rightarrow>
         rs_bind (rs_flat_map (\<lambda>y. key_as_field y k) (all_vts d)) (\<lambda>fs. Ret (map NVTF fs))
     | RetrieveKB kb_id \<Rightarrow>
         Ret (case map_of (dd_kbs d) key of
                Some kbs \<Rightarrow> (case map_of kbs kb_id of Some kbs \<Rightarrow> map KBF kbs | None \<Rightarrow> [])
              | None \<Rightarrow> [])
     | RetrieveNotusAdvisory _ \<Rightarrow> Ret (map (\<lambda>x. NotusAdvisoryF (Some x)) (dd_advisories d))
     | RetrieveResult None \<Rightarrow>
         Ret (map ResultF (case dd_results d (context_key_as_ref key) of Some x \<Rightarrow> x | None \<Rightarrow> []))
     | RetrieveResult (Some i) \<Rightarrow>
         Ret (map ResultF (filter (\<lambda>x. r_id x = i)
           (case dd_results d (context_key_as_ref key) of Some x \<Rightarrow> x | None \<Rightarrow> []))))"

definition retrieve_by_fields :: "field list \<Rightarrow> retrieve \<Rightarrow> default_dispatcher \<Rightarrow> (context_key \<times> field) list rs" where
  "retrieve_by_fields fs scope d =
    (case scope of
       RetrieveNVT k \<Rightarrow>
         (if k = None \<or> k = Some KNvt then
            Ret (map (\<lambda>x. (FileNameKey (nvt_filename x), NVTF (NvtField x)))
                  (filter (\<lambda>y. matches_any_field y fs) (all_vts d)))
          else
            rs_flat_map (\<lambda>(f, y). rs_bind (key_as_field y (the k)) (\<lambda>xs. Ret (map (\<lambda>x. (FileNameKey f, NVTF x)) xs)))
              (filter (\<lambda>(_, y). matches_any_field y fs)
                (dd_vts d @ map (\<lambda>x. (vd_filename x, nvt_from_advisory x)) (dd_advisories d))))
     | RetrieveNotusAdvisory _ \<Rightarrow> Ret []
     | RetrieveKB _ \<Rightarrow> Ret []
     | RetrieveResult _ \<Rightarrow> Ret [])"

definition retrieve_by_field :: "field \<Rightarrow> retrieve \<Rightarrow> default_dispatcher \<Rightarrow> (context_key \<times> field) list rs" where
  "retrieve_by_field field scope d = retrieve_by_fields [field] scope d"

text \<open>\<open>Retriever::vts\<close>, \<open>results\<close> and \<open>result\<close>\<close>

definition storage_vts :: "default_dispatcher \<Rightarrow> nvt list rs" where
  "storage_vts d = rs_bind (retrieve_fields default_context_key (RetrieveNVT None) d)
     (\<lambda>fs. Ret (List.map_filter (\<lambda>x. case x of NVTF (NvtField nvt) \<Rightarrow> Some nvt | _ \<Rightarrow> None) fs))"

definition storage_results :: "context_key \<Rightarrow> default_dispatcher \<Rightarrow> result list rs" where
  "storage_results key d = rs_bind (retrieve_fields key (RetrieveResult None) d)
     (\<lambda>fs. Ret (List.map_filter (\<lambda>x. case x of ResultF r \<Rightarrow> Some r | _ \<Rightarrow> None) fs))"

definition storage_result :: "context_key \<Rightarrow> nat \<Rightarrow> default_dispatcher \<Rightarrow> result option rs" where
  "storage_result key i d = rs_bind (retrieve_fields key (RetrieveResult (Some i)) d)
     (\<lambda>fs. Ret (case List.map_filter (\<lambda>x. case x of ResultF r \<Rightarrow> Some r | _ \<Rightarrow> None) fs of
        r # _ \<Rightarrow> Some r | [] \<Rightarrow> None))"

subsection \<open>Retries\<close>

text \<open>An operation that is retried runs on a state, so that repeated calls may answer differently.\<close>

type_synonym ('s, 'a) fallible = "'s \<Rightarrow> (storage_error + 'a) \<times> 's"

fun retry :: "('s, 'a) fallible \<Rightarrow> nat \<Rightarrow> ('s, 'a) fallible" where
  "retry f 0 s = (Inl RetryExhausted, s)"
| "retry f (Suc tries) s =
    (case f s of (Inl (Retry reason), s') \<Rightarrow> retry f tries s' | (r, s') \<Rightarrow> (r, s'))"

fun retry_dispatch :: "nat \<Rightarrow> ('s, unit) fallible \<Rightarrow> ('s, unit) fallible" where
  "retry_dispatch 0 f s = f s"
| "retry_dispatch (Suc retries) f s =
    (case f s of (Inl (Retry reason), s') \<Rightarrow> retry_dispatch retries f s' | (r, s') \<Rightarrow> (r, s'))"

subsection \<open>Description runs\<close>

record 's item_dispatcher =
  dispatch_nvt :: "nvt \<Rightarrow> ('s, unit) fallible"
  dispatch_feed_version :: "string \<Rightarrow> ('s, unit) fallible"
  dispatch_kb :: "context_key \<Rightarrow> kb \<Rightarrow> ('s, unit) fallible"
  dispatch_advisory :: "string \<Rightarrow> vulnerability_data option \<Rightarrow> ('s, unit) fallible"

record 's per_item_dispatcher =
  pi_nvt :: "nvt option"
  pi_dispatcher :: 's

definition on_dispatcher :: "('s, unit) fallible \<Rightarrow> ('s per_item_dispatcher, unit) fallible" where
  "on_dispatcher f p = (case f (pi_dispatcher p) of (r, s) \<Rightarrow> (r, p\<lparr>pi_dispatcher := s\<rparr>))"

definition unwrap_nvt :: "nvt option \<Rightarrow> nvt" where
  "unwrap_nvt n = (case n of Some n \<Rightarrow> n | None \<Rightarrow> default_nvt)"

definition store_nvt_field :: "'s item_dispatcher \<Rightarrow> nvt_field \<Rightarrow> ('s per_item_dispatcher, unit) fallible" where
  "store_nvt_field ops f p =
    (case set_from_field (unwrap_nvt (pi_nvt p)) f of
       Inl version \<Rightarrow> on_dispatcher (dispatch_feed_version ops version) p
     | Inr nvt \<Rightarrow> (Inr (), p\<lparr>pi_nvt := Some nvt\<rparr>))"

text \<open>A result is dispatched by a call of the function on itself with the same arguments, so the
  model counts the calls: \<open>None\<close> is a run that needs more calls than the given number.\<close>

fun per_item_dispatch ::
  "nat \<Rightarrow> 's item_dispatcher \<Rightarrow> context_key \<Rightarrow> field \<Rightarrow> 's per_item_dispatcher
    \<Rightarrow> ((storage_error + unit) \<times> 's per_item_dispatcher) option" where
  "per_item_dispatch 0 ops key scope p = None"
| "per_item_dispatch (Suc calls) ops key scope p =
    (case scope of
       NVTF nvt \<Rightarrow> Some (store_nvt_field ops nvt p)
     | KBF kb \<Rightarrow> Some (on_dispatcher (dispatch_kb ops key kb) p)
     | NotusAdvisoryF adv \<Rightarrow> Some (on_dispatcher (dispatch_advisory ops (context_key_as_ref key) adv) p)
     | ResultF result \<Rightarrow> per_item_dispatch calls ops key (ResultF result) p)"

definition per_item_dispatch_replace ::
  "nat \<Rightarrow> 's item_dispatcher \<Rightarrow> context_key \<Rightarrow> field \<Rightarrow> 's per_item_dispatcher
    \<Rightarrow> ((storage_error + unit) \<times> 's per_item_dispatcher) option" where
  "per_item_dispatch_replace calls ops key scope p =
    (case scope of
       NVTF nvt \<Rightarrow> Some (store_nvt_field ops nvt p)
     | KBF kb \<Rightarrow> Some (on_dispatcher (dispatch_kb ops key kb) p)
     | NotusAdvisoryF adv \<Rightarrow> Some (on_dispatcher (dispatch_advisory ops (context_key_as_ref key) adv) p)
     | ResultF result \<Rightarrow> per_item_dispatch calls ops key (ResultF result) p)"

definition per_item_on_exit :: "'s item_dispatcher \<Rightarrow> context_key \<Rightarrow> ('s per_item_dispatcher, unit) fallible" where
  "per_item_on_exit ops key p =
    (case on_dispatcher (dispatch_nvt ops (unwrap_nvt (pi_nvt p))) p of
       (Inl e, p') \<Rightarrow> (Inl e, p')
     | (Inr _, p') \<Rightarrow> (Inr (), p'\<lparr>pi_nvt := None\<rparr>))"

section \<open>The knowledge base contract\<close>

text \<open>\<open>values_of\<close> is the list of entries under a name; the laws say what every operation does to it.\<close>

locale kb_store =
  fixes put :: "context_key \<Rightarrow> kb \<Rightarrow> 's \<Rightarrow> 's"
    and replace :: "context_key \<Rightarrow> kb \<Rightarrow> 's \<Rightarrow> 's"
    and remove :: "context_key \<Rightarrow> string option \<Rightarrow> 's \<Rightarrow> 's"
    and lookup :: "context_key \<Rightarrow> string \<Rightarrow> 's \<Rightarrow> kb list"
    and inv :: "'s \<Rightarrow> bool"
  assumes inv_put: "inv s \<Longrightarrow> inv (put k b s)"
    and inv_replace: "inv s \<Longrightarrow> inv (replace k b s)"
    and inv_remove: "inv s \<Longrightarrow> inv (remove k m s)"
    and lookup_put: "inv s \<Longrightarrow> lookup k' n (put k b s) =
      (if k' = k \<and> n = kb_key b \<and> kb_value b \<notin> kb_value ` set (lookup k n s)
       then lookup k n s @ [b] else lookup k' n s)"
    and lookup_replace: "inv s \<Longrightarrow> lookup k' n (replace k b s) =
      (if k' = k \<and> n = kb_key b then [b] else lookup k' n s)"
    and lookup_remove: "inv s \<Longrightarrow> lookup k' n (remove k m s) =
      (if k' = k \<and> (m = None \<or> m = Some n) then [] else lookup k' n s)"
begin

lemma put_finds: "inv s \<Longrightarrow> kb_value b \<in> kb_value ` set (lookup k (kb_key b) (put k b s))"
  by (simp add: lookup_put)

lemma put_other: "inv s \<Longrightarrow> k' \<noteq> k \<or> n \<noteq> kb_key b \<Longrightarrow> lookup k' n (put k b s) = lookup k' n s"
  by (auto simp: lookup_put)

lemma put_idem: "inv s \<Longrightarrow> lookup k' n (put k b (put k b s)) = lookup k' n (put k b s)"
  by (simp add: lookup_put inv_put)

lemma put_distinct:
  "inv s \<Longrightarrow> distinct (map kb_value (lookup k' n s)) \<Longrightarrow> distinct (map kb_value (lookup k' n (put k b s)))"
  by (auto simp: lookup_put)

lemma remove_after: "inv s \<Longrightarrow> lookup k n (remove k None s) = []"
  by (simp add: lookup_remove)

end

lemma list_ex_value: "list_ex (\<lambda>x. kb_value x = v) xs \<longleftrightarrow> v \<in> kb_value ` set xs"
  by (auto simp: list_ex_iff)

definition kb_lookup :: "context_key \<Rightarrow> string \<Rightarrow> default_dispatcher \<Rightarrow> kb list" where
  "kb_lookup key n d =
    (case map_of (dd_kbs d) key of
       Some kbs \<Rightarrow> (case map_of kbs n of Some kbs \<Rightarrow> kbs | None \<Rightarrow> [])
     | None \<Rightarrow> [])"

text \<open>Both levels of the knowledge base are maps: no key has two entries.\<close>

definition wf_kbs :: "default_dispatcher \<Rightarrow> bool" where
  "wf_kbs d \<longleftrightarrow> distinct (map fst (dd_kbs d))
    \<and> (\<forall>e \<in> set (dd_kbs d). distinct (map fst (snd e)))"

lemma wf_kbs_new [simp]: "wf_kbs new_dispatcher"
  by (simp add: wf_kbs_def new_dispatcher_def)

lemma wf_kbs_entry: "wf_kbs d \<Longrightarrow> map_of (dd_kbs d) ck = Some e \<Longrightarrow> distinct (map fst e)"
  by (force simp: wf_kbs_def dest: map_of_SomeD)

lemma set_alist_update_subset: "set (AList.update k v m) \<subseteq> insert (k, v) (set m)"
  by (induction m) auto

lemma set_alist_delete_subset: "set (AList.delete k m) \<subseteq> set m"
  by (simp add: AList.delete_eq)

lemma wf_kbs_update:
  "wf_kbs d \<Longrightarrow> distinct (map fst e) \<Longrightarrow> wf_kbs (d\<lparr>dd_kbs := AList.update ck e (dd_kbs d)\<rparr>)"
  using set_alist_update_subset [of ck e "dd_kbs d"]
  by (auto simp: wf_kbs_def AList.distinct_update)

lemma wf_kbs_cache_kb: "wf_kbs d \<Longrightarrow> wf_kbs (cache_kb ck b d)"
  by (auto simp: cache_kb_def wf_kbs_update AList.distinct_update wf_kbs_entry split: option.split)

lemma wf_kbs_replace_kb: "wf_kbs d \<Longrightarrow> wf_kbs (replace_kb ck b d)"
  by (auto simp: replace_kb_def wf_kbs_update AList.distinct_update wf_kbs_entry split: option.split)

lemma wf_kbs_remove_kb: "wf_kbs d \<Longrightarrow> wf_kbs (snd (remove_kb ck n d))"
proof -
  assume d: "wf_kbs d"
  then have "wf_kbs (d\<lparr>dd_kbs := AList.delete ck (dd_kbs d)\<rparr>)"
    using set_alist_delete_subset [of ck "dd_kbs d"] AList.distinct_delete [of "dd_kbs d" ck]
    by (auto simp: wf_kbs_def)
  with d show ?thesis
    by (auto simp: remove_kb_def wf_kbs_update AList.distinct_delete wf_kbs_entry split: option.split)
qed

lemma kb_lookup_cache_kb:
  "kb_lookup k' n (cache_kb k b d) =
    (if k' = k \<and> n = kb_key b \<and> kb_value b \<notin> kb_value ` set (kb_lookup k n d)
     then kb_lookup k n d @ [b] else kb_lookup k' n d)"
  by (auto simp: kb_lookup_def cache_kb_def AList.update_conv' list_ex_value split: option.splits)

lemma kb_lookup_replace_kb:
  "kb_lookup k' n (replace_kb k b d) = (if k' = k \<and> n = kb_key b then [b] else kb_lookup k' n d)"
  by (auto simp: kb_lookup_def replace_kb_def AList.update_conv' split: option.splits)

lemma kb_lookup_remove_kb:
  "kb_lookup k' n (snd (remove_kb k m d)) =
    (if k' = k \<and> (m = None \<or> m = Some n) then [] else kb_lookup k' n d)"
  by (auto simp: kb_lookup_def remove_kb_def AList.update_conv' AList.delete_conv' split: option.splits)

interpretation inmemory_kb: kb_store cache_kb replace_kb "\<lambda>k n d. snd (remove_kb k n d)" kb_lookup wf_kbs
  by unfold_locales
    (simp_all add: wf_kbs_cache_kb wf_kbs_replace_kb wf_kbs_remove_kb kb_lookup_cache_kb
      kb_lookup_replace_kb kb_lookup_remove_kb)

lemma retrieve_kb: "retrieve_fields key (RetrieveKB n) d = Ret (map KBF (kb_lookup key n d))"
  by (simp add: retrieve_fields_def kb_lookup_def split: option.split)

section \<open>Runs of the storage\<close>

datatype storage_op =
    Dispatch context_key field | DispatchReplace context_key field | RemoveKb context_key "string option"
  | RemoveResult context_key "nat option" | ScanFinished context_key | RemoveScan context_key

fun run_op :: "storage_op \<Rightarrow> default_dispatcher \<Rightarrow> default_dispatcher" where
  "run_op (Dispatch k f) d = dispatch k f d"
| "run_op (DispatchReplace k f) d = dispatch_replace k f d"
| "run_op (RemoveKb k n) d = snd (remove_kb k n d)"
| "run_op (RemoveResult k i) d = snd (remove_result k i d)"
| "run_op (ScanFinished k) d = scan_finished k d"
| "run_op (RemoveScan k) d = snd (remove_scan k d)"

fun op_key :: "storage_op \<Rightarrow> context_key" where
  "op_key (Dispatch k f) = k"
| "op_key (DispatchReplace k f) = k"
| "op_key (RemoveKb k n) = k"
| "op_key (RemoveResult k i) = k"
| "op_key (ScanFinished k) = k"
| "op_key (RemoveScan k) = k"

lemma kbs_unchanged [simp]:
  "dd_kbs (cache_nvt_field f x d) = dd_kbs d"
  "dd_kbs (cache_notus_advisory a d) = dd_kbs d"
  "dd_kbs (cache_result i r d) = dd_kbs d"
  "dd_kbs (snd (remove_result k i' d)) = dd_kbs d"
  by (auto simp: cache_nvt_field_def cache_notus_advisory_def cache_result_def remove_result_def Let_def
      split: option.split sum.split)

lemma results_unchanged [simp]:
  "dd_results (cache_nvt_field f x d) = dd_results d"
  "dd_results (cache_notus_advisory a d) = dd_results d"
  "dd_results (cache_kb k b d) = dd_results d"
  "dd_results (replace_kb k b d) = dd_results d"
  "dd_results (snd (remove_kb k n d)) = dd_results d"
  by (auto simp: cache_nvt_field_def cache_notus_advisory_def cache_kb_def replace_kb_def remove_kb_def Let_def
      split: option.split sum.split)

lemma kb_lookup_cong: "dd_kbs d = dd_kbs d' \<Longrightarrow> kb_lookup k n d = kb_lookup k n d'"
  by (simp add: kb_lookup_def)

lemma wf_kbs_cong: "dd_kbs d = dd_kbs d' \<Longrightarrow> wf_kbs d = wf_kbs d'"
  by (simp add: wf_kbs_def)

lemma remove_scan_snd: "snd (remove_scan k d) = snd (remove_result k None (snd (remove_kb k None d)))"
  by (simp add: remove_scan_def split: prod.split)

lemma wf_kbs_run_op: "wf_kbs d \<Longrightarrow> wf_kbs (run_op x d)"
proof (cases x)
  case (Dispatch k f)
  then show "wf_kbs d \<Longrightarrow> ?thesis"
    by (cases f) (auto simp: dispatch_def inmemory_kb.inv_put cong: wf_kbs_cong split: option.split)
next
  case (DispatchReplace k f)
  then show "wf_kbs d \<Longrightarrow> ?thesis"
    by (cases f) (auto simp: dispatch_replace_def inmemory_kb.inv_replace cong: wf_kbs_cong split: option.split)
next
  case (RemoveScan k)
  then show "wf_kbs d \<Longrightarrow> ?thesis"
    using wf_kbs_cong [OF kbs_unchanged(4), of k None "snd (remove_kb k None d)"]
    by (simp add: remove_scan_snd inmemory_kb.inv_remove)
next
  case (RemoveResult k i)
  then show "wf_kbs d \<Longrightarrow> ?thesis" by (simp cong: wf_kbs_cong)
qed (simp_all add: inmemory_kb.inv_remove scan_finished_def)

lemma kb_lookup_run_op:
  assumes "wf_kbs d"
  shows "kb_lookup k n (run_op x d) = kb_lookup k n d
    \<or> op_key x = k \<and> (kb_lookup k n (run_op x d) = []
      \<or> (\<exists>b. kb_lookup k n (run_op x d) = [b])
      \<or> (\<exists>b. kb_lookup k n (run_op x d) = kb_lookup k n d @ [b] \<and> kb_value b \<notin> kb_value ` set (kb_lookup k n d)))"
proof (cases x)
  case (Dispatch k' f)
  then show ?thesis
    using assms by (cases f) (auto simp: dispatch_def inmemory_kb.lookup_put cong: kb_lookup_cong split: option.split)
next
  case (DispatchReplace k' f)
  then show ?thesis
    using assms
    by (cases f) (auto simp: dispatch_replace_def inmemory_kb.lookup_replace cong: kb_lookup_cong split: option.split)
next
  case (RemoveScan k')
  then show ?thesis
    using assms kb_lookup_cong [OF kbs_unchanged(4), of k n k' None "snd (remove_kb k' None d)"]
    by (auto simp: remove_scan_snd inmemory_kb.lookup_remove)
next
  case (RemoveResult k' i)
  then show ?thesis by (simp cong: kb_lookup_cong)
next
  case (RemoveKb k' m)
  then show ?thesis using assms by (auto simp: inmemory_kb.lookup_remove)
next
  case (ScanFinished k')
  then show ?thesis using assms by (auto simp: scan_finished_def inmemory_kb.lookup_remove)
qed

lemma results_run_op:
  "context_key_as_ref (op_key x) \<noteq> i \<Longrightarrow> dd_results (run_op x d) i = dd_results d i"
proof (cases x)
  case (Dispatch k f)
  then show "context_key_as_ref (op_key x) \<noteq> i \<Longrightarrow> ?thesis"
    by (cases f) (auto simp: dispatch_def cache_result_def split: option.split)
next
  case (DispatchReplace k f)
  then show "context_key_as_ref (op_key x) \<noteq> i \<Longrightarrow> ?thesis"
    by (cases f) (auto simp: dispatch_replace_def cache_result_def split: option.split)
qed (auto simp: remove_scan_snd remove_result_def scan_finished_def Let_def split: option.split)

lemma wf_kbs_fold: "wf_kbs d \<Longrightarrow> wf_kbs (fold run_op ops d)"
  by (induction ops arbitrary: d) (simp_all add: wf_kbs_run_op)

lemma fold_values_distinct:
  "wf_kbs d \<Longrightarrow> distinct (map kb_value (kb_lookup k n d)) \<Longrightarrow>
    distinct (map kb_value (kb_lookup k n (fold run_op ops d)))"
proof (induction ops arbitrary: d)
  case (Cons x ops)
  have "distinct (map kb_value (kb_lookup k n (run_op x d)))"
    using kb_lookup_run_op [OF Cons.prems(1), of k n x] Cons.prems(2) by auto
  with Cons show ?case by (simp add: wf_kbs_run_op)
qed simp

lemma fold_kb_frame:
  "wf_kbs d \<Longrightarrow> \<forall>x \<in> set ops. op_key x \<noteq> k \<Longrightarrow> kb_lookup k n (fold run_op ops d) = kb_lookup k n d"
proof (induction ops arbitrary: d)
  case (Cons x ops)
  then have "kb_lookup k n (run_op x d) = kb_lookup k n d"
    using kb_lookup_run_op [of d k n x] by auto
  with Cons show ?case by (simp add: wf_kbs_run_op)
qed simp

lemma fold_results_frame:
  "\<forall>x \<in> set ops. context_key_as_ref (op_key x) \<noteq> i \<Longrightarrow> dd_results (fold run_op ops d) i = dd_results d i"
  by (induction ops arbitrary: d) (simp_all add: results_run_op)

section \<open>Properties\<close>

text \<open>In every storage state that operations can produce, the knowledge base entries under one name
  of one context have pairwise different values, however often a value was dispatched.\<close>

theorem kb_values_unique:
  "\<exists>entries. retrieve_fields key (RetrieveKB n) (fold run_op ops new_dispatcher) = Ret (map KBF entries)
    \<and> distinct (map kb_value entries)"
proof -
  have "kb_lookup key n new_dispatcher = []" by (simp add: kb_lookup_def new_dispatcher_def)
  then have "distinct (map kb_value (kb_lookup key n (fold run_op ops new_dispatcher)))"
    using fold_values_distinct [OF wf_kbs_new, of key n ops] by simp
  then show ?thesis by (auto simp: retrieve_kb)
qed


definition sample_kb :: "string \<Rightarrow> kb" where
  "sample_kb v = \<lparr>kb_key = ''Ports/tcp/22'', kb_value = PString v, kb_expire = None\<rparr>"


text \<open>Removing a scan hands out all its results and leaves none under its id, for any target; the
  knowledge base items are removed for exactly the given context, so removing the scan without naming
  a target leaves the items of all its targets in the storage.\<close>

theorem remove_scan_exact:
  assumes "wf_kbs d"
  shows "storage_results (ScanKey sid t) d = Ret (fst (remove_scan (ScanKey sid t') d))
    \<and> storage_results (ScanKey sid t) (snd (remove_scan (ScanKey sid t') d)) = Ret []
    \<and> retrieve_fields (ScanKey sid t) (RetrieveKB n) (snd (remove_scan (ScanKey sid t') d)) =
      (if t = t' then Ret [] else retrieve_fields (ScanKey sid t) (RetrieveKB n) d)"
proof -
  have m: "List.map_filter (\<lambda>x. case x of ResultF r \<Rightarrow> Some r | _ \<Rightarrow> None) (map ResultF rs) = rs" for rs
    by (induction rs) (simp_all add: List.map_filter_simps)
  have k: "kb_lookup (ScanKey sid t) n (snd (remove_scan (ScanKey sid t') d)) =
      (if t = t' then [] else kb_lookup (ScanKey sid t) n d)"
    using kb_lookup_cong [OF kbs_unchanged(4), of "ScanKey sid t" n "ScanKey sid t'" None "snd (remove_kb (ScanKey sid t') None d)"]
      inmemory_kb.lookup_remove [OF assms, of "ScanKey sid t" n "ScanKey sid t'" None]
    by (simp add: remove_scan_snd)
  have r: "fst (remove_scan (ScanKey sid t') d) = (case dd_results d sid of Some x \<Rightarrow> x | None \<Rightarrow> [])"
    by (simp add: remove_scan_def remove_result_def)
  have a: "dd_results (snd (remove_scan (ScanKey sid t') d)) sid = None"
    by (simp add: remove_scan_snd remove_result_def)
  have ret: "retrieve_fields (ScanKey sid t) (RetrieveResult None) d' =
      Ret (map ResultF (case dd_results d' sid of Some x \<Rightarrow> x | None \<Rightarrow> []))" for d'
    by (simp add: retrieve_fields_def)
  show ?thesis
    by (simp add: storage_results_def ret m r a k retrieve_kb List.map_filter_simps)
qed

theorem remove_scan_exact_witness:
  "retrieve_fields (ScanKey ''s'' (Some ''h'')) (RetrieveKB ''Ports/tcp/22'')
     (snd (remove_scan (ScanKey ''s'' None) (dispatch (ScanKey ''s'' (Some ''h'')) (KBF (sample_kb ''1'')) new_dispatcher)))
   = Ret [KBF (sample_kb ''1'')]"
proof -
  have "wf_kbs (dispatch (ScanKey ''s'' (Some ''h'')) (KBF (sample_kb ''1'')) new_dispatcher)"
    using wf_kbs_run_op [OF wf_kbs_new, of "Dispatch (ScanKey ''s'' (Some ''h'')) (KBF (sample_kb ''1''))"] by simp
  from remove_scan_exact [OF this, of "''s''" "Some ''h''" None] show ?thesis
    by (simp add: new_dispatcher_def dispatch_def cache_kb_def sample_kb_def retrieve_fields_def)
qed

subsection \<open>Description runs\<close>

text \<open>Dispatching a list of fields one after the other.\<close>

fun per_item_run :: "'s item_dispatcher \<Rightarrow> context_key \<Rightarrow> nvt_field list \<Rightarrow> ('s per_item_dispatcher, unit) fallible" where
  "per_item_run ops key [] p = (Inr (), p)"
| "per_item_run ops key (f # fs) p =
    (case per_item_dispatch 1 ops key (NVTF f) p of
       Some (Inr _, p') \<Rightarrow> per_item_run ops key fs p'
     | Some (Inl e, p') \<Rightarrow> (Inl e, p')
     | None \<Rightarrow> (Inr (), p))"

abbreviation apply_field :: "nvt_field \<Rightarrow> nvt \<Rightarrow> nvt" where
  "apply_field f n \<equiv> (case set_from_field n f of Inr n' \<Rightarrow> n' | Inl _ \<Rightarrow> n)"

abbreviation is_version :: "nvt_field \<Rightarrow> bool" where
  "is_version f \<equiv> (case f of Version _ \<Rightarrow> True | _ \<Rightarrow> False)"

lemma set_from_field_Inr: "\<not> is_version f \<Longrightarrow> \<exists>n'. set_from_field n f = Inr n'"
  by (cases f) auto

lemma unwrap_nvt_simps [simp]: "unwrap_nvt (Some n) = n" "unwrap_nvt None = default_nvt"
  by (simp_all add: unwrap_nvt_def)

lemma per_item_run_fields:
  "list_all (\<lambda>f. \<not> is_version f) fs \<Longrightarrow> fs \<noteq> [] \<Longrightarrow>
    per_item_run ops key fs p = (Inr (), p\<lparr>pi_nvt := Some (fold apply_field fs (unwrap_nvt (pi_nvt p)))\<rparr>)"
proof (induction fs arbitrary: p)
  case (Cons f fs)
  obtain n' where n': "set_from_field (unwrap_nvt (pi_nvt p)) f = Inr n'"
    using Cons.prems set_from_field_Inr by fastforce
  show ?case
  proof (cases "fs = []")
    case True
    then show ?thesis by (simp add: store_nvt_field_def n')
  next
    case False
    then show ?thesis
      using Cons by (simp add: store_nvt_field_def n')
  qed
qed simp

text \<open>A description run sends exactly one record to the storage: the fields of the script applied
  in order to an empty record; afterwards the dispatcher is ready for the next script.\<close>

theorem description_run:
  assumes "list_all (\<lambda>f. \<not> is_version f) fs" "fs \<noteq> []"
    and "dispatch_nvt ops (fold apply_field fs default_nvt) s = (Inr (), s')"
  shows "\<exists>p. per_item_run ops key fs \<lparr>pi_nvt = None, pi_dispatcher = s\<rparr> = (Inr (), p)
    \<and> per_item_on_exit ops key p = (Inr (), \<lparr>pi_nvt = None, pi_dispatcher = s'\<rparr>)"
  using assms
  by (simp add: per_item_run_fields per_item_on_exit_def on_dispatcher_def)

text \<open>An item dispatcher that passes everything on to the in-memory storage\<close>

definition inmemory_items :: "default_dispatcher item_dispatcher" where
  "inmemory_items =
    \<lparr>dispatch_nvt = \<lambda>n d. (Inr (), dispatch (FileNameKey (nvt_filename n)) (NVTF (NvtField n)) d),
     dispatch_feed_version = \<lambda>v d. (Inr (), dispatch default_context_key (NVTF (Version v)) d),
     dispatch_kb = \<lambda>k b d. (Inr (), dispatch k (KBF b) d),
     dispatch_advisory = \<lambda>k a d. (Inr (), dispatch (FileNameKey k) (NotusAdvisoryF a) d)\<rparr>"

theorem description_run_witness:
  "\<exists>p. per_item_run inmemory_items (FileNameKey ''a.nasl'') [FileName ''a.nasl'', Oid ''1'', Dependencies [''b.nasl'']]
      \<lparr>pi_nvt = None, pi_dispatcher = new_dispatcher\<rparr> = (Inr (), p)
    \<and> per_item_on_exit inmemory_items (FileNameKey ''a.nasl'') p
      = (Inr (), \<lparr>pi_nvt = None, pi_dispatcher = new_dispatcher\<lparr>dd_vts :=
          [(''a.nasl'', default_nvt\<lparr>nvt_filename := ''a.nasl'', nvt_oid := ''1'', nvt_dependencies := [''b.nasl'']\<rparr>)]\<rparr>\<rparr>)"
  by (rule description_run)
    (simp_all add: inmemory_items_def default_nvt_def new_dispatcher_def dispatch_def cache_nvt_field_def)

text \<open>A result that is dispatched through the dispatcher of a description run is never stored and
  the call never returns: no number of nested calls is enough.\<close>

theorem per_item_result_diverges:
  "per_item_dispatch calls ops key (ResultF r) p = None
    \<and> per_item_dispatch_replace calls ops key (ResultF r) p = None"
proof -
  have "per_item_dispatch calls ops key (ResultF r) p = None"
    by (induction calls) simp_all
  then show ?thesis by (simp add: per_item_dispatch_replace_def)
qed

definition nvt_keys :: "nvt_key list" where
  "nvt_keys = [KOid, KFileName, KVersion, KName, KDependencies, KRequiredKeys, KMandatoryKeys, KExcludedKeys,
     KRequiredPorts, KRequiredUdpPorts, KPreference, KReference, KCategory, KFamily, KNoOp]"

lemma fold_preferences:
  "fold apply_field (map Preference ps) n = n\<lparr>nvt_preferences := nvt_preferences n @ ps\<rparr>"
  by (induction ps arbitrary: n) simp_all

text \<open>The fields that a record is projected to, key by key, rebuild the record; a record with tags
  cannot be projected to its tags at all, the projection panics.\<close>

theorem key_as_field_roundtrip:
  "rs_bind (rs_flat_map (key_as_field n) nvt_keys) (\<lambda>fs. Ret (fold apply_field fs default_nvt)) = Ret (n\<lparr>nvt_tag := []\<rparr>)
    \<and> (key_as_field n KTag = Panic \<longleftrightarrow> nvt_tag n \<noteq> [])"
  by (simp add: nvt_keys_def default_nvt_def fold_preferences)

end
