(* ===== verification/Scheduling.thy ===== *)
theory Scheduling
  imports Storage_Dispatcher
begin

text \<open>
  Execution plans of scans: src/rust/src/scheduling/mod.rs and wave.rs.

  The tests of a scan are looked up in the storage, their dependencies are loaded transitively, and
  every test is appended to the wave plan of the stage of its category. A wave plan is a queue of
  maps from file names to tests; a test goes into the wave after the last wave of its dependencies. The order in which the
  known dependencies and the tests of a wave are iterated over is that of hash maps and not known: it is the
  parameter \<open>hash_orders\<close>, of which only \<open>valid_orders\<close> is used, that an iteration visits each entry once.

  The lemmas show that dependencies are always in an earlier wave of the same stage, that both loops
  terminate, and when appending a test fails.
\<close>

section \<open>Model\<close>

subsection \<open>Stages\<close>

datatype vt_error =
    DB storage_error | MissingDependencies nvt "string list" | InvalidStageIndex nat | VtNotFound string

datatype stage = Discovery | NonEvasive | Exhausting | EndStage

fun stage_display :: "stage \<Rightarrow> string" where
  "stage_display Discovery = ''discovery''"
| "stage_display NonEvasive = ''non_evasive''"
| "stage_display Exhausting = ''exhausting''"
| "stage_display EndStage = ''end''"

definition stage_from_nvt :: "nvt \<Rightarrow> stage" where
  "stage_from_nvt n =
    (case nvt_category n of
       Init \<Rightarrow> Discovery | Scanner \<Rightarrow> Discovery | Settings \<Rightarrow> Discovery | GatherInfo \<Rightarrow> Discovery
     | Attack \<Rightarrow> NonEvasive | MixedAttack \<Rightarrow> NonEvasive
     | DestructiveAttack \<Rightarrow> Exhausting | Denial \<Rightarrow> Exhausting | KillHost \<Rightarrow> Exhausting | Flood \<Rightarrow> Exhausting
     | End \<Rightarrow> EndStage)"

fun stage_to_usize :: "stage \<Rightarrow> nat" where
  "stage_to_usize Discovery = 0"
| "stage_to_usize NonEvasive = 1"
| "stage_to_usize Exhausting = 2"
| "stage_to_usize EndStage = 3"

definition stage_try_from :: "nat \<Rightarrow> vt_error + stage" where
  "stage_try_from i =
    (if i = 0 then Inr Discovery else if i = 1 then Inr NonEvasive else if i = 2 then Inr Exhausting
     else if i = 3 then Inr EndStage else Inl (InvalidStageIndex i))"

subsection \<open>Wave plans\<close>

record parameter =
  param_id :: nat
  param_value :: string

type_synonym runtime_vt = "nvt \<times> parameter list option"

record wave_plan =
  waves :: "(string \<times> runtime_vt) list list"
  dependencies_added :: bool

definition empty_plan :: wave_plan where
  "empty_plan = \<lparr>waves = [], dependencies_added = False\<rparr>"

abbreviation contains_key :: "('k \<times> 'v) list \<Rightarrow> 'k \<Rightarrow> bool" where
  "contains_key m k \<equiv> k \<in> set (map fst m)"

definition insert_into :: "nat \<Rightarrow> string \<Rightarrow> runtime_vt \<Rightarrow> wave_plan \<Rightarrow> wave_plan" where
  "insert_into index key element plan =
    (if length (waves plan) \<le> index then plan\<lparr>waves := waves plan @ [[(key, element)]]\<rparr>
     else plan\<lparr>waves := (waves plan)[index := AList.update key element (waves plan ! index)]\<rparr>)"

text \<open>The index of the first wave that contains a key\<close>

fun wave_of :: "(string \<times> runtime_vt) list list \<Rightarrow> string \<Rightarrow> nat option" where
  "wave_of [] n = None"
| "wave_of (w # ws) n = (if contains_key w n then Some 0 else map_option Suc (wave_of ws n))"

fun find_index_loop :: "(string \<times> runtime_vt) list list \<Rightarrow> string list \<Rightarrow> nat option \<Rightarrow> nat option" where
  "find_index_loop ws [] result = result"
| "find_index_loop ws (n # ns) result =
    (case map_option Suc (wave_of ws n) of
       Some i \<Rightarrow>
         find_index_loop ws ns (case result of Some ci \<Rightarrow> if i > ci then Some i else result | None \<Rightarrow> Some i)
     | None \<Rightarrow> None)"

definition find_index :: "wave_plan \<Rightarrow> nvt \<Rightarrow> nat option" where
  "find_index plan vt =
    (if nvt_dependencies vt = [] then Some 0 else find_index_loop (waves plan) (nvt_dependencies vt) None)"

text \<open>One pass over the unprocessed dependencies: those that can be placed are inserted, the others
  are kept.\<close>

fun place_dependencies :: "nvt list \<Rightarrow> wave_plan \<Rightarrow> nvt list \<times> wave_plan" where
  "place_dependencies [] plan = ([], plan)"
| "place_dependencies (x # xs) plan =
    (case find_index plan x of
       Some i \<Rightarrow> place_dependencies xs (insert_into i (nvt_filename x) (x, None) plan)
     | None \<Rightarrow> (case place_dependencies xs plan of (rest, plan') \<Rightarrow> (x # rest, plan')))"

lemma place_dependencies_length: "length (fst (place_dependencies xs plan)) \<le> length xs"
  by (induction xs plan rule: place_dependencies.induct) (auto split: option.split prod.split simp: le_SucI)

lemma place_dependencies_same:
  "length (fst (place_dependencies xs plan)) = length xs \<Longrightarrow>
    place_dependencies xs plan = (xs, plan) \<and> (\<forall>x \<in> set xs. find_index plan x = None)"
proof (induction xs plan rule: place_dependencies.induct)
  case (2 x xs plan)
  show ?case
  proof (cases "find_index plan x")
    case None
    with 2 show ?thesis by (auto split: prod.splits)
  next
    case (Some i)
    with 2(3) place_dependencies_length [of xs "insert_into i (nvt_filename x) (x, None) plan"]
    show ?thesis by simp
  qed
qed simp

text \<open>The passes are repeated until nothing is left or a pass changes nothing.\<close>

function place_loop :: "nvt list \<Rightarrow> wave_plan \<Rightarrow> nvt list \<times> wave_plan" where
  "place_loop unprocessed plan =
    (if unprocessed = [] then ([], plan)
     else case place_dependencies unprocessed plan of
       (rest, plan') \<Rightarrow> if unprocessed = rest then (rest, plan') else place_loop rest plan')"
  by pat_completeness auto
termination
proof (relation "measure (\<lambda>(unprocessed, plan). length unprocessed)", goal_cases)
  case (2 unprocessed plan rest plan')
  then have eq: "place_dependencies unprocessed plan = (rest, plan')" by simp
  then have "length rest \<noteq> length unprocessed"
    using place_dependencies_same [of unprocessed plan] 2(3) by auto
  with eq show ?case
    using place_dependencies_length [of unprocessed plan] by simp
qed simp

declare place_loop.simps [simp del]

definition add_dependencies :: "(string \<times> nvt) list \<Rightarrow> wave_plan \<Rightarrow> wave_plan" where
  "add_dependencies dependencies plan =
    (if dependencies_added plan then plan
     else case place_dependencies (map snd dependencies) (plan\<lparr>dependencies_added := True\<rparr>) of
       (rest, plan') \<Rightarrow> snd (place_loop rest plan'))"

definition append_vt :: "runtime_vt \<Rightarrow> (string \<times> nvt) list \<Rightarrow> wave_plan \<Rightarrow> (vt_error + unit) \<times> wave_plan" where
  "append_vt element dependencies plan0 =
    (let plan = add_dependencies dependencies plan0;
         vt = fst element
     in case find_index plan vt of
       Some i \<Rightarrow> (Inr (), insert_into i (nvt_filename vt) element plan)
     | None \<Rightarrow>
         (Inl (MissingDependencies vt
            (filter (\<lambda>x. \<not> list_ex (\<lambda>y. contains_key y x) (waves plan)) (nvt_dependencies vt))), plan))"

definition wave_next :: "wave_plan \<Rightarrow> runtime_vt list option \<times> wave_plan" where
  "wave_next plan =
    (case waves plan of
       [] \<Rightarrow> (None, plan)
     | w # ws \<Rightarrow> (Some (map snd w), plan\<lparr>waves := ws\<rparr>))"

subsection \<open>Execution plans\<close>

record execution_plan_data =
  ep_data :: "wave_plan list"
  ep_idx :: nat

text \<open>\<open>ExecutionPlanData::next\<close>; the waves of a plan are never errors.\<close>

function plan_next :: "execution_plan_data \<Rightarrow> (stage \<times> runtime_vt list) option \<times> execution_plan_data" where
  "plan_next ep =
    (case stage_try_from (ep_idx ep) of
       Inl _ \<Rightarrow> (None, ep)
     | Inr st \<Rightarrow>
         (case wave_next (ep_data ep ! ep_idx ep) of
            (None, _) \<Rightarrow> plan_next (ep\<lparr>ep_idx := ep_idx ep + 1\<rparr>)
          | (Some r, plan) \<Rightarrow> (Some (st, r), ep\<lparr>ep_data := (ep_data ep)[ep_idx ep := plan]\<rparr>)))"
  by pat_completeness auto
termination
  by (relation "measure (\<lambda>ep. 4 - ep_idx ep)") (auto simp: stage_try_from_def split: if_splits)

declare plan_next.simps [simp del]

record vt =
  vt_model_oid :: string
  vt_parameters :: "parameter list"

type_synonym vt_retrieve = "field list \<Rightarrow> storage_error + nvt list"

text \<open>The tests that were found, each with the parameters of the requested test at its position\<close>

definition requested_vts :: "vt list \<Rightarrow> nvt list \<Rightarrow> runtime_vt list" where
  "requested_vts scan_vts found =
    map (\<lambda>(i, x). (x, if i < length scan_vts then Some (vt_parameters (scan_vts ! i)) else None))
      (enumerate 0 found)"

abbreviation file_field :: "string \<Rightarrow> field" where
  "file_field f \<equiv> NVTF (FileName f)"

text \<open>One round of the loop that loads dependencies: the new unknown dependencies and the known ones\<close>

fun load_round :: "nvt list \<Rightarrow> (string \<times> nvt) list \<Rightarrow> string list \<times> (string \<times> nvt) list" where
  "load_round [] known = ([], known)"
| "load_round (x # xs) known =
    (let new = filter (\<lambda>d. \<not> contains_key known d) (nvt_dependencies x);
         (ret, known') = load_round xs (AList.update (nvt_filename x) x known)
     in (new @ ret, known'))"

fun load_dependencies ::
  "nat \<Rightarrow> vt_retrieve \<Rightarrow> string list \<Rightarrow> (string \<times> nvt) list \<Rightarrow> (storage_error + (string \<times> nvt) list) option" where
  "load_dependencies rounds retr [] known = Some (Inr known)"
| "load_dependencies 0 retr (u # us) known = None"
| "load_dependencies (Suc rounds) retr (u # us) known =
    (case retr (map file_field (u # us)) of
       Inl e \<Rightarrow> Some (Inl e)
     | Inr found \<Rightarrow> (case load_round found known of (ret, known') \<Rightarrow> load_dependencies rounds retr ret known'))"

fun append_vts :: "runtime_vt list \<Rightarrow> (string \<times> nvt) list \<Rightarrow> wave_plan list \<Rightarrow> vt_error + wave_plan list" where
  "append_vts [] known results = Inr results"
| "append_vts ((x, p) # xs) known results =
    (let s = stage_to_usize (stage_from_nvt x) in
     case append_vt (x, p) known (results ! s) of
       (Inl e, _) \<Rightarrow> Inl e
     | (Inr _, plan) \<Rightarrow> append_vts xs known (results[s := plan]))"

text \<open>The orders of iteration over a map of known dependencies and over a wave. A plan keeps its waves in the order in
  which they are iterated over, as nothing is inserted once all tests were appended.\<close>

record hash_orders =
  known_order :: "(string \<times> nvt) list \<Rightarrow> (string \<times> nvt) list"
  wave_order :: "(string \<times> runtime_vt) list \<Rightarrow> (string \<times> runtime_vt) list"

definition valid_orders :: "hash_orders \<Rightarrow> bool" where
  "valid_orders ho \<longleftrightarrow> (\<forall>m. mset (known_order ho m) = mset m) \<and> (\<forall>m. mset (wave_order ho m) = mset m)"

definition order_waves :: "hash_orders \<Rightarrow> wave_plan \<Rightarrow> wave_plan" where
  "order_waves ho plan = plan\<lparr>waves := map (wave_order ho) (waves plan)\<rparr>"

definition execution_plan ::
  "hash_orders \<Rightarrow> nat \<Rightarrow> vt_retrieve \<Rightarrow> vt list \<Rightarrow> (vt_error + execution_plan_data) option" where
  "execution_plan ho rounds retr scan_vts =
    (case retr (map (\<lambda>x. NVTF (Oid (vt_model_oid x))) scan_vts) of
       Inl e \<Rightarrow> Some (Inl (DB e))
     | Inr found \<Rightarrow>
         (case load_dependencies rounds retr (concat (map nvt_dependencies found)) [] of
            None \<Rightarrow> None
          | Some (Inl e) \<Rightarrow> Some (Inl (DB e))
          | Some (Inr known) \<Rightarrow>
              Some (case append_vts (requested_vts scan_vts found) (known_order ho known) (replicate 4 empty_plan) of
                      Inl e \<Rightarrow> Inl e
                    | Inr results \<Rightarrow> Inr \<lparr>ep_data = map (order_waves ho) results, ep_idx = 0\<rparr>)))"

section \<open>Waves respect dependencies\<close>

definition plan_keys :: "wave_plan \<Rightarrow> string set" where
  "plan_keys plan = (\<Union>w \<in> set (waves plan). fst ` set w)"

text \<open>Every entry is filed under its own file name and finds its dependencies in earlier waves.\<close>

definition waves_ordered :: "wave_plan \<Rightarrow> bool" where
  "waves_ordered plan \<longleftrightarrow>
    (\<forall>i < length (waves plan). waves plan ! i \<noteq> [] \<and>
      (\<forall>(k, v, p) \<in> set (waves plan ! i). k = nvt_filename v \<and>
        (\<forall>d \<in> set (nvt_dependencies v). \<exists>j < i. contains_key (waves plan ! j) d)))"

lemma waves_ordered_empty [simp]: "waves_ordered empty_plan"
  by (simp add: waves_ordered_def empty_plan_def)

lemma waves_orderedD:
  assumes "waves_ordered plan" "i < length (waves plan)" "(k, v, p) \<in> set (waves plan ! i)"
  shows "k = nvt_filename v \<and> (\<forall>d \<in> set (nvt_dependencies v). \<exists>j < i. contains_key (waves plan ! j) d)"
  using bspec [OF conjunct2 [OF assms(1) [unfolded waves_ordered_def, rule_format, OF assms(2)]] assms(3)] by simp

lemma waves_orderedI:
  assumes "\<And>i. i < length (waves plan) \<Longrightarrow> waves plan ! i \<noteq> []"
    and "\<And>i k v p. i < length (waves plan) \<Longrightarrow> (k, v, p) \<in> set (waves plan ! i) \<Longrightarrow>
      k = nvt_filename v \<and> (\<forall>d \<in> set (nvt_dependencies v). \<exists>j < i. contains_key (waves plan ! j) d)"
  shows "waves_ordered plan"
  unfolding waves_ordered_def
proof (intro allI impI conjI ballI)
  fix i e assume "i < length (waves plan)" "e \<in> set (waves plan ! i)"
  then show "case e of (k, v, p) \<Rightarrow> k = nvt_filename v \<and>
      (\<forall>d \<in> set (nvt_dependencies v). \<exists>j < i. contains_key (waves plan ! j) d)"
    using assms(2) [of i "fst e" "fst (snd e)" "snd (snd e)"] by (simp add: split_beta)
qed (simp add: assms(1))

lemma wave_of_Some: "wave_of ws n = Some i \<Longrightarrow> i < length ws \<and> contains_key (ws ! i) n"
  by (induction ws arbitrary: i) (auto split: if_splits)

lemma wave_of_None: "wave_of ws n = None \<longleftrightarrow> (\<forall>w \<in> set ws. \<not> contains_key w n)"
  by (induction ws) auto

lemma find_index_loop_Some:
  "find_index_loop ws ns r = Some i \<Longrightarrow>
    (\<forall>n \<in> set ns. \<exists>j < i. j < length ws \<and> contains_key (ws ! j) n) \<and>
    (case r of Some c \<Rightarrow> c \<le> i | None \<Rightarrow> True) \<and> (r = Some i \<or> i \<le> length ws)"
proof (induction ws ns r rule: find_index_loop.induct)
  case (2 ws n ns r)
  then obtain j where j: "wave_of ws n = Some j"
    by (auto split: option.splits)
  define r' where "r' = (case r of Some ci \<Rightarrow> if Suc j > ci then Some (Suc j) else r | None \<Rightarrow> Some (Suc j))"
  have "find_index_loop ws ns r' = Some i"
    using 2(2) j by (simp add: r'_def)
  moreover have "map_option Suc (wave_of ws n) = Some (Suc j)" using j by simp
  ultimately have IH: "(\<forall>n \<in> set ns. \<exists>j < i. j < length ws \<and> contains_key (ws ! j) n)"
    "(case r' of Some c \<Rightarrow> c \<le> i | None \<Rightarrow> True)" "r' = Some i \<or> i \<le> length ws"
    using 2(1) [of "Suc j"] by (auto simp: r'_def)
  have "j < i" "case r of Some c \<Rightarrow> c \<le> i | None \<Rightarrow> True" "r = Some i \<or> i \<le> length ws"
    using IH(2,3) wave_of_Some [OF j] by (auto simp: r'_def split: option.splits if_splits)
  with IH(1) wave_of_Some [OF j] show ?case by auto
qed (auto split: option.split)

lemma find_index_loop_None:
  "find_index_loop ws ns r = None \<Longrightarrow> ns = [] \<and> r = None \<or> (\<exists>n \<in> set ns. wave_of ws n = None)"
  by (induction ws ns r rule: find_index_loop.induct) (auto split: option.splits if_splits)

lemma find_index_Some:
  "find_index plan v = Some i \<Longrightarrow> i \<le> length (waves plan)
    \<and> (\<forall>d \<in> set (nvt_dependencies v). \<exists>j < i. contains_key (waves plan ! j) d)"
  using find_index_loop_Some [of "waves plan" "nvt_dependencies v" None i]
  by (fastforce simp: find_index_def split: if_splits)

lemma plan_keys_wave_of: "n \<in> plan_keys plan \<longleftrightarrow> wave_of (waves plan) n \<noteq> None"
  by (auto simp: plan_keys_def wave_of_None image_iff)

lemma find_index_None: "find_index plan v = None \<longleftrightarrow> \<not> set (nvt_dependencies v) \<subseteq> plan_keys plan"
proof
  assume "find_index plan v = None"
  then show "\<not> set (nvt_dependencies v) \<subseteq> plan_keys plan"
    using find_index_loop_None [of "waves plan" "nvt_dependencies v" None]
    by (auto simp: find_index_def plan_keys_wave_of split: if_splits)
next
  assume "\<not> set (nvt_dependencies v) \<subseteq> plan_keys plan"
  then obtain d where d: "d \<in> set (nvt_dependencies v)" "wave_of (waves plan) d = None"
    unfolding plan_keys_wave_of subset_iff by blast
  show "find_index plan v = None"
  proof (cases "find_index plan v")
    case (Some i)
    then have "i \<le> length (waves plan)" "\<exists>j < i. contains_key (waves plan ! j) d"
      using find_index_Some [OF Some] d(1) by auto
    then show ?thesis using d(2) by (auto simp: wave_of_None)
  qed simp
qed

lemma alist_update_in: "(k, v) \<in> set (AList.update k v m)"
  by (induction m) auto

lemma waves_insert_into:
  assumes "i \<le> length (waves plan)"
  shows "length (waves (insert_into i k e plan)) = (if i = length (waves plan) then Suc i else length (waves plan))"
    and "j < length (waves plan) \<Longrightarrow> fst ` set (waves plan ! j) \<subseteq> fst ` set (waves (insert_into i k e plan) ! j)"
    and "j < length (waves (insert_into i k e plan)) \<Longrightarrow>
      set (waves (insert_into i k e plan) ! j) \<subseteq> (if j = i then {(k, e)} else {}) \<union> (if j < length (waves plan) then set (waves plan ! j) else {})"
    and "(k, e) \<in> set (waves (insert_into i k e plan) ! i)"
  using assms set_alist_update_subset [of k e "waves plan ! i"]
  by (auto simp: insert_into_def nth_append AList.dom_update nth_list_update alist_update_in split: if_splits)

lemma plan_keys_nth: "plan_keys plan = (\<Union>j < length (waves plan). fst ` set (waves plan ! j))"
  unfolding plan_keys_def set_conv_nth [of "waves plan"] by blast

lemma plan_keys_insert_into:
  assumes "i \<le> length (waves plan)"
  shows "plan_keys (insert_into i k e plan) = insert k (plan_keys plan)"
proof (cases "i < length (waves plan)")
  case True
  let ?new = "waves (insert_into i k e plan)"
  have l: "length ?new = length (waves plan)" using True by (simp add: insert_into_def)
  have n: "fst ` set (?new ! j) = (if j = i then {k} else {}) \<union> fst ` set (waves plan ! j)"
    if "j < length (waves plan)" for j
    using True that by (simp add: insert_into_def nth_list_update AList.dom_update)
  have "plan_keys (insert_into i k e plan) =
      (\<Union>j < length (waves plan). (if j = i then {k} else {}) \<union> fst ` set (waves plan ! j))"
    using n by (simp add: plan_keys_nth l)
  also have "\<dots> = insert k (plan_keys plan)"
    using True by (auto simp: plan_keys_nth split: if_splits)
  finally show ?thesis .
next
  case False
  then show ?thesis using assms by (auto simp: insert_into_def plan_keys_def)
qed

lemma insert_into_ordered:
  assumes "waves_ordered plan" "find_index plan v = Some i"
  shows "waves_ordered (insert_into i (nvt_filename v) (v, p) plan)"
proof -
  let ?new = "insert_into i (nvt_filename v) (v, p) plan"
  note i = find_index_Some [OF assms(2)]
  note new = waves_insert_into [OF conjunct1 [OF i], where k = "nvt_filename v" and e = "(v, p)"]
  have mono: "contains_key (waves ?new ! j) d" if "j < length (waves plan)" "contains_key (waves plan ! j) d" for j d
    using new(2) [OF that(1)] that(2) by auto
  have "waves ?new ! j \<noteq> []" if "j < length (waves ?new)" for j
  proof (cases "j < length (waves plan)")
    case True
    then have "waves plan ! j \<noteq> []" using assms(1) by (simp add: waves_ordered_def)
    then show ?thesis using new(2) [OF True] by auto
  next
    case False
    then have "j = i" using that new(1) i by (auto split: if_splits)
    then show ?thesis using new(4) by auto
  qed
  moreover have "k = nvt_filename v' \<and> (\<forall>d \<in> set (nvt_dependencies v'). \<exists>j' < j. contains_key (waves ?new ! j') d)"
    if j: "j < length (waves ?new)" and e: "(k, v', p') \<in> set (waves ?new ! j)" for j k v' p'
  proof -
    consider "j = i" "k = nvt_filename v" "v' = v" | "j < length (waves plan)" "(k, v', p') \<in> set (waves plan ! j)"
      using subsetD [OF new(3) [OF j] e] by (cases "j = i"; cases "j < length (waves plan)"; simp; blast?)
    then show ?thesis
    proof cases
      case 1
      have "\<exists>j' < j. contains_key (waves ?new ! j') d" if d: "d \<in> set (nvt_dependencies v')" for d
      proof -
        obtain j' where j': "j' < i" "contains_key (waves plan ! j') d"
          using bspec [OF conjunct2 [OF i]] d 1(3) by blast
        moreover have "j' < length (waves plan)" using j'(1) i by simp
        ultimately show ?thesis using mono [of j' d] 1(1) by blast
      qed
      with 1 show ?thesis by simp
    next
      case 2
      then have "k = nvt_filename v' \<and> (\<forall>d \<in> set (nvt_dependencies v'). \<exists>j' < j. contains_key (waves plan ! j') d)"
        using waves_orderedD [OF assms(1)] by simp
      moreover have "contains_key (waves ?new ! j') d" if "j' < j" "contains_key (waves plan ! j') d" for j' d
        using mono that 2(1) by simp
      ultimately show ?thesis by blast
    qed
  qed
  ultimately show ?thesis by (rule waves_orderedI)
qed

lemma dependencies_added_insert_into [simp]:
  "dependencies_added (insert_into i k e plan) = dependencies_added plan"
  by (simp add: insert_into_def)

lemma place_dependencies_spec:
  "place_dependencies xs plan = (rest, plan') \<Longrightarrow> waves_ordered plan \<Longrightarrow>
    waves_ordered plan' \<and> set rest \<subseteq> set xs \<and> plan_keys plan \<subseteq> plan_keys plan'
    \<and> plan_keys plan' \<subseteq> plan_keys plan \<union> nvt_filename ` set xs
    \<and> (\<forall>x \<in> set xs. x \<in> set rest \<or> nvt_filename x \<in> plan_keys plan')
    \<and> dependencies_added plan' = dependencies_added plan"
proof (induction xs plan arbitrary: rest plan' rule: place_dependencies.induct)
  case (2 x xs plan)
  show ?case
  proof (cases "find_index plan x")
    case None
    then obtain rest' where "place_dependencies xs plan = (rest', plan')" "rest = x # rest'"
      using 2(3) by (auto split: prod.splits)
    with 2(1) [OF None] 2(4) show ?thesis by auto
  next
    case (Some i)
    let ?p = "insert_into i (nvt_filename x) (x, None) plan"
    have k: "plan_keys ?p = insert (nvt_filename x) (plan_keys plan)"
      using plan_keys_insert_into find_index_Some [OF Some] by blast
    have "place_dependencies xs ?p = (rest, plan')" using 2(3) Some by simp
    from 2(2) [OF Some this insert_into_ordered [OF 2(4) Some]] k show ?thesis
      by auto
  qed
qed auto

lemma place_loop_spec:
  "place_loop xs plan = (rest, plan') \<Longrightarrow> waves_ordered plan \<Longrightarrow>
    waves_ordered plan' \<and> set rest \<subseteq> set xs \<and> plan_keys plan \<subseteq> plan_keys plan'
    \<and> plan_keys plan' \<subseteq> plan_keys plan \<union> nvt_filename ` set xs
    \<and> (\<forall>x \<in> set xs. x \<in> set rest \<or> nvt_filename x \<in> plan_keys plan')
    \<and> dependencies_added plan' = dependencies_added plan
    \<and> (\<forall>x \<in> set rest. find_index plan' x = None)"
proof (induction xs plan arbitrary: rest plan' rule: place_loop.induct)
  case (1 xs plan)
  obtain rest1 plan1 where p: "place_dependencies xs plan = (rest1, plan1)" by fastforce
  note s = place_dependencies_spec [OF p 1(3)]
  consider "xs = []" | "xs \<noteq> []" "rest1 = xs" | "xs \<noteq> []" "rest1 \<noteq> xs" by blast
  then show ?case
  proof cases
    case 1
    then show ?thesis using "1.prems" by (simp add: place_loop.simps)
  next
    case 2
    then have "(rest, plan') = (xs, plan1)" using "1.prems"(1) p by (simp add: place_loop.simps)
    moreover have "\<forall>x \<in> set xs. find_index plan x = None" "plan1 = plan"
      using place_dependencies_same [of xs plan] p 2 by auto
    ultimately show ?thesis using s by auto
  next
    case 3
    then have "place_loop rest1 plan1 = (rest, plan')"
      using "1.prems"(1) p by (simp add: place_loop.simps [of xs])
    with 3 p s have "waves_ordered plan' \<and> set rest \<subseteq> set rest1 \<and> plan_keys plan1 \<subseteq> plan_keys plan'
      \<and> plan_keys plan' \<subseteq> plan_keys plan1 \<union> nvt_filename ` set rest1
      \<and> (\<forall>x \<in> set rest1. x \<in> set rest \<or> nvt_filename x \<in> plan_keys plan')
      \<and> dependencies_added plan' = dependencies_added plan1
      \<and> (\<forall>x \<in> set rest. find_index plan' x = None)"
      using "1.IH" [of rest1 plan1] by auto
    with s show ?thesis by (meson subset_iff Un_iff image_mono order_trans sup.mono)
  qed
qed

lemma add_dependencies_spec:
  assumes "waves_ordered plan"
  shows "waves_ordered (add_dependencies deps plan) \<and> dependencies_added (add_dependencies deps plan)
    \<and> plan_keys plan \<subseteq> plan_keys (add_dependencies deps plan)"
proof (cases "dependencies_added plan")
  case True
  then show ?thesis using assms by (simp add: add_dependencies_def)
next
  case False
  let ?p = "plan\<lparr>dependencies_added := True\<rparr>"
  obtain rest1 plan1 where p1: "place_dependencies (map snd deps) ?p = (rest1, plan1)" by fastforce
  obtain rest plan' where p2: "place_loop rest1 plan1 = (rest, plan')" by fastforce
  have "waves_ordered ?p" "plan_keys ?p = plan_keys plan"
    using assms by (simp_all add: waves_ordered_def plan_keys_def)
  with place_dependencies_spec [OF p1] place_loop_spec [OF p2]
  have "waves_ordered plan'" "dependencies_added plan'" "plan_keys plan \<subseteq> plan_keys plan'"
    by auto
  then show ?thesis using False p1 p2 by (simp add: add_dependencies_def)
qed

text \<open>A set of dependencies is closed and acyclic when a rank decreases along it.\<close>

definition ranked :: "(nvt \<Rightarrow> nat) \<Rightarrow> nvt set \<Rightarrow> bool" where
  "ranked rank D \<longleftrightarrow>
    (\<forall>x \<in> D. \<forall>d \<in> set (nvt_dependencies x). \<exists>y \<in> D. nvt_filename y = d \<and> rank y < rank x)"

lemma add_dependencies_complete:
  assumes "waves_ordered plan" "\<not> dependencies_added plan" "ranked rank (snd ` set deps)"
  shows "nvt_filename ` snd ` set deps \<subseteq> plan_keys (add_dependencies deps plan)"
proof -
  let ?p = "plan\<lparr>dependencies_added := True\<rparr>"
  obtain rest1 plan1 where p1: "place_dependencies (map snd deps) ?p = (rest1, plan1)" by fastforce
  obtain rest plan' where p2: "place_loop rest1 plan1 = (rest, plan')" by fastforce
  have o: "waves_ordered ?p" using assms(1) by (simp add: waves_ordered_def)
  note s1 = place_dependencies_spec [OF p1 o]
  have "waves_ordered plan1" using s1 by blast
  note s2 = place_loop_spec [OF p2 this]
  have placed: "x \<in> set rest \<or> nvt_filename x \<in> plan_keys plan'" if x: "x \<in> snd ` set deps" for x
  proof -
    have "x \<in> set rest1 \<or> nvt_filename x \<in> plan_keys plan1" using s1 x by auto
    then show ?thesis using s2 by blast
  qed
  have "set rest = {}"
  proof (rule ccontr)
    assume "set rest \<noteq> {}"
    then obtain x0 where "x0 \<in> set rest" by (metis all_not_in_conv)
    then obtain x where x: "x \<in> set rest" "\<forall>y \<in> set rest. rank x \<le> rank y"
      using ex_has_least_nat [of "\<lambda>y. y \<in> set rest" x0 rank] by blast
    then have xd: "x \<in> snd ` set deps" using s1 s2 by auto
    have "find_index plan' x = None" using s2 x(1) by blast
    then obtain d where d: "d \<in> set (nvt_dependencies x)" "d \<notin> plan_keys plan'"
      by (auto simp: find_index_None)
    then obtain y where y: "y \<in> snd ` set deps" "nvt_filename y = d" "rank y < rank x"
      using assms(3) xd unfolding ranked_def by blast
    then have "y \<in> set rest" using placed d(2) by blast
    with x(2) y(3) show False by (meson not_le)
  qed
  then have "nvt_filename ` snd ` set deps \<subseteq> plan_keys plan'" using placed by auto
  then show ?thesis using assms(2) p1 p2 by (simp add: add_dependencies_def)
qed

lemma append_vt_ordered:
  assumes "append_vt e deps plan = (r, plan')" "waves_ordered plan"
  shows "waves_ordered plan' \<and> plan_keys plan \<subseteq> plan_keys plan' \<and> dependencies_added plan'"
proof -
  let ?p = "add_dependencies deps plan"
  note s = add_dependencies_spec [OF assms(2), of deps]
  show ?thesis
  proof (cases "find_index ?p (fst e)")
    case None
    then show ?thesis using assms(1) s by (auto simp: append_vt_def Let_def)
  next
    case (Some i)
    then have "plan' = insert_into i (nvt_filename (fst e)) e ?p"
      using assms(1) by (simp add: append_vt_def Let_def)
    moreover have "waves_ordered (insert_into i (nvt_filename (fst e)) (fst e, snd e) ?p)"
      using s Some by (intro insert_into_ordered) simp_all
    moreover have "plan_keys (insert_into i (nvt_filename (fst e)) e ?p) = insert (nvt_filename (fst e)) (plan_keys ?p)"
      using find_index_Some [OF Some] by (intro plan_keys_insert_into) simp
    ultimately show ?thesis using s by auto
  qed
qed

lemma append_vt_missing:
  "append_vt e deps plan = (Inl err, plan') \<Longrightarrow>
    err = MissingDependencies (fst e) (filter (\<lambda>d. d \<notin> plan_keys plan') (nvt_dependencies (fst e)))
    \<and> filter (\<lambda>d. d \<notin> plan_keys plan') (nvt_dependencies (fst e)) \<noteq> []"
proof -
  let ?p = "add_dependencies deps plan"
  assume a: "append_vt e deps plan = (Inl err, plan')"
  then have n: "find_index ?p (fst e) = None" "plan' = ?p"
    by (auto simp: append_vt_def Let_def split: option.splits)
  have "\<not> list_ex (\<lambda>y. contains_key y x) (waves plan') \<longleftrightarrow> x \<notin> plan_keys plan'" for x
    by (auto simp: list_ex_iff plan_keys_def)
  with a n(1) have "err = MissingDependencies (fst e) (filter (\<lambda>d. d \<notin> plan_keys plan') (nvt_dependencies (fst e)))"
    by (simp add: append_vt_def Let_def n(2))
  moreover have "filter (\<lambda>d. d \<notin> plan_keys plan') (nvt_dependencies (fst e)) \<noteq> []"
    using n by (auto simp: find_index_None filter_empty_conv)
  ultimately show ?thesis by simp
qed

section \<open>The order of execution\<close>

definition stage_at :: "nat \<Rightarrow> stage" where
  "stage_at i = (if i = 0 then Discovery else if i = 1 then NonEvasive else if i = 2 then Exhausting else EndStage)"

text \<open>What an execution plan still yields: the waves of the remaining stages.\<close>

definition plan_items :: "execution_plan_data \<Rightarrow> (stage \<times> runtime_vt list) list" where
  "plan_items ep =
    concat (map (\<lambda>i. map (\<lambda>w. (stage_at i, map snd w)) (waves (ep_data ep ! i))) [ep_idx ep..<4])"

fun collect_plan :: "nat \<Rightarrow> execution_plan_data \<Rightarrow> (stage \<times> runtime_vt list) list" where
  "collect_plan 0 ep = []"
| "collect_plan (Suc n) ep =
    (case plan_next ep of (None, _) \<Rightarrow> [] | (Some x, ep') \<Rightarrow> x # collect_plan n ep')"

lemma plan_next_items:
  "length (ep_data ep) = 4 \<Longrightarrow> ep_idx ep \<le> 4 \<Longrightarrow> plan_next ep = (r, ep') \<Longrightarrow>
    (case r of None \<Rightarrow> plan_items ep = [] | Some x \<Rightarrow> plan_items ep = x # plan_items ep')
    \<and> length (ep_data ep') = 4 \<and> ep_idx ep' \<le> 4"
proof (induction ep rule: plan_next.induct)
  case (1 ep)
  show ?case
  proof (cases "ep_idx ep < 4")
    case False
    then have "stage_try_from (ep_idx ep) = Inl (InvalidStageIndex (ep_idx ep))" "ep_idx ep = 4"
      using 1(3) by (auto simp: stage_try_from_def)
    then show ?thesis using 1(2,4) by (auto simp: plan_next.simps [of ep] plan_items_def)
  next
    case True
    then have st: "stage_try_from (ep_idx ep) = Inr (stage_at (ep_idx ep))"
      by (auto simp: stage_try_from_def stage_at_def)
    have r: "[ep_idx ep..<4] = ep_idx ep # [Suc (ep_idx ep)..<4]"
      using True by (simp add: upt_conv_Cons)
    show ?thesis
    proof (cases "waves (ep_data ep ! ep_idx ep)")
      case Nil
      then have w: "wave_next (ep_data ep ! ep_idx ep) = (None, ep_data ep ! ep_idx ep)"
        by (simp add: wave_next_def)
      then have "plan_next (ep\<lparr>ep_idx := ep_idx ep + 1\<rparr>) = (r, ep')"
        using 1(4) by (simp add: plan_next.simps [of ep] st)
      moreover have "plan_items ep = plan_items (ep\<lparr>ep_idx := ep_idx ep + 1\<rparr>)"
        using Nil by (simp add: plan_items_def r)
      ultimately show ?thesis
        using 1(1) [OF st w [symmetric] refl] 1(2) True by (cases r) simp_all
    next
      case (Cons w ws)
      let ?p = "(ep_data ep ! ep_idx ep)\<lparr>waves := ws\<rparr>"
      have "plan_next ep = (Some (stage_at (ep_idx ep), map snd w), ep\<lparr>ep_data := (ep_data ep)[ep_idx ep := ?p]\<rparr>)"
        by (simp add: plan_next.simps [of ep] st wave_next_def Cons)
      with 1(4) have e: "r = Some (stage_at (ep_idx ep), map snd w)" "ep' = ep\<lparr>ep_data := (ep_data ep)[ep_idx ep := ?p]\<rparr>"
        by simp_all
      have m: "map (\<lambda>i. map (\<lambda>w. (stage_at i, map snd w)) (waves ((ep_data ep)[ep_idx ep := ?p] ! i))) [Suc (ep_idx ep)..<4]
          = map (\<lambda>i. map (\<lambda>w. (stage_at i, map snd w)) (waves (ep_data ep ! i))) [Suc (ep_idx ep)..<4]"
        by (rule map_cong) auto
      show ?thesis using e 1(2) True by (simp add: plan_items_def r Cons m del: map_eq_conv)
    qed
  qed
qed

lemma collect_plan_items:
  "length (ep_data ep) = 4 \<Longrightarrow> ep_idx ep \<le> 4 \<Longrightarrow> length (plan_items ep) < n \<Longrightarrow> collect_plan n ep = plan_items ep"
proof (induction n arbitrary: ep)
  case (Suc n)
  obtain r ep' where n: "plan_next ep = (r, ep')" by fastforce
  from plan_next_items [OF Suc.prems(1,2) n] Suc n show ?case
    by (cases r) simp_all
qed simp

lemma append_vts_ordered:
  "append_vts xs known results = Inr results' \<Longrightarrow> list_all waves_ordered results \<Longrightarrow> length results = 4 \<Longrightarrow>
    list_all waves_ordered results' \<and> length results' = 4"
proof (induction xs known results rule: append_vts.induct)
  case (2 x p xs known results)
  let ?s = "stage_to_usize (stage_from_nvt x)"
  have s: "?s < 4" by (cases "stage_from_nvt x") simp_all
  obtain plan where a: "append_vt (x, p) known (results ! ?s) = (Inr (), plan)"
    and rest: "append_vts xs known (results[?s := plan]) = Inr results'"
    using 2(2) by (auto simp: Let_def split: prod.splits sum.splits)
  have "waves_ordered (results ! ?s)" using 2(3,4) s by (simp add: list_all_length)
  then have "waves_ordered plan" using append_vt_ordered [OF a] by blast
  then have "list_all waves_ordered (results[?s := plan])"
    using 2(3,4) s by (simp add: list_all_length nth_list_update)
  with 2(1) [OF refl a [symmetric] refl rest] 2(4) show ?case by simp
qed simp

lemma concat_map_split:
  "concat (map f xs) = before @ x # after \<Longrightarrow>
    \<exists>pre i post a b. xs = pre @ i # post \<and> f i = a @ x # b \<and> before = concat (map f pre) @ a"
proof (induction xs arbitrary: before)
  case (Cons j xs)
  from Cons.prems consider us where "f j = before @ us" "us @ concat (map f xs) = x # after"
    | us where "before = f j @ us" "concat (map f xs) = us @ x # after"
    by (auto simp: append_eq_append_conv2)
  then show ?case
  proof cases
    case (1 us)
    show ?thesis
    proof (cases us)
      case Nil
      with 1 Cons.IH [of "[]"] obtain pre i post a b where
        "xs = pre @ i # post" "f i = a @ x # b" "[] = concat (map f pre) @ a" by auto
      then show ?thesis using 1 Nil by (intro exI [of _ "j # pre"]) auto
    next
      case (Cons y ys)
      with 1 show ?thesis by (intro exI [of _ "[]"]) auto
    qed
  next
    case (2 us)
    with Cons.IH [of us] obtain pre i post a b where
      "xs = pre @ i # post" "f i = a @ x # b" "us = concat (map f pre) @ a" by auto
    then show ?thesis using 2 by (intro exI [of _ "j # pre"]) auto
  qed
qed simp

text \<open>An item is preceded by the items of the earlier waves of its stage.\<close>

lemma plan_items_split:
  assumes ord: "list_all waves_ordered (ep_data ep)" and len: "length (ep_data ep) = 4"
    and items: "plan_items ep = before @ (st, ws) # after"
    and v: "(v, p) \<in> set ws" "d \<in> set (nvt_dependencies v)"
  shows "\<exists>ws' v' p'. (st, ws') \<in> set before \<and> (v', p') \<in> set ws' \<and> nvt_filename v' = d"
proof -
  from concat_map_split [OF items [unfolded plan_items_def]] obtain pre i post a b where
    i: "[ep_idx ep..<4] = pre @ i # post"
      "map (\<lambda>w. (stage_at i, map snd w)) (waves (ep_data ep ! i)) = a @ (st, ws) # b"
    and before: "set a \<subseteq> set before" by auto
  have "i \<in> set [ep_idx ep..<4]" by (simp only: i(1)) simp
  then have o: "waves_ordered (ep_data ep ! i)" using ord len by (simp add: list_all_length)
  from i(2) obtain A w B where w: "waves (ep_data ep ! i) = A @ w # B" "st = stage_at i" "ws = map snd w"
    and a: "a = map (\<lambda>w. (stage_at i, map snd w)) A"
    by (auto simp: map_eq_append_conv)
  obtain k where k: "(k, v, p) \<in> set w" using v(1) w(3) by auto
  have "\<exists>j < length A. contains_key (waves (ep_data ep ! i) ! j) d"
    using waves_orderedD [OF o, of "length A" k v p] k w(1) v(2) by simp
  then obtain j v' p' where j: "j < length A" "(d, v', p') \<in> set (A ! j)"
    by (auto simp: w(1) nth_append)
  then have "d = nvt_filename v'" using waves_orderedD [OF o, of j d v' p'] w(1) by (simp add: nth_append)
  moreover have "(st, map snd (A ! j)) \<in> set before"
    using before j(1) w(2) a by auto
  moreover have "(v', p') \<in> set (map snd (A ! j))" using j(2) by force
  ultimately show ?thesis by blast
qed

lemma stage_at_mono: "i \<le> j \<Longrightarrow> stage_to_usize (stage_at i) \<le> stage_to_usize (stage_at j)"
  by (simp add: stage_at_def)

lemma plan_items_stages_sorted: "sorted (map (stage_to_usize \<circ> fst) (plan_items ep))"
proof -
  let ?f = "\<lambda>j. map (\<lambda>w. (stage_at j, map snd w)) (waves (ep_data ep ! j))"
  have "sorted (map (stage_to_usize \<circ> fst) (concat (map ?f [i..<4])))" for i
  proof (induction "4 - i" arbitrary: i)
    case 0
    then show ?case by simp
  next
    case (Suc n)
    then have r: "[i..<4] = i # [Suc i..<4]" by (simp add: upt_conv_Cons)
    have "sorted (map (stage_to_usize \<circ> fst) (concat (map ?f [Suc i..<4])))"
      using Suc by simp
    moreover have "sorted (map (stage_to_usize \<circ> fst) (?f i))"
      by (simp add: sorted_wrt_map sorted_wrt_iff_nth_less)
    ultimately show ?case
      by (auto simp: r sorted_append intro: stage_at_mono simp del: sorted_map)
  qed
  then show ?thesis by (simp add: plan_items_def)
qed

section \<open>Loading dependencies\<close>

lemma load_round_spec:
  "load_round found known = (ret, known') \<Longrightarrow>
    fst ` set known' = fst ` set known \<union> nvt_filename ` set found
    \<and> set known' \<subseteq> set known \<union> (\<lambda>x. (nvt_filename x, x)) ` set found
    \<and> (\<forall>x \<in> set found. set (nvt_dependencies x) \<subseteq> fst ` set known' \<union> set ret)
    \<and> set ret \<subseteq> (\<Union>x \<in> set found. set (nvt_dependencies x)) - fst ` set known"
proof (induction found known arbitrary: ret known' rule: load_round.induct)
  case (2 x xs known)
  let ?known = "AList.update (nvt_filename x) x known"
  obtain ret' where l: "load_round xs ?known = (ret', known')"
    and ret: "ret = filter (\<lambda>d. \<not> contains_key known d) (nvt_dependencies x) @ ret'"
    using 2(2) by (auto simp: Let_def split: prod.splits)
  note IH = 2(1) [OF refl l]
  note IH1 = conjunct1 [OF IH] and IH2 = conjunct1 [OF conjunct2 [OF IH]]
    and IH3 = bspec [OF conjunct1 [OF conjunct2 [OF conjunct2 [OF IH]]]]
    and IH4 = conjunct2 [OF conjunct2 [OF conjunct2 [OF IH]]]
  have k: "fst ` set ?known = insert (nvt_filename x) (fst ` set known)" by (simp add: AList.dom_update)
  have k': "fst ` set known' = fst ` set known \<union> nvt_filename ` set (x # xs)" using IH1 k by simp
  moreover have "set known' \<subseteq> set known \<union> (\<lambda>x. (nvt_filename x, x)) ` set (x # xs)"
    using IH2 set_alist_update_subset [of "nvt_filename x" x known] by auto
  moreover have "set (nvt_dependencies y) \<subseteq> fst ` set known' \<union> set ret" if y: "y \<in> set (x # xs)" for y
  proof (cases "y \<in> set xs")
    case True
    then show ?thesis using IH3 [OF True] by (auto simp: ret)
  next
    case False
    then have "y = x" using y by simp
    moreover have "set (nvt_dependencies x) \<subseteq> fst ` set known \<union> set ret" by (auto simp: ret)
    ultimately show ?thesis using k' by blast
  qed
  moreover have "set ret \<subseteq> (\<Union>x \<in> set (x # xs). set (nvt_dependencies x)) - fst ` set known"
    using IH4 k by (auto simp: ret)
  ultimately show ?case by blast
qed simp

text \<open>A storage that answers a query with the stored tests that match one of the fields\<close>

locale vt_retriever =
  fixes retr :: vt_retrieve and store :: "nvt list"
  assumes retr: "retr fs = Inr (filter (\<lambda>n. matches_any_field n fs) store)"
begin

lemma retr_files: "retr (map file_field us) = Inr (filter (\<lambda>n. nvt_filename n \<in> set us) store)"
  by (auto simp: retr matches_any_field_def list_ex_iff intro: filter_cong)

text \<open>The dependencies of known tests are known, about to be loaded, or not stored at all.\<close>

lemma load_dependencies_spec:
  assumes "card (nvt_filename ` set store - fst ` set known) + 2 \<le> rounds"
    and "\<forall>n \<in> set store. nvt_filename n \<in> fst ` set known \<longrightarrow>
      set (nvt_dependencies n) \<subseteq> fst ` set known \<union> set us \<union> - nvt_filename ` set store"
    and "\<forall>(k, v) \<in> set known. v \<in> set store \<and> k = nvt_filename v"
  shows "\<exists>known'. load_dependencies rounds retr us known = Some (Inr known')
    \<and> fst ` set known \<union> set us \<inter> nvt_filename ` set store \<subseteq> fst ` set known'
    \<and> (\<forall>n \<in> set store. nvt_filename n \<in> fst ` set known' \<longrightarrow>
        set (nvt_dependencies n) \<subseteq> fst ` set known' \<union> - nvt_filename ` set store)
    \<and> (\<forall>(k, v) \<in> set known'. v \<in> set store \<and> k = nvt_filename v)"
  using assms
proof (induction rounds arbitrary: us known)
  case (Suc rounds)
  let ?files = "nvt_filename ` set store" and ?found = "filter (\<lambda>n. nvt_filename n \<in> set us) store"
  obtain ret known1 where l: "load_round ?found known = (ret, known1)" by fastforce
  note s = load_round_spec [OF l]
  have k1: "fst ` set known1 = fst ` set known \<union> set us \<inter> ?files" using s by auto
  have inv1: "\<forall>n \<in> set store. nvt_filename n \<in> fst ` set known1 \<longrightarrow>
      set (nvt_dependencies n) \<subseteq> fst ` set known1 \<union> set ret \<union> - ?files"
  proof (intro ballI impI)
    fix n assume n: "n \<in> set store" "nvt_filename n \<in> fst ` set known1"
    show "set (nvt_dependencies n) \<subseteq> fst ` set known1 \<union> set ret \<union> - ?files"
    proof (cases "nvt_filename n \<in> set us")
      case True
      then have "n \<in> set ?found" using n(1) by simp
      then show ?thesis using s by blast
    next
      case False
      then have "set (nvt_dependencies n) \<subseteq> fst ` set known \<union> set us \<union> - ?files"
        using Suc.prems(2) n k1 by auto
      then show ?thesis unfolding k1 by blast
    qed
  qed
  have wf1: "\<forall>(k, v) \<in> set known1. v \<in> set store \<and> k = nvt_filename v"
  proof
    fix e assume "e \<in> set known1"
    then have "e \<in> set known \<or> e \<in> (\<lambda>x. (nvt_filename x, x)) ` set ?found"
      using conjunct1 [OF conjunct2 [OF s]] by blast
    then show "case e of (k, v) \<Rightarrow> v \<in> set store \<and> k = nvt_filename v"
      using Suc.prems(3) by auto
  qed
  have step: "load_dependencies (Suc rounds) retr us known = load_dependencies rounds retr ret known1" if "us \<noteq> []"
    using that l retr_files [of us] by (cases us) (auto simp: split_beta)
  show ?case
  proof (cases "us = []")
    case True
    then show ?thesis using Suc.prems by auto
  next
    case False
    show ?thesis
    proof (cases "set us \<inter> ?files \<subseteq> fst ` set known")
      case True
      have "set ret \<inter> ?files = {}"
      proof -
        have "d \<notin> ?files" if d: "d \<in> set ret" for d
        proof -
          obtain x where x: "x \<in> set store" "nvt_filename x \<in> set us" "d \<in> set (nvt_dependencies x)" "d \<notin> fst ` set known"
            using subsetD [OF conjunct2 [OF conjunct2 [OF conjunct2 [OF s]]] d] by auto
          then have "d \<in> fst ` set known \<union> set us \<union> - ?files"
            using Suc.prems(2) True by blast
          with x(4) True show ?thesis by blast
        qed
        then show ?thesis by blast
      qed
      then have e: "filter (\<lambda>n. nvt_filename n \<in> set ret) store = []" by (auto simp: filter_empty_conv)
      obtain r where r: "rounds = Suc r" using Suc.prems(1) by (cases rounds) auto
      have "load_dependencies rounds retr ret known1 = Some (Inr known1)"
        using retr_files [of ret] e r by (cases ret) simp_all
      moreover have "set (nvt_dependencies n) \<subseteq> fst ` set known1 \<union> - ?files"
        if "n \<in> set store" "nvt_filename n \<in> fst ` set known1" for n
        using inv1 that \<open>set ret \<inter> ?files = {}\<close> by blast
      ultimately show ?thesis using step [OF False] k1 wf1 by auto
    next
      case not_sub: False
      have "card (?files - fst ` set known1) < card (?files - fst ` set known)"
        using not_sub k1 by (intro psubset_card_mono) auto
      then have "card (?files - fst ` set known1) + 2 \<le> rounds" using Suc.prems(1) by simp
      from Suc.IH [OF this inv1 wf1] show ?thesis using step [OF False] k1 by auto
    qed
  qed
qed simp

end

definition inmemory_retrieve :: "default_dispatcher \<Rightarrow> vt_retrieve" where
  "inmemory_retrieve d fs =
    (case retrieve_by_fields fs (RetrieveNVT None) d of
       Ret xs \<Rightarrow> Inr (List.map_filter (\<lambda>x. case snd x of NVTF (NvtField n) \<Rightarrow> Some n | _ \<Rightarrow> None) xs)
     | Panic \<Rightarrow> Inr [])"

lemma map_filter_nvt: "List.map_filter (\<lambda>x. case snd x of NVTF (NvtField n) \<Rightarrow> Some n | _ \<Rightarrow> None)
    (map (\<lambda>x. (f x, NVTF (NvtField x))) xs) = xs"
  by (induction xs) (simp_all add: List.map_filter_simps)

interpretation inmemory_vts: vt_retriever "inmemory_retrieve d" "all_vts d" for d
  by unfold_locales (simp add: inmemory_retrieve_def retrieve_by_fields_def map_filter_nvt)

text \<open>The plans of the stages, while tests are appended: ordered, and complete for the known
  dependencies as soon as they were added.\<close>

definition plan_complete :: "(string \<times> nvt) list \<Rightarrow> wave_plan \<Rightarrow> bool" where
  "plan_complete known plan \<longleftrightarrow> waves_ordered plan \<and>
    (dependencies_added plan \<longrightarrow> nvt_filename ` snd ` set known \<subseteq> plan_keys plan)"

lemma append_vt_complete:
  assumes "plan_complete known plan" "ranked rank (snd ` set known)"
    and "set (nvt_dependencies x) \<subseteq> nvt_filename ` snd ` set known"
  shows "\<exists>plan'. append_vt (x, p) known plan = (Inr (), plan') \<and> plan_complete known plan'
    \<and> nvt_filename x \<in> plan_keys plan' \<and> plan_keys plan \<subseteq> plan_keys plan'"
proof -
  let ?p = "add_dependencies known plan"
  have o: "waves_ordered plan" using assms(1) by (simp add: plan_complete_def)
  have k: "nvt_filename ` snd ` set known \<subseteq> plan_keys ?p"
  proof (cases "dependencies_added plan")
    case True
    then show ?thesis using assms(1) by (simp add: plan_complete_def add_dependencies_def)
  next
    case False
    then show ?thesis by (rule add_dependencies_complete [OF o _ assms(2)])
  qed
  with assms(3) have "find_index ?p x \<noteq> None" by (simp add: find_index_None)
  then obtain i where i: "find_index ?p x = Some i" by auto
  let ?q = "insert_into i (nvt_filename x) (x, p) ?p"
  have a: "append_vt (x, p) known plan = (Inr (), ?q)" by (simp add: append_vt_def Let_def i)
  have q: "plan_keys ?q = insert (nvt_filename x) (plan_keys ?p)"
    using find_index_Some [OF i] by (intro plan_keys_insert_into) simp
  have "plan_complete known ?q"
    using append_vt_ordered [OF a o] q k by (auto simp: plan_complete_def)
  moreover have "plan_keys plan \<subseteq> plan_keys ?q"
    using add_dependencies_spec [OF o, of known] q by blast
  ultimately show ?thesis using a q by blast
qed

lemma append_vts_complete:
  assumes "ranked rank (snd ` set known)"
    and "\<forall>(x, p) \<in> set xs. set (nvt_dependencies x) \<subseteq> nvt_filename ` snd ` set known"
    and "list_all (plan_complete known) results" "length results = 4"
  shows "\<exists>results'. append_vts xs known results = Inr results'
    \<and> (\<forall>(x, p) \<in> set xs. nvt_filename x \<in> plan_keys (results' ! stage_to_usize (stage_from_nvt x)))
    \<and> (\<forall>i < 4. plan_keys (results ! i) \<subseteq> plan_keys (results' ! i))"
  using assms(2-)
proof (induction xs arbitrary: results)
  case (Cons xp xs)
  obtain x p where xp: "xp = (x, p)" by fastforce
  let ?s = "stage_to_usize (stage_from_nvt x)"
  have s: "?s < 4" by (cases "stage_from_nvt x") simp_all
  have c: "plan_complete known (results ! ?s)" using Cons.prems s by (simp add: list_all_length)
  obtain plan where plan: "append_vt (x, p) known (results ! ?s) = (Inr (), plan)" "plan_complete known plan"
      "nvt_filename x \<in> plan_keys plan" "plan_keys (results ! ?s) \<subseteq> plan_keys plan"
    using append_vt_complete [OF c assms(1), of x p] Cons.prems(1) xp by auto
  have "list_all (plan_complete known) (results[?s := plan])"
    using Cons.prems plan(2) s by (simp add: list_all_length nth_list_update)
  with Cons.IH [of "results[?s := plan]"] Cons.prems obtain results' where
    r: "append_vts xs known (results[?s := plan]) = Inr results'"
      "\<forall>(x, p) \<in> set xs. nvt_filename x \<in> plan_keys (results' ! stage_to_usize (stage_from_nvt x))"
      "\<forall>i < 4. plan_keys (results[?s := plan] ! i) \<subseteq> plan_keys (results' ! i)" by auto
  have mono: "plan_keys (results ! i) \<subseteq> plan_keys (results' ! i)" if "i < 4" for i
  proof -
    have "plan_keys (results ! i) \<subseteq> plan_keys (results[?s := plan] ! i)"
      using that plan(4) Cons.prems(3) by (cases "i = ?s") (simp_all add: nth_list_update)
    then show ?thesis using r(3) that by blast
  qed
  have "nvt_filename x \<in> plan_keys (results' ! ?s)"
    using spec [OF r(3), of ?s] s plan(3) Cons.prems(3) by auto
  then show ?case using r(1,2) mono plan(1) xp by (auto simp: Let_def)
qed simp

lemma plan_keys_items:
  assumes "list_all waves_ordered (ep_data ep)" "length (ep_data ep) = 4" "ep_idx ep = 0"
    and "f \<in> plan_keys (ep_data ep ! stage_to_usize st)"
  shows "\<exists>ws v p. (st, ws) \<in> set (plan_items ep) \<and> (v, p) \<in> set ws \<and> nvt_filename v = f"
proof -
  let ?i = "stage_to_usize st"
  have i: "?i < 4" "stage_at ?i = st" by (cases st; simp add: stage_at_def)+
  obtain w v p where w: "w \<in> set (waves (ep_data ep ! ?i))" "(f, v, p) \<in> set w"
    using assms(4) by (auto simp: plan_keys_def)
  then obtain j where j: "j < length (waves (ep_data ep ! ?i))" "w = waves (ep_data ep ! ?i) ! j"
    by (auto simp: in_set_conv_nth)
  have "waves_ordered (ep_data ep ! ?i)" using assms(1,2) i(1) by (simp add: list_all_length)
  from waves_orderedD [OF this j(1)] j(2) w(2) have "f = nvt_filename v" by blast
  moreover have "(st, map snd w) \<in> set (plan_items ep)"
    using w(1) i assms(3) by (auto simp: plan_items_def intro!: bexI [of _ ?i])
  moreover have "(v, p) \<in> set (map snd w)" using w(2) by force
  ultimately show ?thesis by blast
qed

lemma valid_orders_set:
  assumes "valid_orders ho"
  shows "set (known_order ho m) = set m" "set (wave_order ho w) = set w"
  using assms by (metis valid_orders_def set_mset_mset)+

lemma order_waves_ordered:
  assumes "valid_orders ho" "waves_ordered plan"
  shows "waves_ordered (order_waves ho plan)" "plan_keys (order_waves ho plan) = plan_keys plan"
proof -
  note s = valid_orders_set(2) [OF assms(1)]
  have ne: "wave_order ho w = [] \<longleftrightarrow> w = []" for w using s [of w] by (metis set_empty)
  show "waves_ordered (order_waves ho plan)"
    unfolding waves_ordered_def
  proof (intro allI impI conjI ballI, goal_cases)
    case (1 i)
    then show ?case using assms(2) ne by (simp add: order_waves_def waves_ordered_def)
  next
    case (2 i e)
    obtain k v p where e: "e = (k, v, p)" by (cases e)
    have i: "i < length (waves plan)" "(k, v, p) \<in> set (waves plan ! i)" using 2 s e by (simp_all add: order_waves_def)
    have "\<exists>j < i. contains_key (waves (order_waves ho plan) ! j) d" if "d \<in> set (nvt_dependencies v)" for d
    proof -
      obtain j where "j < i" "contains_key (waves plan ! j) d" using waves_orderedD [OF assms(2) i] \<open>d \<in> set (nvt_dependencies v)\<close> by blast
      then show ?thesis using i(1) s by (intro exI [of _ j]) (simp add: order_waves_def)
    qed
    then show ?case using waves_orderedD [OF assms(2) i] e by simp
  qed
  show "plan_keys (order_waves ho plan) = plan_keys plan" using s by (simp add: plan_keys_def order_waves_def)
qed

lemma execution_plan_ordered:
  assumes "valid_orders ho" "execution_plan ho rounds retr scan_vts = Some (Inr ep)"
  shows "list_all waves_ordered (ep_data ep) \<and> length (ep_data ep) = 4 \<and> ep_idx ep = 0"
proof -
  obtain xs known results where "append_vts xs known (replicate 4 empty_plan) = Inr results"
      "ep_data ep = map (order_waves ho) results" "ep_idx ep = 0"
    using assms(2) by (auto simp: execution_plan_def split: option.splits sum.splits)
  then show ?thesis using append_vts_ordered [of xs known "replicate 4 empty_plan" results] order_waves_ordered(1) [OF assms(1)]
    by (simp add: list_all_length)
qed

lemma execution_plan_inmemory:
  assumes "card (nvt_filename ` set (all_vts d)) + 2 \<le> rounds"
  shows "\<exists>known found. execution_plan ho rounds (inmemory_retrieve d) scan_vts =
      Some (case append_vts (requested_vts scan_vts found) (known_order ho known) (replicate 4 empty_plan) of
        Inl e \<Rightarrow> Inl e | Inr results \<Rightarrow> Inr \<lparr>ep_data = map (order_waves ho) results, ep_idx = 0\<rparr>)
    \<and> found = filter (\<lambda>n. nvt_oid n \<in> set (map vt_model_oid scan_vts)) (all_vts d)
    \<and> (\<forall>n \<in> set found. set (nvt_dependencies n) \<inter> nvt_filename ` set (all_vts d) \<subseteq> fst ` set known)
    \<and> (\<forall>n \<in> set (all_vts d). nvt_filename n \<in> fst ` set known \<longrightarrow>
        set (nvt_dependencies n) \<subseteq> fst ` set known \<union> - nvt_filename ` set (all_vts d))
    \<and> (\<forall>(k, v) \<in> set known. v \<in> set (all_vts d) \<and> k = nvt_filename v)"
proof -
  let ?found = "filter (\<lambda>n. nvt_oid n \<in> set (map vt_model_oid scan_vts)) (all_vts d)"
  have f: "inmemory_retrieve d (map (\<lambda>x. NVTF (Oid (vt_model_oid x))) scan_vts) = Inr ?found"
    by (auto simp: inmemory_vts.retr matches_any_field_def list_ex_iff intro: filter_cong)
  obtain known where k: "load_dependencies rounds (inmemory_retrieve d) (concat (map nvt_dependencies ?found)) [] = Some (Inr known)"
    and sub: "set (concat (map nvt_dependencies ?found)) \<inter> nvt_filename ` set (all_vts d) \<subseteq> fst ` set known"
    and closed: "\<forall>n \<in> set (all_vts d). nvt_filename n \<in> fst ` set known \<longrightarrow>
        set (nvt_dependencies n) \<subseteq> fst ` set known \<union> - nvt_filename ` set (all_vts d)"
    and wf: "\<forall>(k, v) \<in> set known. v \<in> set (all_vts d) \<and> k = nvt_filename v"
    using inmemory_vts.load_dependencies_spec [of d "[]" rounds "concat (map nvt_dependencies ?found)"] assms by auto
  have "\<forall>n \<in> set ?found. set (nvt_dependencies n) \<inter> nvt_filename ` set (all_vts d) \<subseteq> fst ` set known"
    using sub by auto
  with f k closed wf show ?thesis
    by (intro exI [of _ known] exI [of _ ?found]) (simp add: execution_plan_def)
qed

lemma requested_vts_found: "fst ` set (requested_vts scan_vts found) = set found"
proof -
  have "map fst (requested_vts scan_vts found) = map snd (enumerate 0 found)"
    unfolding requested_vts_def map_map by (rule map_cong [OF refl]) (auto split: prod.split)
  then have "map fst (requested_vts scan_vts found) = found" by simp
  then show ?thesis by (metis list.set_map)
qed

lemma known_keys:
  assumes wf: "\<forall>(k, v) \<in> set known. v \<in> store \<and> k = nvt_filename v"
  shows "fst ` set known = nvt_filename ` snd ` set known"
proof -
  have "fst e = nvt_filename (snd e)" if "e \<in> set known" for e using wf that by auto
  then show ?thesis by (simp add: image_image)
qed

lemma known_ranked:
  assumes "ranked rank store" "inj_on nvt_filename store"
    and closed: "\<forall>n \<in> store. nvt_filename n \<in> fst ` set known \<longrightarrow>
        set (nvt_dependencies n) \<subseteq> fst ` set known \<union> - nvt_filename ` store"
    and wf: "\<forall>(k, v) \<in> set known. v \<in> store \<and> k = nvt_filename v"
  shows "ranked rank (snd ` set known)"
  unfolding ranked_def
proof (intro ballI)
  fix x dep assume x: "x \<in> snd ` set known" "dep \<in> set (nvt_dependencies x)"
  note keys = known_keys [OF wf]
  have xs: "x \<in> store" "nvt_filename x \<in> fst ` set known"
    using wf x(1) keys by auto
  obtain y where y: "y \<in> store" "nvt_filename y = dep" "rank y < rank x"
    using assms(1) xs(1) x(2) by (auto simp: ranked_def)
  have "dep \<in> fst ` set known"
    using closed xs x(2) y(1,2) by blast
  then obtain z where z: "z \<in> snd ` set known" "nvt_filename z = dep" using keys by auto
  moreover have "z \<in> store" using wf z(1) by auto
  ultimately have "z = y" using inj_onD [OF assms(2)] y by simp
  with y z show "\<exists>y \<in> snd ` set known. nvt_filename y = dep \<and> rank y < rank x" by blast
qed

section \<open>Properties\<close>

text \<open>Iterating over an execution plan yields the stages in order, and every script comes after all
  its dependencies: each dependency is in an earlier wave of the same stage.\<close>

theorem plan_dependencies_first:
  assumes "valid_orders ho" "execution_plan ho rounds retr scan_vts = Some (Inr ep)" "length (plan_items ep) < n"
    and "collect_plan n ep = before @ (st, ws) # after" "(v, p) \<in> set ws" "dep \<in> set (nvt_dependencies v)"
  shows "(\<exists>ws' v' p'. (st, ws') \<in> set before \<and> (v', p') \<in> set ws' \<and> nvt_filename v' = dep)
    \<and> sorted (map (stage_to_usize \<circ> fst) (collect_plan n ep))"
proof -
  note o = execution_plan_ordered [OF assms(1,2)]
  then have c: "collect_plan n ep = plan_items ep" using collect_plan_items assms(3) by simp
  with assms(4) have "plan_items ep = before @ (st, ws) # after" by simp
  from plan_items_split [OF _ _ this assms(5,6)] o c show ?thesis
    using plan_items_stages_sorted by auto
qed

definition sample_vts :: "nvt list" where
  "sample_vts =
    [default_nvt\<lparr>nvt_oid := ''1'', nvt_filename := ''a'', nvt_category := GatherInfo\<rparr>,
     default_nvt\<lparr>nvt_oid := ''2'', nvt_filename := ''b'', nvt_category := GatherInfo, nvt_dependencies := [''a'']\<rparr>]"

definition sample_store :: default_dispatcher where
  "sample_store = set_vts (map (\<lambda>n. (nvt_filename n, n)) sample_vts) new_dispatcher"

definition sample_scan :: "vt list" where
  "sample_scan = [\<lparr>vt_model_oid = ''2'', vt_parameters = []\<rparr>]"

lemma all_vts_sample: "all_vts sample_store = sample_vts"
  by (simp add: sample_store_def sample_vts_def set_vts_def all_vts_def new_dispatcher_def)

lemmas plan_eval = execution_plan_def order_waves_def inmemory_vts.retr matches_any_field_def requested_vts_def append_vt_def
  add_dependencies_def find_index_def insert_into_def empty_plan_def place_loop.simps stage_from_nvt_def
  default_nvt_def numeral_eq_Suc

definition sample_plan :: execution_plan_data where
  "sample_plan = \<lparr>ep_data =
     [\<lparr>waves = [[(''a'', sample_vts ! 0, None)], [(''b'', sample_vts ! 1, Some [])]], dependencies_added = True\<rparr>,
      empty_plan, empty_plan, empty_plan], ep_idx = 0\<rparr>"

text \<open>Iteration in the order of insertion, for concrete inputs.\<close>

definition insertion_orders :: hash_orders where
  "insertion_orders = \<lparr>known_order = (\<lambda>m. m), wave_order = (\<lambda>w. w)\<rparr>"

lemma valid_insertion_orders: "valid_orders insertion_orders"
  by (simp add: valid_orders_def insertion_orders_def)

lemma sample_plan: "execution_plan insertion_orders 4 (inmemory_retrieve sample_store) sample_scan = Some (Inr sample_plan)"
  by (simp add: plan_eval insertion_orders_def all_vts_sample sample_vts_def sample_scan_def sample_plan_def)

lemma sample_plan_items: "plan_items sample_plan = [(Discovery, [(sample_vts ! 0, None)]), (Discovery, [(sample_vts ! 1, Some [])])]"
  by (simp add: plan_items_def sample_plan_def empty_plan_def stage_at_def numeral_eq_Suc)

lemma sample_plan_shape: "length (ep_data sample_plan) = 4" "ep_idx sample_plan = 0"
  by (simp_all add: sample_plan_def)

theorem plan_dependencies_first_witness:
  "\<exists>ws' v' p'. (Discovery, ws') \<in> set [(Discovery, [(sample_vts ! 0, None)])] \<and> (v', p') \<in> set ws' \<and> nvt_filename v' = ''a''"
proof -
  have "collect_plan 3 sample_plan = plan_items sample_plan"
    by (rule collect_plan_items) (simp_all add: sample_plan_shape sample_plan_items)
  then have c: "collect_plan 3 sample_plan = [(Discovery, [(sample_vts ! 0, None)])] @ (Discovery, [(sample_vts ! 1, Some [])]) # []"
    by (simp add: sample_plan_items)
  show ?thesis
    using plan_dependencies_first [OF valid_insertion_orders sample_plan _ c, of "sample_vts ! 1" "Some []" "''a''"]
    by (simp add: sample_plan_items sample_vts_def)
qed

text \<open>C5: Planning always terminates, whatever the dependencies are, cyclic ones included, and in whatever order hash maps
  are iterated over: two rounds more than there are stored file names load all dependencies.\<close>

theorem execution_plan_terminates:
  assumes "card (nvt_filename ` set (all_vts d)) + 2 \<le> rounds"
  shows "\<exists>r. execution_plan ho rounds (inmemory_retrieve d) scan_vts = Some r"
  using execution_plan_inmemory [OF assms] by blast

definition cyclic_store :: default_dispatcher where
  "cyclic_store = set_vts (map (\<lambda>n. (nvt_filename n, n))
     [default_nvt\<lparr>nvt_oid := ''1'', nvt_filename := ''a'', nvt_dependencies := [''b'']\<rparr>,
      default_nvt\<lparr>nvt_oid := ''2'', nvt_filename := ''b'', nvt_dependencies := [''a'']\<rparr>]) new_dispatcher"

theorem execution_plan_terminates_witness:
  "\<exists>r. execution_plan insertion_orders 4 (inmemory_retrieve cyclic_store) sample_scan = Some r"
  by (rule execution_plan_terminates)
    (simp add: cyclic_store_def set_vts_def all_vts_def new_dispatcher_def default_nvt_def)

lemma planned_item:
  assumes "valid_orders ho" "list_all waves_ordered results" "length results = 4"
    and "nvt_filename x \<in> plan_keys (results ! stage_to_usize (stage_from_nvt x))"
  shows "\<exists>ws v p. (stage_from_nvt x, ws) \<in> set (plan_items \<lparr>ep_data = map (order_waves ho) results, ep_idx = 0\<rparr>) \<and> (v, p) \<in> set ws
    \<and> nvt_filename v = nvt_filename x"
proof (rule plan_keys_items)
  have "stage_to_usize (stage_from_nvt x) < 4" by (cases "stage_from_nvt x") simp_all
  then show "nvt_filename x \<in> plan_keys (ep_data \<lparr>ep_data = map (order_waves ho) results, ep_idx = 0\<rparr> ! stage_to_usize (stage_from_nvt x))"
    using assms(2-4) order_waves_ordered(2) [OF assms(1)] by (simp add: list_all_length)
qed (use assms(2,3) order_waves_ordered(1) [OF assms(1)] in \<open>simp_all add: list_all_length\<close>)

lemma requested_dependencies:
  assumes "fst ` set reqs = set found" "set found \<subseteq> store"
    and "\<And>n. n \<in> store \<Longrightarrow> set (nvt_dependencies n) \<subseteq> nvt_filename ` store"
    and "\<forall>n \<in> set found. set (nvt_dependencies n) \<inter> nvt_filename ` store \<subseteq> keys"
  shows "\<forall>(x, p) \<in> set reqs. set (nvt_dependencies x) \<subseteq> keys"
proof clarify
  fix x p dep assume x: "(x, p) \<in> set reqs" "dep \<in> set (nvt_dependencies x)"
  have f: "x \<in> set found" using x(1) assms(1) by force
  then have "dep \<in> set (nvt_dependencies x) \<inter> nvt_filename ` store" using assms(2,3) x(2) by blast
  then show "dep \<in> keys" using bspec [OF assms(4) f] by blast
qed

text \<open>C4: In a storage whose file names are unique and whose dependencies are stored and acyclic, planning
  never fails, in whatever order hash maps are iterated over, and every requested test that is stored is scheduled in the stage of its category.\<close>

theorem execution_plan_succeeds:
  assumes "distinct (map nvt_filename (all_vts d))" "ranked rank (set (all_vts d))"
    and "length (all_vts d) + 2 \<le> rounds" "valid_orders ho"
  shows "\<exists>ep. execution_plan ho rounds (inmemory_retrieve d) scan_vts = Some (Inr ep)
    \<and> (\<forall>x \<in> set (all_vts d). nvt_oid x \<in> set (map vt_model_oid scan_vts) \<longrightarrow>
        (\<exists>ws v p. (stage_from_nvt x, ws) \<in> set (plan_items ep) \<and> (v, p) \<in> set ws \<and> nvt_filename v = nvt_filename x))"
proof -
  let ?store = "set (all_vts d)"
  have "card (nvt_filename ` ?store) \<le> length (all_vts d)"
    using card_image_le [of ?store nvt_filename] card_length [of "all_vts d"] by simp
  with assms(3) have "card (nvt_filename ` ?store) + 2 \<le> rounds" by simp
  from execution_plan_inmemory [OF this, of ho scan_vts] obtain known found where
    plan: "execution_plan ho rounds (inmemory_retrieve d) scan_vts =
      Some (case append_vts (requested_vts scan_vts found) (known_order ho known) (replicate 4 empty_plan) of
        Inl e \<Rightarrow> Inl e | Inr results \<Rightarrow> Inr \<lparr>ep_data = map (order_waves ho) results, ep_idx = 0\<rparr>)"
    and found: "found = filter (\<lambda>n. nvt_oid n \<in> set (map vt_model_oid scan_vts)) (all_vts d)"
    and sub: "\<forall>n \<in> set found. set (nvt_dependencies n) \<inter> nvt_filename ` ?store \<subseteq> fst ` set known"
    and closed: "\<forall>n \<in> ?store. nvt_filename n \<in> fst ` set known \<longrightarrow>
        set (nvt_dependencies n) \<subseteq> fst ` set known \<union> - nvt_filename ` ?store"
    and wf: "\<forall>(k, v) \<in> set known. v \<in> ?store \<and> k = nvt_filename v"
    by (elim exE conjE) (rule that)
  have keys: "fst ` set known = nvt_filename ` snd ` set known" by (rule known_keys [OF wf])
  have stored: "set (nvt_dependencies n) \<subseteq> nvt_filename ` ?store" if "n \<in> ?store" for n
    using assms(2) that by (fastforce simp: ranked_def)
  have ranked: "ranked rank (snd ` set known)"
    using assms(1) by (intro known_ranked [OF assms(2) _ closed wf]) (simp add: distinct_map)
  have req: "fst ` set (requested_vts scan_vts found) = set found" by (rule requested_vts_found)
  have req_deps: "\<forall>(x, p) \<in> set (requested_vts scan_vts found). set (nvt_dependencies x) \<subseteq> nvt_filename ` snd ` set known"
    using requested_dependencies [OF req _ stored sub] found unfolding keys by simp
  note same = valid_orders_set(1) [OF assms(4), of known]
  have "list_all (plan_complete (known_order ho known)) (replicate 4 empty_plan)"
    by (simp add: list_all_length plan_complete_def) (simp add: empty_plan_def)
  from append_vts_complete [OF _ _ this length_replicate] ranked req_deps obtain results where
    r: "append_vts (requested_vts scan_vts found) (known_order ho known) (replicate 4 empty_plan) = Inr results"
    and filed: "\<forall>(x, p) \<in> set (requested_vts scan_vts found). nvt_filename x \<in> plan_keys (results ! stage_to_usize (stage_from_nvt x))"
    unfolding same by blast
  let ?ep = "\<lparr>ep_data = map (order_waves ho) results, ep_idx = 0\<rparr>"
  have ep: "execution_plan ho rounds (inmemory_retrieve d) scan_vts = Some (Inr ?ep)" using plan r by simp
  have ordered: "list_all waves_ordered results" "length results = 4"
    using append_vts_ordered [OF r] by (simp_all add: list_all_length)
  have "\<exists>ws v p. (stage_from_nvt x, ws) \<in> set (plan_items ?ep) \<and> (v, p) \<in> set ws \<and> nvt_filename v = nvt_filename x"
    if "x \<in> ?store" "nvt_oid x \<in> set (map vt_model_oid scan_vts)" for x
  proof (rule planned_item [OF assms(4) ordered])
    have "x \<in> fst ` set (requested_vts scan_vts found)" using that req found by simp
    then show "nvt_filename x \<in> plan_keys (results ! stage_to_usize (stage_from_nvt x))" using filed by auto
  qed
  with ep show ?thesis by blast
qed

theorem execution_plan_succeeds_witness:
  "\<exists>ep. execution_plan insertion_orders 4 (inmemory_retrieve sample_store) sample_scan = Some (Inr ep)
    \<and> (\<exists>ws v p. (Discovery, ws) \<in> set (plan_items ep) \<and> (v, p) \<in> set ws \<and> nvt_filename v = ''b'')"
proof -
  have "distinct (map nvt_filename (all_vts sample_store))" "length (all_vts sample_store) + 2 \<le> 4"
      "ranked (\<lambda>n. length (nvt_dependencies n)) (set (all_vts sample_store))"
    by (simp_all add: all_vts_sample sample_vts_def ranked_def default_nvt_def)
  from execution_plan_succeeds [OF this(1,3,2) valid_insertion_orders, of sample_scan] show ?thesis
    by (simp add: all_vts_sample sample_vts_def sample_scan_def default_nvt_def stage_from_nvt_def)
qed

text \<open>When a test cannot be appended, the error lists exactly those of its dependencies that are not
  in the plan, at least one; the plan keeps its order and all its scripts.\<close>

theorem append_vt_error_exact:
  assumes "waves_ordered plan" "append_vt (v, p) deps plan = (Inl e, plan')"
  shows "e = MissingDependencies v (filter (\<lambda>dep. dep \<notin> plan_keys plan') (nvt_dependencies v))
    \<and> filter (\<lambda>dep. dep \<notin> plan_keys plan') (nvt_dependencies v) \<noteq> []
    \<and> waves_ordered plan' \<and> plan_keys plan \<subseteq> plan_keys plan'"
  using append_vt_missing [OF assms(2)] append_vt_ordered [OF assms(2,1)] by simp

theorem append_vt_error_exact_witness:
  "fst (append_vt (sample_vts ! 1, None) [] empty_plan) = Inl (MissingDependencies (sample_vts ! 1) [''a''])"
proof -
  have a: "append_vt (sample_vts ! 1, None) [] empty_plan =
      (Inl (MissingDependencies (sample_vts ! 1) [''a'']), empty_plan\<lparr>dependencies_added := True\<rparr>)"
    by (simp add: plan_eval sample_vts_def)
  show ?thesis using append_vt_error_exact [OF waves_ordered_empty a] a by simp
qed

text \<open>The parameters of a scan are attached by position, and the storage answers in its own order:
  for this storage and this scan of two tests, each test is planned with the parameters of the other.\<close>

theorem parameters_by_position:
  "requested_vts [\<lparr>vt_model_oid = ''2'', vt_parameters = [\<lparr>param_id = 2, param_value = ''for 2''\<rparr>]\<rparr>,
       \<lparr>vt_model_oid = ''1'', vt_parameters = [\<lparr>param_id = 1, param_value = ''for 1''\<rparr>]\<rparr>]
     (case inmemory_retrieve sample_store [NVTF (Oid ''2''), NVTF (Oid ''1'')] of Inr found \<Rightarrow> found | Inl _ \<Rightarrow> []) =
   [(sample_vts ! 0, Some [\<lparr>param_id = 2, param_value = ''for 2''\<rparr>]),
    (sample_vts ! 1, Some [\<lparr>param_id = 1, param_value = ''for 1''\<rparr>])]
   \<and> nvt_oid (sample_vts ! 0) = ''1'' \<and> nvt_oid (sample_vts ! 1) = ''2''"
  by (simp add: inmemory_vts.retr all_vts_sample matches_any_field_def requested_vts_def sample_vts_def default_nvt_def)

definition mixed_store :: default_dispatcher where
  "mixed_store = set_vts (map (\<lambda>n. (nvt_filename n, n))
     [default_nvt\<lparr>nvt_oid := ''1'', nvt_filename := ''a'', nvt_category := KillHost\<rparr>,
      default_nvt\<lparr>nvt_oid := ''2'', nvt_filename := ''b'', nvt_category := GatherInfo, nvt_dependencies := [''a'']\<rparr>,
      default_nvt\<lparr>nvt_oid := ''3'', nvt_filename := ''c'', nvt_category := Attack\<rparr>]) new_dispatcher"

text \<open>Dependencies are added to every stage that has a requested test, whatever their own category
  is: here a script that may kill the host runs in the first stage, and once more in the second stage,
  whose only requested test does not depend on it.\<close>

theorem dependencies_in_every_stage:
  "\<exists>ep. execution_plan insertion_orders 5 (inmemory_retrieve mixed_store)
      [\<lparr>vt_model_oid = ''2'', vt_parameters = []\<rparr>, \<lparr>vt_model_oid = ''3'', vt_parameters = []\<rparr>] = Some (Inr ep)
    \<and> nvt_filename (all_vts mixed_store ! 0) = ''a'' \<and> stage_from_nvt (all_vts mixed_store ! 0) = Exhausting
    \<and> map (\<lambda>(st, ws). (st, map (nvt_filename \<circ> fst) ws)) (plan_items ep) =
      [(Discovery, [''a'']), (Discovery, [''b'']), (NonEvasive, [''a'', ''c''])]"
  by (simp add: plan_eval insertion_orders_def mixed_store_def set_vts_def all_vts_def new_dispatcher_def plan_items_def stage_at_def)

end
