(* ===== verification/Scan_Model.thy ===== *)
theory Scan_Model
  imports Scheduling
begin

text \<open>
  The data of a scan: src/rust/src/models/scan.rs, target.rs, credential.rs, port.rs, status.rs,
  host_info.rs and scanner_preference.rs.

  The counters of \<open>HostInfo\<close> are 64 bit words, so that a subtraction below zero wraps as it does in
  a release build. The lemmas show when the progress of a scan over hosts and scripts ends in a state
  that \<open>HostInfo::finish\<close> accepts.
\<close>

section \<open>Phases and status\<close>

datatype phase = Stored | Requested | Running | Stopped | Failed | Succeeded

definition phase_is_running :: "phase \<Rightarrow> bool" where
  "phase_is_running p \<longleftrightarrow> p = Running \<or> p = Requested"

definition phase_from_str :: "string \<Rightarrow> phase option" where
  "phase_from_str s =
    (if s = ''requested'' then Some Requested
     else if s = ''running'' then Some Running
     else if s = ''stopped'' then Some Stopped
     else if s = ''failed'' then Some Failed
     else if s = ''succeeded'' then Some Succeeded
     else if s = ''stored'' then Some Stored
     else None)"

fun phase_display :: "phase \<Rightarrow> string" where
  "phase_display Requested = ''requested''"
| "phase_display Running = ''running''"
| "phase_display Stopped = ''stopped''"
| "phase_display Failed = ''failed''"
| "phase_display Succeeded = ''succeeded''"
| "phase_display Stored = ''stored''"

type_synonym u64 = "64 word"

record host_info =
  hi_all :: u64
  hi_excluded :: u64
  hi_dead :: u64
  hi_alive :: u64
  hi_queued :: u64
  hi_finished :: u64
  hi_scanning :: "(string \<times> int) list option"
  hi_remaining :: "string \<rightharpoonup> u64"

text \<open>A builder has the counters of a host information, but no scripts that remain.\<close>

record host_info_builder =
  hib_all :: u64
  hib_excluded :: u64
  hib_dead :: u64
  hib_alive :: u64
  hib_queued :: u64
  hib_finished :: u64
  hib_scanning :: "(string \<times> int) list option"

definition host_info_build :: "host_info_builder \<Rightarrow> host_info" where
  "host_info_build b = \<lparr>hi_all = hib_all b, hi_excluded = hib_excluded b, hi_dead = hib_dead b,
     hi_alive = hib_alive b, hi_queued = hib_queued b, hi_finished = hib_finished b,
     hi_scanning = hib_scanning b, hi_remaining = Map.empty\<rparr>"

definition default_host_info :: host_info where
  "default_host_info = \<lparr>hi_all = 0, hi_excluded = 0, hi_dead = 0, hi_alive = 0, hi_queued = 0,
     hi_finished = 0, hi_scanning = None, hi_remaining = Map.empty\<rparr>"

definition from_hosts_and_num_vts :: "string list \<Rightarrow> nat \<Rightarrow> host_info" where
  "from_hosts_and_num_vts hosts num_vts =
    default_host_info\<lparr>hi_all := word_of_nat (length hosts), hi_queued := word_of_nat (length hosts),
      hi_remaining := map_of (map (\<lambda>host. (host, word_of_nat num_vts)) hosts)\<rparr>"

definition register_finished_script :: "string \<Rightarrow> host_info \<Rightarrow> host_info" where
  "register_finished_script target h =
    (case hi_remaining h target of
       Some num_vts \<Rightarrow>
         if num_vts - 1 = 0
         then h\<lparr>hi_finished := hi_finished h + 1, hi_queued := hi_queued h - 1,
                hi_remaining := (hi_remaining h)(target := None)\<rparr>
         else h\<lparr>hi_remaining := (hi_remaining h)(target \<mapsto> num_vts - 1)\<rparr>
     | None \<Rightarrow> h)"

definition finish :: "host_info \<Rightarrow> host_info rs" where
  "finish h = (if hi_queued h = 0 then Ret (h\<lparr>hi_remaining := Map.empty\<rparr>) else Panic)"

definition scanning_of :: "host_info \<Rightarrow> (string \<times> int) list" where
  "scanning_of h = (case hi_scanning h of Some s \<Rightarrow> s | None \<Rightarrow> [])"

text \<open>The loop over the hosts that were being scanned\<close>

definition merge_scanning :: "(string \<times> int) list \<Rightarrow> (string \<times> int) list \<Rightarrow> (string \<times> int) list" where
  "merge_scanning mine hs =
    fold (\<lambda>(host, progress) hs.
      if progress = 100 \<or> progress = -1 then AList.delete host hs else AList.update host progress hs) mine hs"

definition host_info_update_with :: "host_info \<Rightarrow> host_info \<Rightarrow> host_info" where
  "host_info_update_with self other =
    (let self = (if hi_all other \<noteq> 0 then self\<lparr>hi_all := hi_all other\<rparr> else self);
         self = (if hi_excluded self = 0 then self\<lparr>hi_excluded := hi_excluded other\<rparr> else self);
         self = self\<lparr>hi_dead := hi_dead self + hi_dead other, hi_alive := hi_alive self + hi_alive other,
                     hi_finished := hi_finished self + hi_finished other\<rparr>
     in self\<lparr>hi_scanning := Some (merge_scanning (scanning_of self) (scanning_of other))\<rparr>)"

record status =
  start_time :: "nat option"
  end_time :: "nat option"
  st_phase :: phase
  st_host_info :: "host_info option"

definition default_status :: status where
  "default_status = \<lparr>start_time = None, end_time = None, st_phase = Stored, st_host_info = None\<rparr>"

definition is_running :: "status \<Rightarrow> bool" where
  "is_running s = phase_is_running (st_phase s)"

definition is_done :: "status \<Rightarrow> bool" where
  "is_done s \<longleftrightarrow> \<not> phase_is_running (st_phase s) \<and> st_phase s \<noteq> Stored"

definition status_update_with :: "status \<Rightarrow> status \<Rightarrow> status" where
  "status_update_with self other =
    (let self = (case st_host_info other of
           Some hi \<Rightarrow> self\<lparr>st_host_info := Some (host_info_update_with
             (case st_host_info self of Some h \<Rightarrow> h | None \<Rightarrow> default_host_info) hi)\<rparr>
         | None \<Rightarrow> self);
         self = (if start_time other \<noteq> None then self\<lparr>start_time := start_time other\<rparr> else self)
     in if end_time other \<noteq> None then self\<lparr>end_time := end_time other\<rparr> else self)"

section \<open>Scans\<close>

datatype service = SSH | SMB | ESXi | SNMPService

fun service_as_ref :: "service \<Rightarrow> string" where
  "service_as_ref SSH = ''ssh''"
| "service_as_ref SMB = ''smb''"
| "service_as_ref ESXi = ''esxi''"
| "service_as_ref SNMPService = ''snmp''"

definition service_try_from :: "string \<Rightarrow> string + service" where
  "service_try_from value =
    (if value = ''ssh'' then Inr SSH
     else if value = ''smb'' then Inr SMB
     else if value = ''esxi'' then Inr ESXi
     else if value = ''snmp'' then Inr SNMPService
     else Inl value)"

record privilege_information =
  priv_username :: string
  priv_password :: string

datatype credential_type =
    UP string string "privilege_information option"
  | USK string string string "privilege_information option"
  | SNMP string string string string string string

record credential =
  cred_service :: service
  cred_port :: "nat option"
  cred_type :: credential_type

fun credential_type_as_ref :: "credential_type \<Rightarrow> string" where
  "credential_type_as_ref (UP _ _ _) = ''up''"
| "credential_type_as_ref (USK _ _ _ _) = ''usk''"
| "credential_type_as_ref (SNMP _ _ _ _ _ _) = ''snmp''"

definition credential_password :: "credential \<Rightarrow> string" where
  "credential_password c =
    (case cred_type c of UP _ pw _ \<Rightarrow> pw | USK _ pw _ _ \<Rightarrow> pw | SNMP _ pw _ _ _ _ \<Rightarrow> pw)"

definition default_credential :: credential where
  "default_credential = \<lparr>cred_service = SSH, cred_port = None, cred_type = UP ''root'' [] None\<rparr>"

text \<open>\<open>CredentialType::map_password\<close>; the passwords are mapped in the order of the fields and the
  first error ends the mapping.\<close>

definition map_privilege ::
  "(string \<Rightarrow> 'e + string) \<Rightarrow> privilege_information option \<Rightarrow> 'e + privilege_information option" where
  "map_privilege f p =
    (case p of
       Some p \<Rightarrow> try_bind (f (priv_password p)) (\<lambda>pw. Inr (Some \<lparr>priv_username = priv_username p, priv_password = pw\<rparr>))
     | None \<Rightarrow> Inr None)"

fun map_password_type :: "(string \<Rightarrow> 'e + string) \<Rightarrow> credential_type \<Rightarrow> 'e + credential_type" where
  "map_password_type f (UP username password privilege) =
    try_bind (f password) (\<lambda>password.
    try_bind (map_privilege f privilege) (\<lambda>privilege. Inr (UP username password privilege)))"
| "map_password_type f (USK username password private_key privilege) =
    try_bind (f password) (\<lambda>password.
    try_bind (f private_key) (\<lambda>private_key.
    try_bind (map_privilege f privilege) (\<lambda>privilege. Inr (USK username password private_key privilege))))"
| "map_password_type f (SNMP username password community auth_algorithm privacy_password privacy_algorithm) =
    try_bind (f password) (\<lambda>password.
    try_bind (f privacy_password) (\<lambda>privacy_password.
      Inr (SNMP username password community auth_algorithm privacy_password privacy_algorithm)))"

definition map_password :: "(string \<Rightarrow> 'e + string) \<Rightarrow> credential \<Rightarrow> 'e + credential" where
  "map_password f c =
    try_bind (map_password_type f (cred_type c)) (\<lambda>t.
      Inr \<lparr>cred_service = cred_service c, cred_port = cred_port c, cred_type = t\<rparr>)"

record port_range =
  range_from :: nat
  range_to :: "nat option"

record port =
  port_protocol :: "protocol option"
  port_ranges :: "port_range list"

datatype alive_test_methods = TcpAck | Icmp | Arp | ConsiderAlive | TcpSyn

fun alive_test_value :: "alive_test_methods \<Rightarrow> 8 word" where
  "alive_test_value TcpAck = 0x01"
| "alive_test_value Icmp = 0x02"
| "alive_test_value Arp = 0x04"
| "alive_test_value ConsiderAlive = 0x08"
| "alive_test_value TcpSyn = 0x10"

text \<open>The error of the conversion is the value itself.\<close>

definition alive_test_try_from :: "8 word \<Rightarrow> 8 word + alive_test_methods" where
  "alive_test_try_from v =
    (if v = 0x01 then Inr TcpAck
     else if v = 0x02 then Inr Icmp
     else if v = 0x04 then Inr Arp
     else if v = 0x08 then Inr ConsiderAlive
     else if v = 0x10 then Inr TcpSyn
     else Inl v)"

record target =
  target_hosts :: "string list"
  target_ports :: "port list"
  target_excluded_hosts :: "string list"
  target_credentials :: "credential list"
  target_alive_test_ports :: "port list"
  target_alive_test_methods :: "alive_test_methods list"
  target_reverse_lookup_unify :: "bool option"
  target_reverse_lookup_only :: "bool option"

record scan_preference =
  preference_id :: string
  preference_value :: string

record scan =
  scan_id :: string
  scan_target :: target
  scan_preferences :: "scan_preference list"
  scan_vts :: "vt list"

record scan_results =
  sr_id :: string
  sr_status :: status
  sr_results :: "result list"

section \<open>Names and codes\<close>

text \<open>The textual names of phases and services and the codes of alive tests are read back, and no
  other text or code is accepted.\<close>

lemma phase_from_str_iff: "phase_from_str s = Some p \<longleftrightarrow> s = phase_display p"
  by (cases p) (auto simp: phase_from_str_def)

lemma service_try_from_iff: "service_try_from v = Inr s \<longleftrightarrow> v = service_as_ref s"
  by (cases s) (auto simp: service_try_from_def)

lemma alive_test_try_from_iff: "alive_test_try_from v = Inr t \<longleftrightarrow> v = alive_test_value t"
  by (cases t) (auto simp: alive_test_try_from_def)

section \<open>Mapping passwords\<close>

text \<open>The passwords and keys of a credential, in the order in which they are mapped. The community of SNMP, which is as
  secret as a password, is not among them.\<close>

definition privilege_passwords :: "privilege_information option \<Rightarrow> string list" where
  "privilege_passwords p = (case p of Some p \<Rightarrow> [priv_password p] | None \<Rightarrow> [])"

fun password_fields :: "credential_type \<Rightarrow> string list" where
  "password_fields (UP _ password privilege) = password # privilege_passwords privilege"
| "password_fields (USK _ password private_key privilege) = password # private_key # privilege_passwords privilege"
| "password_fields (SNMP _ password _ _ privacy_password _) = [password, privacy_password]"

text \<open>A credential with other passwords and keys, and everything else as it was.\<close>

definition privilege_with :: "(string \<Rightarrow> string) \<Rightarrow> privilege_information \<Rightarrow> privilege_information" where
  "privilege_with F p = p\<lparr>priv_password := F (priv_password p)\<rparr>"

fun type_with :: "(string \<Rightarrow> string) \<Rightarrow> credential_type \<Rightarrow> credential_type" where
  "type_with F (UP username password privilege) = UP username (F password) (map_option (privilege_with F) privilege)"
| "type_with F (USK username password private_key privilege) =
    USK username (F password) (F private_key) (map_option (privilege_with F) privilege)"
| "type_with F (SNMP username password community auth_algorithm privacy_password privacy_algorithm) =
    SNMP username (F password) community auth_algorithm (F privacy_password) privacy_algorithm"

definition with_passwords :: "(string \<Rightarrow> string) \<Rightarrow> credential \<Rightarrow> credential" where
  "with_passwords F c = c\<lparr>cred_type := type_with F (cred_type c)\<rparr>"

text \<open>Mapping with a function that never fails, and mapping back with one that fails on some of the passwords.\<close>

lemma map_password_total:
  assumes "\<And>p. f p = Inr (F p)"
  shows "map_password f c = Inr (with_passwords F c)"
proof -
  have "map_privilege f i = Inr (map_option (privilege_with F) i)" for i
    using assms by (simp add: map_privilege_def privilege_with_def try_bind_def split: option.split)
  then have "map_password_type f t = Inr (type_with F t)" for t
    using assms by (cases t) (simp_all add: try_bind_def)
  then show ?thesis by (simp add: map_password_def with_passwords_def try_bind_def)
qed

lemma map_password_back:
  assumes "\<And>p. g (F p) = (if P p then Inl e else Inr p)"
  shows "map_password g (with_passwords F c) = (if list_ex P (password_fields (cred_type c)) then Inl e else Inr c)"
proof -
  have "map_privilege g (map_option (privilege_with F) i) = (if list_ex P (privilege_passwords i) then Inl e else Inr i)" for i
    using assms by (simp add: map_privilege_def privilege_with_def privilege_passwords_def try_bind_def split: option.split)
  then have "map_password_type g (type_with F t) = (if list_ex P (password_fields t) then Inl e else Inr t)" for t
    using assms by (cases t) (simp_all add: try_bind_def)
  then show ?thesis by (simp add: map_password_def with_passwords_def try_bind_def)
qed

section \<open>The progress of hosts\<close>

abbreviation done_hosts :: "string list \<Rightarrow> nat \<Rightarrow> string list \<Rightarrow> string set" where
  "done_hosts hosts n ts \<equiv> {h \<in> set hosts. n \<le> count_list ts h}"

lemma word_of_nat_eq_0: "m < 2 ^ 64 \<Longrightarrow> (word_of_nat m :: u64) = 0 \<longleftrightarrow> m = 0"
  by (simp add: word_unat_eq_iff unat_of_nat take_bit_eq_mod)

lemma count_snoc: "count_list (ts @ [t]) h = count_list ts h + (if h = t then 1 else 0)"
  by simp

lemma register_run:
  assumes "0 < n" "n < 2 ^ 64" "h = fold register_finished_script ts (from_hosts_and_num_vts hosts n)"
  shows "hi_remaining h = (\<lambda>x. if x \<in> set hosts \<and> count_list ts x < n
        then Some (word_of_nat (n - count_list ts x)) else None)
    \<and> hi_queued h = word_of_nat (length hosts - card (done_hosts hosts n ts))
    \<and> hi_finished h = word_of_nat (card (done_hosts hosts n ts))"
  using assms(3)
proof (induction ts arbitrary: h rule: rev_induct)
  case Nil
  have "done_hosts hosts n [] = {}" using assms(1) by auto
  moreover have "map_of (map (\<lambda>host. (host, word_of_nat n :: u64)) hosts) = (\<lambda>x. if x \<in> set hosts then Some (word_of_nat n) else None)"
    by (induction hosts) auto
  ultimately show ?case
    using Nil assms(1) by (simp add: from_hosts_and_num_vts_def default_host_info_def cong: if_cong)
next
  case (snoc t ts)
  define g where "g = fold register_finished_script ts (from_hosts_and_num_vts hosts n)"
  note IH = snoc.IH [OF g_def]
  have h: "h = register_finished_script t g" using snoc.prems by (simp add: g_def)
  show ?case
  proof (cases "t \<in> set hosts \<and> count_list ts t < n")
    case False
    then have "hi_remaining g t = None" using IH by simp
    then have "h = g" by (simp add: h register_finished_script_def)
    moreover have "done_hosts hosts n (ts @ [t]) = done_hosts hosts n ts" using False by (auto simp: count_snoc)
    ultimately show ?thesis using IH False by (auto simp: fun_eq_iff count_snoc)
  next
    case True
    define m where "m = n - count_list ts t"
    have m: "0 < m" "m < 2 ^ 64" using True assms(2) by (auto simp: m_def)
    have r: "hi_remaining g t = Some (word_of_nat m)" using IH True by (simp add: m_def)
    have pred: "word_of_nat m - 1 = (word_of_nat (m - 1) :: u64)" using m(1) by (simp add: of_nat_diff)
    have z: "word_of_nat m - 1 = (0 :: u64) \<longleftrightarrow> m = 1" using m by (simp only: pred word_of_nat_eq_0) auto
    show ?thesis
    proof (cases "m = 1")
      case False
      then have "h = g\<lparr>hi_remaining := (hi_remaining g)(t \<mapsto> word_of_nat (m - 1))\<rparr>"
        using r z pred by (simp add: h register_finished_script_def)
      moreover have "done_hosts hosts n (ts @ [t]) = done_hosts hosts n ts"
        using False m(1) by (auto simp: count_snoc m_def)
      ultimately show ?thesis using IH True False m(1) by (auto simp: fun_eq_iff count_snoc m_def)
    next
      case one: True
      then have "h = g\<lparr>hi_finished := hi_finished g + 1, hi_queued := hi_queued g - 1, hi_remaining := (hi_remaining g)(t := None)\<rparr>"
        using r z by (simp add: h register_finished_script_def)
      moreover have d: "done_hosts hosts n (ts @ [t]) = insert t (done_hosts hosts n ts)" "t \<notin> done_hosts hosts n ts"
        using one True by (auto simp: count_snoc m_def)
      moreover have "card (insert t (done_hosts hosts n ts)) \<le> length hosts"
        using True card_mono [of "set hosts" "insert t (done_hosts hosts n ts)"] card_length [of hosts] by fastforce
      ultimately show ?thesis using IH True one
        by (auto simp: fun_eq_iff count_snoc m_def of_nat_diff)
    qed
  qed
qed

section \<open>Properties\<close>

text \<open>A scan over hosts with \<open>n\<close> scripts each ends without a panic exactly when the hosts are
  pairwise different and every host has seen at least \<open>n\<close> finished scripts, whatever the order in
  which the scripts finished; a host that is listed twice makes \<open>finish\<close> panic in any case.\<close>

theorem host_info_finish:
  assumes "0 < n" "n < 2 ^ 64" "length hosts < 2 ^ 64"
  shows "finish (fold register_finished_script ts (from_hosts_and_num_vts hosts n)) \<noteq> Panic \<longleftrightarrow>
    distinct hosts \<and> (\<forall>h \<in> set hosts. n \<le> count_list ts h)"
proof -
  let ?D = "done_hosts hosts n ts"
  have le: "card ?D \<le> card (set hosts)" "card (set hosts) \<le> length hosts"
    by (auto intro: card_mono card_length)
  have "hi_queued (fold register_finished_script ts (from_hosts_and_num_vts hosts n)) = 0 \<longleftrightarrow> length hosts - card ?D = 0"
    using register_run [OF assms(1,2) refl, of ts hosts] assms(3) by (simp add: word_of_nat_eq_0)
  also have "\<dots> \<longleftrightarrow> card (set hosts) = length hosts \<and> card ?D = card (set hosts)" using le by auto
  also have "card ?D = card (set hosts) \<longleftrightarrow> ?D = set hosts"
    using card_subset_eq [of "set hosts" ?D] by auto
  also have "?D = set hosts \<longleftrightarrow> (\<forall>h \<in> set hosts. n \<le> count_list ts h)" by auto
  finally show ?thesis by (auto simp: finish_def distinct_card card_distinct)
qed

theorem host_info_finish_witness:
  "finish (fold register_finished_script [''a'', ''b'', ''a'', ''b''] (from_hosts_and_num_vts [''a'', ''b''] 2)) \<noteq> Panic
   \<and> finish (fold register_finished_script [''a'', ''a''] (from_hosts_and_num_vts [''a'', ''a''] 2)) = Panic"
  using host_info_finish [of 2 "[''a'', ''b'']" "[''a'', ''b'', ''a'', ''b'']"]
    host_info_finish [of 2 "[''a'', ''a'']" "[''a'', ''a'']"] by simp

end
