(* ===== verification/Crypt.thy ===== *)
theory Crypt
  imports Prelude
begin

text \<open>
  Encryption of the data that openvasd keeps in memory: src/rust/src/openvasd/crypt.rs.

  The cipher is ChaCha20 of the \<open>chacha20\<close> crate: it combines data with a key stream that is given by the key and the
  nonce, the parameter \<open>keystream\<close>. The key is derived by the \<open>pbkdf2\<close> crate. The nonce of an encryption comes from the
  random number generator; it is a function of the data here, and what is shown holds for every such function whose
  values have the length of a nonce. The texts are made by the \<open>base64\<close> crate; \<open>base64_laws\<close> states what it documents
  for its standard alphabet.

  The lemmas show that decryption undoes encryption, and that the text of an encrypted value is read back exactly
  when the value has data: the text of empty data ends behind the separator, and reading it fails.
\<close>

unbundle bit_operations_syntax

section \<open>Model\<close>

type_synonym bytes = "8 word list"

type_synonym keystream = "bytes \<Rightarrow> bytes \<Rightarrow> nat \<Rightarrow> 8 word"

definition apply_keystream :: "keystream \<Rightarrow> bytes \<Rightarrow> bytes \<Rightarrow> bytes \<Rightarrow> bytes" where
  "apply_keystream ks key nonce b = map (\<lambda>(i, x). x XOR ks key nonce i) (enumerate 0 b)"

text \<open>\<open>From<&str> for Key\<close>: password, salt and rounds are given to the key derivation.\<close>

definition key_from :: "(bytes \<Rightarrow> bytes \<Rightarrow> nat \<Rightarrow> bytes) \<Rightarrow> string \<Rightarrow> bytes" where
  "key_from pbkdf2 s = pbkdf2 (as_bytes s) (replicate 8 0) 8000"

record encrypted =
  enc_nonce :: bytes
  enc_data :: bytes

definition chacha_encrypt_sync :: "keystream \<Rightarrow> (bytes \<Rightarrow> bytes) \<Rightarrow> bytes \<Rightarrow> bytes \<Rightarrow> encrypted" where
  "chacha_encrypt_sync ks nonce_for key b =
    (let nonce = nonce_for b in \<lparr>enc_nonce = nonce, enc_data = apply_keystream ks key nonce b\<rparr>)"

definition chacha_decrypt_sync :: "keystream \<Rightarrow> bytes \<Rightarrow> encrypted \<Rightarrow> bytes" where
  "chacha_decrypt_sync ks key e = apply_keystream ks key (enc_nonce e) (enc_data e)"

record base64 =
  b64_encode :: "bytes \<Rightarrow> string"
  b64_decode :: "string \<Rightarrow> bytes option"

definition encrypted_display :: "base64 \<Rightarrow> encrypted \<Rightarrow> string" where
  "encrypted_display b64 e = b64_encode b64 (enc_nonce e) @ '' '' @ b64_encode b64 (enc_data e)"

datatype parse_error = MissingNonce | MissingData | InvalidNonce | InvalidData

fun parse_error_display :: "parse_error \<Rightarrow> string" where
  "parse_error_display MissingNonce = ''missing nonce''"
| "parse_error_display MissingData = ''missing data''"
| "parse_error_display InvalidNonce = ''invalid nonce''"
| "parse_error_display InvalidData = ''invalid data''"

text \<open>\<open>str::split_whitespace\<close>: the parts between white space that are not empty.\<close>

fun split_whitespace :: "string \<Rightarrow> string list" where
  "split_whitespace [] = []"
| "split_whitespace (c # s) =
    (if is_whitespace c then split_whitespace s
     else (c # takeWhile (\<lambda>x. \<not> is_whitespace x) s) # split_whitespace (dropWhile (\<lambda>x. \<not> is_whitespace x) s))"

definition decode_part :: "base64 \<Rightarrow> parse_error \<Rightarrow> parse_error \<Rightarrow> string list \<Rightarrow> parse_error + bytes" where
  "decode_part b64 missing invalid parts =
    (case parts of
       [] \<Rightarrow> Inl missing
     | p # _ \<Rightarrow> (case b64_decode b64 p of Some b \<Rightarrow> Inr b | None \<Rightarrow> Inl invalid))"

definition encrypted_from_str :: "base64 \<Rightarrow> string \<Rightarrow> parse_error + encrypted" where
  "encrypted_from_str b64 s =
    (let parts = split_whitespace s in
     try_bind (decode_part b64 MissingNonce InvalidNonce parts) (\<lambda>nonce.
     try_bind (decode_part b64 MissingData InvalidData (drop 1 parts)) (\<lambda>b.
       if length nonce = 12 then Inr \<lparr>enc_nonce = nonce, enc_data = b\<rparr> else Inl InvalidNonce)))"

text \<open>What the \<open>base64\<close> crate documents: decoding undoes encoding, the alphabet has no white space, and only empty data
  has an empty text.\<close>

definition base64_laws :: "base64 \<Rightarrow> bool" where
  "base64_laws b64 \<longleftrightarrow> (\<forall>b. b64_decode b64 (b64_encode b64 b) = Some b)
    \<and> (\<forall>b. list_all (\<lambda>c. \<not> is_whitespace c) (b64_encode b64 b)) \<and> (\<forall>b. b64_encode b64 b = [] \<longleftrightarrow> b = [])"

section \<open>Lemmas\<close>

lemma as_bytes_Nil_iff: "as_bytes s = [] \<longleftrightarrow> s = []"
  by (cases s) (simp_all add: as_bytes_def utf8_char_def Let_def)

lemma apply_keystream_twice [simp]: "apply_keystream ks key nonce (apply_keystream ks key nonce b) = b"
proof -
  have "map (\<lambda>(i, x). x XOR f i) (enumerate n (map (\<lambda>(i, x). x XOR f i) (enumerate n b))) = b" for f n
    by (induction b arbitrary: n) (simp_all add: xor.assoc)
  then show ?thesis by (simp add: apply_keystream_def)
qed

lemma apply_keystream_Nil_iff [simp]: "apply_keystream ks key nonce b = [] \<longleftrightarrow> b = []"
  by (cases b) (simp_all add: apply_keystream_def)

lemma decrypt_encrypt [simp]: "chacha_decrypt_sync ks key (chacha_encrypt_sync ks nonce_for key b) = b"
  by (simp add: chacha_decrypt_sync_def chacha_encrypt_sync_def Let_def)

lemma split_whitespace_word:
  assumes "list_all (\<lambda>c. \<not> is_whitespace c) w"
  shows "split_whitespace (w @ '' '' @ s) = (if w = [] then split_whitespace s else w # split_whitespace s)"
    and "split_whitespace w = (if w = [] then [] else [w])"
proof -
  have space: "is_whitespace CHR '' ''" by (simp add: is_whitespace_def)
  show "split_whitespace (w @ '' '' @ s) = (if w = [] then split_whitespace s else w # split_whitespace s)"
    using assms space by (cases w) (simp_all add: takeWhile_append dropWhile_append list_all_iff)
  show "split_whitespace w = (if w = [] then [] else [w])"
  proof (cases w)
    case (Cons c v)
    then have "takeWhile (\<lambda>x. \<not> is_whitespace x) v = v" "dropWhile (\<lambda>x. \<not> is_whitespace x) v = []"
      using assms by (simp_all add: takeWhile_eq_all_conv dropWhile_eq_Nil_conv list_all_iff)
    then have "split_whitespace (c # v) = [c # v]"
      using assms Cons by (simp only: split_whitespace.simps list.pred_inject if_False)
    then show ?thesis by (simp only: Cons list.distinct if_False)
  qed simp
qed

lemma encrypted_text:
  assumes "base64_laws b64" "length (enc_nonce e) = 12"
  shows "encrypted_from_str b64 (encrypted_display b64 e) = (if enc_data e = [] then Inl MissingData else Inr e)"
proof -
  have nonce: "b64_encode b64 (enc_nonce e) \<noteq> []" using assms by (auto simp: base64_laws_def)
  have word: "list_all (\<lambda>c. \<not> is_whitespace c) (b64_encode b64 b)" for b using assms(1) by (simp add: base64_laws_def)
  have "split_whitespace (encrypted_display b64 e) =
      b64_encode b64 (enc_nonce e) # (if enc_data e = [] then [] else [b64_encode b64 (enc_data e)])"
    using split_whitespace_word(1) [OF word [of "enc_nonce e"], of "b64_encode b64 (enc_data e)"]
      split_whitespace_word(2) [OF word [of "enc_data e"]] nonce assms(1)
    by (simp add: encrypted_display_def base64_laws_def)
  then show ?thesis using assms
    by (simp add: encrypted_from_str_def decode_part_def base64_laws_def try_bind_def)
qed

text \<open>An encoding for concrete inputs: two letters for a byte.\<close>

fun sample_decode :: "string \<Rightarrow> bytes option" where
  "sample_decode [] = Some []"
| "sample_decode [_] = None"
| "sample_decode (a # b # s) = map_option (Cons (word_of_nat ((of_char a - 65) * 16 + (of_char b - 65)))) (sample_decode s)"

definition sample_base64 :: base64 where
  "sample_base64 = \<lparr>b64_encode = (\<lambda>b. concat (map (\<lambda>x. [char_of (65 + unat x div 16), char_of (65 + unat x mod 16)]) b)),
     b64_decode = sample_decode\<rparr>"

lemma sample_base64_laws: "base64_laws sample_base64"
proof -
  let ?hi = "\<lambda>x :: 8 word. char_of (65 + unat x div 16) :: char" and ?lo = "\<lambda>x :: 8 word. char_of (65 + unat x mod 16) :: char"
  have small: "unat x div 16 < 16" for x :: "8 word" using unsigned_less [of x, where ?'a = nat] by simp
  have digits: "(of_char (?hi x) :: nat) = 65 + unat x div 16" "(of_char (?lo x) :: nat) = 65 + unat x mod 16" for x
    using small [of x] by simp_all
  have "sample_decode (concat (map (\<lambda>x. [?hi x, ?lo x]) b)) = Some b" for b
    using digits by (induction b) (simp_all del: of_char_of)
  moreover have "\<not> is_whitespace (?hi x) \<and> \<not> is_whitespace (?lo x)" for x
  proof -
    have "unat x mod 16 < 16" by simp
    then have "unat x mod 16 \<noteq> 68" "unat x mod 16 \<noteq> 95" by linarith+
    then show ?thesis using small [of x] digits [of x] by (simp add: is_whitespace_def Let_def del: of_char_of)
  qed
  then have "list_all (\<lambda>c. \<not> is_whitespace c) (concat (map (\<lambda>x. [?hi x, ?lo x]) b))" for b by (induction b) simp_all
  moreover have "concat (map (\<lambda>x. [?hi x, ?lo x]) b) = [] \<longleftrightarrow> b = []" for b by (cases b) simp_all
  ultimately show ?thesis by (simp add: base64_laws_def sample_base64_def)
qed

end
