(* ===== verification/Openvasd_Storage.thy ===== *)
theory Openvasd_Storage
  imports Scan_Model Crypt
begin

text \<open>
  The scan storage of the service, src/rust/src/openvasd/storage/inmemory.rs, and the wrapper that
  passes knowledge base items and results of scripts on to it, \<open>UserNASLStorageForKBandVT\<close> of
  src/rust/src/openvasd/storage/mod.rs.

  The storage is generic in the way data is encrypted, the record \<open>crypter\<close> with the operations of the trait \<open>Crypt\<close> and
  of encrypted values; \<open>chacha_crypter\<close> is the instance of the service. JSON is made by another crate and
  is the parameter \<open>json\<close>.
\<close>

section \<open>Model\<close>

datatype openvasd_error = Serialization | ScanNotFound | StorageFailure string

record 'e crypter =
  encrypt_sync :: "8 word list \<Rightarrow> 'e"
  decrypt_sync :: "'e \<Rightarrow> 8 word list"
  encrypted_to_string :: "'e \<Rightarrow> string"
  encrypted_try_from :: "string \<Rightarrow> openvasd_error + 'e"

text \<open>\<open>From<ParseError>\<close> and the instance of the service.\<close>

definition from_parse_error :: "parse_error + 'a \<Rightarrow> openvasd_error + 'a" where
  "from_parse_error r = (case r of Inl _ \<Rightarrow> Inl Serialization | Inr v \<Rightarrow> Inr v)"

definition chacha_crypter :: "base64 \<Rightarrow> keystream \<Rightarrow> (bytes \<Rightarrow> bytes) \<Rightarrow> bytes \<Rightarrow> encrypted crypter" where
  "chacha_crypter b64 ks nonce_for key =
    \<lparr>encrypt_sync = chacha_encrypt_sync ks nonce_for key, decrypt_sync = chacha_decrypt_sync ks key,
     encrypted_to_string = encrypted_display b64, encrypted_try_from = (\<lambda>s. from_parse_error (encrypted_from_str b64 s))\<rparr>"

record json =
  to_vec :: "result \<Rightarrow> string + 8 word list"
  from_slice :: "8 word list \<Rightarrow> result option"

record 'e progress =
  pr_scan :: scan
  pr_status :: status
  pr_results :: "'e list"

datatype feed_type = Products | Advisories | NASL

record feed_hash =
  fh_hash :: string
  fh_path :: string
  fh_typus :: feed_type

record 'e inmemory =
  im_scans :: "(string \<times> 'e progress) list"
  im_hash :: "feed_hash list"
  im_client_id :: "(string \<times> string) list"
  im_underlying :: default_dispatcher
  im_feed_version :: string

definition new_inmemory :: "feed_hash list \<Rightarrow> 'e inmemory" where
  "new_inmemory feeds = \<lparr>im_scans = [], im_hash = feeds, im_client_id = [], im_underlying = new_dispatcher,
     im_feed_version = []\<rparr>"

subsection \<open>Scans\<close>

text \<open>\<open>map(...).collect()\<close> over results: the first error, or all values\<close>

fun try_map :: "('a \<Rightarrow> 'e + 'b) \<Rightarrow> 'a list \<Rightarrow> 'e + 'b list" where
  "try_map f [] = Inr []"
| "try_map f (x # xs) = try_bind (f x) (\<lambda>y. try_bind (try_map f xs) (\<lambda>ys. Inr (y # ys)))"

text \<open>\<open>new_progress\<close>; the closure never fails, so the \<open>unwrap\<close> of its result does not panic.\<close>

definition encrypt_password :: "'e crypter \<Rightarrow> string \<Rightarrow> openvasd_error + string" where
  "encrypt_password crypter p = Inr (encrypted_to_string crypter (encrypt_sync crypter (as_bytes p)))"

definition new_progress :: "'e crypter \<Rightarrow> scan \<Rightarrow> 'e progress rs" where
  "new_progress crypter scan =
    (case try_map (map_password (encrypt_password crypter)) (target_credentials (scan_target scan)) of
       Inr cs \<Rightarrow> Ret \<lparr>pr_scan = scan\<lparr>scan_target := (scan_target scan)\<lparr>target_credentials := cs\<rparr>\<rparr>,
                      pr_status = default_status, pr_results = []\<rparr>
     | Inl _ \<Rightarrow> Panic)"

definition insert_scan :: "'e crypter \<Rightarrow> scan \<Rightarrow> 'e inmemory \<Rightarrow> 'e inmemory rs" where
  "insert_scan crypter sp s =
    (case map_of (im_scans s) (scan_id sp) of
       Some prgs \<Rightarrow> Ret (s\<lparr>im_scans := AList.update (scan_id sp) (prgs\<lparr>pr_scan := sp\<rparr>) (im_scans s)\<rparr>)
     | None \<Rightarrow> rs_bind (new_progress crypter sp) (\<lambda>progress.
         Ret (s\<lparr>im_scans := AList.update (scan_id sp) progress (im_scans s)\<rparr>)))"

definition im_remove_scan :: "string \<Rightarrow> 'e inmemory \<Rightarrow> 'e inmemory" where
  "im_remove_scan i s = s\<lparr>im_scans := AList.delete i (im_scans s)\<rparr>"

definition im_update_status :: "string \<Rightarrow> status \<Rightarrow> 'e inmemory \<Rightarrow> (openvasd_error + unit) \<times> 'e inmemory" where
  "im_update_status i st s =
    (case map_of (im_scans s) i of
       None \<Rightarrow> (Inl ScanNotFound, s)
     | Some progress \<Rightarrow> (Inr (), s\<lparr>im_scans := AList.update i (progress\<lparr>pr_status := st\<rparr>) (im_scans s)\<rparr>))"

definition get_scan_ids :: "'e inmemory \<Rightarrow> string list" where
  "get_scan_ids s = map (scan_id \<circ> pr_scan \<circ> snd) (im_scans s)"

definition get_scan :: "string \<Rightarrow> 'e inmemory \<Rightarrow> openvasd_error + (scan \<times> status)" where
  "get_scan i s =
    (case map_of (im_scans s) i of None \<Rightarrow> Inl ScanNotFound | Some p \<Rightarrow> Inr (pr_scan p, pr_status p))"

definition decrypt_password :: "'e crypter \<Rightarrow> string \<Rightarrow> openvasd_error + string" where
  "decrypt_password crypter p =
    try_bind (encrypted_try_from crypter p) (\<lambda>enc.
      case from_utf8 (decrypt_sync crypter enc) of Some s \<Rightarrow> Inr s | None \<Rightarrow> Inl Serialization)"

definition get_decrypted_scan :: "'e crypter \<Rightarrow> string \<Rightarrow> 'e inmemory \<Rightarrow> openvasd_error + (scan \<times> status)" where
  "get_decrypted_scan crypter i s =
    try_bind (get_scan i s) (\<lambda>(scan, status).
    try_bind (try_map (map_password (decrypt_password crypter)) (target_credentials (scan_target scan))) (\<lambda>cs.
      Inr (scan\<lparr>scan_target := (scan_target scan)\<lparr>target_credentials := cs\<rparr>\<rparr>, status)))"

definition im_get_status :: "string \<Rightarrow> 'e inmemory \<Rightarrow> openvasd_error + status" where
  "im_get_status i s =
    (case map_of (im_scans s) i of None \<Rightarrow> Inl ScanNotFound | Some p \<Rightarrow> Inr (pr_status p))"

subsection \<open>Results\<close>

definition decrypt_results :: "'e crypter \<Rightarrow> 'e progress \<Rightarrow> nat option \<Rightarrow> nat option \<Rightarrow> 8 word list list" where
  "decrypt_results crypter p from to =
    (let f = (case from of Some f \<Rightarrow> f | None \<Rightarrow> 0);
         t = (case to of Some t \<Rightarrow> t | None \<Rightarrow> length (pr_results p));
         t = min t (length (pr_results p))
     in if f > t \<or> f > length (pr_results p) then []
        else map (decrypt_sync crypter) (take (t - f) (drop f (pr_results p))))"

definition get_results :: "'e crypter \<Rightarrow> string \<Rightarrow> nat option \<Rightarrow> nat option \<Rightarrow> 'e inmemory
    \<Rightarrow> openvasd_error + 8 word list list" where
  "get_results crypter i from to s =
    (case map_of (im_scans s) i of
       None \<Rightarrow> Inl ScanNotFound | Some p \<Rightarrow> Inr (decrypt_results crypter p from to))"

text \<open>The results of one scan are numbered from the number of stored results on; an error of the
  serialization keeps what was pushed before.\<close>

fun push_results :: "'e crypter \<Rightarrow> json \<Rightarrow> result list \<Rightarrow> nat \<Rightarrow> 'e list \<Rightarrow> (openvasd_error + unit) \<times> 'e list" where
  "push_results crypter js [] len stored = (Inr (), stored)"
| "push_results crypter js (r # rs) len stored =
    (case to_vec js (r\<lparr>r_id := len\<rparr>) of
       Inl _ \<Rightarrow> (Inl Serialization, stored)
     | Inr bytes \<Rightarrow> push_results crypter js rs (len + 1) (stored @ [encrypt_sync crypter bytes]))"

fun im_append_fetched_result ::
  "'e crypter \<Rightarrow> json \<Rightarrow> scan_results list \<Rightarrow> 'e inmemory \<Rightarrow> (openvasd_error + unit) \<times> 'e inmemory" where
  "im_append_fetched_result crypter js [] s = (Inr (), s)"
| "im_append_fetched_result crypter js (r # rs) s =
    (case map_of (im_scans s) (sr_id r) of
       None \<Rightarrow> (Inl ScanNotFound, s)
     | Some p \<Rightarrow>
         (case push_results crypter js (sr_results r) (length (pr_results p)) (pr_results p) of
            (res, stored) \<Rightarrow>
              let s' = s\<lparr>im_scans := AList.update (sr_id r) (p\<lparr>pr_status := sr_status r, pr_results := stored\<rparr>) (im_scans s)\<rparr>
              in case res of Inl e \<Rightarrow> (Inl e, s') | Inr _ \<Rightarrow> im_append_fetched_result crypter js rs s'))"

definition handle_result :: "'e crypter \<Rightarrow> json \<Rightarrow> context_key \<Rightarrow> result \<Rightarrow> 'e inmemory \<Rightarrow> (storage_error + unit) \<times> 'e inmemory" where
  "handle_result crypter js key r s =
    (case map_of (im_scans s) (context_key_as_ref key) of
       None \<Rightarrow> (Inl (UnexpectedData (''Expected scan for '' @ context_key_display key)), s)
     | Some p \<Rightarrow>
         let st = (case st_phase (pr_status p) of
               Stored \<Rightarrow> (pr_status p)\<lparr>st_phase := Running\<rparr>
             | Requested \<Rightarrow> (pr_status p)\<lparr>st_phase := Running\<rparr>
             | _ \<Rightarrow> pr_status p);
             p = p\<lparr>pr_status := st\<rparr>
         in case to_vec js (r\<lparr>r_id := length (pr_results p)\<rparr>) of
              Inl e \<Rightarrow> (Inl (UnexpectedData e), s\<lparr>im_scans := AList.update (context_key_as_ref key) p (im_scans s)\<rparr>)
            | Inr bytes \<Rightarrow> (Inr (), s\<lparr>im_scans := AList.update (context_key_as_ref key)
                (p\<lparr>pr_results := pr_results p @ [encrypt_sync crypter bytes]\<rparr>) (im_scans s)\<rparr>))"

definition im_remove_result :: "'e crypter \<Rightarrow> json \<Rightarrow> context_key \<Rightarrow> nat option \<Rightarrow> 'e inmemory
    \<Rightarrow> (storage_error + result list) \<times> 'e inmemory" where
  "im_remove_result crypter js key idx s =
    (let k = context_key_as_ref key in
     case get_results crypter k idx (map_option Suc idx) s of
       Inl _ \<Rightarrow> (Inl (NotFound k), s)
     | Inr bytes \<Rightarrow>
         (case map_of (im_scans s) k of
            None \<Rightarrow> (Inl (UnexpectedData (''Expected scan for '' @ context_key_display key)), s)
          | Some p \<Rightarrow>
              let stored = (case idx of
                    Some i \<Rightarrow> if i < length (pr_results p) then take i (pr_results p) @ drop (Suc i) (pr_results p) else pr_results p
                  | None \<Rightarrow> [])
              in (Inr (List.map_filter (from_slice js) bytes),
                  s\<lparr>im_scans := AList.update k (p\<lparr>pr_results := stored\<rparr>) (im_scans s)\<rparr>)))"

subsection \<open>Clients\<close>

definition add_scan_client_id :: "string \<Rightarrow> string \<Rightarrow> 'e inmemory \<Rightarrow> 'e inmemory" where
  "add_scan_client_id sid cid s = s\<lparr>im_client_id := im_client_id s @ [(cid, sid)]\<rparr>"

text \<open>\<open>Vec::remove\<close> panics when the index is out of bounds.\<close>

fun remove_indices :: "nat list \<Rightarrow> 'a list \<Rightarrow> 'a list rs" where
  "remove_indices [] xs = Ret xs"
| "remove_indices (i # is) xs =
    (if i < length xs then remove_indices is (take i xs @ drop (Suc i) xs) else Panic)"

definition remove_scan_id :: "string \<Rightarrow> 'e inmemory \<Rightarrow> 'e inmemory rs" where
  "remove_scan_id sid s =
    (let to_remove = map fst (filter (\<lambda>(i, (_, s)). s = sid) (enumerate 0 (im_client_id s)))
     in rs_bind (remove_indices to_remove (im_client_id s)) (\<lambda>ids. Ret (s\<lparr>im_client_id := ids\<rparr>)))"

definition get_scans_of_client_id :: "string \<Rightarrow> 'e inmemory \<Rightarrow> string list" where
  "get_scans_of_client_id cid s = map snd (filter (\<lambda>(c, _). c = cid) (im_client_id s))"

definition is_client_allowed :: "string \<Rightarrow> string \<Rightarrow> 'e inmemory \<Rightarrow> bool" where
  "is_client_allowed sid cid s = list_ex (\<lambda>i. i = sid) (get_scans_of_client_id cid s)"

subsection \<open>Feeds\<close>

definition update_hashes :: "feed_hash list \<Rightarrow> feed_hash list \<Rightarrow> feed_hash list" where
  "update_hashes new h =
    map (\<lambda>ha. case find (\<lambda>x. fh_typus x = fh_typus ha) new of Some nh \<Rightarrow> ha\<lparr>fh_hash := fh_hash nh\<rparr> | None \<Rightarrow> ha) h"

text \<open>The updates of the feeds run on the underlying storage; they are the parameter \<open>update_feed\<close>. The
  code spawns them together and returns the first error; here they run in the order of the list.\<close>

fun run_updates :: "(feed_type \<Rightarrow> string \<Rightarrow> default_dispatcher \<Rightarrow> (openvasd_error + unit) \<times> default_dispatcher)
    \<Rightarrow> feed_hash list \<Rightarrow> default_dispatcher \<Rightarrow> (openvasd_error + unit) \<times> default_dispatcher" where
  "run_updates update_feed [] d = (Inr (), d)"
| "run_updates update_feed (h # hs) d =
    (if fh_typus h = Products then run_updates update_feed hs d
     else case update_feed (fh_typus h) (fh_path h) d of
       (Inl e, d') \<Rightarrow> (Inl e, d')
     | (Inr _, d') \<Rightarrow> run_updates update_feed hs d')"

definition im_synchronize_feeds ::
  "(feed_type \<Rightarrow> string \<Rightarrow> default_dispatcher \<Rightarrow> (openvasd_error + unit) \<times> default_dispatcher)
    \<Rightarrow> feed_hash list \<Rightarrow> 'e inmemory \<Rightarrow> (openvasd_error + unit) \<times> 'e inmemory" where
  "im_synchronize_feeds update_feed hash s =
    (case run_updates update_feed hash (im_underlying s) of
       (r, d) \<Rightarrow> (r, s\<lparr>im_hash := update_hashes hash (im_hash s), im_underlying := d\<rparr>))"

definition im_current_feed_version :: "'e inmemory \<Rightarrow> string" where
  "im_current_feed_version s = im_feed_version s"

definition im_feed_hash :: "'e inmemory \<Rightarrow> feed_hash list" where
  "im_feed_hash s = im_hash s"

subsection \<open>The storage of running scripts\<close>

definition user_dispatch :: "'e crypter \<Rightarrow> json \<Rightarrow> context_key \<Rightarrow> field \<Rightarrow> 'e inmemory \<Rightarrow> (storage_error + unit) \<times> 'e inmemory" where
  "user_dispatch crypter js key scope s =
    (case scope of
       ResultF r \<Rightarrow> handle_result crypter js key r s
     | _ \<Rightarrow> (Inr (), s\<lparr>im_underlying := dispatch key scope (im_underlying s)\<rparr>))"

definition user_dispatch_replace :: "context_key \<Rightarrow> field \<Rightarrow> 'e inmemory \<Rightarrow> (storage_error + unit) \<times> 'e inmemory" where
  "user_dispatch_replace key scope s = (Inr (), s)"

definition user_retrieve :: "context_key \<Rightarrow> retrieve \<Rightarrow> 'e inmemory \<Rightarrow> field list rs" where
  "user_retrieve key scope s = retrieve_fields key scope (im_underlying s)"

definition user_remove_kb :: "context_key \<Rightarrow> string option \<Rightarrow> 'e inmemory \<Rightarrow> kb list option \<times> 'e inmemory" where
  "user_remove_kb key n s =
    (case remove_kb key n (im_underlying s) of (r, d) \<Rightarrow> (r, s\<lparr>im_underlying := d\<rparr>))"

definition user_remove_result :: "context_key \<Rightarrow> nat option \<Rightarrow> 'e inmemory \<Rightarrow> result list option \<times> 'e inmemory" where
  "user_remove_result key i s =
    (case remove_result key i (im_underlying s) of (r, d) \<Rightarrow> (r, s\<lparr>im_underlying := d\<rparr>))"

section \<open>Lemmas\<close>

lemma chacha_decrypt_password:
  assumes "base64_laws b64" "\<And>b. length (nonce_for b) = 12"
  shows "decrypt_password (chacha_crypter b64 ks nonce_for key) (encrypted_display b64 (chacha_encrypt_sync ks nonce_for key (as_bytes p)))
    = (if p = [] then Inl Serialization else Inr p)"
proof -
  let ?e = "chacha_encrypt_sync ks nonce_for key (as_bytes p)"
  have "enc_data ?e = [] \<longleftrightarrow> p = []" "length (enc_nonce ?e) = 12"
    using assms(2) by (simp_all add: chacha_encrypt_sync_def Let_def as_bytes_Nil_iff)
  then have "encrypted_from_str b64 (encrypted_display b64 ?e) = (if p = [] then Inl MissingData else Inr ?e)"
    using encrypted_text [OF assms(1)] by simp
  then show ?thesis by (simp add: decrypt_password_def chacha_crypter_def from_parse_error_def try_bind_def)
qed

lemma try_map_total: "(\<And>x. f x = Inr (F x)) \<Longrightarrow> try_map f xs = Inr (map F xs)"
  by (induction xs) (simp_all add: try_bind_def)

lemma try_map_back:
  "(\<And>x. g (F x) = (if P x then Inl e else Inr x)) \<Longrightarrow> try_map g (map F xs) = (if list_ex P xs then Inl e else Inr xs)"
  by (induction xs) (simp_all add: try_bind_def)

lemma push_results_spec:
  assumes "\<And>r i. r \<in> set rs \<Longrightarrow> to_vec js (r\<lparr>r_id := i\<rparr>) = Inr (enc (r\<lparr>r_id := i\<rparr>))"
  shows "push_results crypter js rs len stored =
    (Inr (), stored @ map (\<lambda>(i, r). encrypt_sync crypter (enc (r\<lparr>r_id := i\<rparr>))) (enumerate len rs))"
  using assms by (induction rs arbitrary: len stored) simp_all

lemma remove_indices_single: "i < length xs \<Longrightarrow> remove_indices [i] xs = Ret (take i xs @ drop (Suc i) xs)"
  by simp

lemma filter_enumerate_absent: "filter (\<lambda>(i, (_, s)). s = sid) (enumerate n ids) = [] \<longleftrightarrow> sid \<notin> snd ` set ids"
  by (induction ids arbitrary: n) (auto split: prod.splits)

lemma remove_unique:
  assumes "ids = xs @ (c, sid) # ys" "sid \<notin> snd ` set xs" "sid \<notin> snd ` set ys"
  shows "remove_indices (map fst (filter (\<lambda>(i, (_, s)). s = sid) (enumerate 0 ids))) ids = Ret (xs @ ys)"
proof -
  have e: "enumerate 0 ids = enumerate 0 xs @ (length xs, c, sid) # enumerate (Suc (length xs)) ys"
    by (simp add: assms(1) enumerate_append_eq)
  have "filter (\<lambda>(i, (_, s)). s = sid) (enumerate 0 ids) = [(length xs, c, sid)]"
    using filter_enumerate_absent [of sid 0 xs] filter_enumerate_absent [of sid "Suc (length xs)" ys] assms(2,3)
    by (simp add: e)
  then show ?thesis by (simp add: assms(1))
qed

lemma insert_scan_new:
  assumes "map_of (im_scans s) (scan_id sp) = None"
  shows "\<exists>s'. insert_scan crypter sp s = Ret s' \<and> map_of (im_scans s') (scan_id sp) =
    Some \<lparr>pr_scan = sp\<lparr>scan_target := (scan_target sp)\<lparr>target_credentials :=
      map (with_passwords (\<lambda>p. encrypted_to_string crypter (encrypt_sync crypter (as_bytes p)))) (target_credentials (scan_target sp))\<rparr>\<rparr>,
      pr_status = default_status, pr_results = []\<rparr>"
proof -
  have "try_map (map_password (encrypt_password crypter)) cs =
      Inr (map (with_passwords (\<lambda>p. encrypted_to_string crypter (encrypt_sync crypter (as_bytes p)))) cs)" for cs
    by (rule try_map_total, rule map_password_total) (simp add: encrypt_password_def)
  then show ?thesis using assms by (simp add: insert_scan_def new_progress_def AList.update_conv')
qed

section \<open>Properties\<close>


text \<open>A crypter for concrete inputs.\<close>

definition sample_crypter :: "encrypted crypter" where
  "sample_crypter = chacha_crypter sample_base64 (\<lambda>_ _ i. word_of_nat i) (\<lambda>_. replicate 12 0) []"

definition sample_target :: target where
  "sample_target = \<lparr>target_hosts = [''h''], target_ports = [], target_excluded_hosts = [],
     target_credentials = [\<lparr>cred_service = SSH, cred_port = None, cred_type = UP ''root'' ''secret'' None\<rparr>],
     target_alive_test_ports = [], target_alive_test_methods = [], target_reverse_lookup_unify = None,
     target_reverse_lookup_only = None\<rparr>"

definition sample_scan_model :: "string \<Rightarrow> scan" where
  "sample_scan_model i = \<lparr>scan_id = i, scan_target = sample_target, scan_preferences = [], scan_vts = []\<rparr>"

definition empty_password_scan :: scan where
  "empty_password_scan = (sample_scan_model ''s'')\<lparr>scan_target := sample_target\<lparr>target_credentials :=
     [\<lparr>cred_service = SSH, cred_port = None, cred_type = UP ''root'' [] None\<rparr>]\<rparr>\<rparr>"


text \<open>Sending a scan again under its id stores it with the credentials in plain text: the stored scan
  is the one that was sent. A password that is not the text of an encrypted value then makes
  decryption, and with it the start of the scan, fail.\<close>

theorem reinsert_scan_plaintext:
  assumes "map_of (im_scans s) (scan_id sp) = Some p"
    and "target_credentials (scan_target sp) = c # cs" "cred_type c = UP user password privilege"
    and "encrypted_try_from crypter password = Inl e"
  shows "\<exists>s'. insert_scan crypter sp s = Ret s' \<and> get_scan (scan_id sp) s' = Inr (sp, pr_status p)
    \<and> get_decrypted_scan crypter (scan_id sp) s' = Inl e"
  using assms
  by (simp add: insert_scan_def get_scan_def get_decrypted_scan_def AList.update_conv' try_bind_def
      map_password_def decrypt_password_def)

theorem reinsert_scan_plaintext_witness:
  "\<exists>s0 s'. insert_scan sample_crypter (sample_scan_model ''s'') (new_inmemory []) = Ret s0
    \<and> insert_scan sample_crypter (sample_scan_model ''s'') s0 = Ret s'
    \<and> get_scan ''s'' s' = Inr (sample_scan_model ''s'', default_status)"
proof -
  obtain s0 p where s0: "insert_scan sample_crypter (sample_scan_model ''s'') (new_inmemory []) = Ret s0"
      "map_of (im_scans s0) ''s'' = Some p" "pr_status p = default_status"
    using insert_scan_new [of "new_inmemory []" "sample_scan_model ''s''" sample_crypter]
    by (auto simp: new_inmemory_def sample_scan_model_def)
  have "encrypted_try_from sample_crypter ''secret'' = Inl Serialization"
    by (simp add: sample_crypter_def chacha_crypter_def encrypted_from_str_def from_parse_error_def decode_part_def is_whitespace_def
        sample_base64_def try_bind_def)
  then show ?thesis
    using reinsert_scan_plaintext [of s0 "sample_scan_model ''s''" p _ "[]" "''root''" "''secret''" None sample_crypter Serialization] s0
    by (auto simp: sample_scan_model_def sample_target_def)
qed

text \<open>Removing the id of a scan takes exactly its entry out of the list of clients when it has one
  entry: the other clients keep their scans. With two entries the indices of the second removal are
  off by one: the entry of another client is removed, or the service panics.\<close>

theorem remove_scan_id_exact:
  assumes "im_client_id s = xs @ (c, sid) # ys" "sid \<notin> snd ` set xs" "sid \<notin> snd ` set ys"
  shows "remove_scan_id sid s = Ret (s\<lparr>im_client_id := xs @ ys\<rparr>)
    \<and> remove_scan_id ''s'' (s\<lparr>im_client_id := [(''a'', ''s''), (''b'', ''s''), (''c'', ''t'')]\<rparr>) =
        Ret (s\<lparr>im_client_id := [(''b'', ''s'')]\<rparr>)
    \<and> remove_scan_id ''s'' (s\<lparr>im_client_id := [(''a'', ''s''), (''b'', ''s'')]\<rparr>) = Panic"
  using remove_unique [OF assms] by (simp add: remove_scan_id_def)

theorem remove_scan_id_exact_witness:
  "remove_scan_id ''t'' ((new_inmemory [] :: encrypted inmemory)\<lparr>im_client_id := [(''a'', ''s''), (''b'', ''t'')]\<rparr>) =
    Ret (new_inmemory []\<lparr>im_client_id := [(''a'', ''s'')]\<rparr>)"
  using remove_scan_id_exact [of "(new_inmemory [] :: encrypted inmemory)\<lparr>im_client_id := [(''a'', ''s''), (''b'', ''t'')]\<rparr>"
      "[(''a'', ''s'')]" "''b''" "''t''" "[]"] by simp

text \<open>What the storage relies on: a result is read back from its JSON, whatever its id is.\<close>

definition json_laws :: "json \<Rightarrow> result list \<Rightarrow> bool" where
  "json_laws js rs \<longleftrightarrow> (\<forall>r \<in> set rs. \<forall>i. \<exists>bytes. to_vec js (r\<lparr>r_id := i\<rparr>) = Inr bytes
    \<and> from_slice js bytes = Some (r\<lparr>r_id := i\<rparr>))"

text \<open>Fetched results are appended behind the stored ones and numbered by their position: reading all
  results gives the old bytes, then the new results with the ids that follow.\<close>

theorem append_numbers_results:
  assumes "crypter = chacha_crypter b64 ks nonce_for key" "json_laws js (sr_results r)" "map_of (im_scans s) (sr_id r) = Some p"
  shows "\<exists>s' bytes. im_append_fetched_result crypter js [r] s = (Inr (), s')
    \<and> im_get_status (sr_id r) s' = Inr (sr_status r)
    \<and> get_results crypter (sr_id r) None None s' = Inr (map (decrypt_sync crypter) (pr_results p) @ bytes)
    \<and> map (from_slice js) bytes =
        map (\<lambda>(i, x). Some (x\<lparr>r_id := i\<rparr>)) (enumerate (length (pr_results p)) (sr_results r))"
proof -
  obtain enc where enc: "\<And>x i. x \<in> set (sr_results r) \<Longrightarrow> to_vec js (x\<lparr>r_id := i\<rparr>) = Inr (enc (x\<lparr>r_id := i\<rparr>))"
      "\<And>x i. x \<in> set (sr_results r) \<Longrightarrow> from_slice js (enc (x\<lparr>r_id := i\<rparr>)) = Some (x\<lparr>r_id := i\<rparr>)"
    using that [of "\<lambda>x. projr (to_vec js x)"] assms(2) unfolding json_laws_def by (metis sum.sel(2))
  let ?new = "map (\<lambda>(i, x). encrypt_sync crypter (enc (x\<lparr>r_id := i\<rparr>))) (enumerate (length (pr_results p)) (sr_results r))"
  have "push_results crypter js (sr_results r) (length (pr_results p)) (pr_results p) = (Inr (), pr_results p @ ?new)"
    by (rule push_results_spec) (rule enc(1))
  moreover have "map (decrypt_sync crypter) ?new =
      map (\<lambda>(i, x). enc (x\<lparr>r_id := i\<rparr>)) (enumerate (length (pr_results p)) (sr_results r))"
    by (simp add: assms(1) chacha_crypter_def case_prod_beta comp_def)
  moreover have "map (from_slice js) (map (\<lambda>(i, x). enc (x\<lparr>r_id := i\<rparr>)) (enumerate (length (pr_results p)) (sr_results r))) =
      map (\<lambda>(i, x). Some (x\<lparr>r_id := i\<rparr>)) (enumerate (length (pr_results p)) (sr_results r))"
    using enc(2) by (auto dest!: set_zip_rightD simp: enumerate_eq_zip)
  ultimately show ?thesis
    using assms(3)
    by (simp add: im_get_status_def get_results_def decrypt_results_def AList.update_conv' case_prod_beta comp_def)
qed

definition sample_result :: result where
  "sample_result = \<lparr>r_id = 0, r_type = Log, r_ip_address = None, r_hostname = None, r_oid = None, r_port = None,
     r_protocol = None, r_message = None, r_detail = None\<rparr>"

text \<open>A JSON encoding for concrete inputs: as many bytes as the id says.\<close>

definition sample_json :: json where
  "sample_json = \<lparr>to_vec = (\<lambda>r. Inr (replicate (r_id r) 0)),
     from_slice = (\<lambda>bytes. Some (sample_result\<lparr>r_id := length bytes\<rparr>))\<rparr>"

theorem append_numbers_results_witness:
  "\<exists>s0 s' bytes. insert_scan sample_crypter (sample_scan_model ''s'') (new_inmemory []) = Ret s0
    \<and> im_append_fetched_result sample_crypter sample_json
        [\<lparr>sr_id = ''s'', sr_status = default_status, sr_results = [sample_result, sample_result]\<rparr>] s0 = (Inr (), s')
    \<and> get_results sample_crypter ''s'' None None s' = Inr bytes
    \<and> map (from_slice sample_json) bytes = [Some (sample_result\<lparr>r_id := 0\<rparr>), Some (sample_result\<lparr>r_id := 1\<rparr>)]"
proof -
  let ?r = "\<lparr>sr_id = ''s'', sr_status = default_status, sr_results = [sample_result, sample_result]\<rparr>"
  obtain p s0 where p: "insert_scan sample_crypter (sample_scan_model ''s'') (new_inmemory []) = Ret s0"
      "map_of (im_scans s0) ''s'' = Some p" "pr_results p = []"
    using insert_scan_new [of "new_inmemory []" "sample_scan_model ''s''" sample_crypter]
    by (auto simp: new_inmemory_def sample_scan_model_def)
  then show ?thesis
    using append_numbers_results [OF sample_crypter_def, of sample_json ?r s0 p]
    by (auto simp: json_laws_def sample_json_def sample_result_def)
qed

text \<open>Replacing a knowledge base item through the storage of running scripts changes nothing, although
  the storage underneath would replace the item.\<close>

lemma user_dispatch_replace_lost:
  "user_retrieve key (RetrieveKB (kb_key b)) (snd (user_dispatch_replace key (KBF b) s)) =
     user_retrieve key (RetrieveKB (kb_key b)) s
   \<and> retrieve_fields key (RetrieveKB (kb_key b)) (dispatch_replace key (KBF b) (im_underlying s)) = Ret [KBF b]"
  by (simp add: user_dispatch_replace_def dispatch_replace_def retrieve_kb kb_lookup_replace_kb)

end
