(* ===== verification/Scheduler.thy ===== *)
theory Scheduler
  imports Openvasd_Storage
begin

text \<open>
  The scheduler of openvasd: src/rust/src/openvasd/scheduling.rs, with the traits of a scanner from
  src/rust/src/models/scanner.rs and the background tasks of openvasd/controller/results.rs and feed.rs.

  The storage and the scanner are records of operations, as the traits are. The handlers are functions
  on the state of the scheduler. What the tasks of the service do while they keep the lock of the queue or of the running
  scans is one step of \<open>service_step\<close>: starting a scan consists of a check and of a commit, stopping one of
  the request to the scanner, the search of the queue and the search of the running scans, and the results of a scan are
  fetched and appended. The storage and the scanner have locks of their own; what others do to them
  between two of their calls is a step of the environment, which may leave any state. The feed update keeps the
  lock \<open>is_synchronizing_feed\<close> from its request to its end. The lock is modelled apart from the flag.

  The lemmas show that the queue and the running scans stay within their limits under every
  interleaving, that a scan is started once when requests do not overlap, and where scans get lost or
  the tasks wait for each other.
\<close>

section \<open>Errors\<close>

datatype observable_resources = CPU | Memory | IO

fun resource_display :: "observable_resources \<Rightarrow> string" where
  "resource_display CPU = ''CPU''"
| "resource_display Memory = ''Memory''"
| "resource_display IO = ''IO''"

fun display_resources :: "observable_resources list \<Rightarrow> string" where
  "display_resources [] = []"
| "display_resources [r] = resource_display r"
| "display_resources (r # rs) = resource_display r @ '','' @ display_resources rs"

datatype scan_error =
    Unexpected string
  | Connection string
  | InsufficientResources "observable_resources list"
  | Poisoned
  | UnknownScan string
  | SchedulingError string string

fun scan_error_display :: "scan_error \<Rightarrow> string" where
  "scan_error_display (Unexpected s) = ''Unexpected issue: '' @ s"
| "scan_error_display (Connection s) = ''Connection issue: '' @ s"
| "scan_error_display (InsufficientResources rs) = ''Not enough resources of types: '' @ display_resources rs"
| "scan_error_display Poisoned = ''Poisoned''"
| "scan_error_display (UnknownScan s) = ''Scan not found: '' @ s"
| "scan_error_display (SchedulingError i reason) = ''Unable to schedule scan '' @ i @ '': '' @ reason"

datatype scheduler_error =
    ScanRunning
  | ScanAlreadyQueued
  | NoSuchScan
  | QueueFull
  | ScanFailure scan_error
  | StorageError openvasd_error
  | UnsupportedResume
  | AlreadyFinished

fun openvasd_error_display :: "openvasd_error \<Rightarrow> string" where
  "openvasd_error_display ScanNotFound = ''not found''"
| "openvasd_error_display Serialization = ''serialization error''"
| "openvasd_error_display (StorageFailure e) = ''storage error: '' @ e"

fun scheduler_error_display :: "scheduler_error \<Rightarrow> string" where
  "scheduler_error_display ScanRunning = ''scan is already running''"
| "scheduler_error_display ScanAlreadyQueued = ''scan is already queued''"
| "scheduler_error_display NoSuchScan = ''scan was not found''"
| "scheduler_error_display QueueFull = ''unable to queue scan: queue is already full''"
| "scheduler_error_display (ScanFailure e) = ''scan error occurred: '' @ scan_error_display e"
| "scheduler_error_display (StorageError e) = ''storage error occurred: '' @ openvasd_error_display e"
| "scheduler_error_display UnsupportedResume = ''unable to resume scan: operation not supported''"
| "scheduler_error_display AlreadyFinished = ''unable to resume scan: scan already finished''"

fun from_storage_error :: "openvasd_error \<Rightarrow> scheduler_error" where
  "from_storage_error ScanNotFound = NoSuchScan"
| "from_storage_error e = StorageError e"

definition scan_error_from :: "scheduler_error \<Rightarrow> scan_error" where
  "scan_error_from e = Unexpected (scheduler_error_display e)"

text \<open>The conversion of a storage error into an error of the scanner keeps its debug text.\<close>

fun scan_error_from_storage :: "openvasd_error \<Rightarrow> scan_error" where
  "scan_error_from_storage ScanNotFound = Unexpected ''NotFound''"
| "scan_error_from_storage Serialization = Unexpected ''Serialization''"
| "scan_error_from_storage (StorageFailure e) = Unexpected (''Storage('' @ e @ '')'')"

section \<open>Storage, scanner and state\<close>

text \<open>The operations of the storage that the scheduler calls.\<close>

record 'db scan_storage =
  db_get_status :: "string \<Rightarrow> 'db \<Rightarrow> openvasd_error + status"
  db_update_status :: "string \<Rightarrow> status \<Rightarrow> 'db \<Rightarrow> (openvasd_error + unit) \<times> 'db"
  db_get_decrypted_scan :: "string \<Rightarrow> 'db \<Rightarrow> openvasd_error + (scan \<times> status)"
  db_remove_scan :: "string \<Rightarrow> 'db \<Rightarrow> (openvasd_error + unit) \<times> 'db"
  db_remove_scan_id :: "string \<Rightarrow> 'db \<Rightarrow> ((openvasd_error + unit) \<times> 'db) rs"
  db_append_fetched_result :: "scan_results list \<Rightarrow> 'db \<Rightarrow> (openvasd_error + unit) \<times> 'db"
  db_synchronize_feeds :: "feed_hash list \<Rightarrow> 'db \<Rightarrow> (openvasd_error + unit) \<times> 'db"
  db_current_feed_version :: "'db \<Rightarrow> openvasd_error + string"

record 'sc scanner =
  sc_start_scan :: "scan \<Rightarrow> 'sc \<Rightarrow> (scan_error + unit) \<times> 'sc"
  sc_can_start_scan :: "scan \<Rightarrow> 'sc \<Rightarrow> bool"
  sc_stop_scan :: "string \<Rightarrow> 'sc \<Rightarrow> (scan_error + unit) \<times> 'sc"
  sc_fetch_results :: "string \<Rightarrow> 'sc \<Rightarrow> (scan_error + scan_results) \<times> 'sc"
  sc_do_addition :: bool

record scheduler_config =
  max_queued_scans :: "nat option"
  max_running_scans :: "nat option"
  min_free_mem :: "nat option"
  check_interval :: nat

record ('db, 'sc) scheduler =
  queued :: "string list"
  running :: "string list"
  sched_db :: 'db
  is_synchronizing_feed :: bool
  sched_scanner :: 'sc
  feed_version :: string

definition new_scheduler :: "'sc \<Rightarrow> 'db \<Rightarrow> ('db, 'sc) scheduler" where
  "new_scheduler scanner db = \<lparr>queued = [], running = [], sched_db = db, is_synchronizing_feed = False,
     sched_scanner = scanner, feed_version = ''UNDEFINED''\<rparr>"

definition default_scheduler_config :: scheduler_config where
  "default_scheduler_config = \<lparr>max_queued_scans = None, max_running_scans = None, min_free_mem = None, check_interval = 500\<rparr>"

definition in_memory_storage :: "'e crypter \<Rightarrow> json
    \<Rightarrow> (feed_type \<Rightarrow> string \<Rightarrow> default_dispatcher \<Rightarrow> (openvasd_error + unit) \<times> default_dispatcher)
    \<Rightarrow> 'e inmemory scan_storage" where
  "in_memory_storage crypter js update_feed = \<lparr>
     db_get_status = im_get_status,
     db_update_status = im_update_status,
     db_get_decrypted_scan = get_decrypted_scan crypter,
     db_remove_scan = (\<lambda>i s. (Inr (), im_remove_scan i s)),
     db_remove_scan_id = (\<lambda>i s. rs_bind (remove_scan_id i s) (\<lambda>s. Ret (Inr (), s))),
     db_append_fetched_result = im_append_fetched_result crypter js,
     db_synchronize_feeds = im_synchronize_feeds update_feed,
     db_current_feed_version = (\<lambda>s. Inr (im_current_feed_version s))\<rparr>"

section \<open>Operations\<close>

text \<open>A status that ends a scan takes it out of the running scans.\<close>

definition ends_scan :: "phase \<Rightarrow> bool" where
  "ends_scan p \<longleftrightarrow> (case p of Stored \<Rightarrow> False | Requested \<Rightarrow> False | Running \<Rightarrow> False
     | Stopped \<Rightarrow> True | Failed \<Rightarrow> True | Succeeded \<Rightarrow> True)"

definition update_status :: "'db scan_storage \<Rightarrow> string \<Rightarrow> status \<Rightarrow> ('db, 'sc) scheduler
    \<Rightarrow> (openvasd_error + unit) \<times> ('db, 'sc) scheduler" where
  "update_status ops i st s =
    (let s = (if ends_scan (st_phase st) then s\<lparr>running := remove_id i (running s)\<rparr> else s) in
     case db_update_status ops i st (sched_db s) of (r, db) \<Rightarrow> (r, s\<lparr>sched_db := db\<rparr>))"

definition append_fetched_result :: "'db scan_storage \<Rightarrow> scan_results list \<Rightarrow> ('db, 'sc) scheduler
    \<Rightarrow> (openvasd_error + unit) \<times> ('db, 'sc) scheduler" where
  "append_fetched_result ops results s =
    (let s = s\<lparr>running := fold (\<lambda>x run. if ends_scan (st_phase (sr_status x)) then remove_id (sr_id x) run else run)
           results (running s)\<rparr> in
     case db_append_fetched_result ops results (sched_db s) of (r, db) \<Rightarrow> (r, s\<lparr>sched_db := db\<rparr>))"

text \<open>\<open>start_scan_by_id\<close> releases its lock between the check and the commit.\<close>

definition start_check :: "'db scan_storage \<Rightarrow> string \<Rightarrow> ('db, 'sc) scheduler \<Rightarrow> scheduler_error + status" where
  "start_check ops i s =
    (if i \<in> set (running s) then Inl ScanRunning
     else case db_get_status ops i (sched_db s) of
       Inl e \<Rightarrow> Inl (from_storage_error e)
     | Inr status \<Rightarrow>
         (case st_phase status of
            Stored \<Rightarrow> Inr (status\<lparr>st_phase := Requested\<rparr>)
          | Requested \<Rightarrow> Inl ScanAlreadyQueued
          | Running \<Rightarrow> Inl ScanRunning
          | Stopped \<Rightarrow> Inl UnsupportedResume
          | Failed \<Rightarrow> Inl UnsupportedResume
          | Succeeded \<Rightarrow> Inl AlreadyFinished))"

definition start_commit :: "scheduler_config \<Rightarrow> 'db scan_storage \<Rightarrow> string \<Rightarrow> status \<Rightarrow> ('db, 'sc) scheduler
    \<Rightarrow> (scheduler_error + unit) \<times> ('db, 'sc) scheduler" where
  "start_commit cfg ops i status s =
    (if max_queued_scans cfg = Some (length (queued s)) then (Inl QueueFull, s)
     else if i \<in> set (queued s) then (Inl ScanAlreadyQueued, s)
     else case update_status ops i status s of
       (Inl e, s) \<Rightarrow> (Inl (from_storage_error e), s)
     | (Inr _, s) \<Rightarrow> (Inr (), s\<lparr>queued := queued s @ [i]\<rparr>))"

definition start_scan_by_id :: "scheduler_config \<Rightarrow> 'db scan_storage \<Rightarrow> string \<Rightarrow> ('db, 'sc) scheduler
    \<Rightarrow> (scheduler_error + unit) \<times> ('db, 'sc) scheduler" where
  "start_scan_by_id cfg ops i s =
    (case start_check ops i s of Inl e \<Rightarrow> (Inl e, s) | Inr status \<Rightarrow> start_commit cfg ops i status s)"

definition unschedule :: "'sc scanner \<Rightarrow> string \<Rightarrow> ('db, 'sc) scheduler
    \<Rightarrow> (scheduler_error + unit) \<times> ('db, 'sc) scheduler" where
  "unschedule sc i s =
    (if i \<in> set (queued s) then (Inr (), s\<lparr>queued := remove_id i (queued s)\<rparr>)
     else if i \<in> set (running s) then
       (case sc_stop_scan sc i (sched_scanner s) of
          (Inl e, x) \<Rightarrow> (Inl (ScanFailure e), s\<lparr>sched_scanner := x\<rparr>)
        | (Inr _, x) \<Rightarrow> (Inr (), s\<lparr>sched_scanner := x, running := remove_id i (running s)\<rparr>))
     else (Inr (), s))"

definition delete_scan_by_id :: "'db scan_storage \<Rightarrow> 'sc scanner \<Rightarrow> string \<Rightarrow> ('db, 'sc) scheduler
    \<Rightarrow> ((scheduler_error + unit) \<times> ('db, 'sc) scheduler) rs" where
  "delete_scan_by_id ops sc i s =
    (case unschedule sc i s of
       (Inl e, s) \<Rightarrow> Ret (Inl e, s)
     | (Inr _, s) \<Rightarrow>
         (case db_remove_scan ops i (sched_db s) of
            (Inl e, db) \<Rightarrow> Ret (Inl (from_storage_error e), s\<lparr>sched_db := db\<rparr>)
          | (Inr _, db) \<Rightarrow>
              (case db_remove_scan_id ops i db of
                 Panic \<Rightarrow> Panic
               | Ret (Inl e, db) \<Rightarrow> Ret (Inl (from_storage_error e), s\<lparr>sched_db := db\<rparr>)
               | Ret (Inr _, db) \<Rightarrow> Ret (Inr (), s\<lparr>sched_db := db\<rparr>))))"

text \<open>\<open>coordinate_scans\<close>: the loop of at most \<open>amount_to_start\<close> rounds over the end of the queue.\<close>

definition failed_status :: status where
  "failed_status = \<lparr>start_time = None, end_time = None, st_phase = Failed, st_host_info = None\<rparr>"

fun start_queued :: "'db scan_storage \<Rightarrow> 'sc scanner \<Rightarrow> nat \<Rightarrow> ('db, 'sc) scheduler
    \<Rightarrow> (scheduler_error + unit) \<times> ('db, 'sc) scheduler" where
  "start_queued ops sc 0 s = (Inr (), s)"
| "start_queued ops sc (Suc n) s =
    (if queued s = [] then (Inr (), s)
     else let i = last (queued s); s = s\<lparr>queued := butlast (queued s)\<rparr> in
       case db_get_decrypted_scan ops i (sched_db s) of
         Inl e \<Rightarrow> (Inl (from_storage_error e), s)
       | Inr (scan, _) \<Rightarrow>
           if \<not> sc_can_start_scan sc scan (sched_scanner s) then start_queued ops sc n (s\<lparr>queued := queued s @ [i]\<rparr>)
           else case sc_start_scan sc scan (sched_scanner s) of
             (Inr _, x) \<Rightarrow> start_queued ops sc n (s\<lparr>sched_scanner := x, running := running s @ [i]\<rparr>)
           | (Inl (Connection _), x) \<Rightarrow> start_queued ops sc n (s\<lparr>sched_scanner := x, queued := queued s @ [i]\<rparr>)
           | (Inl _, x) \<Rightarrow>
               (case db_update_status ops i failed_status (sched_db s) of
                  (Inl e, db) \<Rightarrow> (Inl (from_storage_error e), s\<lparr>sched_scanner := x, sched_db := db\<rparr>)
                | (Inr _, db) \<Rightarrow> start_queued ops sc n (s\<lparr>sched_scanner := x, sched_db := db\<rparr>)))"

text \<open>The subtraction is one of \<open>usize\<close>, which wraps around.\<close>

definition amount_to_start :: "scheduler_config \<Rightarrow> ('db, 'sc) scheduler \<Rightarrow> nat" where
  "amount_to_start cfg s =
    (case max_running_scans cfg of
       Some mrs \<Rightarrow> unat (word_of_nat mrs - word_of_nat (length (running s)) :: u64)
     | None \<Rightarrow> length (queued s))"

definition coordinate_scans :: "scheduler_config \<Rightarrow> 'db scan_storage \<Rightarrow> 'sc scanner \<Rightarrow> ('db, 'sc) scheduler
    \<Rightarrow> (scheduler_error + unit) \<times> ('db, 'sc) scheduler" where
  "coordinate_scans cfg ops sc s =
    (if is_synchronizing_feed s then (Inr (), s) else start_queued ops sc (amount_to_start cfg s) s)"

text \<open>\<open>handle_results\<close> for one of the running scans: the results that are to be appended, if they could be fetched, and the
  whole round, in which an error of appending is only logged.\<close>

definition fetch_results_of :: "'db scan_storage \<Rightarrow> 'sc scanner \<Rightarrow> string \<Rightarrow> ('db, 'sc) scheduler
    \<Rightarrow> (scheduler_error + scan_results option) \<times> ('db, 'sc) scheduler" where
  "fetch_results_of ops sc i s =
    (case sc_fetch_results sc i (sched_scanner s) of
       (Inr results, x) \<Rightarrow>
         let s = s\<lparr>sched_scanner := x\<rparr> in
         (if sc_do_addition sc then
            (case db_get_status ops i (sched_db s) of
               Inl e \<Rightarrow> (Inl (from_storage_error e), s)
             | Inr st \<Rightarrow> (Inr (Some (results\<lparr>sr_status := status_update_with (sr_status results) st\<rparr>)), s))
          else (Inr (Some results), s))
     | (Inl _, x) \<Rightarrow>
         let s = s\<lparr>sched_scanner := x\<rparr> in
         (case db_get_status ops i (sched_db s) of
            Inl e \<Rightarrow> (Inl (from_storage_error e), s)
          | Inr st \<Rightarrow>
              (case db_update_status ops i (st\<lparr>st_phase := Failed\<rparr>) (sched_db s) of
                 (Inl e, db) \<Rightarrow> (Inl (from_storage_error e), s\<lparr>sched_db := db\<rparr>)
               | (Inr _, db) \<Rightarrow> (Inr None, s\<lparr>sched_db := db\<rparr>))))"

definition handle_results_of :: "'db scan_storage \<Rightarrow> 'sc scanner \<Rightarrow> string \<Rightarrow> ('db, 'sc) scheduler
    \<Rightarrow> (scheduler_error + unit) \<times> ('db, 'sc) scheduler" where
  "handle_results_of ops sc i s =
    (case fetch_results_of ops sc i s of
       (Inl e, s) \<Rightarrow> (Inl e, s)
     | (Inr None, s) \<Rightarrow> (Inr (), s)
     | (Inr (Some results), s) \<Rightarrow> (Inr (), snd (append_fetched_result ops [results] s)))"

fun handle_results_loop :: "'db scan_storage \<Rightarrow> 'sc scanner \<Rightarrow> string list \<Rightarrow> ('db, 'sc) scheduler
    \<Rightarrow> (scheduler_error + unit) \<times> ('db, 'sc) scheduler" where
  "handle_results_loop ops sc [] s = (Inr (), s)"
| "handle_results_loop ops sc (i # is) s =
    (case handle_results_of ops sc i s of
       (Inl e, s) \<Rightarrow> (Inl e, s)
     | (Inr _, s) \<Rightarrow> handle_results_loop ops sc is s)"

definition handle_results :: "'db scan_storage \<Rightarrow> 'sc scanner \<Rightarrow> ('db, 'sc) scheduler
    \<Rightarrow> (scheduler_error + unit) \<times> ('db, 'sc) scheduler" where
  "handle_results ops sc s = handle_results_loop ops sc (running s) s"

definition sync_scans :: "scheduler_config \<Rightarrow> 'db scan_storage \<Rightarrow> 'sc scanner \<Rightarrow> ('db, 'sc) scheduler
    \<Rightarrow> (scheduler_error + unit) \<times> ('db, 'sc) scheduler" where
  "sync_scans cfg ops sc s =
    (case coordinate_scans cfg ops sc s of
       (cr, s) \<Rightarrow> (case handle_results ops sc s of (rr, s) \<Rightarrow> (try_bind cr (\<lambda>_. rr), s)))"

definition has_running_scans :: "('db, 'sc) scheduler \<Rightarrow> bool" where
  "has_running_scans s \<longleftrightarrow> running s \<noteq> []"

text \<open>\<open>stop_scan\<close>: after the scanner the queue is searched, whose lock is given back before the running scans are searched;
  \<open>now\<close> is the time in seconds.\<close>

definition stop_queued :: "string \<Rightarrow> ('db, 'sc) scheduler \<Rightarrow> ('db, 'sc) scheduler option" where
  "stop_queued i s = (if i \<in> set (queued s) then Some (s\<lparr>queued := remove_id i (queued s)\<rparr>) else None)"

definition stop_running :: "'db scan_storage \<Rightarrow> nat \<Rightarrow> string \<Rightarrow> ('db, 'sc) scheduler
    \<Rightarrow> (scan_error + unit) \<times> ('db, 'sc) scheduler" where
  "stop_running ops now i s =
    (let s = s\<lparr>running := remove_id i (running s)\<rparr> in
     case db_get_status ops i (sched_db s) of
       Inl e \<Rightarrow> (Inl (scan_error_from_storage e), s)
     | Inr st \<Rightarrow>
         (case db_update_status ops i (st\<lparr>st_phase := Stopped, end_time := Some now\<rparr>) (sched_db s) of
            (Inl e, db) \<Rightarrow> (Inl (scan_error_from_storage e), s\<lparr>sched_db := db\<rparr>)
          | (Inr _, db) \<Rightarrow> (Inr (), s\<lparr>sched_db := db\<rparr>)))"

definition stop_scan :: "'db scan_storage \<Rightarrow> 'sc scanner \<Rightarrow> nat \<Rightarrow> string \<Rightarrow> ('db, 'sc) scheduler
    \<Rightarrow> (scan_error + unit) \<times> ('db, 'sc) scheduler" where
  "stop_scan ops sc now i s =
    (case sc_stop_scan sc i (sched_scanner s) of
       (Inl e, x) \<Rightarrow> (Inl e, s\<lparr>sched_scanner := x\<rparr>)
     | (Inr _, x) \<Rightarrow>
         let s = s\<lparr>sched_scanner := x\<rparr> in
         (case stop_queued i s of Some s \<Rightarrow> (Inr (), s) | None \<Rightarrow> stop_running ops now i s))"

text \<open>\<open>synchronize_feeds\<close>: the part before the wait for the running scans and the part after it, which
  unwraps the version of the feed.\<close>

definition sync_request :: "('db, 'sc) scheduler \<Rightarrow> ('db, 'sc) scheduler" where
  "sync_request s = s\<lparr>is_synchronizing_feed := True\<rparr>"

definition sync_finish :: "'db scan_storage \<Rightarrow> feed_hash list \<Rightarrow> ('db, 'sc) scheduler
    \<Rightarrow> ((openvasd_error + unit) \<times> ('db, 'sc) scheduler) rs" where
  "sync_finish ops hash s =
    (case db_synchronize_feeds ops hash (sched_db s) of
       (r, db) \<Rightarrow>
         (case db_current_feed_version ops db of
            Inl _ \<Rightarrow> Panic
          | Inr fv \<Rightarrow> Ret (r, s\<lparr>sched_db := db, feed_version := fv, is_synchronizing_feed := False\<rparr>)))"

section \<open>The tasks of the service\<close>

text \<open>The task that fetches results (openvasd/controller/results.rs) runs \<open>sync_scans\<close> after every tick:
  it waits for the lock of the flag, starts scans, reads the running scans and handles their results one
  after the other. The task that updates feeds (openvasd/controller/feed.rs) takes the lock of the flag,
  waits until no scan is running and updates the storage before it gives the lock back. Requests of
  clients come in between; a start request that has passed its check is \<open>pending\<close>, and a stop request that the scanner
  has accepted is \<open>stopping\<close>, with a flag that says whether the queue has been searched.\<close>

datatype fetch_state = Ticking | Coordinating | Starting | Reading | Fetching "string list" | Appending scan_results "string list"

datatype feed_state = NoUpdate | Waiting "feed_hash list" | Updating "feed_hash list"

record ('db, 'sc) service_state =
  sched :: "('db, 'sc) scheduler"
  pending :: "(string \<times> status) list"
  stopping :: "(string \<times> bool) list"
  fetch_task :: fetch_state
  feed_task :: feed_state

definition new_service :: "'sc \<Rightarrow> 'db \<Rightarrow> ('db, 'sc) service_state" where
  "new_service scanner db = \<lparr>sched = new_scheduler scanner db, pending = [], stopping = [], fetch_task = Ticking,
     feed_task = NoUpdate\<rparr>"

inductive background_step :: "scheduler_config \<Rightarrow> 'db scan_storage \<Rightarrow> 'sc scanner \<Rightarrow> ('db, 'sc) service_state \<Rightarrow> ('db, 'sc) service_state \<Rightarrow> bool"
  for cfg ops sc where
  tick: "fetch_task v = Ticking \<Longrightarrow> background_step cfg ops sc v (v\<lparr>fetch_task := Coordinating\<rparr>)"
| read_flag: "fetch_task v = Coordinating \<Longrightarrow> feed_task v = NoUpdate
    \<Longrightarrow> background_step cfg ops sc v
      (v\<lparr>fetch_task := if is_synchronizing_feed (sched v) then Reading else Starting\<rparr>)"
| start: "fetch_task v = Starting \<Longrightarrow> start_queued ops sc (amount_to_start cfg (sched v)) (sched v) = (r, s)
    \<Longrightarrow> background_step cfg ops sc v (v\<lparr>sched := s, fetch_task := Reading\<rparr>)"
| read_running: "fetch_task v = Reading \<Longrightarrow> background_step cfg ops sc v (v\<lparr>fetch_task := Fetching (running (sched v))\<rparr>)"
| fetch: "fetch_task v = Fetching (i # is) \<Longrightarrow> fetch_results_of ops sc i (sched v) = (r, s)
    \<Longrightarrow> background_step cfg ops sc v
      (v\<lparr>sched := s, fetch_task := case r of Inl _ \<Rightarrow> Ticking | Inr None \<Rightarrow> Fetching is | Inr (Some x) \<Rightarrow> Appending x is\<rparr>)"
| append: "fetch_task v = Appending x is \<Longrightarrow> append_fetched_result ops [x] (sched v) = (r', s)
    \<Longrightarrow> background_step cfg ops sc v (v\<lparr>sched := s, fetch_task := Fetching is\<rparr>)"
| fetched: "fetch_task v = Fetching [] \<Longrightarrow> background_step cfg ops sc v (v\<lparr>fetch_task := Ticking\<rparr>)"
| request_update: "feed_task v = NoUpdate
    \<Longrightarrow> background_step cfg ops sc v (v\<lparr>sched := sync_request (sched v), feed_task := Waiting hash\<rparr>)"
| begin_update: "feed_task v = Waiting hash \<Longrightarrow> running (sched v) = []
    \<Longrightarrow> background_step cfg ops sc v (v\<lparr>feed_task := Updating hash\<rparr>)"
| end_update: "feed_task v = Updating hash \<Longrightarrow> sync_finish ops hash (sched v) = Ret (r, s)
    \<Longrightarrow> background_step cfg ops sc v (v\<lparr>sched := s, feed_task := NoUpdate\<rparr>)"

text \<open>The steps of the requests for the scan \<open>i\<close>\<close>

inductive client_step ::
  "scheduler_config \<Rightarrow> 'db scan_storage \<Rightarrow> 'sc scanner \<Rightarrow> string \<Rightarrow> ('db, 'sc) service_state \<Rightarrow> ('db, 'sc) service_state \<Rightarrow> bool"
  for cfg ops sc i where
  check: "start_check ops i (sched v) = Inr st \<Longrightarrow> client_step cfg ops sc i v (v\<lparr>pending := (i, st) # pending v\<rparr>)"
| commit: "(i, st) \<in> set (pending v) \<Longrightarrow> start_commit cfg ops i st (sched v) = (r, s)
    \<Longrightarrow> client_step cfg ops sc i v (v\<lparr>sched := s, pending := remove1 (i, st) (pending v)\<rparr>)"
| delete: "delete_scan_by_id ops sc i (sched v) = Ret (r, s) \<Longrightarrow> client_step cfg ops sc i v (v\<lparr>sched := s\<rparr>)"
| stop_scanner: "sc_stop_scan sc i (sched_scanner (sched v)) = (q, x)
    \<Longrightarrow> client_step cfg ops sc i v (v\<lparr>sched := (sched v)\<lparr>sched_scanner := x\<rparr>,
      stopping := case q of Inl _ \<Rightarrow> stopping v | Inr _ \<Rightarrow> (i, False) # stopping v\<rparr>)"
| search_queue: "(i, False) \<in> set (stopping v)
    \<Longrightarrow> client_step cfg ops sc i v
      (case stop_queued i (sched v) of
         Some s \<Rightarrow> v\<lparr>sched := s, stopping := remove1 (i, False) (stopping v)\<rparr>
       | None \<Rightarrow> v\<lparr>stopping := (i, True) # remove1 (i, False) (stopping v)\<rparr>)"
| search_running: "(i, True) \<in> set (stopping v) \<Longrightarrow> stop_running ops now i (sched v) = (q, s)
    \<Longrightarrow> client_step cfg ops sc i v (v\<lparr>sched := s, stopping := remove1 (i, True) (stopping v)\<rparr>)"

text \<open>The scanner works and the storage is written without the scheduler.\<close>

inductive environment_step :: "('db, 'sc) service_state \<Rightarrow> ('db, 'sc) service_state \<Rightarrow> bool" where
  environment: "environment_step v (v\<lparr>sched := (sched v)\<lparr>sched_db := db, sched_scanner := x\<rparr>\<rparr>)"

definition task_step :: "scheduler_config \<Rightarrow> 'db scan_storage \<Rightarrow> 'sc scanner \<Rightarrow> ('db, 'sc) service_state \<Rightarrow> ('db, 'sc) service_state \<Rightarrow> bool" where
  "task_step cfg ops sc v w \<longleftrightarrow> background_step cfg ops sc v w \<or> environment_step v w"

definition service_step :: "scheduler_config \<Rightarrow> 'db scan_storage \<Rightarrow> 'sc scanner \<Rightarrow> ('db, 'sc) service_state \<Rightarrow> ('db, 'sc) service_state \<Rightarrow> bool" where
  "service_step cfg ops sc v w \<longleftrightarrow> background_step cfg ops sc v w \<or> (\<exists>i. client_step cfg ops sc i v w) \<or> environment_step v w"

text \<open>Handlers that run one after the other, start requests included.\<close>

inductive sequential_step :: "scheduler_config \<Rightarrow> 'db scan_storage \<Rightarrow> 'sc scanner \<Rightarrow> ('db, 'sc) scheduler \<Rightarrow> ('db, 'sc) scheduler \<Rightarrow> bool"
  for cfg ops sc where
  "start_scan_by_id cfg ops i s = (r, t) \<Longrightarrow> sequential_step cfg ops sc s t"
| "delete_scan_by_id ops sc i s = Ret (r', t) \<Longrightarrow> sequential_step cfg ops sc s t"
| "stop_scan ops sc now i s = (r'', t) \<Longrightarrow> sequential_step cfg ops sc s t"
| "sync_scans cfg ops sc s = (r, t) \<Longrightarrow> sequential_step cfg ops sc s t"
| "sequential_step cfg ops sc s (s\<lparr>sched_db := db, sched_scanner := x\<rparr>)"

section \<open>Lemmas\<close>

subsection \<open>What the operations do to the queue and to the running scans\<close>

lemma update_status_lists:
  "update_status ops i st s = (r, t) \<Longrightarrow> queued t = queued s \<and> (running t = running s \<or> running t = remove_id i (running s))"
  by (auto simp: update_status_def Let_def split: prod.splits if_splits)

lemma append_fetched_result_lists:
  "append_fetched_result ops [x] s = (r, t) \<Longrightarrow> queued t = queued s \<and> (running t = running s \<or> running t = remove_id (sr_id x) (running s))"
  by (auto simp: append_fetched_result_def Let_def split: prod.splits if_splits)

lemma append_fetched_result_snd:
  "queued (snd (append_fetched_result ops [x] s)) = queued s
    \<and> (\<exists>j. running (snd (append_fetched_result ops [x] s)) \<in> {running s, remove_id j (running s)})"
  using append_fetched_result_lists [of ops x s, OF surjective_pairing] by auto

lemma fetch_results_of_lists:
  "fetch_results_of ops sc i s = (r, t) \<Longrightarrow> queued t = queued s \<and> running t = running s"
  by (auto simp: fetch_results_of_def Let_def split: prod.splits sum.splits if_splits)

lemma handle_results_of_lists:
  assumes "handle_results_of ops sc i s = (r, t)"
  shows "queued t = queued s \<and> (\<exists>j. running t \<in> {running s, remove_id j (running s)})"
proof -
  obtain q u where u: "fetch_results_of ops sc i s = (q, u)" by (cases "fetch_results_of ops sc i s")
  then have "t = u \<or> (\<exists>x. t = snd (append_fetched_result ops [x] u))"
    using assms by (auto simp: handle_results_of_def split: sum.splits option.splits)
  then show ?thesis using append_fetched_result_snd [of ops _ u] fetch_results_of_lists [OF u] by auto
qed

text \<open>A round of starts takes scans from the end of the queue; what it does not start stays a prefix.\<close>

lemma mset_subset_eq_add_mset: "A \<subseteq># add_mset a A"
  by simp

lemma start_queued_SucE:
  assumes "start_queued ops sc (Suc n) s = (r, t)" "queued s = q @ [i]"
  obtains (stop) "queued t = q" "running t = running s"
    | (keep) u where "start_queued ops sc n u = (r, t)" "queued u = q @ [i]" "running u = running s"
    | (drop) u new where "start_queued ops sc n u = (r, t)" "queued u = q" "running u = running s @ new" "new \<in> {[], [i]}"
proof -
  show ?thesis
  proof (cases "db_get_decrypted_scan ops i (sched_db s)")
    case (Inl e)
    then show ?thesis using assms stop by (auto simp: Let_def)
  next
    case (Inr p)
    obtain scan st where p: "db_get_decrypted_scan ops i (sched_db s) = Inr (scan, st)" using Inr by (cases p) auto
    obtain res x where start: "sc_start_scan sc scan (sched_scanner s) = (res, x)" by (cases "sc_start_scan sc scan (sched_scanner s)")
    obtain ur db where update: "db_update_status ops i failed_status (sched_db s) = (ur, db)"
      by (cases "db_update_status ops i failed_status (sched_db s)")
    note facts = assms p start update
    show ?thesis
    proof (cases "sc_can_start_scan sc scan (sched_scanner s)")
      case False
      then show ?thesis using facts keep [of "s\<lparr>queued := q @ [i]\<rparr>"] by (simp add: Let_def)
    next
      case True
      show ?thesis
      proof (cases res)
        case (Inr a)
        then show ?thesis using facts True drop [of _ "[i]"] by (simp add: Let_def)
      next
        case (Inl e)
        then show ?thesis using facts True stop keep drop [of _ "[]"]
          by (cases e; cases ur) (auto simp: Let_def)
      qed
    qed
  qed
qed

lemma start_queued_lists:
  "start_queued ops sc n s = (r, t) \<Longrightarrow>
    \<exists>k started. queued t = take k (queued s) \<and> running t = running s @ started \<and> length started \<le> n
      \<and> mset started \<subseteq># mset (drop k (queued s))"
proof (induction n arbitrary: s)
  case 0
  then show ?case by (intro exI [of _ "length (queued s)"]) auto
next
  case (Suc n)
  show ?case
  proof (cases "queued s = []")
    case True
    then show ?thesis using Suc.prems by (intro exI [of _ 0] exI [of _ "[]"]) auto
  next
    case False
    then obtain q i where q: "queued s = q @ [i]" by (metis append_butlast_last_id)
    from Suc.prems q show ?thesis
    proof (cases rule: start_queued_SucE)
      case stop
      then show ?thesis by (intro exI [of _ "length q"] exI [of _ "[]"]) (auto simp: q)
    next
      case (keep u)
      then show ?thesis using Suc.IH [OF keep(1)] q by (metis le_SucI)
    next
      case (drop u new)
      obtain k started where k: "queued t = take k q" "running t = running s @ new @ started" "length started \<le> n"
          "mset started \<subseteq># mset (drop k q)"
        using Suc.IH [OF drop(1)] drop(2,3) by auto
      have "queued t = take (min k (length q)) (queued s)" by (simp add: k(1) q min_def)
      moreover have "mset (new @ started) \<subseteq># mset (drop (min k (length q)) (queued s))"
        using k(4) drop(4) by (auto simp: q min_def intro: subset_mset.order_trans [OF _ mset_subset_eq_add_mset])
      ultimately show ?thesis using k(2,3) drop(4)
        by (intro exI [of _ "min k (length q)"] exI [of _ "new @ started"]) auto
    qed
  qed
qed

lemma unschedule_lists:
  assumes "unschedule sc i s = (r, t)"
  shows "queued t \<in> {queued s, remove_id i (queued s)} \<and> running t \<in> {running s, remove_id i (running s)}"
  using assms by (auto simp: unschedule_def split: if_splits prod.splits sum.splits)

lemma delete_scan_by_id_lists:
  assumes "delete_scan_by_id ops sc i s = Ret (r, t)"
  shows "queued t \<in> {queued s, remove_id i (queued s)} \<and> running t \<in> {running s, remove_id i (running s)}"
proof -
  obtain r' u where u: "unschedule sc i s = (r', u)" by (cases "unschedule sc i s")
  have "queued t = queued u \<and> running t = running u"
    using assms by (auto simp: delete_scan_by_id_def u split: prod.splits sum.splits rs.splits)
  then show ?thesis using unschedule_lists [OF u] by simp
qed

lemma stop_queued_lists:
  "stop_queued i s = Some t \<Longrightarrow> queued t = remove_id i (queued s) \<and> running t = running s"
  by (auto simp: stop_queued_def split: if_splits)

lemma stop_running_lists:
  "stop_running ops now i s = (r, t) \<Longrightarrow> queued t = queued s \<and> running t = remove_id i (running s)"
  by (auto simp: stop_running_def Let_def split: prod.splits sum.splits)

lemma stop_scan_lists:
  assumes "stop_scan ops sc now i s = (r, t)"
  shows "queued t \<in> {queued s, remove_id i (queued s)} \<and> running t \<in> {running s, remove_id i (running s)}"
proof -
  obtain q x where x: "sc_stop_scan sc i (sched_scanner s) = (q, x)" by (cases "sc_stop_scan sc i (sched_scanner s)")
  show ?thesis
  proof (cases "stop_queued i (s\<lparr>sched_scanner := x\<rparr>)")
    case None
    then show ?thesis using assms stop_running_lists [of ops now i "s\<lparr>sched_scanner := x\<rparr>"]
      by (auto simp: stop_scan_def x Let_def split: sum.splits)
  next
    case (Some u)
    then show ?thesis using assms stop_queued_lists [OF Some] by (auto simp: stop_scan_def x Let_def split: sum.splits)
  qed
qed

lemma start_commit_lists:
  assumes "start_commit cfg ops i st s = (r, t)"
  shows "running t \<in> {running s, remove_id i (running s)} \<and>
    (queued t = queued s \<or> queued t = queued s @ [i] \<and> i \<notin> set (queued s) \<and> max_queued_scans cfg \<noteq> Some (length (queued s)))"
proof (cases "max_queued_scans cfg = Some (length (queued s)) \<or> i \<in> set (queued s)")
  case True
  then show ?thesis using assms by (auto simp: start_commit_def split: if_splits)
next
  case False
  obtain r' u where u: "update_status ops i st s = (r', u)" by (cases "update_status ops i st s")
  show ?thesis
    using assms False update_status_lists [OF u]
    by (auto simp: start_commit_def u split: sum.splits)
qed

lemma sync_finish_lists: "sync_finish ops hash s = Ret (r, t) \<Longrightarrow> queued t = queued s \<and> running t = running s"
  by (auto simp: sync_finish_def split: prod.splits sum.splits)

subsection \<open>The limits\<close>

definition within :: "nat option \<Rightarrow> 'a list \<Rightarrow> bool" where
  "within limit xs \<longleftrightarrow> (case limit of Some m \<Rightarrow> length xs \<le> m | None \<Rightarrow> True)"

definition within_limits :: "scheduler_config \<Rightarrow> ('db, 'sc) scheduler \<Rightarrow> bool" where
  "within_limits cfg s \<longleftrightarrow> within (max_queued_scans cfg) (queued s) \<and> within (max_running_scans cfg) (running s)
    \<and> distinct (queued s)"

lemma within_remove_id: "within m xs \<Longrightarrow> ys \<in> {xs, remove_id x xs} \<Longrightarrow> within m ys"
  by (auto simp: within_def length_remove_id split: option.splits)

lemma distinct_remove_idI: "distinct xs \<Longrightarrow> ys \<in> {xs, remove_id x xs} \<Longrightarrow> distinct ys"
  by (auto simp: distinct_remove_id)

lemma remove_id_snoc: "x \<notin> set xs \<Longrightarrow> remove_id x (xs @ [x]) = xs"
proof -
  assume "x \<notin> set xs"
  then have "position_of x (xs @ [x]) = Some (length xs)" by (induction xs) auto
  then show ?thesis by (simp add: remove_id_def swap_remove_def)
qed

lemma set_remove_id_other: "i \<noteq> j \<Longrightarrow> i \<in> set (remove_id j xs) \<longleftrightarrow> i \<in> set xs"
proof (cases "j \<in> set xs")
  case True
  assume ne: "i \<noteq> j"
  obtain k where k: "k < length xs" "xs ! k = j" "remove_id j xs = swap_remove k xs" using remove_id_Some [OF True] by blast
  have "i \<in># mset (remove_id j xs) \<longleftrightarrow> i \<in># mset xs" using ne by (simp add: k mset_swap_remove [OF k(1)] in_diff_count)
  then show ?thesis by simp
qed simp

lemma amount_to_start_no_wrap:
  assumes "max_running_scans cfg = Some m" "m < 2 ^ 64" "length (running s) \<le> m"
  shows "amount_to_start cfg s = m - length (running s)"
proof -
  have "word_of_nat m - word_of_nat (length (running s)) = (word_of_nat (m - length (running s)) :: u64)"
    using assms(3) by (simp add: of_nat_diff)
  moreover have "take_bit 64 (m - length (running s)) = m - length (running s)"
    using assms(2) by (simp add: take_bit_nat_eq_self)
  ultimately show ?thesis using assms(1) by (simp add: amount_to_start_def unsigned_of_nat)
qed

lemma start_queued_limits:
  assumes "start_queued ops sc (amount_to_start cfg s) s = (r, t)" "within_limits cfg s"
    and "\<And>m. max_running_scans cfg = Some m \<Longrightarrow> m < 2 ^ 64"
  shows "within_limits cfg t"
proof -
  obtain k started where k: "queued t = take k (queued s)" "running t = running s @ started"
      "length started \<le> amount_to_start cfg s"
    using start_queued_lists [OF assms(1)] by blast
  have "length (running t) \<le> m" if m: "max_running_scans cfg = Some m" for m
    using k(2,3) amount_to_start_no_wrap [OF m assms(3) [OF m], of s] assms(2) m
    by (auto simp: within_limits_def within_def)
  then show ?thesis
    using assms(2) k(1) by (auto simp: within_limits_def within_def split: option.splits)
qed

lemma service_step_limits:
  assumes "service_step cfg ops sc v w" "within_limits cfg (sched v)"
    and "\<And>m. max_running_scans cfg = Some m \<Longrightarrow> m < 2 ^ 64"
  shows "within_limits cfg (sched w)"
proof -
  have shrink: "within_limits cfg t"
    if "queued t \<in> {queued (sched v), remove_id i (queued (sched v))}"
      "running t \<in> {running (sched v), remove_id j (running (sched v))}" for t :: "('a, 'b) scheduler" and i j
    using assms(2) within_remove_id [OF _ that(1)] within_remove_id [OF _ that(2)] distinct_remove_idI [OF _ that(1)]
    by (auto simp: within_limits_def)
  have grow: "within_limits cfg t" if c: "start_commit cfg ops i st (sched v) = (r, t)" for i st r t
    using start_commit_lists [OF c]
  proof (elim conjE disjE)
    assume "running t \<in> {running (sched v), remove_id i (running (sched v))}"
      and "queued t = queued (sched v) @ [i]" "i \<notin> set (queued (sched v))"
        "max_queued_scans cfg \<noteq> Some (length (queued (sched v)))"
    then show ?thesis using assms(2) within_remove_id [of "max_running_scans cfg"]
      by (auto simp: within_limits_def within_def le_Suc_eq length_remove_id split: option.splits)
  qed (rule shrink, simp_all)
  consider "background_step cfg ops sc v w" | (client) j where "client_step cfg ops sc j v w" | "environment_step v w"
    using assms(1) by (auto simp: service_step_def)
  then show ?thesis
  proof cases
    case 1
    then show ?thesis
    proof cases
      case (start r s)
      then show ?thesis using start_queued_limits [OF start(3) assms(2,3)] by simp
    next
      case (fetch i "is" r s)
      then show ?thesis using fetch_results_of_lists [OF fetch(3)] shrink [of s] by auto
    next
      case (append x "is" r' s)
      then show ?thesis using append_fetched_result_lists [OF append(3)] shrink [of s] by auto
    next
      case (end_update hash r s)
      then show ?thesis using sync_finish_lists [OF end_update(3)] shrink [of s] by auto
    qed (use shrink assms(2) in \<open>simp_all add: sync_request_def\<close>)
  next
    case client
    then show ?thesis
    proof cases
      case (commit st r s)
      then show ?thesis using grow by simp
    next
      case (delete r s)
      then show ?thesis using delete_scan_by_id_lists [OF delete(2)] shrink [of s] by auto
    next
      case search_queue
      show ?thesis
      proof (cases "stop_queued j (sched v)")
        case None
        then show ?thesis using search_queue assms(2) by simp
      next
        case (Some s)
        then show ?thesis using search_queue stop_queued_lists [OF Some] shrink [of s j] by simp
      qed
    next
      case (search_running now q s)
      then show ?thesis using stop_running_lists [OF search_running(3)] shrink [of s] by auto
    qed (use shrink assms(2) in simp_all)
  next
    case 3
    then show ?thesis by cases (use shrink in simp)
  qed
qed

subsection \<open>Handlers that run one after the other\<close>

lemma distinct_submset:
  assumes "distinct xs" "mset ys \<subseteq># mset xs"
  shows "distinct ys"
proof -
  have "count (mset ys) a = (if a \<in> set ys then 1 else 0)" for a
  proof (cases "a \<in> set ys")
    case True
    then have "0 < count (mset ys) a" by (simp add: count_greater_zero_iff del: count_mset)
    moreover have "count (mset ys) a \<le> count (mset xs) a" using assms(2) by (rule mset_subset_eq_count)
    moreover have "count (mset xs) a \<le> 1" using assms(1) by (simp add: distinct_count_atmost_1)
    ultimately have "count (mset ys) a = 1" by linarith
    then show ?thesis using True by simp
  next
    case False
    then show ?thesis by (simp add: count_list_0_iff count_mset)
  qed
  then show ?thesis by (simp add: distinct_count_atmost_1)
qed

definition scheduled_once :: "('db, 'sc) scheduler \<Rightarrow> bool" where
  "scheduled_once s \<longleftrightarrow> distinct (queued s @ running s)"

lemma scheduled_once_shrink:
  assumes "scheduled_once s" "queued t \<in> {queued s, remove_id i (queued s)}" "running t \<in> {running s, remove_id j (running s)}"
  shows "scheduled_once t"
proof -
  have "distinct (queued t)" "distinct (running t)"
    using assms(1) distinct_remove_idI [OF _ assms(2)] distinct_remove_idI [OF _ assms(3)]
    by (simp_all add: scheduled_once_def)
  moreover have "set (queued t) \<subseteq> set (queued s)" "set (running t) \<subseteq> set (running s)"
    using assms(2,3) set_remove_id_subset [of i "queued s"] set_remove_id_subset [of j "running s"] by auto
  ultimately show ?thesis using assms(1) unfolding scheduled_once_def distinct_append by blast
qed

lemma start_queued_once:
  assumes "start_queued ops sc n s = (r, t)" "scheduled_once s"
  shows "scheduled_once t"
proof -
  obtain k started where k: "queued t = take k (queued s)" "running t = running s @ started"
      "mset started \<subseteq># mset (drop k (queued s))"
    using start_queued_lists [OF assms(1)] by blast
  have "mset (queued s) = mset (take k (queued s)) + mset (drop k (queued s))"
    by (metis append_take_drop_id mset_append)
  then have "mset (queued t @ running t) \<subseteq># mset (queued s @ running s)"
    using k by (simp add: add.commute add.left_commute)
  then show ?thesis using assms(2) distinct_submset unfolding scheduled_once_def by blast
qed

lemma handle_results_loop_once:
  "handle_results_loop ops sc is s = (r, t) \<Longrightarrow> scheduled_once s \<Longrightarrow> scheduled_once t"
proof (induction "is" arbitrary: s)
  case (Cons i "is")
  obtain r' u where u: "handle_results_of ops sc i s = (r', u)" by (cases "handle_results_of ops sc i s")
  have "scheduled_once u"
    using handle_results_of_lists [OF u] scheduled_once_shrink [OF Cons.prems(2), of u] by auto
  then show ?case using Cons.prems(1) Cons.IH [of u] by (auto simp: u split: sum.splits)
qed simp

lemma start_scan_by_id_once:
  assumes "start_scan_by_id cfg ops i s = (r, t)" "scheduled_once s"
  shows "scheduled_once t"
proof (cases "start_check ops i s")
  case (Inl e)
  then show ?thesis using assms by (simp add: start_scan_by_id_def)
next
  case (Inr st)
  then have c: "start_commit cfg ops i st s = (r, t)" using assms(1) by (simp add: start_scan_by_id_def)
  have "i \<notin> set (running s)" using Inr by (auto simp: start_check_def)
  then have "running t = running s" using start_commit_lists [OF c] by auto
  then show ?thesis using assms(2) start_commit_lists [OF c] \<open>i \<notin> set (running s)\<close>
    by (auto simp: scheduled_once_def)
qed

lemma sync_scans_once:
  assumes "sync_scans cfg ops sc s = (r, t)" "scheduled_once s"
  shows "scheduled_once t"
proof -
  obtain r' u where u: "coordinate_scans cfg ops sc s = (r', u)" by (cases "coordinate_scans cfg ops sc s")
  have "scheduled_once u"
    using u assms(2) start_queued_once by (auto simp: coordinate_scans_def split: if_splits)
  moreover have "snd (handle_results ops sc u) = t" using assms(1) by (auto simp: sync_scans_def u split: prod.splits)
  ultimately show ?thesis
    using handle_results_loop_once [of ops sc "running u" u, OF surjective_pairing] by (simp add: handle_results_def)
qed

lemma sequential_step_once:
  assumes "sequential_step cfg ops sc s t" "scheduled_once s"
  shows "scheduled_once t"
  using assms
proof cases
  case (1 i r)
  then show ?thesis using start_scan_by_id_once assms(2) by blast
next
  case (2 i r')
  then show ?thesis using delete_scan_by_id_lists scheduled_once_shrink [OF assms(2)] by blast
next
  case (3 now i r'')
  then show ?thesis using stop_scan_lists scheduled_once_shrink [OF assms(2)] by blast
next
  case (4 r)
  then show ?thesis using sync_scans_once assms(2) by blast
qed (simp add: scheduled_once_def)

subsection \<open>What the scheduler needs from a storage\<close>

text \<open>The status of a known scan can be updated and is read back; an update and the results of one scan
  leave the status of the others alone.\<close>

locale scan_store =
  fixes ops :: "'db scan_storage"
  assumes update_known: "db_get_status ops i db = Inr st0 \<Longrightarrow> db_update_status ops i st db = (r, db')
      \<Longrightarrow> r = Inr () \<and> db_get_status ops i db' = Inr st"
    and update_other: "db_update_status ops i st db = (r, db') \<Longrightarrow> j \<noteq> i
      \<Longrightarrow> db_get_status ops j db' = db_get_status ops j db"
    and append_other: "db_append_fetched_result ops [x] db = (r, db') \<Longrightarrow> j \<noteq> sr_id x
      \<Longrightarrow> db_get_status ops j db' = db_get_status ops j db"
begin

lemma start_spec:
  assumes "start_scan_by_id cfg ops i s = (r, t)"
  shows "(r = Inr () \<longleftrightarrow> i \<notin> set (running s) \<and> i \<notin> set (queued s) \<and> max_queued_scans cfg \<noteq> Some (length (queued s))
      \<and> (\<exists>st. db_get_status ops i (sched_db s) = Inr st \<and> st_phase st = Stored))
    \<and> (r \<noteq> Inr () \<longrightarrow> t = s)
    \<and> (r = Inr () \<longrightarrow> queued t = queued s @ [i] \<and> running t = running s
      \<and> (\<exists>st. db_get_status ops i (sched_db t) = Inr st \<and> st_phase st = Requested))
    \<and> (\<forall>j. j \<noteq> i \<longrightarrow> db_get_status ops j (sched_db t) = db_get_status ops j (sched_db s))"
proof (cases "start_check ops i s")
  case (Inl e)
  then have "r = Inl e" "t = s" using assms by (simp_all add: start_scan_by_id_def)
  then show ?thesis using Inl by (auto simp: start_check_def split: if_splits)
next
  case (Inr st)
  then obtain st0 where st0: "i \<notin> set (running s)" "db_get_status ops i (sched_db s) = Inr st0" "st_phase st0 = Stored"
      "st = st0\<lparr>st_phase := Requested\<rparr>"
    by (auto simp: start_check_def split: if_splits sum.splits phase.splits)
  have c: "start_commit cfg ops i st s = (r, t)" using assms Inr by (simp add: start_scan_by_id_def)
  show ?thesis
  proof (cases "max_queued_scans cfg = Some (length (queued s)) \<or> i \<in> set (queued s)")
    case True
    then have "r \<noteq> Inr ()" "t = s" using c by (auto simp: start_commit_def split: if_splits)
    then show ?thesis using True by auto
  next
    case False
    obtain ur db where u: "db_update_status ops i st (sched_db s) = (ur, db)" by (cases "db_update_status ops i st (sched_db s)")
    have known: "ur = Inr ()" "db_get_status ops i db = Inr st" using update_known [OF st0(2) u] by simp_all
    have "r = Inr ()" "t = s\<lparr>sched_db := db, queued := queued s @ [i]\<rparr>"
      using c False st0(4) known(1) by (auto simp: start_commit_def update_status_def ends_scan_def Let_def u [unfolded st0(4)])
    then show ?thesis using st0 False known(2) update_other [OF u] by auto
  qed
qed

lemma failed_fetch:
  assumes "sc_fetch_results sc i (sched_scanner s) = (Inl e, x)" "db_get_status ops i (sched_db s) = Inr st"
  shows "\<exists>db. fetch_results_of ops sc i s = (Inr None, s\<lparr>sched_scanner := x, sched_db := db\<rparr>)
    \<and> db_get_status ops i db = Inr (st\<lparr>st_phase := Failed\<rparr>)"
proof -
  obtain r db where u: "db_update_status ops i (st\<lparr>st_phase := Failed\<rparr>) (sched_db s) = (r, db)"
    by (cases "db_update_status ops i (st\<lparr>st_phase := Failed\<rparr>) (sched_db s)")
  show ?thesis using assms update_known [OF assms(2) u] by (auto simp: fetch_results_of_def Let_def u)
qed

text \<open>The results of a scan change the status of no other scan.\<close>

lemma results_other:
  assumes "handle_results_of ops sc i s = (r, t)" "j \<noteq> i"
    and "\<And>results x. sc_fetch_results sc i (sched_scanner s) = (Inr results, x) \<Longrightarrow> sr_id results = i"
  shows "db_get_status ops j (sched_db t) = db_get_status ops j (sched_db s)"
proof (cases "sc_fetch_results sc i (sched_scanner s)")
  case (Pair res x)
  have append: "db_get_status ops j (sched_db (snd (append_fetched_result ops [y] (s\<lparr>sched_scanner := x\<rparr>)))) = db_get_status ops j (sched_db s)"
    if "sr_id y = i" for y
    using append_other [of y "sched_db s", OF surjective_pairing, of j] assms(2) that
    by (simp add: append_fetched_result_def Let_def case_prod_beta)
  have update: "db_get_status ops j (snd (db_update_status ops i st db)) = db_get_status ops j db" for st db
    using update_other [OF surjective_pairing assms(2)] by blast
  show ?thesis
  proof (cases res)
    case (Inl e)
    show ?thesis
    proof (cases "db_get_status ops i (sched_db s)")
      case (Inr st)
      have "sched_db t = snd (db_update_status ops i (st\<lparr>st_phase := Failed\<rparr>) (sched_db s))"
        using assms(1) Inl Inr Pair by (auto simp: handle_results_of_def fetch_results_of_def Let_def split: sum.splits prod.splits)
      then show ?thesis using update by simp
    qed (use assms(1) Inl Pair in \<open>auto simp: handle_results_of_def fetch_results_of_def Let_def\<close>)
  next
    case (Inr results)
    have "sr_id results = i" using assms(3) Pair Inr by simp
    let ?y = "\<lambda>st. results\<lparr>sr_status := status_update_with (sr_status results) st\<rparr>"
    have "t = s\<lparr>sched_scanner := x\<rparr> \<or> t = snd (append_fetched_result ops [results] (s\<lparr>sched_scanner := x\<rparr>))
        \<or> (\<exists>st. t = snd (append_fetched_result ops [?y st] (s\<lparr>sched_scanner := x\<rparr>)))"
      using assms(1) Inr Pair by (auto simp: handle_results_of_def fetch_results_of_def Let_def split: sum.splits if_splits)
    then show ?thesis using append \<open>sr_id results = i\<close> by auto
  qed
qed

end

lemma im_append_single_other:
  assumes "im_append_fetched_result crypter js [x] db = (r, db')" "j \<noteq> sr_id x"
  shows "im_get_status j db' = im_get_status j db"
  using assms by (auto simp: im_get_status_def AList.update_conv' Let_def split: option.splits prod.splits sum.splits)

interpretation in_memory: scan_store "in_memory_storage crypter js update_feed"
proof
  fix i st0 st r and db db' :: "'a inmemory"
  assume "db_get_status (in_memory_storage crypter js update_feed) i db = Inr st0"
    "db_update_status (in_memory_storage crypter js update_feed) i st db = (r, db')"
  then show "r = Inr () \<and> db_get_status (in_memory_storage crypter js update_feed) i db' = Inr st"
    by (auto simp: in_memory_storage_def im_get_status_def im_update_status_def AList.update_conv' split: option.splits)
next
  fix i st r j and db db' :: "'a inmemory"
  assume "db_update_status (in_memory_storage crypter js update_feed) i st db = (r, db')" "j \<noteq> i"
  then show "db_get_status (in_memory_storage crypter js update_feed) j db' = db_get_status (in_memory_storage crypter js update_feed) j db"
    by (auto simp: in_memory_storage_def im_get_status_def im_update_status_def AList.update_conv' split: option.splits)
next
  fix x r j and db db' :: "'a inmemory"
  assume "db_append_fetched_result (in_memory_storage crypter js update_feed) [x] db = (r, db')" "j \<noteq> sr_id x"
  then show "db_get_status (in_memory_storage crypter js update_feed) j db' = db_get_status (in_memory_storage crypter js update_feed) j db"
    by (simp add: in_memory_storage_def im_append_single_other del: im_append_fetched_result.simps)
qed

subsection \<open>Rounds in which everything starts\<close>

lemma start_queued_all:
  assumes "\<And>i. i \<in> set (queued s) \<Longrightarrow> \<exists>scan st. db_get_decrypted_scan ops i (sched_db s) = Inr (scan, st)"
    and "\<And>scan x. sc_can_start_scan sc scan x" "\<And>scan x. fst (sc_start_scan sc scan x) = Inr ()"
  shows "\<exists>x. start_queued ops sc n s = (Inr (), s\<lparr>sched_scanner := x,
      running := running s @ take n (rev (queued s)), queued := rev (drop n (rev (queued s)))\<rparr>)"
  using assms(1)
proof (induction n arbitrary: s)
  case 0
  then show ?case by (auto intro!: exI [of _ "sched_scanner s"])
next
  case (Suc n)
  show ?case
  proof (cases "queued s" rule: rev_cases)
    case (snoc q i)
    obtain scan st where d: "db_get_decrypted_scan ops i (sched_db s) = Inr (scan, st)" using Suc.prems [of i] snoc by auto
    obtain x where x: "sc_start_scan sc scan (sched_scanner s) = (Inr (), x)"
      using assms(3) [of scan "sched_scanner s"] by (metis prod.collapse)
    let ?u = "s\<lparr>queued := q, sched_scanner := x, running := running s @ [i]\<rparr>"
    have "start_queued ops sc (Suc n) s = start_queued ops sc n ?u"
      using d x assms(2) by (simp add: snoc Let_def)
    moreover have "\<exists>y. start_queued ops sc n ?u = (Inr (), ?u\<lparr>sched_scanner := y,
        running := running ?u @ take n (rev (queued ?u)), queued := rev (drop n (rev (queued ?u)))\<rparr>)"
      by (rule Suc.IH) (use Suc.prems snoc in simp)
    ultimately show ?thesis by (auto simp: snoc)
  qed (auto intro!: exI [of _ "sched_scanner s"])
qed

subsection \<open>A service for concrete inputs\<close>

text \<open>The scanner accepts every scan and remembers the ids that it was told to start.\<close>

definition sample_scanner :: "string list scanner" where
  "sample_scanner = \<lparr>sc_start_scan = (\<lambda>scan x. (Inr (), x @ [scan_id scan])), sc_can_start_scan = (\<lambda>_ _. True),
     sc_stop_scan = (\<lambda>_ x. (Inr (), x)),
     sc_fetch_results = (\<lambda>i x. (Inl (Connection ''closed''), x)), sc_do_addition = False\<rparr>"

definition sample_storage :: "encrypted inmemory scan_storage" where
  "sample_storage = in_memory_storage sample_crypter sample_json (\<lambda>_ _ d. (Inr (), d))"

definition sample_progress :: "status \<Rightarrow> encrypted progress" where
  "sample_progress st = \<lparr>pr_scan = (sample_scan_model ''s'')\<lparr>scan_target := sample_target\<lparr>target_credentials := []\<rparr>\<rparr>,
     pr_status = st, pr_results = []\<rparr>"

definition sample_db :: "encrypted inmemory" where
  "sample_db = (new_inmemory [])\<lparr>im_scans := [(''s'', sample_progress default_status)]\<rparr>"

definition sample_config :: scheduler_config where
  "sample_config = default_scheduler_config\<lparr>max_queued_scans := Some 1, max_running_scans := Some 2\<rparr>"

lemmas sample_service_defs = sample_scanner_def sample_storage_def sample_progress_def sample_db_def
  sample_config_def default_scheduler_config_def in_memory_storage_def new_service_def new_scheduler_def
  new_inmemory_def im_get_status_def im_update_status_def get_decrypted_scan_def get_scan_def sample_scan_model_def
  sample_target_def

text \<open>Two start requests for one scan pass their checks before the first of them is committed; the scan
  is started in between and then queued again.\<close>

lemma race_reachable:
  "\<exists>v. (service_step sample_config sample_storage sample_scanner)\<^sup>*\<^sup>* (new_service [] sample_db) v
    \<and> queued (sched v) = [''s''] \<and> running (sched v) = [''s''] \<and> sched_scanner (sched v) = [''s'']
    \<and> sched_db (sched v) = sample_db\<lparr>im_scans := [(''s'', sample_progress (default_status\<lparr>st_phase := Requested\<rparr>))]\<rparr>
    \<and> fetch_task v = Reading \<and> feed_task v = NoUpdate"
proof -
  let ?step = "service_step sample_config sample_storage sample_scanner"
  let ?st = "default_status\<lparr>st_phase := Requested\<rparr>"
  let ?db = "sample_db\<lparr>im_scans := [(''s'', sample_progress ?st)]\<rparr>"
  let ?S = "\<lambda>q run db. \<lparr>queued = q, running = run, sched_db = db, is_synchronizing_feed = False,
    sched_scanner = run, feed_version = ''UNDEFINED''\<rparr>"
  let ?V = "\<lambda>s p f. \<lparr>sched = s, pending = p, stopping = [], fetch_task = f, feed_task = NoUpdate\<rparr>"
  let ?p = "(''s'', ?st)"
  have check: "start_check sample_storage ''s'' (?S [] [] sample_db) = Inr ?st"
    by (simp add: start_check_def sample_service_defs default_status_def)
  have commit: "start_commit sample_config sample_storage ''s'' ?st (?S [] run db) = (Inr (), ?S [''s''] run ?db)"
    if "db \<in> {sample_db, ?db}" for run db
    using that by (auto simp: start_commit_def update_status_def ends_scan_def Let_def sample_service_defs)
  have amount: "amount_to_start sample_config (?S [''s''] [] ?db) = Suc (Suc 0)"
    using amount_to_start_no_wrap [of sample_config 2 "?S [''s''] [] ?db"] by (simp add: sample_config_def)
  have start: "start_queued sample_storage sample_scanner (amount_to_start sample_config (?S [''s''] [] ?db)) (?S [''s''] [] ?db)
      = (Inr (), ?S [] [''s''] ?db)"
    unfolding amount by (simp add: sample_service_defs Let_def)
  have 0: "new_service [] sample_db = ?V (?S [] [] sample_db) [] Ticking"
    by (simp add: new_service_def new_scheduler_def)
  have 1: "?step (?V (?S [] [] sample_db) ps Ticking) (?V (?S [] [] sample_db) (?p # ps) Ticking)" for ps
    using client_step.check [of sample_storage "''s''" "?V (?S [] [] sample_db) ps Ticking" ?st sample_config sample_scanner] check
    by (auto simp: service_step_def)
  have 2: "?step (?V (?S [] run db) (?p # ps) f) (?V (?S [''s''] run ?db) ps f)" if "db \<in> {sample_db, ?db}" for run db ps f
    using client_step.commit [of "''s''" ?st "?V (?S [] run db) (?p # ps) f" sample_config sample_storage] commit [OF that]
    by (auto simp: service_step_def)
  have 3: "?step (?V u ps Ticking) (?V u ps Coordinating)" for u ps
    using background_step.tick [of "?V u ps Ticking" sample_config sample_storage sample_scanner] by (simp add: service_step_def)
  have 4: "?step (?V (?S q run db) ps Coordinating) (?V (?S q run db) ps Starting)" for q run db ps
    using background_step.read_flag [of "?V (?S q run db) ps Coordinating" sample_config sample_storage sample_scanner]
    by (simp add: service_step_def)
  have 5: "?step (?V (?S [''s''] [] ?db) ps Starting) (?V (?S [] [''s''] ?db) ps Reading)" for ps
    using background_step.start [of "?V (?S [''s''] [] ?db) ps Starting" sample_storage sample_scanner sample_config] start
    by (simp add: service_step_def)
  note next_step = converse_rtranclp_into_rtranclp [where r = ?step]
  have "?step\<^sup>*\<^sup>* (?V (?S [] [] sample_db) [] Ticking) (?V (?S [''s''] [''s''] ?db) [] Reading)"
    by (rule next_step [OF 1], rule next_step [OF 1], rule next_step [OF 2 [OF insertI1]], rule next_step [OF 3],
        rule next_step [OF 4], rule next_step [OF 5], rule next_step [OF 2 [OF insertI2 [OF insertI1]]],
        rule rtranclp.rtrancl_refl)
  then show ?thesis unfolding 0 by (intro exI conjI) auto
qed

text \<open>A feed update is requested while the scan is running, after its results were fetched.\<close>

lemma waiting_reachable:
  "\<exists>v. (service_step sample_config sample_storage sample_scanner)\<^sup>*\<^sup>* (new_service [] sample_db) v
    \<and> running (sched v) = [''s''] \<and> feed_task v = Waiting [] \<and> fetch_task v = Ticking"
proof -
  let ?step = "service_step sample_config sample_storage sample_scanner"
  have step: "?step\<^sup>*\<^sup>* (new_service [] sample_db) u'"
    if "?step\<^sup>*\<^sup>* (new_service [] sample_db) u" "background_step sample_config sample_storage sample_scanner u u'" for u u'
    using that by (auto simp: service_step_def intro: rtranclp.rtrancl_into_rtrancl)
  obtain v where v: "?step\<^sup>*\<^sup>* (new_service [] sample_db) v" "running (sched v) = [''s'']" "fetch_task v = Reading"
      "feed_task v = NoUpdate" "sched_db (sched v) = sample_db\<lparr>im_scans := [(''s'', sample_progress (default_status\<lparr>st_phase := Requested\<rparr>))]\<rparr>"
    using race_reachable by (elim exE conjE) (rule that)
  define v1 where "v1 = v\<lparr>sched := sync_request (sched v), feed_task := Waiting []\<rparr>"
  define v2 where "v2 = v1\<lparr>fetch_task := Fetching [''s'']\<rparr>"
  have "db_get_status sample_storage ''s'' (sched_db (sched v2)) = Inr (default_status\<lparr>st_phase := Requested\<rparr>)"
    by (simp add: v2_def v1_def sync_request_def v(5) sample_service_defs)
  then have "\<exists>db. fetch_results_of sample_storage sample_scanner ''s'' (sched v2) =
      (Inr None, (sched v2)\<lparr>sched_scanner := sched_scanner (sched v2), sched_db := db\<rparr>)
      \<and> db_get_status sample_storage ''s'' db = Inr (default_status\<lparr>st_phase := Requested, st_phase := Failed\<rparr>)"
    unfolding sample_storage_def by (intro in_memory.failed_fetch) (simp_all add: sample_scanner_def)
  then obtain db where h: "fetch_results_of sample_storage sample_scanner ''s'' (sched v2) =
      (Inr None, (sched v2)\<lparr>sched_scanner := sched_scanner (sched v2), sched_db := db\<rparr>)"
    by (elim exE conjE) (rule that)
  define v3 where "v3 = v2\<lparr>sched := (sched v2)\<lparr>sched_scanner := sched_scanner (sched v2), sched_db := db\<rparr>, fetch_task := Fetching []\<rparr>"
  have 1: "?step\<^sup>*\<^sup>* (new_service [] sample_db) v1" unfolding v1_def by (rule step [OF v(1)]) (rule request_update [OF v(4)])
  have 2: "?step\<^sup>*\<^sup>* (new_service [] sample_db) v2"
    using step [OF 1 read_running] v(2,3) by (simp add: v1_def v2_def sync_request_def)
  have 3: "?step\<^sup>*\<^sup>* (new_service [] sample_db) v3"
    using step [OF 2 fetch [OF _ h]] by (simp add: v2_def v3_def)
  have "?step\<^sup>*\<^sup>* (new_service [] sample_db) (v3\<lparr>fetch_task := Ticking\<rparr>)"
    by (rule step [OF 3]) (rule fetched, simp add: v3_def)
  then show ?thesis using v(2) by (intro exI conjI) (assumption | simp add: v3_def v2_def v1_def sync_request_def)+
qed

text \<open>The two background tasks wait for each other.\<close>

lemma task_step_stuck:
  assumes "task_step cfg ops sc v w" "feed_task v = Waiting hash" "running (sched v) \<noteq> []" "fetch_task v \<in> {Ticking, Coordinating}"
  shows "feed_task w = Waiting hash \<and> running (sched w) = running (sched v) \<and> fetch_task w \<in> {Ticking, Coordinating}"
proof -
  from assms(1) consider "background_step cfg ops sc v w" | "environment_step v w" by (auto simp: task_step_def)
  then show ?thesis
  proof cases
    case 1
    then show ?thesis using assms(2-4) by cases auto
  next
    case 2
    then show ?thesis using assms(2-4) by cases auto
  qed
qed

section \<open>Properties\<close>

text \<open>C7: Under every interleaving of requests, background tasks and foreign changes of the storage and the
  scanner, the queue has no duplicates, the queue and the running scans stay within the configured
  limits, and the subtraction that computes how many scans may start does not wrap around.\<close>

theorem scheduler_limits:
  assumes "(service_step cfg ops sc)\<^sup>*\<^sup>* (new_service x db) v" "pred_option (\<lambda>m. m < 2 ^ 64) (max_running_scans cfg)"
  shows "within_limits cfg (sched v) \<and>
    (case max_running_scans cfg of
       Some m \<Rightarrow> amount_to_start cfg (sched v) = m - length (running (sched v))
     | None \<Rightarrow> amount_to_start cfg (sched v) = length (queued (sched v)))"
proof -
  have bound: "\<And>m. max_running_scans cfg = Some m \<Longrightarrow> m < 2 ^ 64" using assms(2) by simp
  have "within_limits cfg (sched (new_service x db))"
    by (simp add: new_service_def new_scheduler_def within_limits_def within_def split: option.split)
  with assms(1) have limits: "within_limits cfg (sched v)"
    by (induction rule: rtranclp_induct) (auto intro: service_step_limits [OF _ _ bound])
  then show ?thesis
    using amount_to_start_no_wrap [OF _ bound]
    by (auto simp: within_limits_def within_def amount_to_start_def split: option.splits)
qed

theorem scheduler_limits_witness:
  "\<exists>v. (service_step sample_config sample_storage sample_scanner)\<^sup>*\<^sup>* (new_service [] sample_db) v
    \<and> running (sched v) = [''s''] \<and> within_limits sample_config (sched v) \<and> amount_to_start sample_config (sched v) = 1"
proof -
  obtain v where v: "(service_step sample_config sample_storage sample_scanner)\<^sup>*\<^sup>* (new_service [] sample_db) v"
      "running (sched v) = [''s'']"
    using race_reachable by blast
  have "pred_option (\<lambda>m. m < 2 ^ 64) (max_running_scans sample_config)" by (simp add: sample_config_def)
  then show ?thesis using scheduler_limits [OF v(1)] v by (auto simp: sample_config_def)
qed

text \<open>C9: When the handlers run one after the other, no scan is queued twice, running twice, or queued while
  it is running.\<close>

theorem sequential_scheduled_once:
  assumes "(sequential_step cfg ops sc)\<^sup>*\<^sup>* (new_scheduler x db) s"
  shows "distinct (queued s @ running s)"
proof -
  have "scheduled_once (new_scheduler x db)" by (simp add: scheduled_once_def new_scheduler_def)
  with assms have "scheduled_once s" by (induction rule: rtranclp_induct) (auto intro: sequential_step_once)
  then show ?thesis by (simp add: scheduled_once_def)
qed

theorem sequential_scheduled_once_witness:
  "\<exists>s. (sequential_step sample_config sample_storage sample_scanner)\<^sup>*\<^sup>* (new_scheduler [] sample_db) s
    \<and> queued s = [''s''] \<and> distinct (queued s @ running s)"
proof -
  let ?s = "snd (start_scan_by_id sample_config sample_storage ''s'' (new_scheduler [] sample_db))"
  have s: "(sequential_step sample_config sample_storage sample_scanner)\<^sup>*\<^sup>* (new_scheduler [] sample_db) ?s"
    using sequential_step.intros(1) [OF surjective_pairing] by (rule r_into_rtranclp)
  have "queued ?s = [''s'']"
    by (simp add: start_scan_by_id_def start_check_def start_commit_def update_status_def ends_scan_def
        default_status_def sample_service_defs)
  then show ?thesis using s sequential_scheduled_once [OF s] by blast
qed

text \<open>Start requests that overlap break this: the check of a second request passes while the first is
  not committed yet, so that a scan is queued again while it is running, and the next round hands it
  to the scanner a second time.\<close>

theorem overlapping_starts_run_twice:
  "\<exists>v s. (service_step sample_config sample_storage sample_scanner)\<^sup>*\<^sup>* (new_service [] sample_db) v
    \<and> \<not> distinct (queued (sched v) @ running (sched v))
    \<and> start_queued sample_storage sample_scanner 1 (sched v) = (Inr (), s)
    \<and> running s = [''s'', ''s''] \<and> sched_scanner s = [''s'', ''s'']"
proof -
  obtain v where v: "(service_step sample_config sample_storage sample_scanner)\<^sup>*\<^sup>* (new_service [] sample_db) v"
      "queued (sched v) = [''s'']" "running (sched v) = [''s'']" "sched_scanner (sched v) = [''s'']"
      "sched_db (sched v) = sample_db\<lparr>im_scans := [(''s'', sample_progress (default_status\<lparr>st_phase := Requested\<rparr>))]\<rparr>"
    using race_reachable by blast
  have "start_queued sample_storage sample_scanner 1 (sched v) =
      (Inr (), (sched v)\<lparr>queued := [], sched_scanner := [''s'', ''s''], running := [''s'', ''s'']\<rparr>)"
    using v(2-5) by (simp add: Let_def sample_service_defs)
  then show ?thesis using v(1-3) by (intro exI conjI) (assumption | simp)+
qed

text \<open>Starting a scan is accepted exactly for a stored scan that is neither queued nor running while
  the queue has room. It is then the last of the queue and has the phase \<open>Requested\<close>; a rejected request
  changes nothing, and no request touches the status of another scan.\<close>

theorem start_scan_exact:
  assumes "start_scan_by_id cfg (in_memory_storage crypter js update_feed) i s = (r, t)"
  shows "(r = Inr () \<longleftrightarrow> i \<notin> set (running s) \<and> i \<notin> set (queued s) \<and> max_queued_scans cfg \<noteq> Some (length (queued s))
      \<and> (\<exists>st. im_get_status i (sched_db s) = Inr st \<and> st_phase st = Stored))
    \<and> (r \<noteq> Inr () \<longrightarrow> t = s)
    \<and> (r = Inr () \<longrightarrow> queued t = queued s @ [i] \<and> running t = running s
      \<and> (\<exists>st. im_get_status i (sched_db t) = Inr st \<and> st_phase st = Requested))
    \<and> (\<forall>j. j \<noteq> i \<longrightarrow> im_get_status j (sched_db t) = im_get_status j (sched_db s))"
  using in_memory.start_spec [OF assms] by (simp add: in_memory_storage_def)

theorem start_scan_exact_witness:
  "\<exists>t. start_scan_by_id sample_config sample_storage ''s'' (new_scheduler [] sample_db) = (Inr (), t)
    \<and> queued t = [''s'']"
  using start_scan_exact [of sample_config sample_crypter sample_json "\<lambda>_ _ d. (Inr (), d)" "''s''" "new_scheduler [] sample_db",
      OF surjective_pairing]
  by (simp add: sample_storage_def [symmetric]) (auto simp: sample_config_def new_scheduler_def sample_db_def
      im_get_status_def sample_progress_def default_status_def intro!: prod_eqI)

text \<open>C8: A feed update that is requested while scans are running never comes to its end by itself: the
  task that fetches results waits for the lock that the update keeps, so no finished scan is noticed,
  and the update waits until no scan is running. Whatever the scanner and the storage do, only a client
  that stops or deletes the scans resolves it.\<close>

theorem feed_update_deadlock:
  assumes "(task_step cfg ops sc)\<^sup>*\<^sup>* v w"
    and "feed_task v = Waiting hash" "running (sched v) \<noteq> []" "fetch_task v \<in> {Ticking, Coordinating}"
  shows "feed_task w = Waiting hash \<and> running (sched w) = running (sched v) \<and> fetch_task w \<in> {Ticking, Coordinating}"
  using assms(1)
proof (induction rule: rtranclp_induct)
  case (step w w')
  then show ?case using task_step_stuck [OF step(2)] assms(3) by simp
qed (use assms in simp)

theorem feed_update_deadlock_witness:
  "\<exists>v w. (service_step sample_config sample_storage sample_scanner)\<^sup>*\<^sup>* (new_service [] sample_db) v
    \<and> task_step sample_config sample_storage sample_scanner v w
    \<and> feed_task w = Waiting [] \<and> running (sched w) = [''s''] \<and> fetch_task w = Coordinating"
proof -
  obtain v where v: "(service_step sample_config sample_storage sample_scanner)\<^sup>*\<^sup>* (new_service [] sample_db) v"
      "running (sched v) = [''s'']" "feed_task v = Waiting []" "fetch_task v = Ticking"
    using waiting_reachable by blast
  have w: "task_step sample_config sample_storage sample_scanner v (v\<lparr>fetch_task := Coordinating\<rparr>)"
    using tick [OF v(4)] by (simp add: task_step_def)
  show ?thesis using v(1,2) w feed_update_deadlock [OF r_into_rtranclp, OF w v(3)] v(4)
    by (intro exI [of _ v] exI [of _ "v\<lparr>fetch_task := Coordinating\<rparr>"]) simp
qed

text \<open>When every queued scan can be decrypted and the scanner accepts scans, a round moves as many scans
  to the running ones as the limit allows, the last queued first.\<close>

theorem coordinate_starts:
  assumes "\<And>i. i \<in> set (queued s) \<Longrightarrow> \<exists>scan st. db_get_decrypted_scan ops i (sched_db s) = Inr (scan, st)"
    and "\<And>scan x. sc_can_start_scan sc scan x" "\<And>scan x. fst (sc_start_scan sc scan x) = Inr ()"
    and "\<not> is_synchronizing_feed s" "max_running_scans cfg = Some m" "m < 2 ^ 64" "length (running s) \<le> m"
  shows "\<exists>x. coordinate_scans cfg ops sc s = (Inr (), s\<lparr>sched_scanner := x,
      running := running s @ take (m - length (running s)) (rev (queued s)),
      queued := rev (drop (m - length (running s)) (rev (queued s)))\<rparr>)"
  using start_queued_all [of s ops sc "m - length (running s)", OF assms(1-3)]
    amount_to_start_no_wrap [OF assms(5-7)] assms(4) by (simp add: coordinate_scans_def)

theorem coordinate_starts_witness:
  "\<exists>x. coordinate_scans sample_config sample_storage sample_scanner
      ((new_scheduler [] sample_db)\<lparr>queued := [''s''], running := [''r'']\<rparr>) =
    (Inr (), (new_scheduler [] sample_db)\<lparr>queued := [], running := [''r'', ''s''], sched_scanner := x\<rparr>)"
  using coordinate_starts [of "(new_scheduler [] sample_db)\<lparr>queued := [''s''], running := [''r'']\<rparr>"
      sample_storage sample_scanner sample_config 2]
  by (simp add: sample_service_defs)

text \<open>A scan that is stopped while it is queued, or whose decryption fails when its turn comes, is
  forgotten: it is neither queued nor running, but its phase stays \<open>Requested\<close>, so every later start is
  rejected as already queued.\<close>

theorem requested_scan_forgotten:
  assumes "im_get_status i (sched_db s) = Inr st" "st_phase st = Requested"
    and "queued s = q @ [i]" "i \<notin> set q" "i \<notin> set (running s)"
    and "ops = in_memory_storage crypter js update_feed"
    and "t = (if stopped then snd (stop_scan ops sc now i s) else snd (start_queued ops sc (Suc n) s))"
    and "if stopped then fst (sc_stop_scan sc i (sched_scanner s)) = Inr ()
         else db_get_decrypted_scan ops i (sched_db s) = Inl e"
  shows "i \<notin> set (queued t) \<and> i \<notin> set (running t) \<and> im_get_status i (sched_db t) = Inr st
    \<and> start_scan_by_id cfg ops i t = (Inl ScanAlreadyQueued, t)"
proof -
  have "queued t = q \<and> running t = running s \<and> sched_db t = sched_db s"
  proof (cases stopped)
    case True
    have "remove_id i (q @ [i]) = q" using assms(4) by (simp add: remove_id_snoc)
    then show ?thesis using True assms(3,7,8)
      by (cases "sc_stop_scan sc i (sched_scanner s)") (simp add: stop_scan_def stop_queued_def Let_def)
  next
    case False
    then show ?thesis using assms(3,7,8) by (simp add: Let_def)
  qed
  then show ?thesis using assms(1,2,4-6)
    by (simp add: start_scan_by_id_def start_check_def in_memory_storage_def)
qed

theorem requested_scan_forgotten_witness:
  "\<exists>s t. queued s = [''s''] \<and> t = snd (stop_scan sample_storage sample_scanner 0 ''s'' s)
    \<and> start_scan_by_id sample_config sample_storage ''s'' t = (Inl ScanAlreadyQueued, t)"
proof -
  let ?db = "sample_db\<lparr>im_scans := [(''s'', sample_progress (default_status\<lparr>st_phase := Requested\<rparr>))]\<rparr>"
  let ?s = "(new_scheduler [] ?db)\<lparr>queued := [''s'']\<rparr>"
  have "im_get_status ''s'' (sched_db ?s) = Inr (default_status\<lparr>st_phase := Requested\<rparr>)"
    by (simp add: sample_service_defs)
  then have start: "start_scan_by_id sample_config sample_storage ''s'' (snd (stop_scan sample_storage sample_scanner 0 ''s'' ?s)) =
      (Inl ScanAlreadyQueued, snd (stop_scan sample_storage sample_scanner 0 ''s'' ?s))"
    using requested_scan_forgotten [where i = "''s''" and s = ?s and st = "default_status\<lparr>st_phase := Requested\<rparr>" and q = "[]"
        and stopped = True and sc = sample_scanner and now = 0 and cfg = sample_config, OF _ _ _ _ _ sample_storage_def refl]
    by (simp add: new_scheduler_def sample_scanner_def)
  show ?thesis by (rule exI [of _ ?s], rule exI, rule conjI [OF _ conjI [OF refl start]]) (simp add: new_scheduler_def)
qed

text \<open>A scan whose results cannot be fetched once is marked as failed but keeps its place among the
  running scans: the number of scans that may start does not grow, and the scan itself cannot be
  started again.\<close>

theorem failed_fetch_keeps_slot:
  assumes "sc_fetch_results sc i (sched_scanner s) = (Inl e, x)" "im_get_status i (sched_db s) = Inr st" "i \<in> set (running s)"
  shows "\<exists>t. handle_results_of (in_memory_storage crypter js update_feed) sc i s = (Inr (), t)
    \<and> im_get_status i (sched_db t) = Inr (st\<lparr>st_phase := Failed\<rparr>)
    \<and> running t = running s \<and> amount_to_start cfg t = amount_to_start cfg s
    \<and> start_scan_by_id cfg (in_memory_storage crypter js update_feed) i t = (Inl ScanRunning, t)"
proof -
  have "db_get_status (in_memory_storage crypter js update_feed) i (sched_db s) = Inr st"
    using assms(2) by (simp add: in_memory_storage_def)
  then obtain db where db: "fetch_results_of (in_memory_storage crypter js update_feed) sc i s = (Inr None, s\<lparr>sched_scanner := x, sched_db := db\<rparr>)"
      "db_get_status (in_memory_storage crypter js update_feed) i db = Inr (st\<lparr>st_phase := Failed\<rparr>)"
    using in_memory.failed_fetch [OF assms(1)] by blast
  have "im_get_status i db = Inr (st\<lparr>st_phase := Failed\<rparr>)" using db(2) by (simp add: in_memory_storage_def)
  then show ?thesis using db(1) assms(3)
    by (simp add: handle_results_of_def amount_to_start_def start_scan_by_id_def start_check_def split: option.split)
qed

theorem failed_fetch_keeps_slot_witness:
  "\<exists>t. handle_results_of sample_storage sample_scanner ''s'' ((new_scheduler [] sample_db)\<lparr>running := [''s'']\<rparr>) = (Inr (), t)
    \<and> running t = [''s''] \<and> im_get_status ''s'' (sched_db t) = Inr (default_status\<lparr>st_phase := Failed\<rparr>)"
  using failed_fetch_keeps_slot [of sample_scanner "''s''" "(new_scheduler [] sample_db)\<lparr>running := [''s'']\<rparr>"
      "Connection ''closed''" "[]" default_status sample_crypter sample_json "\<lambda>_ _ d. (Inr (), d)" sample_config]
  unfolding sample_storage_def [symmetric]
  by (auto simp: sample_scanner_def new_scheduler_def sample_db_def im_get_status_def sample_progress_def)

end
