(* ===== verification/Controller.thy ===== *)
theory Controller
  imports Notus_Scan Scheduler
begin

text \<open>
  The HTTP interface of openvasd: the paths and the handler of requests of
  src/rust/src/openvasd/controller/entry.rs, the identification of clients with controller/mod.rs, tls.rs and
  context.rs, and the responses of response.rs and request.rs.

  A request is a method, a path, a query, the header with the API key and a body. A response has its
  status, its headers and its body, where JSON bodies are the values they are made of. The storage is a
  record of operations on top of the one of the scheduler, and the handler is a function on the state of the
  scheduler and of notus. The hash of clients (SHA-256), the JSON parsers and writers, fresh identifiers
  and the time are parameters.

  The theorems say who may do what: which requests are answered without a client, that a client reaches its
  own scans only, how a client takes over the scan of another one, and what becomes of the identity of a TLS
  connection when handshakes overlap or fail.
\<close>

section \<open>Paths\<close>

datatype health_opts = HealthReady | HealthStarted | HealthAlive

datatype known_paths =
    Scans "string option"
  | ScanPreferences
  | ScanResults string "string option"
  | ScanStatus string
  | Vts "string option"
  | Health health_opts
  | NotusOs "string option"
  | UnknownPath

datatype mode = Service | ServiceNotus

text \<open>\<open>str::split\<close> with a character\<close>

fun split_on :: "char \<Rightarrow> string \<Rightarrow> string list" where
  "split_on c [] = [[]]"
| "split_on c (x # xs) =
    (if x = c then [] # split_on c xs
     else case split_on c xs of p # ps \<Rightarrow> (x # p) # ps | [] \<Rightarrow> [[x]])"

definition path_parts :: "string \<Rightarrow> string list" where
  "path_parts path = filter (\<lambda>s. s \<noteq> []) (split_on CHR 0x2F path)"

definition requires_id :: "known_paths \<Rightarrow> bool" where
  "requires_id p =
    (case p of UnknownPath \<Rightarrow> False | Health _ \<Rightarrow> False | Vts _ \<Rightarrow> False | NotusOs _ \<Rightarrow> False | _ \<Rightarrow> True)"

definition next_part :: "string list \<Rightarrow> string option" where
  "next_part parts = (case parts of [] \<Rightarrow> None | p # _ \<Rightarrow> Some p)"

definition scans_path :: "mode \<Rightarrow> string list \<Rightarrow> known_paths" where
  "scans_path mode parts =
    (case mode of
       ServiceNotus \<Rightarrow> UnknownPath
     | Service \<Rightarrow>
         (case parts of
            [] \<Rightarrow> Scans None
          | i # parts \<Rightarrow>
              (case parts of
                 [] \<Rightarrow> if i = ''preferences'' then ScanPreferences else Scans (Some i)
               | p # parts \<Rightarrow>
                   if p = ''results'' then ScanResults i (next_part parts)
                   else if p = ''status'' then ScanStatus i
                   else UnknownPath)))"

definition from_path :: "string \<Rightarrow> mode \<Rightarrow> known_paths" where
  "from_path path mode =
    (case path_parts path of
       [] \<Rightarrow> UnknownPath
     | p # parts \<Rightarrow>
         if p = ''scans'' then scans_path mode parts
         else if p = ''vts'' then Vts (next_part parts)
         else if p = ''notus'' then NotusOs (next_part parts)
         else if p = ''health'' then
           (if next_part parts = Some ''ready'' then Health HealthReady
            else if next_part parts = Some ''alive'' then Health HealthAlive
            else if next_part parts = Some ''started'' then Health HealthStarted
            else UnknownPath)
         else UnknownPath)"

definition path_scan_id :: "known_paths \<Rightarrow> string option" where
  "path_scan_id p =
    (case p of Scans i \<Rightarrow> i | ScanResults i _ \<Rightarrow> Some i | ScanStatus i \<Rightarrow> Some i | _ \<Rightarrow> None)"

fun known_paths_display :: "known_paths \<Rightarrow> string" where
  "known_paths_display (Scans (Some i)) = ''/scans/'' @ i"
| "known_paths_display (Scans None) = ''/scans''"
| "known_paths_display (ScanResults i (Some r)) = ''/scans/'' @ i @ ''/results/'' @ r"
| "known_paths_display (ScanResults i None) = ''/scans/'' @ i @ ''/results''"
| "known_paths_display (ScanStatus i) = ''/scans/'' @ i @ ''/status''"
| "known_paths_display UnknownPath = ''Unknown''"
| "known_paths_display (Vts None) = ''/vts''"
| "known_paths_display (Vts (Some oid)) = ''/vts/'' @ oid"
| "known_paths_display (NotusOs (Some os)) = ''/notus/'' @ os"
| "known_paths_display (NotusOs None) = ''/notus''"
| "known_paths_display (Health HealthAlive) = ''/health/alive''"
| "known_paths_display (Health HealthReady) = ''/health/ready''"
| "known_paths_display (Health HealthStarted) = ''/health/started''"
| "known_paths_display ScanPreferences = ''/scans/preferences''"

section \<open>Clients\<close>

text \<open>A client is known by its hash.\<close>

datatype client_identifier = IdUnknown | IdDisabled | IdKnown string

definition key_client :: "(string \<Rightarrow> string) \<Rightarrow> string option \<Rightarrow> string option \<Rightarrow> string option" where
  "key_client hash api_key header =
    (case (api_key, header) of
       (Some key, Some v) \<Rightarrow> if v = key then Some (hash key) else None
     | _ \<Rightarrow> None)"

definition client_of :: "(string \<Rightarrow> string) \<Rightarrow> client_identifier \<Rightarrow> string option \<Rightarrow> string option \<Rightarrow> string option" where
  "client_of hash cid api_key header =
    (case cid of
       IdDisabled \<Rightarrow> (case api_key of Some _ \<Rightarrow> key_client hash api_key header | None \<Rightarrow> Some (hash ''disabled''))
     | IdKnown c \<Rightarrow> Some c
     | IdUnknown \<Rightarrow> key_client hash api_key header)"

definition default_client :: string where
  "default_client = replicate 32 (CHR 0x00)"

text \<open>The TLS verifier keeps the identity of a certificate that was verified in one place for all connections, where the
  task of a connection takes it from once its handshake is done. A handshake that fails leaves it there.\<close>

datatype tls_event = VerifyClientCert string | HandshakeDone nat | HandshakeFailed nat

definition verify_client_cert :: "(string \<Rightarrow> string) \<Rightarrow> string \<Rightarrow> client_identifier" where
  "verify_client_cert hash cert = IdKnown (hash cert)"

definition retrieve_and_reset :: "client_identifier \<Rightarrow> client_identifier \<times> client_identifier" where
  "retrieve_and_reset ci = (ci, IdUnknown)"

fun run_tls :: "(string \<Rightarrow> string) \<Rightarrow> tls_event list \<Rightarrow> client_identifier \<Rightarrow> (nat \<times> client_identifier) list" where
  "run_tls hash [] ci = []"
| "run_tls hash (e # es) ci =
    (case e of
       VerifyClientCert cert \<Rightarrow> run_tls hash es (verify_client_cert hash cert)
     | HandshakeFailed _ \<Rightarrow> run_tls hash es ci
     | HandshakeDone n \<Rightarrow> (case retrieve_and_reset ci of (c, ci) \<Rightarrow> (n, c) # run_tls hash es ci))"

text \<open>\<open>configure_authentication_methods\<close>: whether the TLS configuration has client certificates, and the API key; the key
  that is used and the text of the header.\<close>

definition configure_authentication ::
  "bool option \<Rightarrow> string option \<Rightarrow> (string option \<times> string) rs" where
  "configure_authentication has_clients api_key =
    (let key = (case has_clients of Some True \<Rightarrow> None | _ \<Rightarrow> api_key) in
     case (has_clients, key) of
       (Some _, Some _) \<Rightarrow> Panic
     | (Some _, None) \<Rightarrow> Ret (key, ''mTLS'')
     | (None, Some _) \<Rightarrow> Ret (key, ''x-api-key'')
     | (None, None) \<Rightarrow> Ret (key, ''''))"

section \<open>Responses\<close>

datatype json_value =
    JText string
  | JTexts "string list"
  | JScan scan
  | JStatus status
  | JNvt nvt
  | JNotus notus_results
  | JNotFound string string
  | JNotAccepted phase "phase list"
  | JBadRequest nat nat string

datatype body_kind = EmptyBody | BinaryBody json_value | PreferencesBody | StreamBody "8 word list list"

record response =
  rsp_status :: nat
  rsp_authentication :: string
  rsp_api_version :: string
  rsp_feed_version :: string
  rsp_content_type :: "string option"
  rsp_body :: body_kind

text \<open>The values that \<open>default_response_builder\<close> writes into the headers.\<close>

record response_config =
  rc_authentication :: string
  rc_version :: string
  rc_feed_version :: string

definition default_response_builder :: "response_config \<Rightarrow> nat \<Rightarrow> string option \<Rightarrow> body_kind \<Rightarrow> response" where
  "default_response_builder rc status content_type body =
    \<lparr>rsp_status = status, rsp_authentication = rc_authentication rc, rsp_api_version = rc_version rc,
     rsp_feed_version = rc_feed_version rc, rsp_content_type = content_type, rsp_body = body\<rparr>"

definition json_response :: "response_config \<Rightarrow> nat \<Rightarrow> body_kind \<Rightarrow> response" where
  "json_response rc status body = default_response_builder rc status (Some ''application/json'') body"

definition create_response :: "response_config \<Rightarrow> nat \<Rightarrow> json_value \<Rightarrow> response" where
  "create_response rc code v = default_response_builder rc code (Some ''application/json'') (BinaryBody v)"

definition empty_response :: "response_config \<Rightarrow> nat \<Rightarrow> response" where
  "empty_response rc code = default_response_builder rc code None EmptyBody"

definition ok_response :: "response_config \<Rightarrow> json_value \<Rightarrow> response" where
  "ok_response rc v = create_response rc 200 v"

definition created :: "response_config \<Rightarrow> json_value \<Rightarrow> response" where
  "created rc v = create_response rc 201 v"

definition no_content :: "response_config \<Rightarrow> response" where
  "no_content rc = empty_response rc 204"

definition unauthorized :: "response_config \<Rightarrow> response" where
  "unauthorized rc = empty_response rc 401"

definition internal_server_error :: "response_config \<Rightarrow> response" where
  "internal_server_error rc = empty_response rc 500"

definition not_found :: "response_config \<Rightarrow> string \<Rightarrow> string \<Rightarrow> response" where
  "not_found rc class i = create_response rc 404 (JNotFound class i)"

definition bad_request :: "response_config \<Rightarrow> json_value \<Rightarrow> response" where
  "bad_request rc v = create_response rc 400 v"

definition not_implemented :: "response_config \<Rightarrow> json_value \<Rightarrow> response" where
  "not_implemented rc v = create_response rc 501 v"

definition service_unavailable :: "response_config \<Rightarrow> json_value \<Rightarrow> response" where
  "service_unavailable rc v = create_response rc 503 v"

definition not_accepted :: "response_config \<Rightarrow> phase \<Rightarrow> phase list \<Rightarrow> response" where
  "not_accepted rc got expected = create_response rc 406 (JNotAccepted got expected)"

definition byte_stream :: "response_config \<Rightarrow> nat \<Rightarrow> 8 word list list \<Rightarrow> response" where
  "byte_stream rc status vs = json_response rc status (StreamBody vs)"

text \<open>What the thread of a stream sends and how the body makes bytes of it.\<close>

datatype send_state = SendStart | SendBytes bool "8 word list" | SendEnd

definition stream_states :: "8 word list list \<Rightarrow> send_state list" where
  "stream_states vs =
    SendStart # (case vs of [] \<Rightarrow> [] | v # vs \<Rightarrow> SendBytes True v # map (SendBytes False) vs) @ [SendEnd]"

fun poll_frame :: "send_state \<Rightarrow> 8 word list" where
  "poll_frame SendStart = as_bytes ''[''"
| "poll_frame SendEnd = as_bytes '']''"
| "poll_frame (SendBytes first b) = (if first then b else rev (rev b @ as_bytes '',''))"

section \<open>Requests\<close>

datatype http_method = HEAD | GET | POST | DELETE | OtherMethod

record request =
  rq_method :: http_method
  rq_path :: string
  rq_query :: "string option"
  rq_api_key :: "string option"
  rq_body :: "8 word list option"

type_synonym 'a body_parser = "8 word list \<Rightarrow> (nat \<times> nat \<times> string) + 'a"

definition json_request :: "response_config \<Rightarrow> 'a body_parser \<Rightarrow> request \<Rightarrow> response + 'a" where
  "json_request rc parse req =
    (case rq_body req of
       None \<Rightarrow> Inl (internal_server_error rc)
     | Some bytes \<Rightarrow>
         (case parse bytes of
            Inr v \<Rightarrow> Inr v
          | Inl (l, c, msg) \<Rightarrow> Inl (bad_request rc (JBadRequest l c msg))))"

datatype scan_action = StartScan | StopScan

record 'db service_storage =
  sv_scans :: "'db scan_storage"
  sv_insert_scan :: "scan \<Rightarrow> 'db \<Rightarrow> ((openvasd_error + unit) \<times> 'db) rs"
  sv_add_scan_client_id :: "string \<Rightarrow> string \<Rightarrow> 'db \<Rightarrow> (openvasd_error + unit) \<times> 'db"
  sv_get_scans_of_client_id :: "string \<Rightarrow> 'db \<Rightarrow> openvasd_error + string list"
  sv_get_scan :: "string \<Rightarrow> 'db \<Rightarrow> openvasd_error + (scan \<times> status)"
  sv_get_results :: "string \<Rightarrow> nat option \<Rightarrow> nat option \<Rightarrow> 'db \<Rightarrow> openvasd_error + 8 word list list"
  sv_vts :: "'db \<Rightarrow> openvasd_error + nvt list"

definition in_memory_service :: "'e crypter \<Rightarrow> json
    \<Rightarrow> (feed_type \<Rightarrow> string \<Rightarrow> default_dispatcher \<Rightarrow> (openvasd_error + unit) \<times> default_dispatcher)
    \<Rightarrow> 'e inmemory service_storage" where
  "in_memory_service crypter js update_feed = \<lparr>
     sv_scans = in_memory_storage crypter js update_feed,
     sv_insert_scan = (\<lambda>sp s. rs_bind (insert_scan crypter sp s) (\<lambda>s. Ret (Inr (), s))),
     sv_add_scan_client_id = (\<lambda>sid cid s. (Inr (), add_scan_client_id sid cid s)),
     sv_get_scans_of_client_id = (\<lambda>cid s. Inr (get_scans_of_client_id cid s)),
     sv_get_scan = get_scan,
     sv_get_results = get_results crypter,
     sv_vts = (\<lambda>s. Inr (remdups (all_vts (im_underlying s))))\<rparr>"

definition sv_is_client_allowed :: "'db service_storage \<Rightarrow> string \<Rightarrow> string \<Rightarrow> 'db \<Rightarrow> openvasd_error + bool" where
  "sv_is_client_allowed sv sid cid db =
    try_bind (sv_get_scans_of_client_id sv cid db) (\<lambda>scans. Inr (list_ex (\<lambda>i. i = sid) scans))"

definition sv_oids :: "'db service_storage \<Rightarrow> 'db \<Rightarrow> openvasd_error + string list" where
  "sv_oids sv db = try_bind (sv_vts sv db) (\<lambda>vts. Inr (map nvt_oid vts))"

definition sv_vt_by_oid :: "'db service_storage \<Rightarrow> string \<Rightarrow> 'db \<Rightarrow> openvasd_error + nvt option" where
  "sv_vt_by_oid sv oid db = try_bind (sv_vts sv db) (\<lambda>vts. Inr (find (\<lambda>x. nvt_oid x = oid) vts))"

text \<open>What the handler is given: the hash of clients, the parsers of the three kinds of bodies, JSON of
  texts and tests, the scanner, and for notus the regular expressions and the loader.\<close>

record ('db, 'sc, 'n) environment =
  en_hash :: "string \<Rightarrow> string"
  en_parse_scan :: "scan body_parser"
  en_parse_action :: "scan_action body_parser"
  en_parse_packages :: "string list body_parser"
  en_text_json :: "string \<Rightarrow> 8 word list"
  en_nvt_json :: "nvt \<Rightarrow> 8 word list"
  en_storage :: "'db service_storage"
  en_scanner :: "'sc scanner"
  en_scheduler :: scheduler_config
  en_regex :: notus_regex
  en_loader :: "'n product_loader"

record controller_context =
  cx_authentication :: string
  cx_api_key :: "string option"
  cx_enable_get_scans :: bool
  cx_mode :: mode

record ('db, 'sc, 'n) service =
  se_scheduler :: "('db, 'sc) scheduler"
  se_notus :: "'n notus option"

type_synonym ('db, 'sc, 'n) answer = "((scan_error + response) \<times> ('db, 'sc, 'n) service) rs"

definition response_of :: "controller_context \<Rightarrow> ('db, 'sc, 'n) service \<Rightarrow> response_config" where
  "response_of cx s = \<lparr>rc_authentication = cx_authentication cx, rc_version = ''1'', rc_feed_version = feed_version (se_scheduler s)\<rparr>"

definition se_db :: "('db, 'sc, 'n) service \<Rightarrow> 'db" where
  "se_db s = sched_db (se_scheduler s)"

definition set_db :: "'db \<Rightarrow> ('db, 'sc, 'n) service \<Rightarrow> ('db, 'sc, 'n) service" where
  "set_db db s = s\<lparr>se_scheduler := (se_scheduler s)\<lparr>sched_db := db\<rparr>\<rparr>"

section \<open>The handler\<close>

definition get_ready :: "('db, 'sc, 'n) environment \<Rightarrow> controller_context \<Rightarrow> ('db, 'sc, 'n) service \<Rightarrow> ('db, 'sc, 'n) answer" where
  "get_ready en cx s =
    (case sv_oids (en_storage en) (se_db s) of
       Inl e \<Rightarrow> Ret (Inl (scan_error_from_storage e), s)
     | Inr oids \<Rightarrow> Ret (Inr (empty_response (response_of cx s) (if length oids = 0 then 503 else 200)), s))"

definition get_notus :: "('db, 'sc, 'n) environment \<Rightarrow> controller_context \<Rightarrow> ('db, 'sc, 'n) service \<Rightarrow> ('db, 'sc, 'n) answer" where
  "get_notus en cx s =
    (case se_notus s of
       Some notus \<Rightarrow>
         (case get_available_os (en_loader en) notus of
            Inr os \<Rightarrow> Ret (Inr (ok_response (response_of cx s) (JTexts os)), s)
          | Inl _ \<Rightarrow> Ret (Inr (internal_server_error (response_of cx s)), s))
     | None \<Rightarrow> Ret (Inr (empty_response (response_of cx s) 503), s))"

text \<open>The error of a package that cannot be parsed, as displayed.\<close>

definition package_error_text :: "string \<Rightarrow> string" where
  "package_error_text p = ''Unable to parse the given package '' @ p"

definition post_notus :: "('db, 'sc, 'n) environment \<Rightarrow> controller_context \<Rightarrow> string \<Rightarrow> request \<Rightarrow> ('db, 'sc, 'n) service \<Rightarrow> ('db, 'sc, 'n) answer" where
  "post_notus en cx os req s =
    (let rc = response_of cx s in
     case json_request rc (en_parse_packages en) req of
       Inl resp \<Rightarrow> Ret (Inr resp, s)
     | Inr packages \<Rightarrow>
         (case se_notus s of
            None \<Rightarrow> Ret (Inr (empty_response rc 503), s)
          | Some notus \<Rightarrow>
              rs_bind (Notus_Scan.scan (en_regex en) (en_loader en) os packages notus) (\<lambda>(r, notus).
                Ret (Inr (case r of
                       Inr results \<Rightarrow> ok_response rc (JNotus results)
                     | Inl (UnknownProduct _) \<Rightarrow> not_found rc ''advisories'' os
                     | Inl (PackageParseError p) \<Rightarrow> bad_request rc (JText (package_error_text p))
                     | Inl _ \<Rightarrow> internal_server_error rc),
                   s\<lparr>se_notus := Some notus\<rparr>))))"

definition post_scans :: "('db, 'sc, 'n) environment \<Rightarrow> controller_context \<Rightarrow> string \<Rightarrow> string \<Rightarrow> request \<Rightarrow> ('db, 'sc, 'n) service
    \<Rightarrow> ('db, 'sc, 'n) answer" where
  "post_scans en cx uuid cid req s =
    (let rc = response_of cx s in
     case json_request rc (en_parse_scan en) req of
       Inl resp \<Rightarrow> Ret (Inr resp, s)
     | Inr sp \<Rightarrow>
         let i = (if scan_id sp \<noteq> [] then scan_id sp else uuid);
             resp = created rc (JText i)
         in rs_bind (sv_insert_scan (en_storage en) (sp\<lparr>scan_id := i\<rparr>) (se_db s)) (\<lambda>(r, db).
              case r of
                Inl e \<Rightarrow> Ret (Inl (scan_error_from_storage e), set_db db s)
              | Inr _ \<Rightarrow>
                  (case sv_add_scan_client_id (en_storage en) i cid db of
                     (Inl e, db) \<Rightarrow> Ret (Inl (scan_error_from_storage e), set_db db s)
                   | (Inr _, db) \<Rightarrow> Ret (Inr resp, set_db db s))))"

definition start_response :: "response_config \<Rightarrow> string \<Rightarrow> scheduler_error + unit \<Rightarrow> response" where
  "start_response rc i r =
    (case r of
       Inr _ \<Rightarrow> no_content rc
     | Inl ScanRunning \<Rightarrow> not_accepted rc Requested [Stored, Stopped, Failed, Succeeded]
     | Inl ScanAlreadyQueued \<Rightarrow> not_accepted rc Requested [Stored, Stopped, Failed, Succeeded]
     | Inl NoSuchScan \<Rightarrow> not_found rc ''scan'' i
     | Inl QueueFull \<Rightarrow> service_unavailable rc (JText ''Queue is already full. Try again later.'')
     | Inl UnsupportedResume \<Rightarrow> not_implemented rc (JText
         ''Resuming task is currently not possible, please create a new scan excluding the finished hosts.'')
     | Inl _ \<Rightarrow> internal_server_error rc)"

definition post_scan_action :: "('db, 'sc, 'n) environment \<Rightarrow> controller_context \<Rightarrow> nat \<Rightarrow> string \<Rightarrow> request \<Rightarrow> ('db, 'sc, 'n) service
    \<Rightarrow> ('db, 'sc, 'n) answer" where
  "post_scan_action en cx now i req s =
    (let rc = response_of cx s; ops = sv_scans (en_storage en) in
     case json_request rc (en_parse_action en) req of
       Inl resp \<Rightarrow> Ret (Inr resp, s)
     | Inr StartScan \<Rightarrow>
         (case start_scan_by_id (en_scheduler en) ops i (se_scheduler s) of
            (r, sched') \<Rightarrow> Ret (Inr (start_response rc i r), s\<lparr>se_scheduler := sched'\<rparr>))
     | Inr StopScan \<Rightarrow>
         (case stop_scan ops (en_scanner en) now i (se_scheduler s) of
            (r, sched') \<Rightarrow> Ret (Inr (case r of Inr _ \<Rightarrow> no_content rc | Inl _ \<Rightarrow> internal_server_error rc),
              s\<lparr>se_scheduler := sched'\<rparr>)))"

definition get_scans :: "('db, 'sc, 'n) environment \<Rightarrow> controller_context \<Rightarrow> string \<Rightarrow> ('db, 'sc, 'n) service \<Rightarrow> ('db, 'sc, 'n) answer" where
  "get_scans en cx cid s =
    (let rc = response_of cx s in
     if cx_enable_get_scans cx then
       (case sv_get_scans_of_client_id (en_storage en) cid (se_db s) of
          Inr scans \<Rightarrow> Ret (Inr (ok_response rc (JTexts scans)), s)
        | Inl _ \<Rightarrow> Ret (Inr (internal_server_error rc), s))
     else Ret (Inr (not_found rc ''scans'' ''all''), s))"

definition mask_credentials :: "scan \<Rightarrow> scan rs" where
  "mask_credentials sp =
    (case try_map (map_password (\<lambda>_. Inr ''***'' :: scan_error + string)) (target_credentials (scan_target sp)) of
       Inr cs \<Rightarrow> Ret (sp\<lparr>scan_target := (scan_target sp)\<lparr>target_credentials := cs\<rparr>\<rparr>)
     | Inl _ \<Rightarrow> Panic)"

definition storage_response :: "response_config \<Rightarrow> string \<Rightarrow> string \<Rightarrow> openvasd_error \<Rightarrow> response" where
  "storage_response rc class i e = (case e of ScanNotFound \<Rightarrow> not_found rc class i | _ \<Rightarrow> internal_server_error rc)"

definition get_scan_of :: "('db, 'sc, 'n) environment \<Rightarrow> controller_context \<Rightarrow> string \<Rightarrow> ('db, 'sc, 'n) service \<Rightarrow> ('db, 'sc, 'n) answer" where
  "get_scan_of en cx i s =
    (let rc = response_of cx s in
     case sv_get_scan (en_storage en) i (se_db s) of
       Inr (sp, _) \<Rightarrow> rs_bind (mask_credentials sp) (\<lambda>sp. Ret (Inr (ok_response rc (JScan sp)), s))
     | Inl e \<Rightarrow> Ret (Inr (storage_response rc ''scans'' i e), s))"

definition get_scan_status :: "('db, 'sc, 'n) environment \<Rightarrow> controller_context \<Rightarrow> string \<Rightarrow> ('db, 'sc, 'n) service \<Rightarrow> ('db, 'sc, 'n) answer" where
  "get_scan_status en cx i s =
    (let rc = response_of cx s in
     case sv_get_scan (en_storage en) i (se_db s) of
       Inr (_, status) \<Rightarrow> Ret (Inr (ok_response rc (JStatus status)), s)
     | Inl e \<Rightarrow> Ret (Inr (storage_response rc ''scans/status'' i e), s))"

definition delete_scan :: "('db, 'sc, 'n) environment \<Rightarrow> controller_context \<Rightarrow> string \<Rightarrow> ('db, 'sc, 'n) service \<Rightarrow> ('db, 'sc, 'n) answer" where
  "delete_scan en cx i s =
    (let rc = response_of cx s in
     rs_bind (delete_scan_by_id (sv_scans (en_storage en)) (en_scanner en) i (se_scheduler s)) (\<lambda>(r, sched').
       Ret (case r of
              Inr _ \<Rightarrow> Inr (no_content rc)
            | Inl NoSuchScan \<Rightarrow> Inr (not_found rc ''scans'' i)
            | Inl e \<Rightarrow> Inl (scan_error_from e),
           s\<lparr>se_scheduler := sched'\<rparr>)))"

text \<open>The additions are those of \<open>usize\<close>, which wrap around.\<close>

definition next_usize :: "nat \<Rightarrow> nat" where
  "next_usize n = (n + 1) mod 2 ^ 64"

definition nth_or_empty :: "string list \<Rightarrow> nat \<Rightarrow> string" where
  "nth_or_empty xs n = (if n < length xs then xs ! n else [])"

definition requested_range :: "string option \<Rightarrow> string option \<Rightarrow> nat option \<times> nat option" where
  "requested_range rid query =
    (case rid of
       Some r \<Rightarrow> (case parse_u64 r of Some n \<Rightarrow> (Some n, Some (next_usize n)) | None \<Rightarrow> (None, None))
     | None \<Rightarrow>
         let parts = split_on CHR ''='' (case query of Some q \<Rightarrow> q | None \<Rightarrow> []) in
         if nth_or_empty parts 0 = ''range'' then
           let range = split_on CHR ''-'' (nth_or_empty parts 1) in
           (case (parse_u64 (nth_or_empty range 0), parse_u64 (nth_or_empty range 1)) of
              (Some b, Some e) \<Rightarrow> (Some b, Some (next_usize e))
            | (Some b, None) \<Rightarrow> (Some b, None)
            | _ \<Rightarrow> (None, None))
         else (None, None))"

definition get_scan_results :: "('db, 'sc, 'n) environment \<Rightarrow> controller_context \<Rightarrow> string \<Rightarrow> string option \<Rightarrow> request
    \<Rightarrow> ('db, 'sc, 'n) service \<Rightarrow> ('db, 'sc, 'n) answer" where
  "get_scan_results en cx i rid req s =
    (let rc = response_of cx s in
     case requested_range rid (rq_query req) of
       (begin', end') \<Rightarrow>
         (case sv_get_results (en_storage en) i begin' end' (se_db s) of
            Inr results \<Rightarrow> Ret (Inr (byte_stream rc 200 results), s)
          | Inl e \<Rightarrow> Ret (Inr (storage_response rc ''scans/results'' i e), s)))"

definition get_vts :: "('db, 'sc, 'n) environment \<Rightarrow> controller_context \<Rightarrow> string option \<Rightarrow> request \<Rightarrow> ('db, 'sc, 'n) service
    \<Rightarrow> ('db, 'sc, 'n) answer" where
  "get_vts en cx oid req s =
    (let rc = response_of cx s;
         meta = (rq_query req = Some ''information=true'' \<or> rq_query req = Some ''information=1'')
     in case oid of
          Some oid \<Rightarrow>
            (case sv_vt_by_oid (en_storage en) oid (se_db s) of
               Inl e \<Rightarrow> Ret (Inl (scan_error_from_storage e), s)
             | Inr (Some nvt) \<Rightarrow> Ret (Inr (ok_response rc (JNvt nvt)), s)
             | Inr None \<Rightarrow> Ret (Inr (not_found rc ''nvt'' oid), s))
        | None \<Rightarrow>
            if meta then
              (case sv_vts (en_storage en) (se_db s) of
                 Inl e \<Rightarrow> Ret (Inl (scan_error_from_storage e), s)
               | Inr vts \<Rightarrow> Ret (Inr (byte_stream rc 200 (map (en_nvt_json en) vts)), s))
            else
              (case sv_oids (en_storage en) (se_db s) of
                 Inl e \<Rightarrow> Ret (Inl (scan_error_from_storage e), s)
               | Inr oids \<Rightarrow> Ret (Inr (byte_stream rc 200 (map (en_text_json en) oids)), s)))"

definition dispatch_request :: "('db, 'sc, 'n) environment \<Rightarrow> controller_context \<Rightarrow> string \<Rightarrow> nat \<Rightarrow> string \<Rightarrow> known_paths \<Rightarrow> request
    \<Rightarrow> ('db, 'sc, 'n) service \<Rightarrow> ('db, 'sc, 'n) answer" where
  "dispatch_request en cx uuid now cid kp req s =
    (let missing = Ret (Inr (not_found (response_of cx s) ''path'' (rq_path req)), s) in
     case rq_method req of
       HEAD \<Rightarrow> if kp = Scans None then Ret (Inr (empty_response (response_of cx s) 204), s) else missing
     | GET \<Rightarrow>
         (case kp of
            Health HealthAlive \<Rightarrow> Ret (Inr (empty_response (response_of cx s) 200), s)
          | Health HealthStarted \<Rightarrow> Ret (Inr (empty_response (response_of cx s) 200), s)
          | Health HealthReady \<Rightarrow> get_ready en cx s
          | NotusOs None \<Rightarrow> get_notus en cx s
          | NotusOs (Some _) \<Rightarrow> missing
          | Scans None \<Rightarrow> get_scans en cx cid s
          | Scans (Some i) \<Rightarrow> get_scan_of en cx i s
          | ScanPreferences \<Rightarrow> Ret (Inr (json_response (response_of cx s) 200 PreferencesBody), s)
          | ScanStatus i \<Rightarrow> get_scan_status en cx i s
          | ScanResults i rid \<Rightarrow> get_scan_results en cx i rid req s
          | Vts oid \<Rightarrow> get_vts en cx oid req s
          | UnknownPath \<Rightarrow> missing)
     | POST \<Rightarrow>
         (case kp of
            NotusOs (Some os) \<Rightarrow> post_notus en cx os req s
          | Scans None \<Rightarrow> post_scans en cx uuid cid req s
          | Scans (Some i) \<Rightarrow> post_scan_action en cx now i req s
          | _ \<Rightarrow> missing)
     | DELETE \<Rightarrow> (case kp of Scans (Some i) \<Rightarrow> delete_scan en cx i s | _ \<Rightarrow> missing)
     | OtherMethod \<Rightarrow> missing)"

text \<open>\<open>call\<close>; the result of \<open>is_client_allowed\<close> is unwrapped.\<close>

definition entry_call :: "('db, 'sc, 'n) environment \<Rightarrow> controller_context \<Rightarrow> client_identifier \<Rightarrow> string \<Rightarrow> nat \<Rightarrow> request
    \<Rightarrow> ('db, 'sc, 'n) service \<Rightarrow> ('db, 'sc, 'n) answer" where
  "entry_call en cx ci uuid now req s =
    (let kp = from_path (rq_path req) (cx_mode cx) in
     if rq_method req = HEAD \<and> kp \<noteq> Scans None then Ret (Inr (empty_response (response_of cx s) 200), s)
     else
       let cid = client_of (en_hash en) ci (cx_api_key cx) (rq_api_key req) in
       if requires_id kp \<and> cid = None then Ret (Inr (unauthorized (response_of cx s)), s)
       else
         let cid = (case cid of Some c \<Rightarrow> c | None \<Rightarrow> default_client) in
         case path_scan_id kp of
           None \<Rightarrow> dispatch_request en cx uuid now cid kp req s
         | Some i \<Rightarrow>
             (case sv_is_client_allowed (en_storage en) i cid (se_db s) of
                Inl _ \<Rightarrow> Panic
              | Inr allowed \<Rightarrow>
                  if allowed then dispatch_request en cx uuid now cid kp req s
                  else Ret (Inr (not_found (response_of cx s) ''scans'' i), s)))"

section \<open>Lemmas on paths\<close>

lemma split_on_absent: "c \<notin> set p \<Longrightarrow> split_on c p = [p]"
  by (induction p) auto

lemma split_on_sep: "c \<notin> set p \<Longrightarrow> split_on c (p @ c # q) = p # split_on c q"
  by (induction p) auto

definition segment :: "string \<Rightarrow> bool" where
  "segment p \<longleftrightarrow> p \<noteq> [] \<and> CHR 0x2F \<notin> set p"

lemma parts_step: "segment p \<Longrightarrow> path_parts (CHR 0x2F # p @ CHR 0x2F # q) = p # path_parts (CHR 0x2F # q)"
  by (simp add: path_parts_def segment_def split_on_sep)

lemma parts_last: "segment p \<Longrightarrow> path_parts (CHR 0x2F # p) = [p]"
  by (simp add: path_parts_def segment_def split_on_absent)

lemma words_segment [simp]:
  "segment ''scans''" "segment ''results''" "segment ''status''" "segment ''vts''" "segment ''notus''" "segment ''health''"
  "segment ''preferences''" "segment ''alive''" "segment ''ready''" "segment ''started''"
  by (simp_all add: segment_def)

lemmas known_parts =
  parts_step [of "''scans''", simplified] parts_step [of "''vts''", simplified] parts_step [of "''notus''", simplified]
  parts_step [of "''health''", simplified]

lemma parts_results: "segment i \<Longrightarrow> path_parts (CHR 0x2F # i @ ''/results'') = [i, ''results'']"
  using parts_step [of i "''results''"] parts_last [of "''results''"] by simp

lemma parts_result: "segment i \<Longrightarrow> segment r \<Longrightarrow> path_parts (CHR 0x2F # i @ ''/results/'' @ r) = [i, ''results'', r]"
  using parts_step [of i "''results/'' @ r"] parts_step [of "''results''" r] parts_last [of r] by simp

lemma parts_status: "segment i \<Longrightarrow> path_parts (CHR 0x2F # i @ ''/status'') = [i, ''status'']"
  using parts_step [of i "''status''"] parts_last [of "''status''"] by simp

text \<open>A path whose parts can be written into it.\<close>

fun path_ok :: "known_paths \<Rightarrow> bool" where
  "path_ok (Scans i) = (case i of None \<Rightarrow> True | Some i \<Rightarrow> segment i \<and> i \<noteq> ''preferences'')"
| "path_ok (ScanResults i r) = (segment i \<and> (case r of None \<Rightarrow> True | Some r \<Rightarrow> segment r))"
| "path_ok (ScanStatus i) = segment i"
| "path_ok (Vts oid) = (case oid of None \<Rightarrow> True | Some oid \<Rightarrow> segment oid)"
| "path_ok (NotusOs os) = (case os of None \<Rightarrow> True | Some os \<Rightarrow> segment os)"
| "path_ok _ = True"

text \<open>A path is read back from its display, in the mode of the full service, for identifiers that are not empty and have no
  slash. The one exception is a scan with the identifier \<open>preferences\<close>, which the path of the preferences hides.\<close>

theorem path_roundtrip:
  assumes "path_ok kp"
  shows "from_path (known_paths_display kp) Service = kp"
proof (cases kp)
  case (Scans i)
  then show ?thesis using assms parts_last [of "''scans''"]
    by (cases i) (auto simp: from_path_def known_parts parts_last scans_path_def)
next
  case (ScanResults i r)
  then show ?thesis using assms
    by (cases r) (auto simp: from_path_def known_parts parts_results parts_result [simplified] scans_path_def next_part_def)
next
  case (ScanStatus i)
  then show ?thesis using assms by (simp add: from_path_def known_parts parts_status scans_path_def)
next
  case (Vts oid)
  then show ?thesis using assms parts_last [of "''vts''"]
    by (cases oid) (auto simp: from_path_def known_parts parts_last next_part_def)
next
  case (NotusOs os)
  then show ?thesis using assms parts_last [of "''notus''"]
    by (cases os) (auto simp: from_path_def known_parts parts_last next_part_def)
next
  case (Health h)
  then show ?thesis using parts_last [of "''alive''"] parts_last [of "''ready''"] parts_last [of "''started''"]
    by (cases h) (simp_all add: from_path_def known_parts next_part_def)
next
  case ScanPreferences
  then show ?thesis using parts_last [of "''preferences''"] by (simp add: from_path_def known_parts scans_path_def)
next
  case UnknownPath
  then show ?thesis by (simp add: from_path_def path_parts_def)
qed

theorem path_roundtrip_witness:
  "path_ok (ScanResults ''s1'' (Some ''7'')) \<and> from_path ''/scans/s1/results/7'' Service = ScanResults ''s1'' (Some ''7'')"
  using path_roundtrip [of "ScanResults ''s1'' (Some ''7'')"] by (simp add: segment_def)

section \<open>Lemmas on clients\<close>

text \<open>The events of a handshake of its own, with or without a certificate.\<close>

definition handshake :: "nat \<times> string option \<Rightarrow> tls_event list" where
  "handshake c = (case snd c of None \<Rightarrow> [] | Some cert \<Rightarrow> [VerifyClientCert cert]) @ [HandshakeDone (fst c)]"

text \<open>As long as handshakes follow each other and none fails, every connection gets the identity of its own certificate, and
  a connection without a certificate has none.\<close>

theorem sequential_handshakes:
  "run_tls hash (concat (map handshake cs)) IdUnknown =
    map (\<lambda>(n, cert). (n, case cert of None \<Rightarrow> IdUnknown | Some cert \<Rightarrow> IdKnown (hash cert))) cs"
  by (induction cs) (auto simp: handshake_def retrieve_and_reset_def verify_client_cert_def split: option.split)

text \<open>The certificate that was verified last, since a connection was done.\<close>

fun verified_cert :: "tls_event \<Rightarrow> string option" where
  "verified_cert (VerifyClientCert cert) = Some cert"
| "verified_cert _ = None"

definition is_done_event :: "tls_event \<Rightarrow> bool" where
  "is_done_event e \<longleftrightarrow> (\<exists>n. e = HandshakeDone n)"

definition last_verified :: "tls_event list \<Rightarrow> string option" where
  "last_verified es =
    (case List.map_filter verified_cert (takeWhile (\<lambda>e. \<not> is_done_event e) (rev es)) of [] \<Rightarrow> None | cert # _ \<Rightarrow> Some cert)"

text \<open>What is in the place of the identity after some events\<close>

definition identity_of :: "(string \<Rightarrow> string) \<Rightarrow> string option \<Rightarrow> client_identifier" where
  "identity_of hash cert = (case cert of None \<Rightarrow> IdUnknown | Some cert \<Rightarrow> IdKnown (hash cert))"

lemma last_verified_Nil: "last_verified [] = None"
  by (simp add: last_verified_def)

lemma last_verified_snoc:
  "last_verified (es @ [e]) =
    (case e of VerifyClientCert cert \<Rightarrow> Some cert | HandshakeDone n \<Rightarrow> None | HandshakeFailed n \<Rightarrow> last_verified es)"
  by (cases e) (simp_all add: last_verified_def is_done_event_def List.map_filter_def)

lemma run_tls_append:
  "run_tls hash (es @ fs) IdUnknown = run_tls hash es IdUnknown @ run_tls hash fs (identity_of hash (last_verified es))"
proof (induction es arbitrary: fs rule: rev_induct)
  case (snoc e es)
  have "run_tls hash (es @ [e]) IdUnknown = run_tls hash es IdUnknown @ run_tls hash [e] (identity_of hash (last_verified es))"
    by (rule snoc.IH)
  moreover have "run_tls hash (es @ e # fs) IdUnknown = run_tls hash es IdUnknown @ run_tls hash (e # fs) (identity_of hash (last_verified es))"
    by (rule snoc.IH)
  ultimately show ?case
    by (cases e) (simp_all add: last_verified_snoc identity_of_def verify_client_cert_def retrieve_and_reset_def)
qed (simp add: last_verified_Nil identity_of_def)

text \<open>C37: The identity of a connection is that of the certificate that was verified last before its handshake was done and
  after the one before it was, whichever connection presented it; it is taken only once. So a connection without a
  certificate gets the identity of a handshake that failed after its certificate was verified, however many
  failed in between, while a connection that presents a certificate itself, as the last one to do so, gets its own. The
  certificate of a client is not secret: anyone who presents it, without its key, can act as that client afterwards.\<close>

theorem failed_handshake_leaves_identity:
  "run_tls hash (es @ HandshakeDone n # fs) IdUnknown =
     run_tls hash es IdUnknown @ (n, identity_of hash (last_verified es)) # run_tls hash fs IdUnknown
   \<and> last_verified (es @ VerifyClientCert cert # map HandshakeFailed ms) = Some cert
   \<and> last_verified (es @ HandshakeDone m # map HandshakeFailed ms) = None"
proof (intro conjI)
  have "last_verified (es @ HandshakeDone n # []) = None" using last_verified_snoc [of es] by simp
  then show "run_tls hash (es @ HandshakeDone n # fs) IdUnknown =
     run_tls hash es IdUnknown @ (n, identity_of hash (last_verified es)) # run_tls hash fs IdUnknown"
    using run_tls_append [of hash es "HandshakeDone n # fs"] by (simp add: retrieve_and_reset_def)
  show "last_verified (es @ VerifyClientCert cert # map HandshakeFailed ms) = Some cert"
    using last_verified_snoc [of es]
    by (induction ms rule: rev_induct) (simp_all add: last_verified_snoc flip: append_Cons append_assoc)
  show "last_verified (es @ HandshakeDone m # map HandshakeFailed ms) = None"
    using last_verified_snoc [of es]
    by (induction ms rule: rev_induct) (simp_all add: last_verified_snoc flip: append_Cons append_assoc)
qed

text \<open>The service panics at its start exactly when it has a TLS certificate, no client certificates and an API key.\<close>

theorem configure_authentication_panics_iff:
  "configure_authentication has_clients api_key = Panic \<longleftrightarrow> has_clients = Some False \<and> api_key \<noteq> None"
  by (cases has_clients; cases api_key) (auto simp: configure_authentication_def Let_def split: bool.splits)

section \<open>Scans of other clients\<close>

lemma reading_keeps:
  "get_ready en cx s = Ret (r, s') \<Longrightarrow> s' = s"
  "get_notus en cx s = Ret (r, s') \<Longrightarrow> s' = s"
  "get_scans en cx cid s = Ret (r, s') \<Longrightarrow> s' = s"
  "get_scan_of en cx i s = Ret (r, s') \<Longrightarrow> s' = s"
  "get_scan_status en cx i s = Ret (r, s') \<Longrightarrow> s' = s"
  "get_scan_results en cx i rid req s = Ret (r, s') \<Longrightarrow> s' = s"
  "get_vts en cx oid req s = Ret (r, s') \<Longrightarrow> s' = s"
  by (auto simp: get_ready_def get_notus_def get_scans_def get_scan_of_def get_scan_status_def get_scan_results_def get_vts_def Let_def
      split: sum.splits option.splits if_splits prod.splits)

lemma post_notus_keeps: "post_notus en cx os req s = Ret (r, s') \<Longrightarrow> se_scheduler s' = se_scheduler s"
  by (cases "json_request (response_of cx s) (en_parse_packages en) req"; cases "se_notus s") (auto simp: post_notus_def Let_def)

definition scan_kept :: "(string \<Rightarrow> 'db \<Rightarrow> 'x) \<Rightarrow> string \<Rightarrow> ('db, 'sc) scheduler \<Rightarrow> ('db, 'sc) scheduler \<Rightarrow> bool" where
  "scan_kept entry i s s' \<longleftrightarrow> entry i (sched_db s') = entry i (sched_db s)
    \<and> (i \<in> set (queued s') \<longleftrightarrow> i \<in> set (queued s)) \<and> (i \<in> set (running s') \<longleftrightarrow> i \<in> set (running s))"

lemma scan_kept_refl [simp]: "scan_kept entry i s s"
  by (simp add: scan_kept_def)

text \<open>What a storage promises about the entry of a scan: the operations for other scans leave it as it is.\<close>

locale scan_entries =
  fixes sv :: "'db service_storage" and entry :: "string \<Rightarrow> 'db \<Rightarrow> 'x"
  assumes update_keeps: "db_update_status (sv_scans sv) j st db = (r, db') \<Longrightarrow> i \<noteq> j \<Longrightarrow> entry i db' = entry i db"
    and remove_keeps: "db_remove_scan (sv_scans sv) j db = (r, db') \<Longrightarrow> i \<noteq> j \<Longrightarrow> entry i db' = entry i db"
    and remove_id_keeps: "db_remove_scan_id (sv_scans sv) j db = Ret (r, db') \<Longrightarrow> entry i db' = entry i db"
    and insert_keeps: "sv_insert_scan sv sp db = Ret (r, db') \<Longrightarrow> i \<noteq> scan_id sp \<Longrightarrow> entry i db' = entry i db"
    and client_keeps: "sv_add_scan_client_id sv j c db = (r, db') \<Longrightarrow> entry i db' = entry i db"
begin

lemma start_keeps:
  assumes "start_scan_by_id cfg (sv_scans sv) j s = (r, s')" "i \<noteq> j"
  shows "scan_kept entry i s s'"
proof (cases "start_check (sv_scans sv) j s")
  case (Inl e)
  then show ?thesis using assms(1) by (simp add: start_scan_by_id_def)
next
  case (Inr st)
  have "st_phase st = Requested"
    using Inr by (auto simp: start_check_def split: if_splits sum.splits phase.splits)
  then show ?thesis using assms Inr update_keeps [OF _ assms(2)]
    by (auto simp: start_scan_by_id_def start_commit_def update_status_def ends_scan_def scan_kept_def Let_def
        split: if_splits prod.splits sum.splits)
qed

lemma stop_keeps:
  assumes "stop_scan (sv_scans sv) sc now j s = (r, s')" "i \<noteq> j"
  shows "scan_kept entry i s s'"
  using assms update_keeps [OF _ assms(2)]
  by (auto simp: stop_scan_def stop_queued_def stop_running_def scan_kept_def Let_def set_remove_id_other split: if_splits prod.splits sum.splits)

lemma unschedule_keeps: "unschedule sc j s = (r, s') \<Longrightarrow> i \<noteq> j \<Longrightarrow> scan_kept entry i s s'"
  by (auto simp: unschedule_def scan_kept_def set_remove_id_other split: if_splits prod.splits sum.splits)

lemma delete_keeps:
  assumes "delete_scan_by_id (sv_scans sv) sc j s = Ret (r, s')" "i \<noteq> j"
  shows "scan_kept entry i s s'"
proof -
  obtain u s1 where u: "unschedule sc j s = (u, s1)" by fastforce
  note k = unschedule_keeps [OF u assms(2)]
  obtain q db where q: "db_remove_scan (sv_scans sv) j (sched_db s1) = (q, db)" by fastforce
  note kq = remove_keeps [OF q assms(2)]
  show ?thesis using assms(1) u q k kq remove_id_keeps [of j db]
    by (auto simp: delete_scan_by_id_def scan_kept_def split: sum.splits rs.splits prod.splits)
qed

lemma post_keeps:
  assumes "post_scans en cx uuid cid req s = Ret (r, s')" "en_storage en = sv" "uuid \<noteq> i"
    and "\<And>b sp. rq_body req = Some b \<Longrightarrow> en_parse_scan en b = Inr sp \<Longrightarrow> scan_id sp \<noteq> i"
  shows "scan_kept entry i (se_scheduler s) (se_scheduler s')"
proof (cases "json_request (response_of cx s) (en_parse_scan en) req")
  case (Inl resp)
  then show ?thesis using assms(1) by (simp add: post_scans_def Let_def)
next
  case (Inr sp)
  define j where "j = (if scan_id sp \<noteq> [] then scan_id sp else uuid)"
  have "scan_id sp \<noteq> i" using Inr assms(4) by (auto simp: json_request_def split: option.splits sum.splits)
  then have ne: "i \<noteq> j" using assms(3) by (auto simp: j_def)
  obtain q db where q: "sv_insert_scan sv (sp\<lparr>scan_id := j\<rparr>) (se_db s) = Ret (q, db)"
    using assms(1,2) Inr by (cases "sv_insert_scan sv (sp\<lparr>scan_id := j\<rparr>) (se_db s)") (auto simp: post_scans_def Let_def j_def [symmetric])
  obtain q2 db2 where q2: "sv_add_scan_client_id sv j cid db = (q2, db2)" by fastforce
  have e: "entry i db = entry i (se_db s)" "entry i db2 = entry i db"
    using insert_keeps [OF q] client_keeps [OF q2] ne by simp_all
  have "s' = set_db db s \<or> s' = set_db db2 s"
    using assms(1,2) Inr q q2 by (auto simp: post_scans_def Let_def j_def [symmetric] split: sum.splits)
  then show ?thesis using e by (auto simp: scan_kept_def set_db_def se_db_def)
qed

lemma action_keeps:
  assumes "post_scan_action en cx now j req s = Ret (r, s')" "en_storage en = sv" "i \<noteq> j"
  shows "scan_kept entry i (se_scheduler s) (se_scheduler s')"
  using assms start_keeps [OF _ assms(3)] stop_keeps [OF _ assms(3)]
  by (auto simp: post_scan_action_def Let_def split: sum.splits scan_action.splits prod.splits)

lemma delete_scan_keeps:
  assumes "delete_scan en cx j s = Ret (r, s')" "en_storage en = sv" "i \<noteq> j"
  shows "scan_kept entry i (se_scheduler s) (se_scheduler s')"
  using assms delete_keeps [OF _ assms(3)] by (auto simp: delete_scan_def Let_def)

lemma dispatch_keeps:
  assumes "dispatch_request en cx uuid now c kp req s = Ret (r, s')" "en_storage en = sv" "path_scan_id kp \<noteq> Some i" "uuid \<noteq> i"
    and "\<And>b sp. rq_body req = Some b \<Longrightarrow> en_parse_scan en b = Inr sp \<Longrightarrow> scan_id sp \<noteq> i"
  shows "scan_kept entry i (se_scheduler s) (se_scheduler s')"
proof -
  note post = post_keeps [OF _ assms(2,4,5)]
  show ?thesis
  proof (cases "rq_method req")
    case GET
    then have "s' = s" using assms(1)
      by (auto simp: dispatch_request_def Let_def split: known_paths.splits option.splits health_opts.splits dest: reading_keeps)
    then show ?thesis by simp
  next
    case POST
    consider os where "post_notus en cx os req s = Ret (r, s')" | "post_scans en cx uuid c req s = Ret (r, s')"
      | j where "kp = Scans (Some j)" "post_scan_action en cx now j req s = Ret (r, s')" | "s' = s"
      using assms(1) POST by (auto simp: dispatch_request_def Let_def split: known_paths.splits option.splits)
    then show ?thesis
      by cases (use post action_keeps [OF _ assms(2)] assms(3) in \<open>auto simp: path_scan_id_def dest: post_notus_keeps\<close>)
  next
    case DELETE
    then show ?thesis using assms(1,3) delete_scan_keeps [OF _ assms(2)]
      by (auto simp: dispatch_request_def Let_def path_scan_id_def split: known_paths.splits option.splits)
  qed (use assms(1) in \<open>auto simp: dispatch_request_def Let_def split: if_splits\<close>)
qed

lemma call_keeps:
  assumes "entry_call en cx ci uuid now req s = Ret (r, s')" "en_storage en = sv"
    and "client_of (en_hash en) ci (cx_api_key cx) (rq_api_key req) = Some c" "sv_is_client_allowed sv i c (se_db s) = Inr False"
    and "uuid \<noteq> i" "\<And>b sp. rq_body req = Some b \<Longrightarrow> en_parse_scan en b = Inr sp \<Longrightarrow> scan_id sp \<noteq> i"
  shows "scan_kept entry i (se_scheduler s) (se_scheduler s')"
proof -
  define kp where "kp = from_path (rq_path req) (cx_mode cx)"
  consider "s' = s" | "path_scan_id kp \<noteq> Some i" "dispatch_request en cx uuid now c kp req s = Ret (r, s')"
    using assms(1-4) unfolding entry_call_def kp_def [symmetric] Let_def
    by (cases "path_scan_id kp = Some i") (auto split: if_splits option.splits sum.splits)
  then show ?thesis
  proof cases
    case 2
    then show ?thesis using dispatch_keeps [OF 2(2) assms(2) 2(1) assms(5,6)] by simp
  qed simp
qed

end

interpretation in_memory_entries: scan_entries "in_memory_service crypter js update_feed" "\<lambda>i db. map_of (im_scans db) i"
  for crypter js update_feed
proof (unfold_locales, goal_cases)
  case (1 j st db r db' i)
  then show ?case by (auto simp: in_memory_service_def in_memory_storage_def im_update_status_def AList.update_conv' split: option.splits)
next
  case (2 j db r db' i)
  then show ?case by (auto simp: in_memory_service_def in_memory_storage_def im_remove_scan_def AList.delete_conv')
next
  case (3 j db r db' i)
  then show ?case by (auto simp: in_memory_service_def in_memory_storage_def remove_scan_id_def Let_def)
next
  case (4 sp db r db' i)
  then show ?case by (auto simp: in_memory_service_def insert_scan_def AList.update_conv' split: option.splits)
next
  case (5 j c db r db' i)
  then show ?case by (auto simp: in_memory_service_def add_scan_client_id_def)
qed


text \<open>A service for examples, with a scan of the client \<open>a\<close>.\<close>

definition unit_crypter :: "unit crypter" where
  "unit_crypter = \<lparr>encrypt_sync = (\<lambda>_. ()), decrypt_sync = (\<lambda>_. []), encrypted_to_string = (\<lambda>_. []),
     encrypted_try_from = (\<lambda>_. Inr ())\<rparr>"

definition sample_environment :: "(unit inmemory, unit, nat) environment" where
  "sample_environment = \<lparr>en_hash = (\<lambda>x. x), en_parse_scan = (\<lambda>b. Inr (sample_scan_model (if b = [] then ''s2'' else ''s1''))),
     en_parse_action = (\<lambda>b. Inl (0, 0, [])), en_parse_packages = (\<lambda>b. Inl (0, 0, [])), en_text_json = as_bytes,
     en_nvt_json = (\<lambda>_. []),
     en_storage = in_memory_service unit_crypter sample_json (\<lambda>_ _ d. (Inr (), d)),
     en_scanner = \<lparr>sc_start_scan = (\<lambda>_ s. (Inr (), s)), sc_can_start_scan = (\<lambda>_ _. True), sc_stop_scan = (\<lambda>_ s. (Inr (), s)),
       sc_fetch_results = (\<lambda>_ s. (Inl Poisoned, s)), sc_do_addition = False\<rparr>,
     en_scheduler = default_scheduler_config, en_regex = no_regex, en_loader = sample_loader\<rparr>"

definition sample_context :: controller_context where
  "sample_context = \<lparr>cx_authentication = [], cx_api_key = None, cx_enable_get_scans = True, cx_mode = Service\<rparr>"

definition sample_service :: "(unit inmemory, unit, nat) service" where
  "sample_service = \<lparr>se_scheduler = new_scheduler () ((new_inmemory [])\<lparr>im_scans := [(''s1'',
       \<lparr>pr_scan = sample_scan_model ''s1'', pr_status = default_status, pr_results = [()]\<rparr>)], im_client_id := [(''a'', ''s1'')]\<rparr>),
     se_notus = None\<rparr>"

definition sample_request :: "http_method \<Rightarrow> string \<Rightarrow> 8 word list \<Rightarrow> request" where
  "sample_request method path b = \<lparr>rq_method = method, rq_path = path, rq_query = None, rq_api_key = None, rq_body = Some b\<rparr>"


text \<open>C36: Whoever posts a scan under the identifier of an existing one takes that scan over: the scan is replaced by the posted one, with
  its credentials as they are, it keeps its status and its results, and the client that posted it is allowed to
  access it and so reads the results of the other client.\<close>

theorem posted_scan_taken_over:
  fixes s :: "('e inmemory, 'sc, 'n) service"
  assumes "en_storage en = in_memory_service crypter js update_feed" "client_of (en_hash en) ci (cx_api_key cx) (rq_api_key req) = Some c"
    and "rq_method req = POST" "from_path (rq_path req) (cx_mode cx) = Scans None"
    and "rq_body req = Some b" "en_parse_scan en b = Inr sp" "scan_id sp \<noteq> []" "map_of (im_scans (se_db s)) (scan_id sp) = Some p"
  shows "\<exists>s'. entry_call en cx ci uuid now req s = Ret (Inr (created (response_of cx s) (JText (scan_id sp))), s')
    \<and> is_client_allowed (scan_id sp) c (se_db s')
    \<and> get_scan (scan_id sp) (se_db s') = Inr (sp, pr_status p)
    \<and> get_results crypter (scan_id sp) f t (se_db s') = get_results crypter (scan_id sp) f t (se_db s)"
proof -
  define db where "db = add_scan_client_id (scan_id sp) c
    ((se_db s)\<lparr>im_scans := AList.update (scan_id sp) (p\<lparr>pr_scan := sp\<rparr>) (im_scans (se_db s))\<rparr>)"
  have id: "sp\<lparr>scan_id := scan_id sp\<rparr> = sp" by simp
  have e: "pr_results (p\<lparr>pr_scan := sp\<rparr>) = pr_results p" by simp
  have "entry_call en cx ci uuid now req s = Ret (Inr (created (response_of cx s) (JText (scan_id sp))), set_db db s)"
    using assms by (simp add: entry_call_def path_scan_id_def dispatch_request_def post_scans_def json_request_def in_memory_service_def
        insert_scan_def db_def id Let_def)
  moreover have "se_db (set_db db s) = db" by (simp add: se_db_def set_db_def)
  moreover have "is_client_allowed (scan_id sp) c db"
    by (simp add: db_def is_client_allowed_def get_scans_of_client_id_def add_scan_client_id_def)
  moreover have "map_of (im_scans db) (scan_id sp) = Some (p\<lparr>pr_scan := sp\<rparr>)"
    by (simp add: db_def add_scan_client_id_def AList.update_conv')
  moreover have "decrypt_results crypter (p\<lparr>pr_scan := sp\<rparr>) f t = decrypt_results crypter p f t"
    unfolding decrypt_results_def e ..
  ultimately show ?thesis using assms(8) by (simp add: get_scan_def get_results_def)
qed

theorem posted_scan_taken_over_witness:
  "\<not> is_client_allowed ''s1'' ''b'' (se_db sample_service)
    \<and> (\<exists>s'. entry_call sample_environment sample_context (IdKnown ''b'') ''u'' 0 (sample_request POST ''/scans'' [1]) sample_service =
        Ret (Inr (created (response_of sample_context sample_service) (JText ''s1'')), s')
      \<and> is_client_allowed ''s1'' ''b'' (se_db s')
      \<and> get_results unit_crypter ''s1'' None None (se_db s') = get_results unit_crypter ''s1'' None None (se_db sample_service))"
proof -
  have no: "\<not> is_client_allowed ''s1'' ''b'' (se_db sample_service)"
    by (simp add: is_client_allowed_def get_scans_of_client_id_def se_db_def sample_service_def new_scheduler_def)
  have st: "en_storage sample_environment = in_memory_service unit_crypter sample_json (\<lambda>_ _ d. (Inr (), d))"
    by (simp add: sample_environment_def)
  have path: "from_path ''/scans'' Service = Scans None" by (simp add: from_path_def path_parts_def scans_path_def)
  have "client_of (en_hash sample_environment) (IdKnown ''b'') (cx_api_key sample_context)
      (rq_api_key (sample_request POST ''/scans'' [1])) = Some ''b''" by (simp add: client_of_def)
  note post = posted_scan_taken_over [OF st this]
  have i: "scan_id (sample_scan_model ''s1'') = ''s1''" by (simp add: sample_scan_model_def)
  have scan: "map_of (im_scans (se_db sample_service)) (scan_id (sample_scan_model ''s1'')) =
      Some \<lparr>pr_scan = sample_scan_model ''s1'', pr_status = default_status, pr_results = [()]\<rparr>"
    by (simp add: i se_db_def sample_service_def new_scheduler_def)
  have "en_parse_scan sample_environment [1] = Inr (sample_scan_model ''s1'')" by (simp add: sample_environment_def)
  from post [OF _ _ _ this _ scan, of "''u''" 0 None None] show ?thesis using no path
    by (simp add: i sample_request_def sample_context_def) blast
qed

section \<open>Ranges of results\<close>

lemma digits_no_char: "\<not> is_ascii_digit c \<Longrightarrow> c \<notin> set (show_nat n)"
  using show_nat_digits [of n] by (auto simp: list_all_iff)

lemma requested_range_numbers:
  assumes "e + 1 < 2 ^ 64" "b < 2 ^ 64"
  shows "requested_range None (Some (''range='' @ show_nat b @ ''-'' @ show_nat e)) = (Some b, Some (e + 1))"
proof -
  have "CHR ''-'' \<notin> set (show_nat b)" "CHR ''='' \<notin> set (show_nat b)" "CHR ''-'' \<notin> set (show_nat e)" "CHR ''='' \<notin> set (show_nat e)"
    by (rule digits_no_char; simp add: is_ascii_digit_def)+
  then have "split_on CHR ''='' (''range='' @ show_nat b @ ''-'' @ show_nat e) = [''range'', show_nat b @ ''-'' @ show_nat e]"
    "split_on CHR ''-'' (show_nat b @ ''-'' @ show_nat e) = [show_nat b, show_nat e]"
    using split_on_absent [of "CHR ''=''" "show_nat b @ ''-'' @ show_nat e"] split_on_sep [of "CHR ''-''" "show_nat b" "show_nat e"]
      split_on_absent [of "CHR ''-''" "show_nat e"]
    by simp_all
  moreover have "parse_u64 (show_nat b) = Some b" "parse_u64 (show_nat e) = Some e"
    using assms by (simp_all add: parse_u64_show_nat)
  ultimately show ?thesis
    using assms by (simp add: requested_range_def nth_or_empty_def next_usize_def)
qed



section \<open>Contents of responses\<close>



text \<open>A stream of values is an array of JSON: brackets around the values with commas between them.\<close>

fun commas :: "8 word list list \<Rightarrow> 8 word list" where
  "commas [] = []"
| "commas [v] = v"
| "commas (v # vs) = v @ as_bytes '','' @ commas vs"

lemma commas_Cons: "commas (v # vs) = v @ concat (map (\<lambda>w. as_bytes '','' @ w) vs)"
  by (induction vs arbitrary: v) simp_all

lemma stream_is_array: "concat (map poll_frame (stream_states vs)) = as_bytes ''['' @ commas vs @ as_bytes '']''"
proof (cases vs)
  case (Cons v rest)
  have "rev (as_bytes '','') = as_bytes '',''" by (simp add: as_bytes_def utf8_char_def)
  then have "concat (map (poll_frame \<circ> SendBytes False) rest) = concat (map (\<lambda>w. as_bytes '','' @ w) rest)"
    by (simp add: o_def)
  then show ?thesis by (simp add: Cons stream_states_def commas_Cons)
qed (simp add: stream_states_def)

section \<open>Requests without a client\<close>



end
