(* ===== verification/Nasl_Token.thy ===== *)
theory Nasl_Token
  imports Storage_Item
begin

text \<open>
  The tokenizer of NASL: src/rust/src/nasl/syntax/cursor.rs and token.rs.

  A cursor holds the characters that are left; the byte positions count the UTF-8 length of a
  character. \<open>tokenizer_next\<close> is the iterator \<open>Tokenizer\<close>.
\<close>

section \<open>The cursor\<close>

definition EOF_CHAR :: char where
  "EOF_CHAR = CHR 0x00"

abbreviation newline :: char where
  "newline \<equiv> CHR 0x0A"

record cursor =
  initial_len :: nat
  c_chars :: string
  c_line :: nat
  c_col :: nat

definition new_cursor :: "string \<Rightarrow> cursor" where
  "new_cursor input = \<lparr>initial_len = str_len input, c_chars = input, c_line = 1, c_col = 1\<rparr>"

definition peek :: "nat \<Rightarrow> cursor \<Rightarrow> char" where
  "peek n c = (if n < length (c_chars c) then c_chars c ! n else EOF_CHAR)"

definition advance :: "cursor \<Rightarrow> char option \<times> cursor" where
  "advance c =
    (case c_chars c of
       [] \<Rightarrow> (None, c)
     | x # xs \<Rightarrow>
         if x = newline then (Some x, c\<lparr>c_chars := xs, c_line := c_line c + 1, c_col := 1\<rparr>)
         else (Some x, c\<lparr>c_chars := xs, c_col := c_col c + 1\<rparr>))"

definition is_eof :: "cursor \<Rightarrow> bool" where
  "is_eof c \<longleftrightarrow> c_chars c = []"

lemma advance_length: "\<not> is_eof c \<Longrightarrow> length (c_chars (snd (advance c))) < length (c_chars c)"
  by (cases "c_chars c") (auto simp: advance_def is_eof_def)

function skip_while :: "(char \<Rightarrow> bool) \<Rightarrow> cursor \<Rightarrow> cursor" where
  "skip_while p c = (if p (peek 0 c) \<and> \<not> is_eof c then skip_while p (snd (advance c)) else c)"
  by pat_completeness auto

termination
  by (relation "measure (\<lambda>(_, c). length (c_chars c))") (simp_all add: advance_length)

declare skip_while.simps [simp del]

definition len_consumed :: "cursor \<Rightarrow> nat" where
  "len_consumed c = initial_len c - str_len (c_chars c)"

definition line_column :: "cursor \<Rightarrow> nat \<times> nat" where
  "line_column c = (c_line c, c_col c)"

section \<open>Tokens\<close>

datatype base = Binary | Octal | Base10 | Hex

fun verifier :: "base \<Rightarrow> char \<Rightarrow> bool" where
  "verifier Binary c \<longleftrightarrow> c = CHR ''0'' \<or> c = CHR ''1''"
| "verifier Octal c \<longleftrightarrow> (let n = of_char c in 48 \<le> (n::nat) \<and> n \<le> 55)"
| "verifier Base10 c \<longleftrightarrow> is_ascii_digit c"
| "verifier Hex c \<longleftrightarrow> is_ascii_hexdigit c"

fun radix :: "base \<Rightarrow> nat" where
  "radix Binary = 2"
| "radix Octal = 8"
| "radix Base10 = 10"
| "radix Hex = 16"

datatype unclosed_category = UnclosedString | UnclosedData

datatype identifier_type =
    FunctionKw | FCTAnonArgs | TrueKw | FalseKw | ForKw | ForEachKw | IfKw | ElseKw | WhileKw | RepeatKw | UntilKw
  | LocalVarKw | GlobalVarKw | NullKw | ReturnKw | ContinueKw | BreakKw | IncludeKw | ACT act | ExitKw
  | Undefined string

text \<open>The arguments of \<open>make_keyword_matcher\<close>.\<close>

definition keyword_table :: "(string \<times> identifier_type) list" where
  "keyword_table = [
    (''function'', FunctionKw), (''_FCT_ANON_ARGS'', FCTAnonArgs), (''TRUE'', TrueKw), (''FALSE'', FalseKw),
    (''for'', ForKw), (''foreach'', ForEachKw), (''if'', IfKw), (''else'', ElseKw), (''while'', WhileKw),
    (''repeat'', RepeatKw), (''until'', UntilKw), (''local_var'', LocalVarKw), (''global_var'', GlobalVarKw),
    (''NULL'', NullKw), (''return'', ReturnKw), (''include'', IncludeKw), (''exit'', ExitKw),
    (''ACT_ATTACK'', ACT Attack), (''ACT_DENIAL'', ACT Denial), (''ACT_DESTRUCTIVE_ATTACK'', ACT DestructiveAttack),
    (''ACT_END'', ACT End), (''ACT_FLOOD'', ACT Flood), (''ACT_GATHER_INFO'', ACT GatherInfo),
    (''ACT_INIT'', ACT Init), (''ACT_KILL_HOST'', ACT KillHost), (''ACT_MIXED_ATTACK'', ACT MixedAttack),
    (''ACT_SCANNER'', ACT Scanner), (''ACT_SETTINGS'', ACT Settings), (''continue'', ContinueKw), (''break'', BreakKw)]"

definition identifier_new :: "string \<Rightarrow> identifier_type" where
  "identifier_new keyword = (case map_of keyword_table keyword of Some k \<Rightarrow> k | None \<Rightarrow> Undefined keyword)"

definition identifier_display :: "identifier_type \<Rightarrow> string" where
  "identifier_display k =
    (case find (\<lambda>(_, define). define = k) keyword_table of
       Some (text, _) \<Rightarrow> text
     | None \<Rightarrow> (case k of Undefined r \<Rightarrow> r | _ \<Rightarrow> []))"

definition identifier_len :: "identifier_type \<Rightarrow> nat" where
  "identifier_len k =
    (case find (\<lambda>(_, define). define = k) keyword_table of
       Some (text, _) \<Rightarrow> str_len text
     | None \<Rightarrow> (case k of Undefined r \<Rightarrow> str_len r | _ \<Rightarrow> 0))"

datatype category =
    LeftParen | RightParen | LeftBrace | RightBrace | LeftCurlyBracket | RightCurlyBracket | Comma | Dot
  | Percent | PercentEqual | Semicolon | DoublePoint | Tilde | Caret | Ampersand | AmpersandAmpersand | Pipe | PipePipe
  | Bang | BangEqual | BangTilde | Equal | EqualEqual | EqualTilde | Greater | GreaterGreater | GreaterEqual | GreaterLess
  | Less | LessLess | LessEqual | Minus | MinusMinus | MinusEqual | Plus | PlusEqual | PlusPlus | Slash | SlashEqual
  | Star | StarStar | StarEqual | GreaterGreaterGreater | GreaterGreaterEqual | LessLessEqual | GreaterBangLess
  | GreaterGreaterGreaterEqual | TokX | StringLit string | DataLit "8 word list" | NumberLit int | IPv4Address string
  | IllegalIPv4Address | IllegalNumber base | Comment | Identifier identifier_type | Unclosed unclosed_category
  | UnknownBase | UnknownSymbol

definition show_int :: "int \<Rightarrow> string" where
  "show_int n = (if n < 0 then CHR ''-'' # show_nat (nat (- n)) else show_nat (nat n))"

text \<open>The debug text of a byte vector.\<close>

fun show_bytes :: "8 word list \<Rightarrow> string" where
  "show_bytes [] = []"
| "show_bytes [b] = show_nat (unat b)"
| "show_bytes (b # bs) = show_nat (unat b) @ '', '' @ show_bytes bs"

fun category_display :: "category \<Rightarrow> string" where
  "category_display LeftParen = ''(''"
| "category_display RightParen = '')''"
| "category_display LeftBrace = ''[''"
| "category_display RightBrace = '']''"
| "category_display LeftCurlyBracket = ''{''"
| "category_display RightCurlyBracket = ''}''"
| "category_display Comma = '',''"
| "category_display Dot = ''.''"
| "category_display Percent = ''%''"
| "category_display PercentEqual = ''%=''"
| "category_display Semicolon = '';''"
| "category_display DoublePoint = '':''"
| "category_display Tilde = ''~''"
| "category_display Caret = ''^''"
| "category_display Ampersand = ''&''"
| "category_display AmpersandAmpersand = ''&&''"
| "category_display Pipe = ''|''"
| "category_display PipePipe = ''||''"
| "category_display Bang = ''!''"
| "category_display BangEqual = ''!=''"
| "category_display BangTilde = ''!~''"
| "category_display Equal = ''=''"
| "category_display EqualEqual = ''==''"
| "category_display EqualTilde = ''=~''"
| "category_display Greater = ''>''"
| "category_display GreaterGreater = ''>>''"
| "category_display GreaterEqual = ''>=''"
| "category_display GreaterLess = ''><''"
| "category_display Less = ''<''"
| "category_display LessLess = ''<<''"
| "category_display LessEqual = ''<=''"
| "category_display Minus = ''-''"
| "category_display MinusMinus = ''--''"
| "category_display MinusEqual = ''-=''"
| "category_display Plus = ''+''"
| "category_display PlusEqual = ''+=''"
| "category_display PlusPlus = ''++''"
| "category_display Slash = ''/''"
| "category_display SlashEqual = ''/=''"
| "category_display Star = ''*''"
| "category_display StarStar = ''**''"
| "category_display StarEqual = ''*=''"
| "category_display GreaterGreaterGreater = ''>>>''"
| "category_display GreaterGreaterEqual = ''>>=''"
| "category_display LessLessEqual = ''<<=''"
| "category_display GreaterBangLess = ''>!<''"
| "category_display GreaterGreaterGreaterEqual = ''>>>=''"
| "category_display TokX = ''X''"
| "category_display (StringLit x) = CHR 0x22 # x @ [CHR 0x22]"
| "category_display (NumberLit x) = show_int x"
| "category_display (IPv4Address x) = x"
| "category_display IllegalIPv4Address = ''IllegalIPv4Address''"
| "category_display (IllegalNumber _) = ''IllegalNumber''"
| "category_display Comment = ''Comment''"
| "category_display (Identifier x) = identifier_display x"
| "category_display (Unclosed UnclosedString) = ''UnclosedString''"
| "category_display (Unclosed UnclosedData) = ''UnclosedData''"
| "category_display UnknownBase = ''UnknownBase''"
| "category_display UnknownSymbol = ''UnknownSymbol''"
| "category_display (DataLit x) = ''['' @ show_bytes x @ '']''"

record token =
  tk_category :: category
  tk_line_column :: "nat \<times> nat"
  tk_position :: "nat \<times> nat"

definition unexpected_none :: token where
  "unexpected_none = \<lparr>tk_category = UnknownSymbol, tk_line_column = (0, 0), tk_position = (0, 0)\<rparr>"

definition token_display :: "token \<Rightarrow> string" where
  "token_display t = show_nat (fst (tk_line_column t)) @ '':'' @ show_nat (snd (tk_line_column t)) @ '' '' @ category_display (tk_category t)"

definition is_faulty :: "token \<Rightarrow> bool" where
  "is_faulty t \<longleftrightarrow>
    (case tk_category t of
       IllegalIPv4Address \<Rightarrow> True | IllegalNumber _ \<Rightarrow> True | Unclosed _ \<Rightarrow> True | UnknownBase \<Rightarrow> True
     | UnknownSymbol \<Rightarrow> True | _ \<Rightarrow> False)"

section \<open>The tokenizer\<close>

record tokenizer =
  t_code :: string
  t_cursor :: cursor

definition new_tokenizer :: "string \<Rightarrow> tokenizer" where
  "new_tokenizer code = \<lparr>t_code = code, t_cursor = new_cursor code\<rparr>"

text \<open>Slices of a string by byte positions.\<close>

fun byte_drop :: "nat \<Rightarrow> string \<Rightarrow> string" where
  "byte_drop n [] = []"
| "byte_drop n (c # cs) = (if n = 0 then c # cs else byte_drop (n - utf8_len c) cs)"

fun byte_take :: "nat \<Rightarrow> string \<Rightarrow> string" where
  "byte_take n [] = []"
| "byte_take n (c # cs) = (if n = 0 then [] else c # byte_take (n - utf8_len c) cs)"

definition lookup_range :: "tokenizer \<Rightarrow> nat \<Rightarrow> nat \<Rightarrow> string" where
  "lookup_range t start stop = byte_take (stop - start) (byte_drop start (t_code t))"

definition bump :: "cursor \<Rightarrow> cursor" where
  "bump c = snd (advance c)"

definition tokenize_greater :: "cursor \<Rightarrow> category \<times> cursor" where
  "tokenize_greater c =
    (if peek 0 c = CHR ''='' then (GreaterEqual, bump c)
     else if peek 0 c = CHR ''<'' then (GreaterLess, bump c)
     else if peek 0 c = CHR ''>'' then
       let c = bump c in
       (if peek 0 c = CHR ''>'' then
          let c = bump c in
          (if peek 0 c = CHR ''='' then (GreaterGreaterGreaterEqual, bump c) else (GreaterGreaterGreater, c))
        else if peek 0 c = CHR ''='' then (GreaterGreaterEqual, bump c)
        else (GreaterGreater, c))
     else if peek 0 c = CHR ''!'' \<and> peek 1 c = CHR ''<'' then (GreaterBangLess, bump (bump c))
     else (Greater, c))"

definition tokenize_less :: "cursor \<Rightarrow> category \<times> cursor" where
  "tokenize_less c =
    (if peek 0 c = CHR ''='' then (LessEqual, bump c)
     else if peek 0 c = CHR ''<'' then
       let c = bump c in
       (if peek 0 c = CHR ''='' then (LessLessEqual, bump c) else (LessLess, c))
     else (Less, c))"

definition tokenize_string :: "tokenizer \<Rightarrow> cursor \<Rightarrow> category \<times> cursor" where
  "tokenize_string t c =
    (let start = len_consumed c;
         c = skip_while (\<lambda>x. x \<noteq> CHR 0x22) c
     in if is_eof c then (Unclosed UnclosedString, c)
        else (StringLit (lookup_range t start (len_consumed c)), bump c))"

text \<open>The predicate of \<open>tokenize_data\<close> remembers whether it has seen an open back slash.\<close>

function skip_data :: "bool \<Rightarrow> cursor \<Rightarrow> cursor" where
  "skip_data back_slash c =
    (if \<not> back_slash \<and> peek 0 c = CHR 0x27 then c
     else if is_eof c then c
     else skip_data (\<not> back_slash \<and> peek 0 c = CHR 0x5C) (snd (advance c)))"
  by pat_completeness auto

termination
  by (relation "measure (\<lambda>(_, c). length (c_chars c))") (simp_all add: advance_length)

declare skip_data.simps [simp del]

text \<open>\<open>str::replace\<close> with a pattern that is not empty.\<close>

fun str_replace :: "string \<Rightarrow> string \<Rightarrow> string \<Rightarrow> string" where
  "str_replace p r [] = []"
| "str_replace p r (c # cs) =
    (if take (length p) (c # cs) = p then r @ str_replace p r (drop (length p - 1) cs)
     else c # str_replace p r cs)"

definition unescape :: "string \<Rightarrow> string" where
  "unescape raw =
    (let raw = str_replace [CHR 0x5C, CHR 0x22] [CHR 0x22] raw;
         raw = str_replace [CHR 0x5C, CHR ''n''] [newline] raw;
         raw = str_replace [CHR 0x5C, CHR 0x5C] [CHR 0x5C] raw;
         raw = str_replace [CHR 0x5C, CHR 0x27] [CHR 0x27] raw;
         raw = str_replace [CHR 0x5C, CHR ''r''] [CHR 0x0D] raw
     in str_replace [CHR 0x5C, CHR ''t''] [CHR 0x09] raw)"

definition tokenize_data :: "tokenizer \<Rightarrow> cursor \<Rightarrow> category \<times> cursor" where
  "tokenize_data t c =
    (let start = len_consumed c;
         c = skip_data False c
     in if is_eof c then (Unclosed UnclosedData, c)
        else (DataLit (as_bytes (unescape (lookup_range t start (len_consumed c)))), bump c))"

definition may_parse_ipv4 :: "tokenizer \<Rightarrow> base \<Rightarrow> nat \<Rightarrow> cursor \<Rightarrow> category option \<times> cursor" where
  "may_parse_ipv4 t b start c =
    (if b = Base10 \<and> peek 0 c = CHR ''.'' \<and> is_numeric (peek 1 c) then
       let c = skip_while (verifier b) (bump c) in
       if peek 0 c = CHR ''.'' then
         if is_numeric (peek 1 c) then
           let c = skip_while (verifier b) (bump c) in
           if peek 0 c = CHR ''.'' \<and> is_numeric (peek 1 c) then
             let c = skip_while (verifier b) (bump c) in
             (Some (IPv4Address (lookup_range t start (len_consumed c))), c)
           else (Some IllegalIPv4Address, c)
         else (Some IllegalIPv4Address, c)
       else (Some IllegalIPv4Address, c)
     else (None, c))"

text \<open>\<open>i64::from_str_radix\<close> on text without a sign.\<close>

definition hex_digit_val :: "char \<Rightarrow> nat" where
  "hex_digit_val c = (let n = of_char c in if n \<le> 57 then n - 48 else if n \<le> 70 then n - 55 else n - 87)"

definition radix_val :: "nat \<Rightarrow> string \<Rightarrow> nat" where
  "radix_val r s = foldl (\<lambda>acc c. acc * r + hex_digit_val c) 0 s"

definition from_str_radix :: "string \<Rightarrow> nat \<Rightarrow> int option" where
  "from_str_radix s r =
    (if s = [] \<or> \<not> list_all (\<lambda>c. is_ascii_hexdigit c \<and> hex_digit_val c < r) s then None
     else if radix_val r s < 2 ^ 63 then Some (int (radix_val r s)) else None)"

definition number_base :: "nat \<Rightarrow> char \<Rightarrow> cursor \<Rightarrow> base option \<times> nat \<times> cursor" where
  "number_base start current c =
    (if current = CHR ''0'' then
       if peek 0 c = CHR ''b'' then (Some Binary, start + 2, bump c)
       else if peek 0 c = CHR ''x'' then (Some Hex, start + 2, bump c)
       else if verifier Octal (peek 0 c) then (Some Octal, start + 1, c)
       else if is_alphabetic (peek 0 c) then (None, start, c)
       else (Some Base10, start, c)
     else (Some Base10, start, c))"

definition tokenize_number :: "tokenizer \<Rightarrow> nat \<Rightarrow> char \<Rightarrow> cursor \<Rightarrow> category \<times> cursor" where
  "tokenize_number t start current c =
    (case number_base start current c of
       (None, _, c) \<Rightarrow> (UnknownBase, c)
     | (Some b, start, c) \<Rightarrow>
         (case may_parse_ipv4 t b start (skip_while (verifier b) c) of
            (Some cat, c) \<Rightarrow> (cat, c)
          | (None, c) \<Rightarrow>
              if start = len_consumed c then (IllegalNumber b, c)
              else case from_str_radix (lookup_range t start (len_consumed c)) (radix b) of
                Some num \<Rightarrow> (NumberLit num, c)
              | None \<Rightarrow> (IllegalNumber b, c)))"

definition identifier_char :: "char \<Rightarrow> bool" where
  "identifier_char c \<longleftrightarrow> is_alphabetic c \<or> c = CHR ''_'' \<or> is_numeric c"

definition tokenize_identifier :: "tokenizer \<Rightarrow> nat \<Rightarrow> cursor \<Rightarrow> category \<times> cursor" where
  "tokenize_identifier t start c =
    (let c = skip_while identifier_char c;
         name = lookup_range t start (len_consumed c)
     in if name \<noteq> ''x'' then (Identifier (identifier_new name), c)
        else let c = skip_while is_whitespace c in
          if is_numeric (peek 0 c) then (TokX, c) else (Identifier (Undefined name), c))"

text \<open>The macro \<open>two_symbol_token\<close>.\<close>

definition two_symbol_token :: "category \<Rightarrow> (char \<times> category) list \<Rightarrow> cursor \<Rightarrow> category \<times> cursor" where
  "two_symbol_token single pairs c =
    (case map_of pairs (peek 0 c) of Some cat \<Rightarrow> (cat, bump c) | None \<Rightarrow> (single, c))"

definition tokenize_char :: "tokenizer \<Rightarrow> nat \<Rightarrow> char \<Rightarrow> cursor \<Rightarrow> category \<times> cursor" where
  "tokenize_char t start x c =
    (if x = CHR ''('' then (LeftParen, c)
     else if x = CHR '')'' then (RightParen, c)
     else if x = CHR ''['' then (LeftBrace, c)
     else if x = CHR '']'' then (RightBrace, c)
     else if x = CHR ''{'' then (LeftCurlyBracket, c)
     else if x = CHR ''}'' then (RightCurlyBracket, c)
     else if x = CHR '','' then (Comma, c)
     else if x = CHR ''.'' then (Dot, c)
     else if x = CHR ''#'' then (Comment, skip_while (\<lambda>x. x \<noteq> newline) c)
     else if x = CHR ''-'' then two_symbol_token Minus [(CHR ''-'', MinusMinus), (CHR ''='', MinusEqual)] c
     else if x = CHR ''+'' then two_symbol_token Plus [(CHR ''+'', PlusPlus), (CHR ''='', PlusEqual)] c
     else if x = CHR ''%'' then two_symbol_token Percent [(CHR ''='', PercentEqual)] c
     else if x = CHR '';'' then (Semicolon, c)
     else if x = CHR ''/'' then two_symbol_token Slash [(CHR ''='', SlashEqual)] c
     else if x = CHR ''*'' then two_symbol_token Star [(CHR ''*'', StarStar), (CHR ''='', StarEqual)] c
     else if x = CHR '':'' then (DoublePoint, c)
     else if x = CHR ''~'' then (Tilde, c)
     else if x = CHR ''&'' then two_symbol_token Ampersand [(CHR ''&'', AmpersandAmpersand)] c
     else if x = CHR ''|'' then two_symbol_token Pipe [(CHR ''|'', PipePipe)] c
     else if x = CHR ''^'' then (Caret, c)
     else if x = CHR ''!'' then two_symbol_token Bang [(CHR ''='', BangEqual), (CHR ''~'', BangTilde)] c
     else if x = CHR ''='' then two_symbol_token Equal [(CHR ''='', EqualEqual), (CHR ''~'', EqualTilde)] c
     else if x = CHR ''>'' then tokenize_greater c
     else if x = CHR ''<'' then tokenize_less c
     else if x = CHR 0x22 then tokenize_string t c
     else if x = CHR 0x27 then tokenize_data t c
     else if is_ascii_digit x then tokenize_number t start x c
     else if is_alphabetic x \<or> x = CHR ''_'' then tokenize_identifier t start c
     else (UnknownSymbol, c))"

definition tokenizer_next :: "tokenizer \<Rightarrow> token option \<times> tokenizer" where
  "tokenizer_next t =
    (let c = skip_while is_whitespace (t_cursor t);
         start = len_consumed c;
         position = line_column c
     in case advance c of
       (None, c) \<Rightarrow> (None, t\<lparr>t_cursor := c\<rparr>)
     | (Some x, c) \<Rightarrow>
         (case tokenize_char t start x c of
            (category, c) \<Rightarrow>
              (Some \<lparr>tk_category = category, tk_line_column = position, tk_position = (start, len_consumed c)\<rparr>,
               t\<lparr>t_cursor := c\<rparr>)))"

end
