(* ===== verification/Nasl_Statement.thy ===== *)
theory Nasl_Statement
  imports Nasl_Token
begin

text \<open>
  The statements of NASL: src/rust/src/nasl/syntax/statement.rs, operation.rs and the error kinds of
  error.rs. A syntax error carries its kind; the line and the file of the rust source that created it
  are left out.
\<close>

datatype assign_order = AssignReturn | ReturnAssign

datatype statement = Statement (st_start: token) (st_end_token: "token option") (st_kind: statement_kind)
and statement_kind =
    Primitive
  | AttackCategory
  | Variable
  | Array "statement option"
  | Call statement
  | Exit statement
  | Return statement
  | Break
  | Continue
  | Include statement
  | Declare "statement list"
  | Parameter "statement list"
  | NamedParameter statement
  | Assign category assign_order statement statement
  | Operator category "statement list"
  | IfStmt statement statement "token option" "statement option"
  | For statement statement statement statement
  | While statement statement
  | Repeat statement statement
  | ForEach token statement statement
  | Block "statement list"
  | FunctionDeclaration token statement statement
  | NoOp
  | EoF

definition st_end :: "statement \<Rightarrow> token" where
  "st_end s = (case st_end_token s of Some t \<Rightarrow> t | None \<Rightarrow> st_start s)"

definition with_start_token :: "token \<Rightarrow> statement_kind \<Rightarrow> statement" where
  "with_start_token t k = Statement t None k"

definition with_start_end_token :: "token \<Rightarrow> token \<Rightarrow> statement_kind \<Rightarrow> statement" where
  "with_start_end_token t e k = Statement t (Some e) k"

text \<open>\<open>Token::default\<close> is the token of \<open>unexpected_none\<close>.\<close>

definition without_token :: "statement_kind \<Rightarrow> statement" where
  "without_token k = Statement unexpected_none None k"

definition set_end :: "token \<Rightarrow> statement \<Rightarrow> statement" where
  "set_end t s = Statement (st_start s) (Some t) (st_kind s)"

fun as_tokens :: "statement \<Rightarrow> token list" where
  "as_tokens (Statement t e k) =
    t # (case k of
       Primitive \<Rightarrow> [] | AttackCategory \<Rightarrow> [] | Variable \<Rightarrow> [] | NoOp \<Rightarrow> [] | Break \<Rightarrow> [] | Continue \<Rightarrow> [] | EoF \<Rightarrow> []
     | Array None \<Rightarrow> []
     | NamedParameter x \<Rightarrow> as_tokens x
     | Exit x \<Rightarrow> as_tokens x
     | Return x \<Rightarrow> as_tokens x
     | Include x \<Rightarrow> as_tokens x
     | Call x \<Rightarrow> as_tokens x
     | Array (Some x) \<Rightarrow> as_tokens x
     | Block xs \<Rightarrow> concat (map as_tokens xs)
     | Operator _ xs \<Rightarrow> concat (map as_tokens xs)
     | Parameter xs \<Rightarrow> concat (map as_tokens xs)
     | Declare xs \<Rightarrow> concat (map as_tokens xs)
     | While x y \<Rightarrow> as_tokens x @ as_tokens y
     | Repeat x y \<Rightarrow> as_tokens x @ as_tokens y
     | Assign _ _ x y \<Rightarrow> as_tokens x @ as_tokens y
     | IfStmt r x y None \<Rightarrow> as_tokens r @ as_tokens x @ (case y of Some y \<Rightarrow> [y] | None \<Rightarrow> [])
     | IfStmt r x y (Some z) \<Rightarrow> as_tokens r @ as_tokens x @ (case y of Some y \<Rightarrow> [y] | None \<Rightarrow> []) @ as_tokens z
     | For r x y z \<Rightarrow> as_tokens r @ as_tokens x @ as_tokens y @ as_tokens z
     | ForEach x y z \<Rightarrow> x # as_tokens y @ as_tokens z
     | FunctionDeclaration x y w \<Rightarrow> x # as_tokens y @ as_tokens w)
    @ (case e of Some e \<Rightarrow> [e] | None \<Rightarrow> [])"

fun children :: "statement \<Rightarrow> statement list" where
  "children (Statement _ _ k) =
    (case k of
       Call x \<Rightarrow> children x
     | FunctionDeclaration _ x _ \<Rightarrow> children x
     | Block xs \<Rightarrow> xs
     | Operator _ xs \<Rightarrow> xs
     | Parameter xs \<Rightarrow> xs
     | Declare xs \<Rightarrow> xs
     | _ \<Rightarrow> [])"

definition st_position :: "statement \<Rightarrow> nat \<times> nat" where
  "st_position s =
    (fst (tk_position (st_start s)),
     case st_end_token s of Some t \<Rightarrow> snd (tk_position t) | None \<Rightarrow> snd (tk_position (st_start s)))"

fun find_statements :: "(statement \<Rightarrow> bool) \<Rightarrow> statement \<Rightarrow> statement list" where
  "find_statements wanted (Statement t e k) =
    (if wanted (Statement t e k) then [Statement t e k]
     else case k of
       Primitive \<Rightarrow> [] | AttackCategory \<Rightarrow> [] | Variable \<Rightarrow> [] | NoOp \<Rightarrow> [] | Break \<Rightarrow> [] | Continue \<Rightarrow> [] | EoF \<Rightarrow> []
     | Array None \<Rightarrow> []
     | NamedParameter x \<Rightarrow> find_statements wanted x
     | Exit x \<Rightarrow> find_statements wanted x
     | Return x \<Rightarrow> find_statements wanted x
     | Include x \<Rightarrow> find_statements wanted x
     | Call x \<Rightarrow> find_statements wanted x
     | Array (Some x) \<Rightarrow> find_statements wanted x
     | Block xs \<Rightarrow> concat (map (find_statements wanted) xs)
     | Operator _ xs \<Rightarrow> concat (map (find_statements wanted) xs)
     | Parameter xs \<Rightarrow> concat (map (find_statements wanted) xs)
     | Declare xs \<Rightarrow> concat (map (find_statements wanted) xs)
     | While x y \<Rightarrow> find_statements wanted x @ find_statements wanted y
     | Repeat x y \<Rightarrow> find_statements wanted x @ find_statements wanted y
     | Assign _ _ x y \<Rightarrow> find_statements wanted x @ find_statements wanted y
     | IfStmt r x _ None \<Rightarrow> find_statements wanted r @ find_statements wanted x
     | IfStmt r x _ (Some z) \<Rightarrow> find_statements wanted r @ find_statements wanted x @ find_statements wanted z
     | For r x y z \<Rightarrow> find_statements wanted r @ find_statements wanted x @ find_statements wanted y @ find_statements wanted z
     | ForEach _ y z \<Rightarrow> find_statements wanted y @ find_statements wanted z
     | FunctionDeclaration _ y w \<Rightarrow> find_statements wanted y @ find_statements wanted w)"

definition is_returnable :: "statement_kind \<Rightarrow> bool" where
  "is_returnable k \<longleftrightarrow>
    (case k of
       Primitive \<Rightarrow> True | Variable \<Rightarrow> True | Call _ \<Rightarrow> True | Return _ \<Rightarrow> True | Assign _ _ _ _ \<Rightarrow> True
     | Array _ \<Rightarrow> True | Operator _ _ \<Rightarrow> True | _ \<Rightarrow> False)"

section \<open>Errors\<close>

datatype error_kind =
    UnexpectedToken token
  | UnclosedToken token
  | UnexpectedStatement statement
  | MissingSemicolon statement
  | UnclosedStatement statement
  | MaxRecursionDepth nat
  | UnexpectedEoF
  | IOError string

text \<open>The macro \<open>unexpected_statement\<close> creates a \<open>MissingSemicolon\<close>.\<close>

definition unexpected_statement :: "statement \<Rightarrow> error_kind" where
  "unexpected_statement s = MissingSemicolon s"

fun error_as_token :: "error_kind \<Rightarrow> token option" where
  "error_as_token (UnexpectedToken t) = Some t"
| "error_as_token (UnclosedToken t) = Some t"
| "error_as_token (UnexpectedStatement s) = Some (st_start s)"
| "error_as_token (MissingSemicolon s) = Some (st_start s)"
| "error_as_token (UnclosedStatement s) = Some (st_start s)"
| "error_as_token UnexpectedEoF = None"
| "error_as_token (IOError _) = None"
| "error_as_token (MaxRecursionDepth _) = None"

definition as_returnable_or_err :: "statement \<Rightarrow> error_kind + statement" where
  "as_returnable_or_err s = (if is_returnable (st_kind s) then Inr s else Inl (unexpected_statement s))"

section \<open>Operations\<close>

datatype operation =
    OperatorOp category
  | AssignOp category
  | GroupingOp category
  | VariableOp
  | PrimitiveOp
  | KeywordOp identifier_type
  | NoOperation

definition operator_categories :: "category list" where
  "operator_categories = [Plus, Star, Slash, Minus, Percent, LessLess, GreaterGreater, GreaterGreaterGreater, Tilde,
     Ampersand, Pipe, Caret, Bang, EqualTilde, BangTilde, GreaterLess, GreaterBangLess, AmpersandAmpersand, PipePipe,
     EqualEqual, BangEqual, Greater, Less, GreaterEqual, LessEqual, TokX, StarStar]"

definition assign_categories :: "category list" where
  "assign_categories = [Equal, MinusEqual, PlusEqual, SlashEqual, StarEqual, GreaterGreaterEqual, LessLessEqual,
     GreaterGreaterGreaterEqual, PlusPlus, Semicolon, DoublePoint, PercentEqual, MinusMinus]"

definition operation_new :: "token \<Rightarrow> operation option" where
  "operation_new t =
    (let c = tk_category t in
     if c \<in> set operator_categories then Some (OperatorOp c)
     else if c \<in> set assign_categories then Some (AssignOp c)
     else if c \<in> set [LeftParen, LeftBrace, LeftCurlyBracket, Comma] then Some (GroupingOp c)
     else case c of
       StringLit _ \<Rightarrow> Some PrimitiveOp
     | DataLit _ \<Rightarrow> Some PrimitiveOp
     | NumberLit _ \<Rightarrow> Some PrimitiveOp
     | IPv4Address _ \<Rightarrow> Some PrimitiveOp
     | Identifier (Undefined _) \<Rightarrow> Some VariableOp
     | Identifier keyword \<Rightarrow> Some (KeywordOp keyword)
     | Comment \<Rightarrow> Some NoOperation
     | _ \<Rightarrow> None)"

text \<open>The left and the right binding power of an operation.\<close>

definition infix_binding_power :: "operation \<Rightarrow> (nat \<times> nat) option" where
  "infix_binding_power op =
    (case op of
       OperatorOp c \<Rightarrow>
         if c = StarStar then Some (22, 23)
         else if c \<in> set [Star, Slash, Percent] then Some (20, 21)
         else if c \<in> set [Plus, Minus] then Some (18, 19)
         else if c \<in> set [LessLess, GreaterGreater, GreaterGreaterGreater] then Some (16, 17)
         else if c = Ampersand then Some (14, 15)
         else if c = Caret then Some (12, 13)
         else if c = Pipe then Some (10, 11)
         else if c \<in> set [Less, LessEqual, Greater, GreaterEqual, EqualEqual, BangEqual, GreaterLess, GreaterBangLess,
             EqualTilde, BangTilde] then Some (8, 9)
         else if c = AmpersandAmpersand then Some (6, 7)
         else if c = PipePipe then Some (4, 5)
         else if c = TokX then Some (2, 3)
         else None
     | AssignOp _ \<Rightarrow> Some (2, 3)
     | _ \<Rightarrow> None)"

definition prefix_binding_power :: "token \<Rightarrow> error_kind + nat" where
  "prefix_binding_power t =
    (if tk_category t \<in> set [Plus, Minus, Tilde, Bang] then Inr 21 else Inl (UnexpectedToken t))"

end
