(* ===== verification/Nasl_Value.thy ===== *)
theory Nasl_Value
  imports Nasl_Statement "HOL-Library.Signed_Division"
begin

text \<open>
  The values of NASL and their conversions: src/rust/src/nasl/syntax/naslvalue.rs.

  A number is a 64 bit word that is read with its sign, so the arithmetic wraps around as it does in
  a release build. A dictionary is the list of its entries in the order in which the hash map of the
  code iterates over them; equality is the one of hash maps and does not depend on this order. The
  bytes of a number are in little endian order, the native one of the platforms that are supported.
\<close>

unbundle bit_operations_syntax

section \<open>Model\<close>

type_synonym i64 = "64 word"

datatype nasl_value =
    NString string
  | NData "8 word list"
  | NNumber i64
  | NArray "nasl_value list"
  | NDict "(string \<times> nasl_value) list"
  | NBoolean bool
  | NAttackCategory act
  | NNull
  | NReturn nasl_value
  | NFork "nasl_value list"
  | NContinue
  | NBreak
  | NExit i64

text \<open>The derived equality.\<close>

fun nasl_eq :: "nasl_value \<Rightarrow> nasl_value \<Rightarrow> bool"
and nasl_list_eq :: "nasl_value list \<Rightarrow> nasl_value list \<Rightarrow> bool"
and nasl_entries_eq :: "(string \<times> nasl_value) list \<Rightarrow> (string \<times> nasl_value) list \<Rightarrow> bool" where
  "nasl_eq (NString x) w = (case w of NString y \<Rightarrow> x = y | _ \<Rightarrow> False)"
| "nasl_eq (NData x) w = (case w of NData y \<Rightarrow> x = y | _ \<Rightarrow> False)"
| "nasl_eq (NNumber x) w = (case w of NNumber y \<Rightarrow> x = y | _ \<Rightarrow> False)"
| "nasl_eq (NArray x) w = (case w of NArray y \<Rightarrow> nasl_list_eq x y | _ \<Rightarrow> False)"
| "nasl_eq (NDict x) w = (case w of NDict y \<Rightarrow> length x = length y \<and> nasl_entries_eq x y | _ \<Rightarrow> False)"
| "nasl_eq (NBoolean x) w = (case w of NBoolean y \<Rightarrow> x = y | _ \<Rightarrow> False)"
| "nasl_eq (NAttackCategory x) w = (case w of NAttackCategory y \<Rightarrow> x = y | _ \<Rightarrow> False)"
| "nasl_eq NNull w = (case w of NNull \<Rightarrow> True | _ \<Rightarrow> False)"
| "nasl_eq (NReturn x) w = (case w of NReturn y \<Rightarrow> nasl_eq x y | _ \<Rightarrow> False)"
| "nasl_eq (NFork x) w = (case w of NFork y \<Rightarrow> nasl_list_eq x y | _ \<Rightarrow> False)"
| "nasl_eq NContinue w = (case w of NContinue \<Rightarrow> True | _ \<Rightarrow> False)"
| "nasl_eq NBreak w = (case w of NBreak \<Rightarrow> True | _ \<Rightarrow> False)"
| "nasl_eq (NExit x) w = (case w of NExit y \<Rightarrow> x = y | _ \<Rightarrow> False)"
| "nasl_list_eq [] ys = (ys = [])"
| "nasl_list_eq (x # xs) ys = (case ys of [] \<Rightarrow> False | y # ys \<Rightarrow> nasl_eq x y \<and> nasl_list_eq xs ys)"
| "nasl_entries_eq [] m = True"
| "nasl_entries_eq (e # xs) m =
    ((case map_of m (fst e) of None \<Rightarrow> False | Some w \<Rightarrow> nasl_eq (snd e) w) \<and> nasl_entries_eq xs m)"

fun as_primitive :: "nasl_value \<Rightarrow> primitive" where
  "as_primitive (NString s) = PString s"
| "as_primitive (NData x) = PData x"
| "as_primitive (NNumber x) = PNumber (sint x)"
| "as_primitive (NArray x) = PArray (map as_primitive x)"
| "as_primitive (NDict x) = PDict (map (map_prod id as_primitive) x)"
| "as_primitive (NBoolean x) = PBoolean x"
| "as_primitive _ = PNull"

fun from_primitive :: "primitive \<Rightarrow> nasl_value" where
  "from_primitive (PString x) = NString x"
| "from_primitive (PData x) = NData x"
| "from_primitive (PNumber x) = NNumber (word_of_int x)"
| "from_primitive (PArray x) = NArray (map from_primitive x)"
| "from_primitive (PDict x) = NDict (map (map_prod id from_primitive) x)"
| "from_primitive (PBoolean x) = NBoolean x"
| "from_primitive PNull = NNull"

definition le_bytes :: "i64 \<Rightarrow> 8 word list" where
  "le_bytes w = map (\<lambda>i. ucast (drop_bit (8 * i) w)) [0..<8]"

text \<open>\<open>From<&NaslValue> for Vec<u8>\<close>, on which the order is based.\<close>

fun ref_bytes :: "nasl_value \<Rightarrow> 8 word list" where
  "ref_bytes (NString x) = as_bytes x"
| "ref_bytes (NNumber x) = le_bytes x"
| "ref_bytes (NData x) = x"
| "ref_bytes _ = []"

definition nasl_cmp :: "nasl_value \<Rightarrow> nasl_value \<Rightarrow> ordering" where
  "nasl_cmp a b = lex_cmp cmp_nat (map unat (ref_bytes a)) (map unat (ref_bytes b))"

definition bytes_as_chars :: "8 word list \<Rightarrow> string" where
  "bytes_as_chars bs = map (\<lambda>b. char_of (unat b)) bs"

definition act_index :: "act \<Rightarrow> nat" where
  "act_index a = (case a of
     Init \<Rightarrow> 0 | Scanner \<Rightarrow> 1 | Settings \<Rightarrow> 2 | GatherInfo \<Rightarrow> 3 | Attack \<Rightarrow> 4 | MixedAttack \<Rightarrow> 5
   | DestructiveAttack \<Rightarrow> 6 | Denial \<Rightarrow> 7 | KillHost \<Rightarrow> 8 | Flood \<Rightarrow> 9 | End \<Rightarrow> 10)"

fun join :: "string \<Rightarrow> string list \<Rightarrow> string" where
  "join sep [] = []"
| "join sep [x] = x"
| "join sep (x # xs) = x @ sep @ join sep xs"

text \<open>The text that the derived \<open>Debug\<close> gives a value; it is displayed for a returned value only.\<close>

definition show_hex :: "nat \<Rightarrow> string" where
  "show_hex n = (let d = (\<lambda>k. if k < 10 then char_of (48 + k) else char_of (87 + k)) in
     if n < 16 then [d n] else [d (n div 16), d (n mod 16)])"

definition debug_char :: "char \<Rightarrow> string" where
  "debug_char c =
    (let n = of_char c :: nat in
     if n = 0 then [CHR 0x5C, CHR ''0'']
     else if n = 9 then [CHR 0x5C, CHR ''t'']
     else if n = 10 then [CHR 0x5C, CHR ''n'']
     else if n = 13 then [CHR 0x5C, CHR ''r'']
     else if n = 34 \<or> n = 92 then [CHR 0x5C, c]
     else if n < 32 \<or> 127 \<le> n \<and> n \<le> 160 \<or> n = 173 then CHR 0x5C # ''u{'' @ show_hex n @ ''}''
     else [c])"

definition debug_string :: "string \<Rightarrow> string" where
  "debug_string s = CHR 0x22 # concat (map debug_char s) @ [CHR 0x22]"

definition debug_act :: "act \<Rightarrow> string" where
  "debug_act a = (case a of
     Init \<Rightarrow> ''Init'' | Scanner \<Rightarrow> ''Scanner'' | Settings \<Rightarrow> ''Settings'' | GatherInfo \<Rightarrow> ''GatherInfo''
   | Attack \<Rightarrow> ''Attack'' | MixedAttack \<Rightarrow> ''MixedAttack'' | DestructiveAttack \<Rightarrow> ''DestructiveAttack''
   | Denial \<Rightarrow> ''Denial'' | KillHost \<Rightarrow> ''KillHost'' | Flood \<Rightarrow> ''Flood'' | End \<Rightarrow> ''End'')"

fun nasl_debug :: "nasl_value \<Rightarrow> string" where
  "nasl_debug (NString x) = ''String('' @ debug_string x @ '')''"
| "nasl_debug (NData x) = ''Data(['' @ show_bytes x @ ''])''"
| "nasl_debug (NNumber x) = ''Number('' @ show_int (sint x) @ '')''"
| "nasl_debug (NArray x) = ''Array(['' @ join '', '' (map nasl_debug x) @ ''])''"
| "nasl_debug (NDict x) = ''Dict({'' @ join '', '' (map (\<lambda>(k, v). debug_string k @ '': '' @ nasl_debug v) x) @ ''})''"
| "nasl_debug (NBoolean x) = (if x then ''Boolean(true)'' else ''Boolean(false)'')"
| "nasl_debug (NAttackCategory x) = ''AttackCategory('' @ debug_act x @ '')''"
| "nasl_debug NNull = ''Null''"
| "nasl_debug (NReturn x) = ''Return('' @ nasl_debug x @ '')''"
| "nasl_debug (NFork x) = ''Fork(['' @ join '', '' (map nasl_debug x) @ ''])''"
| "nasl_debug NContinue = ''Continue''"
| "nasl_debug NBreak = ''Break''"
| "nasl_debug (NExit x) = ''Exit('' @ show_int (sint x) @ '')''"

fun nasl_display :: "nasl_value \<Rightarrow> string" where
  "nasl_display (NString x) = x"
| "nasl_display (NNumber x) = show_int (sint x)"
| "nasl_display (NArray x) = join '','' (map (\<lambda>(i, t). show_nat i @ '': '' @ t) (enumerate 0 (map nasl_display x)))"
| "nasl_display (NData x) = bytes_as_chars x"
| "nasl_display (NDict x) = join '','' (map (\<lambda>(k, v). k @ '': '' @ nasl_display v) x)"
| "nasl_display (NBoolean x) = (if x then ''1'' else ''0'')"
| "nasl_display NNull = [CHR 0x00]"
| "nasl_display (NExit rc) = ''exit('' @ show_int (sint rc) @ '')''"
| "nasl_display (NAttackCategory c) = identifier_display (ACT c)"
| "nasl_display (NReturn rc) = ''return('' @ nasl_debug rc @ '')''"
| "nasl_display NContinue = ''continue''"
| "nasl_display NBreak = ''break''"
| "nasl_display (NFork x) =
    ''Creates '' @ show_nat (length x) @ '' runs, for '' @ join '','' (map nasl_display x)"

text \<open>\<open>From<NaslValue> for Vec<u8>\<close>.\<close>

fun into_bytes :: "nasl_value \<Rightarrow> 8 word list" where
  "into_bytes (NString x) = as_bytes x"
| "into_bytes (NData x) = x"
| "into_bytes (NArray x) = concat (map ref_bytes x)"
| "into_bytes (NBoolean b) = as_bytes (nasl_display (NBoolean b))"
| "into_bytes (NNumber n) = as_bytes (nasl_display (NNumber n))"
| "into_bytes (NDict x) = as_bytes (nasl_display (NDict x))"
| "into_bytes _ = []"

fun to_bool :: "nasl_value \<Rightarrow> bool" where
  "to_bool (NString s) = (s \<noteq> [] \<and> s \<noteq> ''0'')"
| "to_bool (NArray v) = (v \<noteq> [])"
| "to_bool (NData v) = (v \<noteq> [])"
| "to_bool (NBoolean b) = b"
| "to_bool NNull = False"
| "to_bool (NNumber n) = (n \<noteq> 0)"
| "to_bool (NExit n) = (n \<noteq> 0)"
| "to_bool (NAttackCategory _) = True"
| "to_bool (NDict v) = (v \<noteq> [])"
| "to_bool (NReturn _) = True"
| "to_bool NContinue = False"
| "to_bool NBreak = False"
| "to_bool (NFork v) = (v = [])"

fun to_i64 :: "nasl_value \<Rightarrow> i64" where
  "to_i64 (NString _) = 1"
| "to_i64 (NNumber x) = x"
| "to_i64 (NArray _) = 1"
| "to_i64 (NData _) = 1"
| "to_i64 (NDict _) = 1"
| "to_i64 (NBoolean x) = (if x then 1 else 0)"
| "to_i64 (NAttackCategory x) = word_of_nat (act_index x)"
| "to_i64 NNull = 0"
| "to_i64 (NExit x) = x"
| "to_i64 (NReturn _) = - 1"
| "to_i64 NContinue = 0"
| "to_i64 NBreak = 0"
| "to_i64 (NFork _) = 1"

definition token_value :: "token \<Rightarrow> category + nasl_value" where
  "token_value t =
    (case tk_category t of
       StringLit s \<Rightarrow> Inr (NString s)
     | IPv4Address s \<Rightarrow> Inr (NString s)
     | DataLit d \<Rightarrow> Inr (NData d)
     | Identifier (Undefined i) \<Rightarrow> Inr (NString i)
     | NumberLit n \<Rightarrow> Inr (NNumber (word_of_int n))
     | Identifier NullKw \<Rightarrow> Inr NNull
     | Identifier TrueKw \<Rightarrow> Inr (NBoolean True)
     | Identifier FalseKw \<Rightarrow> Inr (NBoolean False)
     | c \<Rightarrow> Inl c)"

text \<open>\<open>From<NaslValue> for Vec<NaslValue>\<close>, what a loop iterates over.\<close>

fun loop_values :: "nasl_value \<Rightarrow> nasl_value list" where
  "loop_values (NArray ret) = ret"
| "loop_values (NDict ret) = map snd ret"
| "loop_values (NBoolean b) = [NBoolean b]"
| "loop_values (NNumber n) = [NNumber n]"
| "loop_values (NData ret) = map (\<lambda>x. NData [x]) ret"
| "loop_values (NString ret) = map (\<lambda>x. NString [x]) ret"
| "loop_values _ = []"

section \<open>Lemmas\<close>

text \<open>The values that the storage can hold.\<close>

fun storable :: "nasl_value \<Rightarrow> bool" where
  "storable (NString _) = True"
| "storable (NData _) = True"
| "storable (NNumber _) = True"
| "storable (NArray xs) = list_all storable xs"
| "storable (NDict xs) = list_all (\<lambda>e. storable (snd e)) xs"
| "storable (NBoolean _) = True"
| "storable NNull = True"
| "storable _ = False"

lemma from_as_primitive: "storable v \<Longrightarrow> from_primitive (as_primitive v) = v"
proof (induction v rule: storable.induct)
  case (4 xs)
  then show ?case by (simp add: list_all_iff map_idI)
next
  case (5 xs)
  then show ?case by (auto simp: list_all_iff map_prod_def intro!: map_idI split: prod.splits)
qed simp_all

fun i64_primitive :: "primitive \<Rightarrow> bool" where
  "i64_primitive (PNumber n) = (- (2 ^ 63) \<le> n \<and> n < 2 ^ 63)"
| "i64_primitive (PArray xs) = list_all i64_primitive xs"
| "i64_primitive (PDict xs) = list_all (\<lambda>e. i64_primitive (snd e)) xs"
| "i64_primitive _ = True"

lemma sint_i64: "- (2 ^ 63) \<le> n \<Longrightarrow> n < 2 ^ 63 \<Longrightarrow> sint (word_of_int n :: i64) = n"
  by (simp add: sint_sbintrunc' signed_take_bit_int_eq_self)

lemma as_from_primitive: "i64_primitive p \<Longrightarrow> as_primitive (from_primitive p) = p"
proof (induction p rule: i64_primitive.induct)
  case (1 n)
  then show ?case by (simp add: sint_i64)
next
  case (2 xs)
  then show ?case by (simp add: list_all_iff map_idI)
next
  case (3 xs)
  then show ?case by (auto simp: list_all_iff map_prod_def intro!: map_idI split: prod.splits)
qed simp_all

lemma storable_from_primitive: "storable (from_primitive p)"
  by (induction p rule: from_primitive.induct) (auto simp: list_all_iff)

lemma le_bytes_inject: "le_bytes a = le_bytes b \<longleftrightarrow> a = b"
proof
  assume eq: "le_bytes a = le_bytes b"
  show "a = b"
  proof (rule bit_word_eqI)
    fix n assume n: "n < LENGTH(64)"
    then have d: "n div 8 < 8" by auto
    have "(ucast (drop_bit (8 * (n div 8)) a) :: 8 word) = ucast (drop_bit (8 * (n div 8)) b)"
      using arg_cong [OF eq, of "\<lambda>l. l ! (n div 8)"] d by (simp add: le_bytes_def)
    then have "bit (ucast (drop_bit (8 * (n div 8)) a) :: 8 word) (n mod 8) =
        bit (ucast (drop_bit (8 * (n div 8)) b) :: 8 word) (n mod 8)" by simp
    then show "bit a n = bit b n" by (simp add: bit_simps)
  qed
qed simp

text \<open>A text of ASCII characters has one byte per character.\<close>

lemma as_bytes_ascii:
  "list_all (\<lambda>b. unat b < 128) bs \<Longrightarrow> as_bytes (bytes_as_chars bs) = bs"
  by (induction bs) (simp_all add: as_bytes_def bytes_as_chars_def utf8_char_def unat_byte)

end
