(* ===== verification/Nasl_Register.thy ===== *)
theory Nasl_Register
  imports Nasl_Value
begin

text \<open>
  Variables, functions and scopes of a NASL script: src/rust/src/nasl/utils/context.rs.

  A register is the list of its contexts; a context names its parent by index. A lookup starts at the
  last context and follows the parents. The code does so by recursion without a bound; the model stops
  at a parent that is not before its child, which no register that was built by the operations has
  (\<open>wf_register\<close>). The locale \<open>scopes\<close> is what the interpreter relies on.
\<close>

section \<open>Model\<close>

datatype context_type = CFunction "string list" statement | CValue nasl_value

fun context_display :: "context_type \<Rightarrow> string" where
  "context_display (CFunction _ _) = []"
| "context_display (CValue v) = nasl_display v"

fun context_to_i64 :: "context_type \<Rightarrow> i64" where
  "context_to_i64 (CValue (NNumber i)) = i"
| "context_to_i64 _ = 0"

fun context_to_string :: "context_type \<Rightarrow> string" where
  "context_to_string (CValue (NString s)) = s"
| "context_to_string _ = []"

fun context_to_bool :: "context_type \<Rightarrow> bool" where
  "context_to_bool (CValue (NBoolean b)) = b"
| "context_to_bool _ = False"

fun context_value :: "context_type \<Rightarrow> nasl_value" where
  "context_value (CFunction _ _) = NNull"
| "context_value (CValue v) = v"

type_synonym named = "(string \<times> context_type) list"

record nasl_context =
  ctx_parent :: "nat option"
  ctx_id :: nat
  ctx_defined :: named

type_synonym register = "nasl_context list"

definition FC_ANON_ARGS :: string where
  "FC_ANON_ARGS = ''_FCT_ANON_ARGS''"

definition new_register :: register where
  "new_register = [\<lparr>ctx_parent = None, ctx_id = 0, ctx_defined = []\<rparr>]"

definition root_initial :: "(string \<times> context_type) list \<Rightarrow> register" where
  "root_initial initial =
    [\<lparr>ctx_parent = None, ctx_id = 0, ctx_defined = fold (\<lambda>(k, v). AList.update k v) initial []\<rparr>]"

definition reg_index :: "register \<Rightarrow> nat" where
  "reg_index r = length r"

definition create_child :: "named \<Rightarrow> register \<Rightarrow> register" where
  "create_child defined r =
    (let parent_id = (if r = [] then 0 else ctx_id (last r)) in
     r @ [\<lparr>ctx_parent = Some parent_id, ctx_id = reg_index r, ctx_defined = defined\<rparr>])"

definition create_root_child :: "named \<Rightarrow> register \<Rightarrow> register" where
  "create_root_child defined r = r @ [\<lparr>ctx_parent = Some 0, ctx_id = reg_index r, ctx_defined = defined\<rparr>]"

definition add_named :: "string \<Rightarrow> context_type \<Rightarrow> nasl_context \<Rightarrow> nasl_context" where
  "add_named name v c = c\<lparr>ctx_defined := AList.update name v (ctx_defined c)\<rparr>"

text \<open>\<open>NaslContext::named\<close> for the context at an index of the register.\<close>

function context_named :: "register \<Rightarrow> nat \<Rightarrow> string \<Rightarrow> (nat \<times> context_type) option" where
  "context_named r i name =
    (case map_of (ctx_defined (r ! i)) name of
       Some ctx \<Rightarrow> Some (ctx_id (r ! i), ctx)
     | None \<Rightarrow>
         (case ctx_parent (r ! i) of
            Some parent \<Rightarrow> if parent < i then context_named r parent name else None
          | None \<Rightarrow> None))"
  by pat_completeness auto

termination
  by (relation "measure (\<lambda>(_, i, _). i)") simp_all

declare context_named.simps [simp del]

definition index_named :: "register \<Rightarrow> string \<Rightarrow> (nat \<times> context_type) option" where
  "index_named r name = (if r = [] then None else context_named r (length r - 1) name)"

definition reg_named :: "register \<Rightarrow> string \<Rightarrow> context_type option" where
  "reg_named r name = map_option snd (index_named r name)"

definition iter_named_args :: "register \<Rightarrow> string list option" where
  "iter_named_args r = (if r = [] then None else Some (map fst (ctx_defined (last r))))"

definition add_global :: "string \<Rightarrow> context_type \<Rightarrow> register \<Rightarrow> register rs" where
  "add_global name v r = (if r = [] then Panic else Ret (r[0 := add_named name v (r ! 0)]))"

definition add_to_index :: "nat \<Rightarrow> string \<Rightarrow> context_type \<Rightarrow> register \<Rightarrow> register rs" where
  "add_to_index idx name v r = (if idx \<ge> length r then Panic else Ret (r[idx := add_named name v (r ! idx)]))"

definition add_local :: "string \<Rightarrow> context_type \<Rightarrow> register \<Rightarrow> register" where
  "add_local name v r = (if r = [] then r else r[length r - 1 := add_named name v (last r)])"

definition positional :: "register \<Rightarrow> nasl_value list" where
  "positional r = (case reg_named r FC_ANON_ARGS of Some (CValue (NArray arr)) \<Rightarrow> arr | _ \<Rightarrow> [])"

definition drop_last :: "register \<Rightarrow> register" where
  "drop_last r = butlast r"

section \<open>Well-formed registers\<close>

definition wf_register :: "register \<Rightarrow> bool" where
  "wf_register r \<longleftrightarrow> r \<noteq> [] \<and>
    (\<forall>i < length r. ctx_id (r ! i) = i \<and> (case ctx_parent (r ! i) of None \<Rightarrow> i = 0 | Some p \<Rightarrow> p < i))"

text \<open>The frame of a register: the number of its contexts and how they are linked.\<close>

definition shape :: "register \<Rightarrow> (nat option \<times> nat) list" where
  "shape r = map (\<lambda>c. (ctx_parent c, ctx_id c)) r"

lemma length_shape [simp]: "length (shape r) = length r"
  by (simp add: shape_def)

lemma shape_length: "shape r = shape r' \<Longrightarrow> length r = length r'"
  using length_shape by metis

lemma shape_Nil [simp]: "shape r = [] \<longleftrightarrow> r = []"
  by (simp add: shape_def)

lemma shape_nth: "i < length r \<Longrightarrow> shape r ! i = (ctx_parent (r ! i), ctx_id (r ! i))"
  by (simp add: shape_def)

lemma wf_register_shape: "wf_register r \<longleftrightarrow> shape r \<noteq> [] \<and>
    (\<forall>i < length (shape r). snd (shape r ! i) = i \<and> (case fst (shape r ! i) of None \<Rightarrow> i = 0 | Some p \<Rightarrow> p < i))"
  by (simp add: wf_register_def shape_nth)

lemma shape_eq_wf: "shape r = shape r' \<Longrightarrow> wf_register r = wf_register r'"
  by (simp add: wf_register_shape)

lemma shape_update [simp]: "shape (r[i := add_named n v (r ! i)]) = shape r"
proof (cases "i < length r")
  case True
  then show ?thesis by (intro nth_equalityI) (auto simp: shape_def nth_list_update add_named_def)
qed (simp add: list_update_beyond)

lemma shape_add_local [simp]: "shape (add_local n v r) = shape r"
  by (auto simp: add_local_def last_conv_nth)

lemma shape_add_to_index: "add_to_index i n v r = Ret r' \<Longrightarrow> shape r' = shape r"
  by (auto simp: add_to_index_def split: if_splits)

lemma shape_add_global: "add_global n v r = Ret r' \<Longrightarrow> shape r' = shape r"
  by (auto simp: add_global_def split: if_splits)

lemma shape_drop_last: "shape r = shape (create_root_child d q) \<Longrightarrow> shape (drop_last r) = shape q"
  by (simp add: shape_def drop_last_def create_root_child_def map_butlast)

lemma shape_drop_last_child: "shape r = shape (create_child d q) \<Longrightarrow> shape (drop_last r) = shape q"
  by (simp add: shape_def drop_last_def create_child_def Let_def map_butlast)

lemma wf_new_register [simp]: "wf_register new_register"
  by (simp add: wf_register_def new_register_def)

lemma wf_root_initial [simp]: "wf_register (root_initial xs)"
  by (simp add: wf_register_def root_initial_def)

lemma wf_create_root_child [simp]: "wf_register r \<Longrightarrow> wf_register (create_root_child d r)"
  by (auto simp: wf_register_def create_root_child_def reg_index_def nth_append less_Suc_eq)

lemma wf_create_child [simp]: "wf_register r \<Longrightarrow> wf_register (create_child d r)"
  by (auto simp: wf_register_def create_child_def reg_index_def nth_append less_Suc_eq last_conv_nth Let_def)

section \<open>Lookups\<close>

text \<open>A lookup depends on the contexts up to its start only.\<close>

lemma context_named_append: "i < length r \<Longrightarrow> context_named (r @ q) i n = context_named r i n"
proof (induction i rule: less_induct)
  case (less i)
  then show ?case
    by (subst (1 2) context_named.simps) (auto simp: nth_append split: option.splits)
qed

lemma context_named_update_after:
  "j < i \<Longrightarrow> context_named (r[i := c]) j n = context_named r j n"
proof (induction j rule: less_induct)
  case (less j)
  then show ?case
    by (subst (1 2) context_named.simps) (auto split: option.splits)
qed

lemma update_context:
  "ctx_parent (r[i := add_named m v (r ! i)] ! j) = ctx_parent (r ! j)"
  "ctx_id (r[i := add_named m v (r ! i)] ! j) = ctx_id (r ! j)"
  "m \<noteq> n \<Longrightarrow> map_of (ctx_defined (r[i := add_named m v (r ! i)] ! j)) n = map_of (ctx_defined (r ! j)) n"
  by (cases "i < length r", auto simp: add_named_def update_conv' nth_list_update list_update_beyond)+

lemma context_named_update_other:
  "m \<noteq> n \<Longrightarrow> context_named (r[i := add_named m v (r ! i)]) j n = context_named r j n"
proof (induction j rule: less_induct)
  case (less j)
  then show ?case
    by (subst (1 2) context_named.simps) (auto simp: update_context split: option.splits)
qed

lemma context_named_bound:
  "wf_register r \<Longrightarrow> j < length r \<Longrightarrow> context_named r j n = Some (i, c) \<Longrightarrow> i \<le> j \<and> map_of (ctx_defined (r ! i)) n = Some c"
proof (induction j rule: less_induct)
  case (less j)
  from less.prems(3) show ?case
  proof (subst (asm) context_named.simps, cases "map_of (ctx_defined (r ! j)) n")
    case None
    then obtain p where "ctx_parent (r ! j) = Some p" "p < j" "context_named r p n = Some (i, c)"
      using less.prems(3) by (subst (asm) context_named.simps) (auto split: option.splits if_splits)
    then show ?thesis using less.IH [of p] less.prems(1,2) by simp
  next
    case (Some a)
    then show ?thesis using less.prems
      by (subst (asm) context_named.simps) (auto simp: wf_register_def)
  qed
qed

text \<open>Storing under the index that a lookup gave changes what this lookup finds, and nothing else.\<close>

lemma context_named_update_found:
  "wf_register r \<Longrightarrow> j < length r \<Longrightarrow> context_named r j n = Some (i, c)
    \<Longrightarrow> context_named (r[i := add_named n v (r ! i)]) j n = Some (i, v)"
proof (induction j rule: less_induct)
  case (less j)
  show ?case
  proof (cases "map_of (ctx_defined (r ! j)) n")
    case None
    then obtain p where p: "ctx_parent (r ! j) = Some p" "p < j" "context_named r p n = Some (i, c)"
      using less.prems(3) by (subst (asm) context_named.simps) (auto split: option.splits if_splits)
    then have "i \<noteq> j" using context_named_bound [of r p n i c] less.prems(1,2) by auto
    then show ?thesis using None p less.IH [of p] less.prems(1,2)
      by (subst context_named.simps) simp
  next
    case (Some a)
    then have "i = j" using less.prems
      by (subst (asm) context_named.simps) (auto simp: wf_register_def)
    then show ?thesis using less.prems(1,2)
      by (subst context_named.simps) (simp add: add_named_def update_conv' wf_register_def)
  qed
qed

text \<open>Every lookup that finds nothing ends at the root, so what is stored there is found.\<close>

lemma context_named_update_root:
  "wf_register r \<Longrightarrow> j < length r \<Longrightarrow> context_named r j n = None
    \<Longrightarrow> context_named (r[0 := add_named n v (r ! 0)]) j n = Some (0, v)"
proof (induction j rule: less_induct)
  case (less j)
  have none: "map_of (ctx_defined (r ! j)) n = None"
    using less.prems(3) by (subst (asm) context_named.simps) (simp split: option.splits)
  show ?case
  proof (cases j)
    case 0
    then show ?thesis using less.prems(1,2)
      by (subst context_named.simps) (simp add: add_named_def update_conv' wf_register_def)
  next
    case (Suc k)
    obtain p where p: "ctx_parent (r ! j) = Some p" "p < j"
      using less.prems(1,2) Suc by (auto simp: wf_register_def split: option.splits)
    then have "context_named r p n = None"
      using less.prems(3) none by (subst (asm) context_named.simps) simp
    then have "context_named (r[0 := add_named n v (r ! 0)]) p n = Some (0, v)"
      using less.IH [of p] p less.prems(1,2) by simp
    then show ?thesis using none p Suc by (subst context_named.simps) simp
  qed
qed

section \<open>The contract of scopes\<close>

text \<open>What a language with nested scopes asks of its variables: a definition is found, hides no other
  name and is gone with its scope.\<close>

locale scopes =
  fixes wf :: "'r \<Rightarrow> bool"
    and find_name :: "'r \<Rightarrow> string \<Rightarrow> 'v option"
    and define_local :: "string \<Rightarrow> 'v \<Rightarrow> 'r \<Rightarrow> 'r"
    and enter :: "'r \<Rightarrow> 'r"
    and leave :: "'r \<Rightarrow> 'r"
  assumes wf_define: "wf r \<Longrightarrow> wf (define_local n v r)"
    and wf_enter: "wf r \<Longrightarrow> wf (enter r)"
    and find_same: "wf r \<Longrightarrow> find_name (define_local n v r) n = Some v"
    and find_other: "wf r \<Longrightarrow> m \<noteq> n \<Longrightarrow> find_name (define_local m v r) n = find_name r n"
    and find_enter: "wf r \<Longrightarrow> find_name (enter r) n = find_name r n"
    and leave_enter: "wf r \<Longrightarrow> leave (fold (\<lambda>(n, v). define_local n v) ds (enter r)) = r"
begin

lemma wf_defines: "wf r \<Longrightarrow> wf (fold (\<lambda>(n, v). define_local n v) ds r)"
  by (induction ds arbitrary: r) (auto simp: wf_define split: prod.splits)

lemma find_unrelated:
  "wf r \<Longrightarrow> n \<notin> fst ` set ds \<Longrightarrow> find_name (fold (\<lambda>(n, v). define_local n v) ds (enter r)) n = find_name r n"
proof (induction ds rule: rev_induct)
  case Nil
  then show ?case by (simp add: find_enter)
next
  case (snoc d ds)
  obtain m v where d: "d = (m, v)" by (cases d)
  have "wf (fold (\<lambda>(n, v). define_local n v) ds (enter r))" using snoc.prems(1) by (simp add: wf_defines wf_enter)
  then show ?case using snoc d by (auto simp: find_other)
qed

lemma find_defined:
  "wf r \<Longrightarrow> find_name (fold (\<lambda>(n, v). define_local n v) (ds @ [(n, v)]) (enter r)) n = Some v"
  by (simp add: find_same wf_defines wf_enter)

end

lemma wf_add_local: "wf_register r \<Longrightarrow> wf_register (add_local n v r)"
  using shape_eq_wf [of "add_local n v r" r] by simp

lemma add_local_nonempty: "wf_register r \<Longrightarrow> add_local n v r = r[length r - 1 := add_named n v (r ! (length r - 1))]"
  by (simp add: add_local_def wf_register_def last_conv_nth)

lemma find_add_local: "wf_register r \<Longrightarrow> reg_named (add_local n v r) n = Some v"
  by (subst reg_named_def, subst index_named_def, subst context_named.simps)
    (simp add: add_local_nonempty wf_register_def add_named_def update_conv')

lemma find_add_local_other: "wf_register r \<Longrightarrow> m \<noteq> n \<Longrightarrow> reg_named (add_local m v r) n = reg_named r n"
  by (simp add: reg_named_def index_named_def add_local_nonempty wf_register_def context_named_update_other)

lemma index_create_child: "wf_register r \<Longrightarrow> index_named (create_child [] r) n = index_named r n"
  unfolding index_named_def create_child_def Let_def
  by (subst context_named.simps) (simp add: wf_register_def last_conv_nth context_named_append)

lemma find_create_child: "wf_register r \<Longrightarrow> reg_named (create_child [] r) n = reg_named r n"
  by (simp add: reg_named_def index_create_child)

lemma add_local_append: "add_local n v (r @ [c]) = r @ [add_named n v c]"
  by (simp add: add_local_def list_update_append)

lemma add_locals_append: "\<exists>d. fold (\<lambda>(n, v). add_local n v) ds (r @ [c]) = r @ [d]"
  by (induction ds arbitrary: c) (auto simp: add_local_append split: prod.splits)

interpretation nasl_scopes: scopes wf_register reg_named add_local "create_child []" drop_last
proof
  fix r :: register and ds
  show "drop_last (fold (\<lambda>(n, v). add_local n v) ds (create_child [] r)) = r"
    unfolding create_child_def Let_def drop_last_def using add_locals_append by (metis butlast_snoc)
qed (simp_all add: wf_add_local find_add_local find_add_local_other find_create_child)

end
