(* ===== verification/Nasl_Operator.thy ===== *)
theory Nasl_Operator
  imports Nasl_Register
begin

text \<open>
  Errors of the interpreter (src/rust/src/nasl/interpreter/error.rs, src/rust/src/nasl/utils/error.rs
  and \<open>LoadError\<close> of src/rust/src/nasl/syntax/loader.rs) and what operators and assignments compute
  from values (operator.rs and assign.rs of src/rust/src/nasl/interpreter).

  Arithmetic is the one of a release build: it wraps around, and shift amounts are reduced to the
  width. A division by zero, and the one quotient that does not fit, panics in every build. A builtin
  error is represented by its text. Regular expressions are a parameter: \<open>None\<close> when the expression
  does not compile.
\<close>

section \<open>Errors\<close>

datatype load_error = LoadRetry string | LoadNotFound string | LoadPermissionDenied string | LoadDirty string

fun load_error_filename :: "load_error \<Rightarrow> string" where
  "load_error_filename (LoadRetry x) = x"
| "load_error_filename (LoadNotFound x) = x"
| "load_error_filename (LoadPermissionDenied x) = x"
| "load_error_filename (LoadDirty x) = x"

datatype return_behavior = ExitScript | ReturnValue nasl_value

datatype argument_error =
    MissingPositionals nat nat
  | TrailingPositionals nat nat
  | MissingNamed "string list"
  | UnexpectedArgument string
  | WrongArgument string

datatype fn_error_kind = ArgumentErr argument_error | BuiltinErr string | InternalErr storage_error

record fn_error =
  fe_kind :: fn_error_kind
  fe_return_behavior :: return_behavior
  fe_retryable :: bool

definition fn_error_from_kind :: "fn_error_kind \<Rightarrow> fn_error" where
  "fn_error_from_kind k = \<lparr>fe_kind = k, fe_return_behavior = ExitScript, fe_retryable = False\<rparr>"

definition fn_error_from_argument :: "argument_error \<Rightarrow> fn_error" where
  "fn_error_from_argument e = fn_error_from_kind (ArgumentErr e)"

definition fn_error_from_builtin :: "string \<Rightarrow> fn_error" where
  "fn_error_from_builtin e = \<lparr>fe_kind = BuiltinErr e, fe_return_behavior = ReturnValue NNull, fe_retryable = False\<rparr>"

fun internal_retryable :: "storage_error \<Rightarrow> bool" where
  "internal_retryable (Retry _) = True"
| "internal_retryable _ = False"

definition fn_error_from_internal :: "storage_error \<Rightarrow> fn_error" where
  "fn_error_from_internal e =
    \<lparr>fe_kind = InternalErr e, fe_return_behavior = ExitScript, fe_retryable = internal_retryable e\<rparr>"

definition fn_error_from_storage :: "storage_error \<Rightarrow> fn_error" where
  "fn_error_from_storage e = fn_error_from_kind (InternalErr e)"

definition wrong_argument :: "string \<Rightarrow> string \<Rightarrow> string \<Rightarrow> argument_error" where
  "wrong_argument key expected got =
    WrongArgument (''Expected '' @ key @ '' to be '' @ expected @ '' but it is '' @ got)"

definition wrong_unnamed_argument :: "string \<Rightarrow> string \<Rightarrow> fn_error" where
  "wrong_unnamed_argument expected got =
    fn_error_from_argument (WrongArgument (''Expected '' @ expected @ '' but '' @ got))"

definition missing_argument :: "string \<Rightarrow> fn_error" where
  "missing_argument val = fn_error_from_argument (MissingNamed [val])"

datatype interpret_error_kind =
    FunctionExpectedValue
  | ValueExpectedFunction
  | WrongType string
  | WrongCategory category
  | InvalidRegex string
  | IncludeSyntaxError string error_kind
  | SyntaxErr error_kind
  | KeyNotFound string
  | LoadErr load_error
  | FunctionCallError string fn_error

record interpret_error =
  ie_kind :: interpret_error_kind
  ie_origin :: "statement option"

definition new_error :: "interpret_error_kind \<Rightarrow> statement option \<Rightarrow> interpret_error" where
  "new_error k origin = \<lparr>ie_kind = k, ie_origin = origin\<rparr>"

definition error_from_statement :: "statement \<Rightarrow> interpret_error_kind \<Rightarrow> interpret_error" where
  "error_from_statement stmt k = new_error k (Some stmt)"

definition unsupported :: "statement \<Rightarrow> string \<Rightarrow> interpret_error" where
  "unsupported stmt expected = error_from_statement stmt (WrongType expected)"

definition wrong_category :: "category \<Rightarrow> interpret_error" where
  "wrong_category cat = new_error (WrongCategory cat) None"

definition error_line_column :: "interpret_error \<Rightarrow> nat \<times> nat" where
  "error_line_column e = (case ie_origin e of Some stmt \<Rightarrow> tk_line_column (st_start stmt) | None \<Rightarrow> (0, 0))"

definition retryable :: "interpret_error \<Rightarrow> bool" where
  "retryable e =
    (case ie_kind e of
       LoadErr (LoadRetry _) \<Rightarrow> True
     | FunctionCallError _ fe \<Rightarrow> fe_retryable fe
     | _ \<Rightarrow> False)"

type_synonym interpret_result = "interpret_error + nasl_value"

section \<open>Operators\<close>

definition as_i64 :: "nasl_value \<Rightarrow> nasl_value option \<Rightarrow> i64 \<times> i64" where
  "as_i64 left right = (to_i64 left, case right of Some x \<Rightarrow> to_i64 x | None \<Rightarrow> 0)"

definition num_expr :: "(i64 \<Rightarrow> i64 \<Rightarrow> i64) \<Rightarrow> nasl_value \<Rightarrow> nasl_value option \<Rightarrow> interpret_result rs" where
  "num_expr op left right = (let (l, r) = as_i64 left right in Ret (Inr (NNumber (op l r))))"

definition i64_min :: i64 where
  "i64_min = word_of_int (- (2 ^ 63))"

definition checked_quotient :: "(int \<Rightarrow> int \<Rightarrow> int) \<Rightarrow> i64 \<Rightarrow> i64 \<Rightarrow> i64 rs" where
  "checked_quotient op l r =
    (if r = 0 \<or> l = i64_min \<and> r = - 1 then Panic else Ret (word_of_int (op (sint l) (sint r))))"

definition i64_div :: "i64 \<Rightarrow> i64 \<Rightarrow> i64 rs" where
  "i64_div = checked_quotient (sdiv)"

definition i64_rem :: "i64 \<Rightarrow> i64 \<Rightarrow> i64 rs" where
  "i64_rem = checked_quotient (smod)"

definition i64_shl :: "i64 \<Rightarrow> i64 \<Rightarrow> i64" where
  "i64_shl l r = push_bit (unat (r AND 63)) l"

definition i64_shr :: "i64 \<Rightarrow> i64 \<Rightarrow> i64" where
  "i64_shr l r = signed_drop_bit (unat (r AND 63)) l"

text \<open>\<open>((left as u32) >> right) as i32\<close>.\<close>

definition unsigned_shr :: "i64 \<Rightarrow> i64 \<Rightarrow> i64" where
  "unsigned_shr l r = scast (drop_bit (unat (r AND 31)) (ucast l :: 32 word))"

text \<open>\<open>(left as u32) << (right as u32)\<close> of the assignment.\<close>

definition unsigned_shr_assign :: "i64 \<Rightarrow> i64 \<Rightarrow> i64" where
  "unsigned_shr_assign l r = ucast (push_bit (unat (r AND 31)) (ucast l :: 32 word))"

definition u32_pow :: "i64 \<Rightarrow> i64 \<Rightarrow> i64" where
  "u32_pow a b = ucast ((ucast a :: 32 word) ^ unat (ucast b :: 32 word))"

definition opt_display :: "nasl_value option \<Rightarrow> string" where
  "opt_display v = (case v of Some x \<Rightarrow> nasl_display x | None \<Rightarrow> [])"

definition opt_bool :: "nasl_value option \<Rightarrow> bool" where
  "opt_bool v = (case v of Some x \<Rightarrow> to_bool x | None \<Rightarrow> False)"

text \<open>\<open>str::contains\<close> and \<open>str::replacen\<close> with an empty text for one occurrence.\<close>

fun starts_with :: "string \<Rightarrow> string \<Rightarrow> bool" where
  "starts_with [] s = True"
| "starts_with (p # ps) s = (case s of [] \<Rightarrow> False | c # cs \<Rightarrow> p = c \<and> starts_with ps cs)"

fun str_contains :: "string \<Rightarrow> string \<Rightarrow> bool" where
  "str_contains [] pat = (pat = [])"
| "str_contains (c # cs) pat = (starts_with pat (c # cs) \<or> str_contains cs pat)"

fun remove_first :: "string \<Rightarrow> string \<Rightarrow> string" where
  "remove_first [] pat = []"
| "remove_first (c # cs) pat =
    (if starts_with pat (c # cs) then drop (length pat) (c # cs) else c # remove_first cs pat)"

definition match_regex :: "(string \<Rightarrow> (string \<Rightarrow> bool) option) \<Rightarrow> nasl_value \<Rightarrow> nasl_value option \<Rightarrow> interpret_result" where
  "match_regex regex a matches =
    (let right = opt_display matches in
     case regex right of
       Some is_match \<Rightarrow> Inr (NBoolean (is_match (nasl_display a)))
     | None \<Rightarrow> Inl (new_error (InvalidRegex right) None))"

definition not_match_regex :: "(string \<Rightarrow> (string \<Rightarrow> bool) option) \<Rightarrow> nasl_value \<Rightarrow> nasl_value option \<Rightarrow> interpret_result" where
  "not_match_regex regex a matches =
    try_bind (match_regex regex a matches) (\<lambda>r. Inr (NBoolean (\<not> to_bool r)))"

definition add_left_right_string :: "nasl_value \<Rightarrow> nasl_value option \<Rightarrow> interpret_result" where
  "add_left_right_string left right = Inr (NString (nasl_display left @ opt_display right))"

definition minus_left_right_string :: "nasl_value \<Rightarrow> nasl_value option \<Rightarrow> interpret_result" where
  "minus_left_right_string left right = Inr (NString (remove_first (nasl_display left) (opt_display right)))"

definition add_left_right_data :: "nasl_value \<Rightarrow> nasl_value option \<Rightarrow> interpret_result" where
  "add_left_right_data left right = Inr (NData (as_bytes (bytes_as_chars (into_bytes left) @ opt_display right)))"

definition minus_left_right_data :: "nasl_value \<Rightarrow> nasl_value option \<Rightarrow> interpret_result" where
  "minus_left_right_data left right =
    Inr (NData (as_bytes (remove_first (bytes_as_chars (into_bytes left)) (opt_display right))))"

definition operator_plus :: "nasl_value \<Rightarrow> nasl_value option \<Rightarrow> interpret_result" where
  "operator_plus a b =
    (case a of
       NString _ \<Rightarrow> add_left_right_string a b
     | NData _ \<Rightarrow> add_left_right_data a b
     | _ \<Rightarrow>
         (case b of
            Some (NString _) \<Rightarrow> add_left_right_string a b
          | Some (NData _) \<Rightarrow> add_left_right_data a b
          | _ \<Rightarrow> Inr (NNumber (to_i64 a + (case b of Some x \<Rightarrow> to_i64 x | None \<Rightarrow> 0)))))"

definition operator_minus :: "nasl_value \<Rightarrow> nasl_value option \<Rightarrow> interpret_result" where
  "operator_minus a b =
    (case a of
       NString _ \<Rightarrow> minus_left_right_string a b
     | NData _ \<Rightarrow> minus_left_right_data a b
     | _ \<Rightarrow>
         (case b of
            Some (NString _) \<Rightarrow> minus_left_right_string a b
          | Some (NData _) \<Rightarrow> minus_left_right_data a b
          | Some right \<Rightarrow> Inr (NNumber (to_i64 a - to_i64 right))
          | None \<Rightarrow> Inr (NNumber (- to_i64 a))))"

definition ret_number :: "i64 rs \<Rightarrow> interpret_result rs" where
  "ret_number r = rs_bind r (\<lambda>n. Ret (Inr (NNumber n)))"

definition compare_i64 :: "(int \<Rightarrow> int \<Rightarrow> bool) \<Rightarrow> nasl_value \<Rightarrow> nasl_value option \<Rightarrow> interpret_result rs" where
  "compare_i64 rel a b = (let (l, r) = as_i64 a b in Ret (Inr (NBoolean (rel (sint l) (sint r)))))"

text \<open>What \<open>Interpreter::operator\<close> computes from the values of its operands; \<open>None\<close> for the repetition
  and for the categories that are no operators.\<close>

definition operator_value ::
  "(string \<Rightarrow> (string \<Rightarrow> bool) option) \<Rightarrow> category \<Rightarrow> (nasl_value \<Rightarrow> nasl_value option \<Rightarrow> interpret_result rs) option" where
  "operator_value regex cat =
    (case cat of
       Plus \<Rightarrow> Some (\<lambda>a b. Ret (operator_plus a b))
     | Minus \<Rightarrow> Some (\<lambda>a b. Ret (operator_minus a b))
     | Star \<Rightarrow> Some (num_expr (*))
     | Slash \<Rightarrow> Some (\<lambda>a b. let (l, r) = as_i64 a b in ret_number (i64_div l r))
     | Percent \<Rightarrow> Some (\<lambda>a b. let (l, r) = as_i64 a b in ret_number (i64_rem l r))
     | LessLess \<Rightarrow> Some (num_expr i64_shl)
     | GreaterGreater \<Rightarrow> Some (num_expr i64_shr)
     | GreaterGreaterGreater \<Rightarrow> Some (num_expr unsigned_shr)
     | Ampersand \<Rightarrow> Some (num_expr (AND))
     | Pipe \<Rightarrow> Some (num_expr (OR))
     | Caret \<Rightarrow> Some (num_expr (XOR))
     | StarStar \<Rightarrow> Some (num_expr u32_pow)
     | Tilde \<Rightarrow> Some (\<lambda>a _. Ret (Inr (NNumber (NOT (to_i64 a)))))
     | EqualTilde \<Rightarrow> Some (\<lambda>a b. Ret (match_regex regex a b))
     | BangTilde \<Rightarrow> Some (\<lambda>a b. Ret (not_match_regex regex a b))
     | GreaterLess \<Rightarrow> Some (\<lambda>a b. Ret (Inr (NBoolean (str_contains (nasl_display a) (opt_display b)))))
     | GreaterBangLess \<Rightarrow> Some (\<lambda>a b. Ret (Inr (NBoolean (\<not> str_contains (nasl_display a) (opt_display b)))))
     | Bang \<Rightarrow> Some (\<lambda>a _. Ret (Inr (NBoolean (\<not> to_bool a))))
     | AmpersandAmpersand \<Rightarrow> Some (\<lambda>a b. Ret (Inr (NBoolean (to_bool a \<and> opt_bool b))))
     | PipePipe \<Rightarrow> Some (\<lambda>a b. Ret (Inr (NBoolean (to_bool a \<or> opt_bool b))))
     | EqualEqual \<Rightarrow> Some (\<lambda>a b. Ret (Inr (NBoolean (nasl_eq a (case b of Some x \<Rightarrow> x | None \<Rightarrow> NNull)))))
     | BangEqual \<Rightarrow> Some (\<lambda>a b. Ret (Inr (NBoolean (\<not> nasl_eq a (case b of Some x \<Rightarrow> x | None \<Rightarrow> NNull)))))
     | Greater \<Rightarrow> Some (compare_i64 (>))
     | Less \<Rightarrow> Some (compare_i64 (<))
     | GreaterEqual \<Rightarrow> Some (compare_i64 (\<ge>))
     | LessEqual \<Rightarrow> Some (compare_i64 (\<le>))
     | _ \<Rightarrow> None)"

section \<open>Assignments\<close>

text \<open>The closures of \<open>Interpreter::assign\<close>: the new value from the old one and the right hand side.\<close>

definition assign_number :: "(i64 \<Rightarrow> i64 \<Rightarrow> i64 rs) \<Rightarrow> nasl_value \<Rightarrow> nasl_value \<Rightarrow> nasl_value rs" where
  "assign_number op l r = rs_bind (op (to_i64 l) (to_i64 r)) (\<lambda>n. Ret (NNumber n))"

definition assign_value :: "category \<Rightarrow> (nasl_value \<Rightarrow> nasl_value \<Rightarrow> nasl_value rs) option" where
  "assign_value cat =
    (case cat of
       Equal \<Rightarrow> Some (\<lambda>_ right. Ret right)
     | PlusEqual \<Rightarrow> Some (assign_number (\<lambda>l r. Ret (l + r)))
     | MinusEqual \<Rightarrow> Some (assign_number (\<lambda>l r. Ret (l - r)))
     | SlashEqual \<Rightarrow> Some (assign_number i64_div)
     | StarEqual \<Rightarrow> Some (assign_number (\<lambda>l r. Ret (l * r)))
     | GreaterGreaterEqual \<Rightarrow> Some (assign_number (\<lambda>l r. Ret (i64_shr l r)))
     | LessLessEqual \<Rightarrow> Some (assign_number (\<lambda>l r. Ret (i64_shl l r)))
     | GreaterGreaterGreaterEqual \<Rightarrow> Some (assign_number (\<lambda>l r. Ret (unsigned_shr_assign l r)))
     | PercentEqual \<Rightarrow> Some (assign_number i64_rem)
     | PlusPlus \<Rightarrow> Some (\<lambda>l _. Ret (NNumber (to_i64 l + 1)))
     | MinusMinus \<Rightarrow> Some (\<lambda>l _. Ret (NNumber (to_i64 l - 1)))
     | _ \<Rightarrow> None)"

text \<open>\<open>store_return\<close> always returns the new value, \<open>without_right\<close> follows the order of the statement.\<close>

definition effective_order :: "category \<Rightarrow> assign_order \<Rightarrow> assign_order" where
  "effective_order cat order = (if cat = PlusPlus \<or> cat = MinusMinus then order else AssignReturn)"

text \<open>The index is converted to \<open>usize\<close>, so a negative one is huge; the one past it wraps around.\<close>

definition prepare_array :: "nasl_value \<Rightarrow> nasl_value \<Rightarrow> nat \<times> nasl_value list" where
  "prepare_array idx left =
    (let i = to_i64 idx;
         arr = (case left of NArray x \<Rightarrow> x | _ \<Rightarrow> [left])
     in (unat i, arr @ replicate (unat (i + 1) - length arr) NNull))"

definition prepare_dict :: "nasl_value \<Rightarrow> (string \<times> nasl_value) list" where
  "prepare_dict left =
    (case left of
       NArray x \<Rightarrow> map (\<lambda>(i, v). (show_nat i, v)) (enumerate 0 x)
     | NDict x \<Rightarrow> x
     | NNull \<Rightarrow> []
     | x \<Rightarrow> [(''0'', x)])"

text \<open>\<open>handle_dict\<close> and \<open>handle_array\<close>: the value that is returned and the one that is stored.\<close>

definition handle_dict ::
  "string \<Rightarrow> nasl_value \<Rightarrow> nasl_value \<Rightarrow> assign_order \<Rightarrow> (nasl_value \<Rightarrow> nasl_value \<Rightarrow> nasl_value rs) \<Rightarrow> (nasl_value \<times> nasl_value) rs" where
  "handle_dict idx left right order result =
    (let dict = prepare_dict left;
         original = (case map_of dict idx of Some v \<Rightarrow> v | None \<Rightarrow> NNull)
     in rs_bind (result original right) (\<lambda>new.
       Ret (case order of ReturnAssign \<Rightarrow> original | AssignReturn \<Rightarrow> new, NDict (AList.update idx new dict))))"

definition handle_array ::
  "nasl_value \<Rightarrow> nasl_value \<Rightarrow> nasl_value \<Rightarrow> assign_order \<Rightarrow> (nasl_value \<Rightarrow> nasl_value \<Rightarrow> nasl_value rs) \<Rightarrow> (nasl_value \<times> nasl_value) rs" where
  "handle_array idx left right order result =
    (case prepare_array idx left of
       (i, arr) \<Rightarrow>
         if i \<ge> length arr then Panic
         else rs_bind (result (arr ! i) right) (\<lambda>new.
           Ret (case order of ReturnAssign \<Rightarrow> arr ! i | AssignReturn \<Rightarrow> new, NArray (arr[i := new]))))"

text \<open>\<open>dynamic_return\<close> without the register: the returned and the stored value.\<close>

definition assigned ::
  "assign_order \<Rightarrow> nasl_value option \<Rightarrow> nasl_value \<Rightarrow> nasl_value \<Rightarrow> (nasl_value \<Rightarrow> nasl_value \<Rightarrow> nasl_value rs) \<Rightarrow> (nasl_value \<times> nasl_value) rs" where
  "assigned order key left right result =
    (case key of
       None \<Rightarrow>
         rs_bind (result left right) (\<lambda>new.
           Ret (case order of AssignReturn \<Rightarrow> new | ReturnAssign \<Rightarrow> left, new))
     | Some (NString idx) \<Rightarrow> handle_dict idx left right order result
     | Some (NData idx) \<Rightarrow> handle_dict (bytes_as_chars idx) left right order result
     | Some idx \<Rightarrow>
         (case left of
            NDict _ \<Rightarrow> handle_dict (nasl_display idx) left right order result
          | _ \<Rightarrow> handle_array idx left right order result))"

text \<open>\<open>Interpreter::resolve_array\<close> once the variable and the index are values.\<close>

definition element :: "nasl_value \<Rightarrow> nasl_value \<Rightarrow> nasl_value" where
  "element v idx =
    (case v of
       NArray x \<Rightarrow> (let i = unat (to_i64 idx) in if i < length x then x ! i else NNull)
     | NDict x \<Rightarrow> (case map_of x (nasl_display idx) of Some y \<Rightarrow> y | None \<Rightarrow> NNull)
     | _ \<Rightarrow> NNull)"

section \<open>Lemmas\<close>

lemma ret_number_Panic [simp]: "ret_number r = Panic \<longleftrightarrow> r = Panic"
  by (cases r) (simp_all add: ret_number_def)

lemma checked_quotient_Panic: "checked_quotient op l r = Panic \<longleftrightarrow> r = 0 \<or> l = i64_min \<and> r = - 1"
  by (simp add: checked_quotient_def)

text \<open>The quotient and the remainder truncate towards zero, and together give the dividend back.\<close>

lemma i64_div_rem:
  assumes "i64_div l r = Ret q" "i64_rem l r = Ret m"
  shows "q * r + m = l"
proof -
  have "q = word_of_int (sint l sdiv sint r)" "m = word_of_int (sint l smod sint r)"
    using assms by (auto simp: i64_div_def i64_rem_def checked_quotient_def split: if_splits)
  then have "q * r + m = word_of_int ((sint l sdiv sint r) * sint r + sint l smod sint r)" by simp
  then show ?thesis by (simp only: sdiv_mult_smod_eq) simp
qed

lemma length_as_bytes_chars:
  "length (as_bytes (bytes_as_chars bs)) = length bs + length (filter (\<lambda>b. 128 \<le> unat b) bs)"
proof (induction bs)
  case (Cons b bs)
  have "unat b < 256" using unsigned_less [of b, where ?'a = nat] by simp
  then show ?case using Cons by (simp add: as_bytes_def bytes_as_chars_def utf8_char_def Let_def)
qed (simp_all add: as_bytes_def bytes_as_chars_def)

lemma as_bytes_append: "as_bytes (s @ t) = as_bytes s @ as_bytes t"
  by (simp add: as_bytes_def)

lemma as_bytes_chars_eq_iff: "as_bytes (bytes_as_chars bs) = bs \<longleftrightarrow> list_all (\<lambda>b. unat b < 128) bs"
proof
  assume "as_bytes (bytes_as_chars bs) = bs"
  then have "length bs + length (filter (\<lambda>b. 128 \<le> unat b) bs) = length bs" using length_as_bytes_chars by metis
  then show "list_all (\<lambda>b. unat b < 128) bs" by (auto simp: list_all_iff filter_empty_conv not_le)
qed (rule as_bytes_ascii)

lemma chars_append: "bytes_as_chars (a @ b) = bytes_as_chars a @ bytes_as_chars b"
  by (simp add: bytes_as_chars_def)

lemma show_nat_inject: "show_nat m = show_nat n \<longleftrightarrow> m = n"
  using dec_val_show_nat by metis

lemma map_of_enumerated:
  "map_of (map (\<lambda>(i, v). (show_nat i, v)) (enumerate n xs)) (show_nat j) = (if n \<le> j \<and> j < n + length xs then Some (xs ! (j - n)) else None)"
proof (induction xs arbitrary: n)
  case (Cons x xs)
  then show ?case by (auto simp: show_nat_inject nth_Cons' not_less_eq_eq)
qed simp

lemma unat_u64: "k < 2 ^ 64 \<Longrightarrow> unat (word_of_nat k :: i64) = k"
  by (simp add: unat_of_nat take_bit_eq_mod)

lemma unat_i64: "k < 2 ^ 63 \<Longrightarrow> unat (word_of_nat k :: i64) = k"
  by (simp add: unat_u64)

lemma sint_i64_nat: "k < 2 ^ 63 \<Longrightarrow> sint (word_of_nat k :: i64) = int k"
  using sint_i64 [of "int k"] by simp

lemma display_number: "k < 2 ^ 63 \<Longrightarrow> nasl_display (NNumber (word_of_nat k)) = show_nat k"
  by (simp add: sint_i64_nat show_int_def)

lemma and_31: "(w AND 31 :: i64) = take_bit 5 w"
  by (simp add: take_bit_eq_mask mask_eq_exp_minus_1)

lemma shift_amount: "k < 32 \<Longrightarrow> unat (word_of_nat k AND 31 :: i64) = k"
  by (simp add: and_31 unsigned_take_bit_eq unsigned_of_nat take_bit_nat_eq_self)

lemma power_two_bound: "k < 16 \<Longrightarrow> (2 :: nat) ^ k < 2 ^ 16"
  by (simp only: power_strict_increasing_iff)

lemma unsigned_shr_assign_product:
  assumes "unat x < 2 ^ 16" "k < 16"
  shows "unsigned_shr_assign x (word_of_nat k) = word_of_nat (unat x * 2 ^ k)"
proof -
  have "unat x * 2 ^ k < 2 ^ 16 * 2 ^ 16" using assms power_two_bound by (intro mult_strict_mono) simp_all
  then have b: "unat x * 2 ^ k < 2 ^ 32" by simp
  have x: "take_bit 32 (unat x) = unat x" using assms(1) by (simp add: take_bit_nat_eq_self)
  have "unat (push_bit k (ucast x :: 32 word)) = take_bit 32 (push_bit k (unat x))"
    by (simp add: unsigned_push_bit_eq unsigned_ucast_eq x)
  also have "\<dots> = unat x * 2 ^ k" using b by (simp only: push_bit_eq_mult take_bit_nat_eq_self)
  finally have p: "unat (push_bit k (ucast x :: 32 word)) = unat x * 2 ^ k" .
  have "unat (unsigned_shr_assign x (word_of_nat k)) = take_bit 64 (unat x * 2 ^ k)"
    using assms(2) by (simp add: unsigned_shr_assign_def shift_amount unsigned_ucast_eq p)
  also have "\<dots> = unat x * 2 ^ k" using b by (simp add: take_bit_nat_eq_self)
  finally have "unat (unsigned_shr_assign x (word_of_nat k)) = unat x * 2 ^ k" .
  then have "word_of_nat (unat (unsigned_shr_assign x (word_of_nat k))) = (word_of_nat (unat x * 2 ^ k) :: i64)" by (simp only:)
  then show ?thesis by simp
qed

lemma unsigned_shr_quotient:
  assumes "unat x < 2 ^ 16" "k < 16"
  shows "unsigned_shr x (word_of_nat k) = word_of_nat (unat x div 2 ^ k)"
proof -
  let ?y = "drop_bit k (ucast x :: 32 word)"
  have x: "take_bit 32 (unat x) = unat x" using assms(1) by (simp add: take_bit_nat_eq_self)
  have "unat ?y = drop_bit k (unat x)" by (simp add: unsigned_drop_bit_eq unsigned_ucast_eq x)
  then have y: "unat ?y = unat x div 2 ^ k" by (simp only: drop_bit_eq_div)
  have "unat ?y < 2 ^ 16" unfolding y by (rule le_less_trans [OF div_le_dividend assms(1)])
  then have "unat ?y < 65536" by simp
  then have "uint ?y < 2147483648" "- 2147483648 \<le> uint ?y" unfolding uint_nat by linarith+
  then have "sint ?y = int (unat ?y)"
    using signed_take_bit_int_eq_self [of 31 "uint ?y"] by (simp add: sint_uint)
  then show ?thesis using assms(2) y by (simp add: unsigned_shr_def shift_amount scast_eq)
qed

text \<open>Elements of arrays and dictionaries.\<close>

lemma array_element: "k < 2 ^ 63 \<Longrightarrow> element (NArray xs) (NNumber (word_of_nat k)) = (if k < length xs then xs ! k else NNull)"
  by (simp add: element_def unat_i64 Let_def)

lemma dict_element: "k < 2 ^ 63 \<Longrightarrow> element (NDict ds) (NNumber (word_of_nat k)) = (case map_of ds (show_nat k) of Some y \<Rightarrow> y | None \<Rightarrow> NNull)"
  by (simp add: element_def display_number del: nasl_display.simps)

lemma prepare_array_elements:
  assumes "k < 2 ^ 63" "prepare_array (NNumber (word_of_nat k)) (NArray xs) = (i, arr)"
  shows "i = k" "k < length arr" "j < length arr \<Longrightarrow> arr ! j = (if j < length xs then xs ! j else NNull)" "length xs \<le> length arr"
proof -
  have "(word_of_nat k + 1 :: i64) = word_of_nat (Suc k)" by (simp add: add.commute)
  moreover have "Suc k < 2 ^ 64" using assms(1) by simp
  ultimately have "unat (word_of_nat k + 1 :: i64) = Suc k" using unat_u64 by (simp only:)
  then have arr: "i = k" "arr = xs @ replicate (Suc k - length xs) NNull"
    using assms by (auto simp: prepare_array_def Let_def unat_i64)
  then show "i = k" "k < length arr" "j < length arr \<Longrightarrow> arr ! j = (if j < length xs then xs ! j else NNull)" "length xs \<le> length arr"
    by (simp_all add: nth_append)
qed

lemma prepare_dict_element:
  "left = NArray xs \<or> left = NDict ds \<Longrightarrow> j < 2 ^ 63
    \<Longrightarrow> element (NDict (prepare_dict left)) (NNumber (word_of_nat j)) = element left (NNumber (word_of_nat j))"
  by (auto simp: prepare_dict_def dict_element array_element map_of_enumerated)

lemma dict_update_element:
  "j < 2 ^ 63 \<Longrightarrow> show_nat j \<noteq> key
    \<Longrightarrow> element (NDict (AList.update key v ds)) (NNumber (word_of_nat j)) = element (NDict ds) (NNumber (word_of_nat j))"
  by (simp add: dict_element update_conv')

section \<open>Properties\<close>



text \<open>Adding data to data does not join the bytes: the bytes are read as characters and written as UTF-8,
  so the sum is the concatenation exactly when all bytes are ASCII; every other byte becomes two.\<close>

theorem data_sum_exact:
  "\<exists>ds. operator_plus (NData a) (Some (NData b)) = Inr (NData ds)
    \<and> (ds = a @ b \<longleftrightarrow> list_all (\<lambda>x. unat x < 128) (a @ b))
    \<and> length ds = length (a @ b) + length (filter (\<lambda>x. 128 \<le> unat x) (a @ b))"
  by (simp add: operator_plus_def add_left_right_data_def opt_display_def del: list_all_append flip: chars_append)
    (simp add: as_bytes_chars_eq_iff length_as_bytes_chars del: list_all_append)

text \<open>The assignment \<open>>>>=\<close> multiplies where the operator \<open>>>>\<close> divides: for numbers below \<open>2 ^ 16\<close> and
  shifts below 16 the one gives the product with the power of two, the other the quotient.\<close>

theorem unsigned_shift_assign_shifts_left:
  assumes "unat x < 2 ^ 16" "k < 16"
  shows "\<exists>f g. assign_value GreaterGreaterGreaterEqual = Some f \<and> operator_value regex GreaterGreaterGreater = Some g
    \<and> f (NNumber x) (NNumber (word_of_nat k)) = Ret (NNumber (word_of_nat (unat x * 2 ^ k)))
    \<and> g (NNumber x) (Some (NNumber (word_of_nat k))) = Ret (Inr (NNumber (word_of_nat (unat x div 2 ^ k))))"
  using unsigned_shr_assign_product [OF assms] unsigned_shr_quotient [OF assms]
  by (simp add: assign_value_def operator_value_def assign_number_def num_expr_def as_i64_def del: of_nat_mult)

theorem unsigned_shift_assign_shifts_left_witness:
  "\<exists>f g. assign_value GreaterGreaterGreaterEqual = Some f \<and> operator_value (\<lambda>_. None) GreaterGreaterGreater = Some g
    \<and> f (NNumber 20) (NNumber 2) = Ret (NNumber 80)
    \<and> g (NNumber 20) (Some (NNumber 2)) = Ret (Inr (NNumber 5))"
  using unsigned_shift_assign_shifts_left [of 20 2 "\<lambda>_. None"] by simp

text \<open>An element that is assigned to an array or a dictionary is found under its index, and the elements at
  the other numbers are as before, even when a text as the index turns the array into a dictionary; no
  such assignment panics.\<close>

theorem assigned_element:
  assumes "left = NArray xs \<or> left = NDict ds"
    and "idx = NString key \<or> (\<exists>k < 2 ^ 63. idx = NNumber (word_of_nat k))"
  shows "\<exists>returned stored. assigned order (Some idx) left right (\<lambda>_ r. Ret r) = Ret (returned, stored)
    \<and> element stored idx = right
    \<and> (\<forall>j < 2 ^ 63. show_nat j \<noteq> nasl_display idx
        \<longrightarrow> element stored (NNumber (word_of_nat j)) = element left (NNumber (word_of_nat j)))"
proof -
  have dict: "\<exists>returned stored. handle_dict (nasl_display idx) left right order (\<lambda>_ r. Ret r) = Ret (returned, stored)
    \<and> element stored idx = right
    \<and> (\<forall>j < 2 ^ 63. show_nat j \<noteq> nasl_display idx
        \<longrightarrow> element stored (NNumber (word_of_nat j)) = element left (NNumber (word_of_nat j)))"
    using prepare_dict_element [OF assms(1)] by (simp add: handle_dict_def Let_def dict_update_element) (simp add: element_def update_conv')
  show ?thesis
  proof (cases "\<exists>k < 2 ^ 63. idx = NNumber (word_of_nat k) \<and> left = NArray xs")
    case True
    then obtain k where k: "k < 2 ^ 63" "idx = NNumber (word_of_nat k)" "left = NArray xs" by blast
    obtain i arr where p: "prepare_array idx left = (i, arr)" by fastforce
    note a = prepare_array_elements [OF k(1) p [unfolded k(2,3)]]
    have "element (NArray (arr[k := right])) (NNumber (word_of_nat j)) = element left (NNumber (word_of_nat j))"
      if "j < 2 ^ 63" "show_nat j \<noteq> show_nat k" for j
      using that a(3) [of j] a(4) by (auto simp: k(3) array_element show_nat_inject)
    then show ?thesis using a(1,2) p k
      by (simp add: assigned_def handle_array_def array_element display_number del: nasl_display.simps)
  next
    case False
    then have "assigned order (Some idx) left right (\<lambda>_ r. Ret r) = handle_dict (nasl_display idx) left right order (\<lambda>_ r. Ret r)"
      using assms by (auto simp: assigned_def)
    then show ?thesis using dict by (simp only:)
  qed
qed

theorem assigned_element_witness:
  "\<exists>returned stored. assigned AssignReturn (Some (NString ''b'')) (NArray [NNumber 7]) NNull (\<lambda>_ r. Ret r) = Ret (returned, stored)
    \<and> element stored (NString ''b'') = NNull \<and> element stored (NNumber (word_of_nat 0)) = element (NArray [NNumber 7]) (NNumber (word_of_nat 0))"
proof -
  have "\<not> list_all is_ascii_digit ''b''" by (simp add: is_ascii_digit_def)
  then have "show_nat 0 \<noteq> ''b''" using show_nat_digits [of 0] by metis
  moreover obtain returned stored where r:
      "assigned AssignReturn (Some (NString ''b'')) (NArray [NNumber 7]) NNull (\<lambda>_ r. Ret r) = Ret (returned, stored)"
      "element stored (NString ''b'') = NNull"
      "\<forall>j < 2 ^ 63. show_nat j \<noteq> nasl_display (NString ''b'') \<longrightarrow>
        element stored (NNumber (word_of_nat j)) = element (NArray [NNumber 7]) (NNumber (word_of_nat j))"
    using assigned_element [of "NArray [NNumber 7]" "[NNumber 7]" "[]" "NString ''b''" "''b''" AssignReturn NNull,
        OF disjI1 [OF refl] disjI1 [OF refl]] by blast
  ultimately have "element stored (NNumber (word_of_nat 0)) = element (NArray [NNumber 7]) (NNumber (word_of_nat 0))"
    using r(3) [rule_format, of 0] by simp
  then show ?thesis using r(1,2) by blast
qed

end
