(* ===== verification/Nasl_Tokenizer.thy ===== *)
theory Nasl_Tokenizer
  imports Nasl_Token
begin

text \<open>
  Properties of the tokenizer: tokenizing ends, the tokens cover the code up to white space with the
  byte ranges, lines and columns that they carry, and a category that is printed is read back.
  \<open>tokens\<close> collects what the iterator yields.
\<close>

section \<open>Moving the cursor\<close>

fun position_after :: "nat \<times> nat \<Rightarrow> string \<Rightarrow> nat \<times> nat" where
  "position_after p [] = p"
| "position_after (l, k) (x # xs) = position_after (if x = newline then (l + 1, 1) else (l, k + 1)) xs"

lemma position_after_append: "position_after p (xs @ ys) = position_after (position_after p xs) ys"
  by (induction p xs rule: position_after.induct) auto

text \<open>A cursor has consumed a text: the text is gone from the front and the line and column follow it.\<close>

definition consumed :: "cursor \<Rightarrow> string \<Rightarrow> cursor \<Rightarrow> bool" where
  "consumed c s c' \<longleftrightarrow> c_chars c = s @ c_chars c' \<and> initial_len c' = initial_len c
    \<and> line_column c' = position_after (line_column c) s"

definition moves :: "cursor \<Rightarrow> cursor \<Rightarrow> bool" where
  "moves c c' \<longleftrightarrow> (\<exists>s. consumed c s c')"

lemma consumed_refl: "consumed c [] c"
  by (simp add: consumed_def)

lemma consumed_trans: "consumed c s c' \<Longrightarrow> consumed c' s' c'' \<Longrightarrow> consumed c (s @ s') c''"
  by (auto simp: consumed_def position_after_append)

lemma consumed_advance: "advance c = (Some x, c') \<Longrightarrow> consumed c [x] c'"
  by (auto simp: advance_def consumed_def line_column_def split: list.splits if_splits)

lemma advance_None: "advance c = (None, c') \<longleftrightarrow> c_chars c = [] \<and> c' = c"
  by (auto simp: advance_def split: list.splits if_splits)

lemma advance_Some: "c_chars c = x # xs \<Longrightarrow> \<exists>c'. advance c = (Some x, c') \<and> c_chars c' = xs \<and> initial_len c' = initial_len c"
  by (simp add: advance_def)

lemma consumed_skip_while: "consumed c (takeWhile p (c_chars c)) (skip_while p c)"
proof (induction p c rule: skip_while.induct)
  case (1 p c)
  show ?case
  proof (cases "c_chars c")
    case Nil
    then show ?thesis by (simp add: skip_while.simps is_eof_def consumed_refl)
  next
    case (Cons x xs)
    then obtain c' where c': "advance c = (Some x, c')" "c_chars c' = xs" using advance_Some by blast
    show ?thesis
    proof (cases "p x")
      case True
      have "consumed c' (takeWhile p xs) (skip_while p c')"
        using 1 True Cons c' by (simp add: peek_def is_eof_def)
      then have "consumed c ([x] @ takeWhile p xs) (skip_while p c')"
        by (rule consumed_trans [OF consumed_advance [OF c'(1)]])
      then show ?thesis using True Cons c' by (subst skip_while.simps) (simp add: peek_def is_eof_def)
    next
      case False
      then show ?thesis using Cons by (subst skip_while.simps) (simp add: peek_def consumed_refl)
    qed
  qed
qed

lemma c_chars_skip_while: "c_chars (skip_while p c) = dropWhile p (c_chars c)"
  using consumed_skip_while [of c p] unfolding consumed_def
  by (metis same_append_eq takeWhile_dropWhile_id)

lemma moves_refl [simp, intro]: "moves c c"
  using consumed_refl moves_def by blast

lemma moves_trans: "moves c c' \<Longrightarrow> moves c' c'' \<Longrightarrow> moves c c''"
  unfolding moves_def using consumed_trans by blast

lemma moves_bump: "moves c (bump c)"
proof (cases "c_chars c")
  case Nil
  then have "bump c = c" by (simp add: bump_def advance_def)
  then show ?thesis by simp
next
  case (Cons x xs)
  then show ?thesis using advance_Some consumed_advance unfolding bump_def moves_def by (metis snd_conv)
qed

lemma moves_skip_while: "moves c (skip_while p c)"
  using consumed_skip_while moves_def by blast

lemma moves_skip_data: "moves c (skip_data b c)"
proof (induction b c rule: skip_data.induct)
  case (1 b c)
  show ?case
  proof (cases "(\<not> b \<and> peek 0 c = CHR 0x27) \<or> is_eof c")
    case True
    then show ?thesis by (subst skip_data.simps) auto
  next
    case False
    then have "moves (bump c) (skip_data (\<not> b \<and> peek 0 c = CHR 0x5C) (bump c))" using 1 by (simp add: bump_def)
    then have "moves c (skip_data (\<not> b \<and> peek 0 c = CHR 0x5C) (bump c))" using moves_bump moves_trans by blast
    then show ?thesis using False by (subst skip_data.simps) (simp add: bump_def)
  qed
qed

lemmas moves_rules = moves_bump moves_skip_while moves_skip_data moves_trans [OF moves_bump moves_bump]
  moves_trans [OF moves_skip_while moves_bump] moves_trans [OF moves_bump moves_skip_while]
  moves_trans [OF moves_skip_data moves_bump] moves_trans [OF moves_skip_while moves_skip_while]
  moves_trans [OF moves_trans [OF moves_bump moves_bump] moves_bump]

lemma moves_two_symbol_token: "moves c (snd (two_symbol_token single pairs c))"
  by (auto simp: two_symbol_token_def intro: moves_rules split: option.split)

lemma moves_tokenize_greater: "moves c (snd (tokenize_greater c))"
  by (auto simp: tokenize_greater_def Let_def intro: moves_rules)

lemma moves_tokenize_less: "moves c (snd (tokenize_less c))"
  by (auto simp: tokenize_less_def Let_def intro: moves_rules)

lemma moves_tokenize_string: "moves c (snd (tokenize_string t c))"
  by (auto simp: tokenize_string_def Let_def intro: moves_rules)

lemma moves_tokenize_data: "moves c (snd (tokenize_data t c))"
  by (auto simp: tokenize_data_def Let_def intro: moves_rules)

lemma moves_tokenize_identifier: "moves c (snd (tokenize_identifier t start c))"
  by (auto simp: tokenize_identifier_def Let_def intro: moves_rules)

lemma moves_may_parse_ipv4: "moves c (snd (may_parse_ipv4 t b start c))"
proof -
  note step = moves_trans [OF _ moves_trans [OF moves_bump moves_skip_while]]
  show ?thesis by (auto simp: may_parse_ipv4_def Let_def intro: step moves_refl)
qed

lemma moves_number_base: "moves c (snd (snd (number_base start current c)))"
  by (auto simp: number_base_def intro: moves_rules)

lemma moves_tokenize_number: "moves c (snd (tokenize_number t start current c))"
proof -
  obtain b start' c' where b: "number_base start current c = (b, start', c')" by (cases "number_base start current c")
  have c': "moves c c'" using moves_number_base [of c start current] b by simp
  show ?thesis
  proof (cases b)
    case None
    then show ?thesis using c' by (simp add: tokenize_number_def b)
  next
    case (Some b')
    obtain cat c'' where i: "may_parse_ipv4 t b' start' (skip_while (verifier b') c') = (cat, c'')"
      by (cases "may_parse_ipv4 t b' start' (skip_while (verifier b') c')")
    have "moves (skip_while (verifier b') c') c''"
      using moves_may_parse_ipv4 [of "skip_while (verifier b') c'" t b' start'] i by simp
    then have "moves c c''" using c' moves_skip_while moves_trans by blast
    then show ?thesis using Some by (simp add: tokenize_number_def b i split: option.split)
  qed
qed

lemma moves_tokenize_char: "moves c (snd (tokenize_char t start x c))"
  unfolding tokenize_char_def
  by (simp add: moves_two_symbol_token moves_tokenize_greater moves_tokenize_less moves_tokenize_string
      moves_tokenize_data moves_tokenize_number moves_tokenize_identifier moves_skip_while)

lemma tokenizer_next_SomeE:
  assumes "tokenizer_next t = (Some k, t')"
  obtains s where "s \<noteq> []" "consumed (t_cursor t) (takeWhile is_whitespace (c_chars (t_cursor t)) @ s) (t_cursor t')"
    "t_code t' = t_code t" "tk_line_column k = line_column (skip_while is_whitespace (t_cursor t))"
    "tk_position k = (len_consumed (skip_while is_whitespace (t_cursor t)), len_consumed (t_cursor t'))"
proof -
  let ?c = "skip_while is_whitespace (t_cursor t)"
  obtain x c1 where a: "advance ?c = (Some x, c1)"
    using assms by (cases "advance ?c" rule: prod.exhaust; cases "fst (advance ?c)") (auto simp: tokenizer_next_def Let_def split: prod.splits option.splits)
  obtain cat c2 where tc: "tokenize_char t (len_consumed ?c) x c1 = (cat, c2)"
    by (cases "tokenize_char t (len_consumed ?c) x c1")
  have k: "k = \<lparr>tk_category = cat, tk_line_column = line_column ?c, tk_position = (len_consumed ?c, len_consumed c2)\<rparr>"
      "t' = t\<lparr>t_cursor := c2\<rparr>"
    using assms by (simp_all add: tokenizer_next_def Let_def a tc)
  obtain s where s: "consumed c1 s c2" using moves_tokenize_char [of c1 t "len_consumed ?c" x] tc by (auto simp: moves_def)
  note w = consumed_skip_while [of "t_cursor t" is_whitespace]
  have "consumed (t_cursor t) (takeWhile is_whitespace (c_chars (t_cursor t)) @ [x] @ s) c2"
    by (rule consumed_trans [OF w consumed_trans [OF consumed_advance [OF a] s]])
  then show ?thesis using k by (intro that [of "[x] @ s"]) simp_all
qed

lemma tokenizer_next_length:
  assumes "tokenizer_next t = (Some k, t')"
  shows "length (c_chars (t_cursor t')) < length (c_chars (t_cursor t))"
proof -
  obtain u where u: "u \<noteq> []" "consumed (t_cursor t) (takeWhile is_whitespace (c_chars (t_cursor t)) @ u) (t_cursor t')"
    using assms by (rule tokenizer_next_SomeE)
  have "length (c_chars (t_cursor t)) = length (takeWhile is_whitespace (c_chars (t_cursor t))) + length u + length (c_chars (t_cursor t'))"
    using u(2) unfolding consumed_def by (metis add.assoc length_append)
  then show ?thesis using u(1) by (simp add: length_greater_0_conv [symmetric] del: length_greater_0_conv)
qed

text \<open>All tokens of the iterator.\<close>

function tokens :: "tokenizer \<Rightarrow> token list" where
  "tokens t = (case tokenizer_next t of (None, _) \<Rightarrow> [] | (Some k, t') \<Rightarrow> k # tokens t')"
  by pat_completeness auto

termination
  by (relation "measure (\<lambda>t. length (c_chars (t_cursor t)))") (auto dest!: sym [of "(_, _)"] intro: tokenizer_next_length)

declare tokens.simps [simp del]

section \<open>Positions\<close>

text \<open>The tokens of a code that follows the text \<open>pre\<close>: white space, then a token with its text, and so on.\<close>

fun lexed :: "string \<Rightarrow> token list \<Rightarrow> string \<Rightarrow> bool" where
  "lexed pre [] code \<longleftrightarrow> list_all is_whitespace code"
| "lexed pre (k # ks) code \<longleftrightarrow>
    (\<exists>w text rest. code = w @ text @ rest \<and> list_all is_whitespace w \<and> text \<noteq> []
      \<and> tk_position k = (str_len (pre @ w), str_len (pre @ w @ text))
      \<and> tk_line_column k = position_after (1, 1) (pre @ w)
      \<and> lexed (pre @ w @ text) ks rest)"

definition cursor_at :: "tokenizer \<Rightarrow> string \<Rightarrow> cursor \<Rightarrow> bool" where
  "cursor_at t pre c \<longleftrightarrow> t_code t = pre @ c_chars c \<and> initial_len c = str_len (t_code t)
    \<and> line_column c = position_after (1, 1) pre"

lemma cursor_at_new: "cursor_at (new_tokenizer code) [] (new_cursor code)"
  by (simp add: cursor_at_def new_tokenizer_def new_cursor_def line_column_def)

lemma cursor_at_consumed: "cursor_at t pre c \<Longrightarrow> consumed c s c' \<Longrightarrow> cursor_at t (pre @ s) c'"
  by (simp add: cursor_at_def consumed_def position_after_append)

lemma cursor_at_len_consumed: "cursor_at t pre c \<Longrightarrow> len_consumed c = str_len pre"
  by (simp add: cursor_at_def len_consumed_def)

lemma tokenizer_next_None: "tokenizer_next t = (None, t') \<Longrightarrow> list_all is_whitespace (c_chars (t_cursor t))"
  using c_chars_skip_while [of is_whitespace "t_cursor t"]
  by (auto simp: tokenizer_next_def Let_def advance_None list_all_iff dropWhile_eq_Nil_conv
      split: prod.splits option.splits)

lemma tokens_lexed: "cursor_at t pre (t_cursor t) \<Longrightarrow> lexed pre (tokens t) (c_chars (t_cursor t))"
proof (induction t arbitrary: pre rule: tokens.induct)
  case (1 t)
  let ?w = "takeWhile is_whitespace (c_chars (t_cursor t))"
  obtain k t' where n: "tokenizer_next t = (k, t')" by (cases "tokenizer_next t")
  show ?case
  proof (cases k)
    case None
    then show ?thesis using tokenizer_next_None n by (subst tokens.simps) simp
  next
    case (Some tok)
    have next_Some: "tokenizer_next t = (Some tok, t')" using n Some by simp
    obtain u where u: "u \<noteq> []" "consumed (t_cursor t) (?w @ u) (t_cursor t')" "t_code t' = t_code t"
        "tk_line_column tok = line_column (skip_while is_whitespace (t_cursor t))"
        "tk_position tok = (len_consumed (skip_while is_whitespace (t_cursor t)), len_consumed (t_cursor t'))"
      using next_Some by (rule tokenizer_next_SomeE)
    have w: "cursor_at t (pre @ ?w) (skip_while is_whitespace (t_cursor t))"
      using cursor_at_consumed [OF "1.prems" consumed_skip_while] .
    have at: "cursor_at t (pre @ ?w @ u) (t_cursor t')" using cursor_at_consumed [OF "1.prems" u(2)] .
    have "cursor_at t' (pre @ ?w @ u) (t_cursor t')" using at u(3) by (simp add: cursor_at_def)
    then have "lexed (pre @ ?w @ u) (tokens t') (c_chars (t_cursor t'))"
      using "1.IH" [OF next_Some [symmetric]] by simp
    moreover have "c_chars (t_cursor t) = ?w @ u @ c_chars (t_cursor t')"
      using u(2) unfolding consumed_def by (metis append.assoc)
    moreover have "list_all is_whitespace ?w" by (auto simp: list_all_iff dest: set_takeWhileD)
    moreover have "tk_position tok = (str_len (pre @ ?w), str_len (pre @ ?w @ u))"
      using u(5) cursor_at_len_consumed [OF w] cursor_at_len_consumed [OF at] by simp
    moreover have "tk_line_column tok = position_after (1, 1) (pre @ ?w)"
      using u(4) w by (simp add: cursor_at_def)
    ultimately have "lexed pre (tok # tokens t') (c_chars (t_cursor t))"
      unfolding lexed.simps using u(1) by blast
    then show ?thesis using next_Some by (subst tokens.simps) simp
  qed
qed

lemma lexed_length: "lexed pre ks code \<Longrightarrow> length ks \<le> length code"
proof (induction ks arbitrary: pre code)
  case (Cons k ks)
  then obtain w x rest pre' where "code = w @ x @ rest" "x \<noteq> []" "lexed pre' ks rest" unfolding lexed.simps by blast
  then show ?case using Cons.IH [of pre' rest] by (cases x) auto
qed simp

lemma new_tokens_lexed: "lexed [] (tokens (new_tokenizer code)) code"
proof -
  have "cursor_at (new_tokenizer code) [] (t_cursor (new_tokenizer code))"
    using cursor_at_new by (simp add: new_tokenizer_def)
  then have "lexed [] (tokens (new_tokenizer code)) (c_chars (t_cursor (new_tokenizer code)))" by (rule tokens_lexed)
  then show ?thesis by (simp add: new_tokenizer_def new_cursor_def)
qed

section \<open>Reading back printed categories\<close>

lemma byte_drop_append: "byte_drop (str_len s) (s @ u) = u"
proof (induction s)
  case Nil
  then show ?case by (cases u) simp_all
next
  case (Cons x xs)
  have "utf8_len x + str_len xs \<noteq> 0" using utf8_len_pos [of x] by linarith
  then show ?case using Cons by simp
qed

lemma byte_take_append: "byte_take (str_len s) (s @ u) = s"
proof (induction s)
  case Nil
  then show ?case by (cases u) simp_all
next
  case (Cons x xs)
  have "utf8_len x + str_len xs \<noteq> 0" using utf8_len_pos [of x] by linarith
  then show ?case using Cons by simp
qed

lemma lookup_range_exact:
  assumes "t_code t = pre @ s @ post"
  shows "lookup_range t (str_len pre) (str_len (pre @ s)) = s"
  using assms byte_drop_append [of pre "s @ post"] byte_take_append [of s post] by (simp add: lookup_range_def)

text \<open>A code that is one token.\<close>

lemma tokens_single:
  assumes "code = x # xs" "\<not> is_whitespace x"
    and "\<And>c. cursor_at (new_tokenizer code) [x] c \<Longrightarrow> c_chars c = xs
      \<Longrightarrow> \<exists>c'. tokenize_char (new_tokenizer code) 0 x c = (cat, c') \<and> c_chars c' = []"
  shows "map tk_category (tokens (new_tokenizer code)) = [cat]"
proof -
  let ?t = "new_tokenizer code"
  have skip: "skip_while is_whitespace (new_cursor code) = new_cursor code"
    using assms(1,2) by (subst skip_while.simps) (simp add: peek_def new_cursor_def)
  obtain c where c: "advance (new_cursor code) = (Some x, c)" "c_chars c = xs"
    using advance_Some [of "new_cursor code" x xs] assms(1) by (auto simp: new_cursor_def)
  have "cursor_at ?t [x] c" using cursor_at_consumed [OF cursor_at_new consumed_advance [OF c(1)]] by simp
  then obtain c' where c': "tokenize_char ?t 0 x c = (cat, c')" "c_chars c' = []" using assms(3) c(2) by blast
  have zero: "len_consumed (new_cursor code) = 0" by (simp add: len_consumed_def new_cursor_def)
  obtain tok where n: "tokenizer_next ?t = (Some tok, ?t\<lparr>t_cursor := c'\<rparr>)" "tk_category tok = cat"
    using c(1) c'(1) skip zero by (simp add: tokenizer_next_def new_tokenizer_def Let_def)
  have "skip_while is_whitespace c' = c'" using c'(2) by (subst skip_while.simps) (simp add: is_eof_def)
  then have "tokenizer_next (?t\<lparr>t_cursor := c'\<rparr>) = (None, ?t\<lparr>t_cursor := c'\<rparr>)"
    using c'(2) by (simp add: tokenizer_next_def advance_def Let_def)
  then have "tokens (?t\<lparr>t_cursor := c'\<rparr>) = []" by (subst tokens.simps) simp
  then have "tokens ?t = [tok]" using n(1) by (subst tokens.simps) simp
  then show ?thesis using n(2) by simp
qed

lemma c_chars_bump [simp]: "c_chars (bump c) = tl (c_chars c)"
  by (simp add: bump_def advance_def split: list.split)

definition symbols :: "category list" where
  "symbols = [LeftParen, RightParen, LeftBrace, RightBrace, LeftCurlyBracket, RightCurlyBracket, Comma, Dot, Percent,
    PercentEqual, Semicolon, DoublePoint, Tilde, Caret, Ampersand, AmpersandAmpersand, Pipe, PipePipe, Bang, BangEqual,
    BangTilde, Equal, EqualEqual, EqualTilde, Greater, GreaterGreater, GreaterEqual, GreaterLess, Less, LessLess,
    LessEqual, Minus, MinusMinus, MinusEqual, Plus, PlusEqual, PlusPlus, Slash, SlashEqual, Star, StarStar, StarEqual,
    GreaterGreaterGreater, GreaterGreaterEqual, LessLessEqual, GreaterBangLess, GreaterGreaterGreaterEqual]"

lemmas symbol_eval = tokenize_char_def two_symbol_token_def tokenize_greater_def tokenize_less_def peek_def EOF_CHAR_def Let_def

lemma symbols_roundtrip: "cat \<in> set symbols \<Longrightarrow> map tk_category (tokens (new_tokenizer (category_display cat))) = [cat]"
  unfolding symbols_def
  by (simp only: list.set insert_iff empty_iff, elim disjE FalseE; hypsubst, rule tokens_single, simp,
      simp add: char_class_simps, simp add: symbol_eval)

text \<open>Strings.\<close>

lemma until_char:
  assumes "a \<notin> set s"
  shows "takeWhile (\<lambda>x. x \<noteq> a) (s @ a # u) = s" "dropWhile (\<lambda>x. x \<noteq> a) (s @ a # u) = a # u"
  using assms by (induction s) auto

lemma string_roundtrip:
  assumes "CHR 0x22 \<notin> set s"
  shows "map tk_category (tokens (new_tokenizer (category_display (StringLit s)))) = [StringLit s]"
proof (rule tokens_single)
  let ?code = "category_display (StringLit s)"
  let ?t = "new_tokenizer ?code"
  fix c
  assume c: "cursor_at ?t [CHR 0x22] c" "c_chars c = s @ [CHR 0x22]"
  have take: "takeWhile (\<lambda>x. x \<noteq> CHR 0x22) (c_chars c) = s" using until_char [OF assms, of "[]"] c(2) by simp
  have at: "cursor_at ?t ([CHR 0x22] @ s) (skip_while (\<lambda>x. x \<noteq> CHR 0x22) c)"
    using cursor_at_consumed [OF c(1) consumed_skip_while] take by metis
  have rest: "c_chars (skip_while (\<lambda>x. x \<noteq> CHR 0x22) c) = [CHR 0x22]"
    using until_char [OF assms, of "[]"] c(2) by (simp add: c_chars_skip_while)
  have "lookup_range ?t (str_len [CHR 0x22]) (str_len ([CHR 0x22] @ s)) = s"
    by (rule lookup_range_exact [where post = "[CHR 0x22]"]) (simp add: new_tokenizer_def)
  then have "tokenize_string ?t c = (StringLit s, bump (skip_while (\<lambda>x. x \<noteq> CHR 0x22) c))"
    using rest cursor_at_len_consumed [OF c(1)] cursor_at_len_consumed [OF at]
    by (simp add: tokenize_string_def is_eof_def)
  then show "\<exists>c'. tokenize_char ?t 0 (CHR 0x22) c = (StringLit s, c') \<and> c_chars c' = []"
    using rest by (simp add: tokenize_char_def)
qed (simp_all add: char_class_simps)

text \<open>Numbers.\<close>

lemma show_nat_leading_zero: "hd (show_nat n) = CHR ''0'' \<Longrightarrow> n = 0"
proof (induction n rule: show_nat.induct)
  case (1 n)
  show ?case
  proof (cases "n < 10")
    case True
    then have "of_char (hd (show_nat n)) = 48 + n" by (simp add: show_nat_small of_char_char_of_digit)
    then show ?thesis using "1.prems" by simp
  next
    case False
    then have "hd (show_nat n) = hd (show_nat (n div 10))" using show_nat_digits by (simp add: show_nat_step)
    then show ?thesis using 1 False by simp
  qed
qed

lemma radix_val_digits: "list_all is_ascii_digit s \<Longrightarrow> radix_val 10 s = dec_val s"
proof -
  have "foldl (\<lambda>acc c. acc * 10 + hex_digit_val c) a s = foldl (\<lambda>acc c. acc * 10 + digit_val c) a s"
    if "list_all is_ascii_digit s" for a
    using that by (induction s arbitrary: a) (simp_all add: hex_digit_val_def digit_val_def is_ascii_digit_def Let_def)
  then show "list_all is_ascii_digit s \<Longrightarrow> ?thesis" by (simp add: radix_val_def dec_val_def)
qed

lemma from_str_radix_show_nat:
  assumes "n < 2 ^ 63"
  shows "from_str_radix (show_nat n) 10 = Some (int n)"
proof -
  have d: "list_all is_ascii_digit (show_nat n)" "show_nat n \<noteq> []" using show_nat_digits by auto
  have "list_all (\<lambda>c. is_ascii_hexdigit c \<and> hex_digit_val c < 10) (show_nat n)"
    using d(1) by (auto simp: list_all_iff is_ascii_hexdigit_def hex_digit_val_def is_ascii_digit_def Let_def)
  then show ?thesis using d assms radix_val_digits [OF d(1)] by (simp add: from_str_radix_def)
qed

lemma digit_not_symbol:
  assumes "is_ascii_digit x"
  shows "x \<notin> set ''()[]{},.#-+%;/*:~&|^!=><'' \<and> x \<noteq> CHR 0x22 \<and> x \<noteq> CHR 0x27"
proof -
  have "of_char x \<notin> set (map of_char (''()[]{},.#-+%;/*:~&|^!=><'' @ [CHR 0x22, CHR 0x27]) :: nat list)"
    using assms unfolding is_ascii_digit_def Let_def by simp
  then show ?thesis by auto
qed

lemma number_roundtrip:
  assumes "0 \<le> n" "n < 2 ^ 63"
  shows "map tk_category (tokens (new_tokenizer (category_display (NumberLit n)))) = [NumberLit n]"
proof -
  define code where "code = show_nat (nat n)"
  have code: "category_display (NumberLit n) = code" using assms(1) by (simp add: code_def show_int_def)
  have digits: "list_all is_ascii_digit code" "code \<noteq> []" using show_nat_digits by (auto simp: code_def)
  obtain x xs where x: "code = x # xs" using digits(2) by (cases code) auto
  have xd: "is_ascii_digit x" "list_all is_ascii_digit xs" using digits(1) x by auto
  let ?t = "new_tokenizer code"
  have "map tk_category (tokens ?t) = [NumberLit n]"
  proof (rule tokens_single [OF x])
    show "\<not> is_whitespace x" using xd(1) by (auto simp: char_class_simps)
    fix c
    assume c: "cursor_at ?t [x] c" "c_chars c = xs"
    have b: "number_base 0 x c = (Some Base10, 0, c)"
    proof (cases "x = CHR ''0''")
      case True
      then have "nat n = 0" using show_nat_leading_zero [of "nat n"] x by (simp add: code_def)
      then have "xs = []" using x by (simp add: code_def show_nat_small)
      then show ?thesis using True c(2) by (simp add: number_base_def peek_def EOF_CHAR_def char_class_simps)
    qed (simp add: number_base_def)
    define c' where "c' = skip_while is_ascii_digit c"
    have take: "takeWhile is_ascii_digit (c_chars c) = xs" "c_chars c' = []"
      using xd(2) c(2) by (simp_all add: c'_def c_chars_skip_while takeWhile_eq_all_conv list_all_iff dropWhile_eq_Nil_conv)
    have at: "cursor_at ?t code c'"
      using cursor_at_consumed [OF c(1) consumed_skip_while [of c is_ascii_digit]] take x by (simp add: c'_def)
    have ip: "may_parse_ipv4 ?t Base10 0 c' = (None, c')" using take(2) by (simp add: may_parse_ipv4_def peek_def EOF_CHAR_def)
    have "lookup_range ?t (str_len []) (str_len ([] @ code)) = code"
      by (rule lookup_range_exact [where post = "[]"]) (simp add: new_tokenizer_def)
    then have "from_str_radix (lookup_range ?t 0 (len_consumed c')) (radix Base10) = Some n"
      using from_str_radix_show_nat [of "nat n"] assms cursor_at_len_consumed [OF at]
      by (simp add: code_def nat_less_iff)
    moreover have "len_consumed c' \<noteq> 0" using cursor_at_len_consumed [OF at] digits(2) by simp
    moreover have "verifier Base10 = is_ascii_digit" by (rule ext) simp
    ultimately have "tokenize_number ?t 0 x c = (NumberLit n, c')"
      using ip by (simp add: tokenize_number_def b c'_def [symmetric])
    moreover have "tokenize_char ?t 0 x c = tokenize_number ?t 0 x c"
      using xd(1) digit_not_symbol [OF xd(1)] by (simp add: tokenize_char_def)
    ultimately show "\<exists>c'. tokenize_char ?t 0 x c = (NumberLit n, c') \<and> c_chars c' = []" using take(2) by simp
  qed
  then show ?thesis unfolding code .
qed

text \<open>Identifiers and keywords.\<close>

fun is_identifier :: "string \<Rightarrow> bool" where
  "is_identifier [] \<longleftrightarrow> False"
| "is_identifier (x # xs) \<longleftrightarrow> (is_alphabetic x \<or> x = CHR ''_'') \<and> list_all identifier_char xs"

lemma identifier_start_not_symbol:
  assumes "is_alphabetic x \<or> x = CHR ''_''"
  shows "x \<notin> set ''()[]{},.#-+%;/*:~&|^!=><'' \<and> x \<noteq> CHR 0x22 \<and> x \<noteq> CHR 0x27 \<and> \<not> is_ascii_digit x \<and> \<not> is_whitespace x"
proof -
  have n: "of_char x = (95 :: nat) \<or> 65 \<le> (of_char x :: nat) \<and> of_char x \<le> (90 :: nat)
      \<or> 97 \<le> (of_char x :: nat) \<and> of_char x \<le> (122 :: nat) \<or> 170 = (of_char x :: nat) \<or> 181 \<le> (of_char x :: nat)"
    using assms unfolding is_alphabetic_def Let_def by auto
  have "of_char x \<notin> set (map of_char (''()[]{},.#-+%;/*:~&|^!=><'' @ [CHR 0x22, CHR 0x27]) :: nat list)"
    using n by simp linarith
  moreover have "\<not> is_ascii_digit x" using n unfolding is_ascii_digit_def Let_def by auto
  moreover have "\<not> is_whitespace x" using n unfolding is_whitespace_def Let_def by auto
  ultimately show ?thesis by auto
qed

lemma identifier_new_x: "identifier_new ''x'' = Undefined ''x''"
  by (simp add: identifier_new_def keyword_table_def)

lemma identifier_text_roundtrip:
  assumes "is_identifier code"
  shows "map tk_category (tokens (new_tokenizer code)) = [Identifier (identifier_new code)]"
proof -
  obtain x xs where x: "code = x # xs" "is_alphabetic x \<or> x = CHR ''_''" "list_all identifier_char xs"
    using assms by (cases code) auto
  note not_symbol = identifier_start_not_symbol [OF x(2)]
  let ?t = "new_tokenizer code"
  show ?thesis
  proof (rule tokens_single [OF x(1)])
    show "\<not> is_whitespace x" using not_symbol by simp
    fix c
    assume c: "cursor_at ?t [x] c" "c_chars c = xs"
    define c' where "c' = skip_while identifier_char c"
    have take: "takeWhile identifier_char (c_chars c) = xs" "c_chars c' = []"
      using x(3) c(2) by (simp_all add: c'_def c_chars_skip_while takeWhile_eq_all_conv list_all_iff dropWhile_eq_Nil_conv)
    have at: "cursor_at ?t code c'"
      using cursor_at_consumed [OF c(1) consumed_skip_while [of c identifier_char]] take x(1) by (simp add: c'_def)
    have "lookup_range ?t (str_len []) (str_len ([] @ code)) = code"
      by (rule lookup_range_exact [where post = "[]"]) (simp add: new_tokenizer_def)
    then have name: "lookup_range ?t 0 (len_consumed c') = code" using cursor_at_len_consumed [OF at] by simp
    have skip: "skip_while is_whitespace c' = c'" using take(2) by (subst skip_while.simps) (simp add: is_eof_def)
    have "tokenize_identifier ?t 0 c = (Identifier (identifier_new code), c')"
      using take(2) name by (auto simp: tokenize_identifier_def c'_def [symmetric] Let_def skip identifier_new_x peek_def
          EOF_CHAR_def is_numeric_def)
    moreover have "tokenize_char ?t 0 x c = tokenize_identifier ?t 0 c"
      using not_symbol x(2) by (simp add: tokenize_char_def)
    ultimately show "\<exists>c'. tokenize_char ?t 0 x c = (Identifier (identifier_new code), c') \<and> c_chars c' = []"
      using take(2) by simp
  qed
qed

lemma keyword_roundtrip:
  assumes "(text, k) \<in> set keyword_table"
  shows "identifier_display k = text \<and> identifier_new text = k \<and> is_identifier text"
  using assms unfolding keyword_table_def
  by (simp only: list.set insert_iff empty_iff prod.inject, elim disjE FalseE conjE; hypsubst,
      simp add: identifier_display_def identifier_new_def keyword_table_def identifier_char_def char_class_simps)

lemma undefined_display: "identifier_display (Undefined s) = s"
  by (simp add: identifier_display_def keyword_table_def)

definition printable :: "category \<Rightarrow> bool" where
  "printable cat \<longleftrightarrow> cat \<in> set symbols \<or> cat \<in> (\<lambda>(_, k). Identifier k) ` set keyword_table
    \<or> (\<exists>s. cat = Identifier (Undefined s) \<and> is_identifier s \<and> map_of keyword_table s = None)
    \<or> (\<exists>s. cat = StringLit s \<and> CHR 0x22 \<notin> set s)
    \<or> (\<exists>n. cat = NumberLit n \<and> 0 \<le> n \<and> n < 2 ^ 63)"

section \<open>Properties\<close>

text \<open>C10: Tokenizing a code ends with at most as many tokens as it has characters, and loses nothing: the
  code is white space and the texts of the tokens in turn, and every token carries the byte range of its
  text and the line and column where it starts.\<close>

theorem tokens_cover_code:
  "lexed [] (tokens (new_tokenizer code)) code \<and> length (tokens (new_tokenizer code)) \<le> length code"
  using new_tokens_lexed lexed_length by blast

text \<open>The printed form of an operator, of a keyword or identifier, of a string without quotes and of a
  number that fits into 63 bits is read back as this one token.\<close>

theorem category_roundtrip:
  assumes "printable cat"
  shows "map tk_category (tokens (new_tokenizer (category_display cat))) = [cat]"
  using assms unfolding printable_def
proof (elim disjE exE conjE)
  assume "cat \<in> (\<lambda>(_, k). Identifier k) ` set keyword_table"
  then obtain name k where k: "cat = Identifier k" "(name, k) \<in> set keyword_table" by auto
  show ?thesis using identifier_text_roundtrip [of name] keyword_roundtrip [OF k(2)] by (simp add: k(1))
next
  fix s
  assume s: "cat = Identifier (Undefined s)" "is_identifier s" "map_of keyword_table s = None"
  show ?thesis using identifier_text_roundtrip [OF s(2)] s(1,3) by (simp add: undefined_display identifier_new_def)
next
  fix s
  assume "cat = StringLit s" "CHR 0x22 \<notin> set s"
  then show ?thesis using string_roundtrip by metis
next
  fix n
  assume "cat = NumberLit n" "0 \<le> n" "n < 2 ^ 63"
  then show ?thesis using number_roundtrip by metis
qed (rule symbols_roundtrip)

theorem category_roundtrip_witness:
  "map tk_category (tokens (new_tokenizer (category_display (NumberLit 42)))) = [NumberLit 42]
   \<and> map tk_category (tokens (new_tokenizer (category_display GreaterGreaterGreaterEqual))) = [GreaterGreaterGreaterEqual]"
  using category_roundtrip [of "NumberLit 42"] category_roundtrip [of GreaterGreaterGreaterEqual]
  by (simp add: printable_def symbols_def del: category_display.simps)

text \<open>The escapes of a data literal are replaced one kind after the other instead of from left to right:
  the literal of an escaped back slash followed by the letter n yields a back slash and a line feed,
  not a back slash and an n.\<close>

theorem data_escapes_overlap:
  "map tk_category (tokens (new_tokenizer [CHR 0x27, CHR 0x5C, CHR 0x5C, CHR ''n'', CHR 0x27])) =
    [DataLit [0x5C, 0x0A]]"
proof -
  let ?code = "[CHR 0x27, CHR 0x5C, CHR 0x5C, CHR ''n'', CHR 0x27]"
  let ?t = "new_tokenizer ?code"
  have unescape: "as_bytes (unescape [CHR 0x5C, CHR 0x5C, CHR ''n'']) = [0x5C, 0x0A]"
    by (simp add: unescape_def as_bytes_def utf8_char_def)
  show ?thesis
  proof (rule tokens_single)
    fix c
    assume c: "cursor_at ?t [CHR 0x27] c" "c_chars c = [CHR 0x5C, CHR 0x5C, CHR ''n'', CHR 0x27]"
    define c' where "c' = bump (bump (bump c))"
    have skip: "skip_data False c = c'"
      using c(2) by (simp add: skip_data.simps peek_def is_eof_def c'_def bump_def [symmetric])
    have "consumed c [CHR 0x5C, CHR 0x5C, CHR ''n''] c'"
      using c(2) by (simp add: c'_def bump_def advance_def consumed_def line_column_def)
    then have at: "cursor_at ?t ([CHR 0x27] @ [CHR 0x5C, CHR 0x5C, CHR ''n'']) c'" by (rule cursor_at_consumed [OF c(1)])
    have "lookup_range ?t (str_len [CHR 0x27]) (str_len ([CHR 0x27] @ [CHR 0x5C, CHR 0x5C, CHR ''n''])) = [CHR 0x5C, CHR 0x5C, CHR ''n'']"
      by (rule lookup_range_exact [where post = "[CHR 0x27]"]) (simp add: new_tokenizer_def)
    then have "tokenize_data ?t c = (DataLit [0x5C, 0x0A], bump c')"
      using cursor_at_len_consumed [OF c(1)] cursor_at_len_consumed [OF at] c(2) unescape
      by (simp add: tokenize_data_def skip is_eof_def c'_def)
    then show "\<exists>c'. tokenize_char ?t 0 (CHR 0x27) c = (DataLit [0x5C, 0x0A], c') \<and> c_chars c' = []"
      using c(2) by (simp add: tokenize_char_def c'_def)
  qed (simp_all add: char_class_simps)
qed

end
