(* ===== verification/Nasl_Lexer.thy ===== *)
theory Nasl_Lexer
  imports Nasl_Statement Nasl_Tokenizer
begin

text \<open>
  The parser of NASL: src/rust/src/nasl/syntax/lexer.rs with its extensions prefix_extension.rs,
  grouping_extension.rs and keyword_extension.rs.

  A parser is a function of the lexer that returns an error or a value with the lexer after it; the
  lexer is also there after an error, since the iterator goes on. The lexer holds the tokens that are
  left without comments, which \<open>Lexer::token\<close> and \<open>Lexer::peek\<close> skip, and the counter \<open>depth\<close>.

  The methods of the code call each other through \<open>Lexer::statement\<close>. Every method takes this one
  as the argument \<open>stmt\<close>; \<open>statement\<close> ties the knot with a bound on the nesting of calls, and the
  loops have a bound on their rounds. \<open>None\<close> says that a bound was too small; the lemmas show that
  this never happens, because every call takes a token first.
\<close>

section \<open>Parsers\<close>

record lexer =
  lx_tokens :: "token list"
  lx_depth :: nat

datatype lx_end = Done token | Cont

type_synonym 'a parser = "lexer \<Rightarrow> ((error_kind + 'a) \<times> lexer) option"

type_synonym statement_parser = "nat \<Rightarrow> (category \<Rightarrow> bool) \<Rightarrow> (lx_end \<times> statement) parser"

definition p_ok :: "'a \<Rightarrow> 'a parser" where
  "p_ok x lx = Some (Inr x, lx)"

definition p_err :: "error_kind \<Rightarrow> 'a parser" where
  "p_err e lx = Some (Inl e, lx)"

definition p_bind :: "'a parser \<Rightarrow> ('a \<Rightarrow> 'b parser) \<Rightarrow> 'b parser" where
  "p_bind p f lx =
    (case p lx of
       None \<Rightarrow> None
     | Some (Inl e, lx) \<Rightarrow> Some (Inl e, lx)
     | Some (Inr x, lx) \<Rightarrow> f x lx)"

definition p_lift :: "error_kind + 'a \<Rightarrow> 'a parser" where
  "p_lift r lx = Some (r, lx)"

definition p_map_err :: "(error_kind \<Rightarrow> error_kind) \<Rightarrow> 'a parser \<Rightarrow> 'a parser" where
  "p_map_err f p lx =
    (case p lx of Some (Inl e, lx) \<Rightarrow> Some (Inl (f e), lx) | r \<Rightarrow> r)"

definition reset_depth :: "unit parser" where
  "reset_depth lx = Some (Inr (), lx\<lparr>lx_depth := 0\<rparr>)"

definition lx_token :: "token option parser" where
  "lx_token lx =
    (case lx_tokens lx of
       [] \<Rightarrow> Some (Inr None, lx)
     | t # ts \<Rightarrow> Some (Inr (Some t), lx\<lparr>lx_tokens := ts\<rparr>))"

definition lx_peek :: "token option parser" where
  "lx_peek lx = Some (Inr (case lx_tokens lx of [] \<Rightarrow> None | t # _ \<Rightarrow> Some t), lx)"

text \<open>\<open>self.token().ok_or_else(unexpected_end)\<close>.\<close>

definition next_token :: "token parser" where
  "next_token = p_bind lx_token (\<lambda>t. case t of None \<Rightarrow> p_err UnexpectedEoF | Some t \<Rightarrow> p_ok t)"

definition MAX_DEPTH :: nat where
  "MAX_DEPTH = 42"

section \<open>Groups\<close>

fun comma_group_loop :: "statement_parser \<Rightarrow> category \<Rightarrow> nat \<Rightarrow> statement list \<Rightarrow> (lx_end \<times> statement list) parser" where
  "comma_group_loop stmt category 0 params = (\<lambda>_. None)"
| "comma_group_loop stmt category (Suc n) params =
    p_bind lx_peek (\<lambda>t. case t of
      None \<Rightarrow> p_ok (Cont, params)
    | Some token \<Rightarrow>
        if tk_category token = category then p_bind lx_token (\<lambda>_. p_ok (Done token, params))
        else p_bind (stmt 0 (\<lambda>c. c = category \<or> c = Comma)) (\<lambda>(stmtend, param).
          let params = (case st_kind param of Parameter nparams \<Rightarrow> params @ nparams | _ \<Rightarrow> params @ [param]) in
          case stmtend of
            Done endcat \<Rightarrow> if tk_category endcat = category then p_ok (Done endcat, params)
              else comma_group_loop stmt category n params
          | Cont \<Rightarrow> comma_group_loop stmt category n params))"

definition parse_comma_group :: "statement_parser \<Rightarrow> category \<Rightarrow> (lx_end \<times> statement list) parser" where
  "parse_comma_group stmt category lx = comma_group_loop stmt category (Suc (length (lx_tokens lx))) [] lx"

definition parse_paren :: "statement_parser \<Rightarrow> token \<Rightarrow> statement parser" where
  "parse_paren stmt token =
    p_bind (stmt 0 (\<lambda>c. c = RightParen)) (\<lambda>(end, right).
      case end of
        Done end \<Rightarrow> p_bind reset_depth (\<lambda>_. p_ok
          (case st_kind right of
             Assign cat _ first second \<Rightarrow> with_start_end_token token end (Assign cat AssignReturn first second)
           | _ \<Rightarrow> right))
      | Cont \<Rightarrow> p_err (UnclosedToken token))"

fun block_loop :: "statement_parser \<Rightarrow> token \<Rightarrow> nat \<Rightarrow> statement list \<Rightarrow> statement parser" where
  "block_loop stmt kw 0 results = (\<lambda>_. None)"
| "block_loop stmt kw (Suc n) results =
    p_bind lx_peek (\<lambda>t. case t of
      None \<Rightarrow> p_err (UnclosedToken kw)
    | Some token \<Rightarrow>
        if tk_category token = RightCurlyBracket then
          p_bind lx_token (\<lambda>_. p_bind reset_depth (\<lambda>_. p_ok (with_start_end_token kw token (Block results))))
        else p_bind (stmt 0 (\<lambda>c. c = Semicolon)) (\<lambda>(end, s).
          block_loop stmt kw n (if end \<noteq> Cont \<and> st_kind s \<noteq> NoOp then results @ [s] else results)))"

definition parse_block :: "statement_parser \<Rightarrow> token \<Rightarrow> statement parser" where
  "parse_block stmt kw lx = block_loop stmt kw (Suc (length (lx_tokens lx))) [] lx"

definition parse_grouping :: "statement_parser \<Rightarrow> token \<Rightarrow> (lx_end \<times> statement) parser" where
  "parse_grouping stmt token =
    (if tk_category token = LeftParen then p_bind (parse_paren stmt token) (\<lambda>s. p_ok (Cont, s))
     else if tk_category token = LeftCurlyBracket then
       p_bind (parse_block stmt token) (\<lambda>s. p_ok (Done (st_end s), s))
     else if tk_category token = LeftBrace then
       p_bind (parse_comma_group stmt RightBrace) (\<lambda>(end, right).
         case end of
           Done end \<Rightarrow> p_ok (Cont, with_start_end_token token end (Parameter right))
         | Cont \<Rightarrow> p_err (UnclosedToken token))
     else p_err (UnexpectedToken token))"

section \<open>Variables and prefixes\<close>

definition is_undefined :: "category \<Rightarrow> bool" where
  "is_undefined c \<longleftrightarrow> (case c of Identifier (Undefined _) \<Rightarrow> True | _ \<Rightarrow> False)"

definition parse_variable :: "statement_parser \<Rightarrow> token \<Rightarrow> (lx_end \<times> statement) parser" where
  "parse_variable stmt token =
    (if \<not> is_undefined (tk_category token) then p_err (UnexpectedToken token)
     else p_bind lx_peek (\<lambda>nt. case nt of
       None \<Rightarrow> p_ok (Cont, with_start_end_token token token Variable)
     | Some nt \<Rightarrow>
         if tk_category nt = LeftParen then
           p_bind lx_token (\<lambda>_.
           p_bind (parse_comma_group stmt RightParen) (\<lambda>(end, params).
             case end of
               Done end \<Rightarrow> p_ok (Cont, with_start_end_token token end (Call (with_start_end_token nt end (Parameter params))))
             | Cont \<Rightarrow> p_err (UnclosedToken nt)))
         else if tk_category nt = LeftBrace then
           p_bind lx_token (\<lambda>_.
           p_bind (stmt 0 (\<lambda>c. c = RightBrace)) (\<lambda>(end, lookup).
           p_bind (p_lift (as_returnable_or_err lookup)) (\<lambda>lookup.
             case end of
               Done end \<Rightarrow> p_ok (Cont, with_start_end_token token end (Array (Some lookup)))
             | Cont \<Rightarrow> p_err (UnclosedToken token))))
         else p_ok (Cont, with_start_end_token token token Variable)))"

definition is_assignable :: "statement_kind \<Rightarrow> bool" where
  "is_assignable k \<longleftrightarrow> (case k of Variable \<Rightarrow> True | Array _ \<Rightarrow> True | _ \<Rightarrow> False)"

definition parse_prefix_assign_operator :: "statement_parser \<Rightarrow> category \<Rightarrow> token \<Rightarrow> statement parser" where
  "parse_prefix_assign_operator stmt assign token =
    p_bind next_token (\<lambda>next.
    p_bind (parse_variable stmt next) (\<lambda>(_, s).
      if \<not> is_assignable (st_kind s) then p_err (UnexpectedToken token)
      else p_ok (with_start_end_token token (st_end s) (Assign assign AssignReturn s (without_token NoOp)))))"

section \<open>Keywords\<close>

definition parse_declaration :: "statement_parser \<Rightarrow> token \<Rightarrow> statement parser" where
  "parse_declaration stmt token =
    p_bind (parse_comma_group stmt Semicolon) (\<lambda>(end, params).
      case end of
        Done end \<Rightarrow>
          (case find (\<lambda>s. st_kind s \<noteq> Variable) params of
             Some errstmt \<Rightarrow> p_err (unexpected_statement errstmt)
           | None \<Rightarrow> p_ok (with_start_end_token token end (Declare params)))
      | Cont \<Rightarrow> p_err UnexpectedEoF)"

definition parse_else :: "statement_parser \<Rightarrow> token \<Rightarrow> (token option \<times> statement option \<times> token) parser" where
  "parse_else stmt end =
    p_bind lx_peek (\<lambda>t. case t of
      None \<Rightarrow> p_ok (None, None, end)
    | Some token \<Rightarrow>
        if tk_category token = Identifier ElseKw then
          p_bind lx_token (\<lambda>_.
          p_bind (stmt 0 (\<lambda>c. c = Semicolon)) (\<lambda>(end, s).
            case end of Done end \<Rightarrow> p_ok (Some token, Some s, end) | Cont \<Rightarrow> p_err (unexpected_statement s)))
        else p_ok (None, None, end))"

definition parse_if :: "statement_parser \<Rightarrow> token \<Rightarrow> statement parser" where
  "parse_if stmt kw =
    p_bind next_token (\<lambda>ptoken.
      if tk_category ptoken \<noteq> LeftParen then p_err (UnexpectedToken ptoken)
      else
        p_bind (parse_paren stmt ptoken) (\<lambda>condition.
        p_bind (p_lift (as_returnable_or_err condition)) (\<lambda>condition.
        p_bind (stmt 0 (\<lambda>c. c = Semicolon)) (\<lambda>(end, body).
          case end of
            Cont \<Rightarrow> p_err (UnclosedToken ptoken)
          | Done end \<Rightarrow>
              p_bind (parse_else stmt end) (\<lambda>(ekw, els, end).
                p_ok (with_start_end_token kw end (IfStmt condition body ekw els)))))))"

definition jump_to_left_parenthesis :: "unit parser" where
  "jump_to_left_parenthesis =
    p_bind next_token (\<lambda>token. if tk_category token \<noteq> LeftParen then p_err (UnexpectedToken token) else p_ok ())"

definition parse_call_return_params :: "statement_parser \<Rightarrow> statement parser" where
  "parse_call_return_params stmt =
    p_bind jump_to_left_parenthesis (\<lambda>_.
    p_bind (stmt 0 (\<lambda>c. c = RightParen)) (\<lambda>(end, parameter).
    p_bind (p_lift (as_returnable_or_err parameter)) (\<lambda>parameter.
      case end of Done _ \<Rightarrow> p_ok parameter | Cont \<Rightarrow> p_err UnexpectedEoF)))"

text \<open>\<open>parse_exit\<close> and \<open>parse_include\<close> differ in the kind of the statement.\<close>

definition parse_call_statement :: "statement_parser \<Rightarrow> (statement \<Rightarrow> statement_kind) \<Rightarrow> token \<Rightarrow> statement parser" where
  "parse_call_statement stmt kind token =
    p_bind (parse_call_return_params stmt) (\<lambda>parameter.
    p_bind (stmt 0 (\<lambda>c. c = Semicolon)) (\<lambda>(_, should_be_semicolon).
      if st_kind should_be_semicolon \<noteq> NoOp then p_err (unexpected_statement should_be_semicolon)
      else p_ok (with_start_end_token token (st_end should_be_semicolon) (kind parameter))))"

definition parse_exit :: "statement_parser \<Rightarrow> token \<Rightarrow> statement parser" where
  "parse_exit stmt token = parse_call_statement stmt Exit token"

definition parse_include :: "statement_parser \<Rightarrow> token \<Rightarrow> statement parser" where
  "parse_include stmt token = parse_call_statement stmt Include token"

definition parse_function :: "statement_parser \<Rightarrow> token \<Rightarrow> statement parser" where
  "parse_function stmt token =
    p_bind next_token (\<lambda>i.
      if \<not> is_undefined (tk_category i) then p_err (UnexpectedToken i)
      else p_bind next_token (\<lambda>paren.
        if tk_category paren \<noteq> LeftParen then p_err (UnexpectedToken paren)
        else p_bind (parse_comma_group stmt RightParen) (\<lambda>(gend, parameter).
          case gend of
            Cont \<Rightarrow> p_err (UnclosedToken token)
          | Done parameter_end_token \<Rightarrow>
              p_bind next_token (\<lambda>block.
                if tk_category block \<noteq> LeftCurlyBracket then p_err (UnexpectedToken block)
                else p_bind (parse_block stmt block) (\<lambda>block.
                  p_ok (with_start_end_token token (st_end block)
                    (FunctionDeclaration i (with_start_end_token paren parameter_end_token (Parameter parameter)) block)))))))"

definition parse_return :: "statement_parser \<Rightarrow> token \<Rightarrow> statement parser" where
  "parse_return stmt token =
    p_bind lx_peek (\<lambda>sc.
      case sc of
        Some sc' \<Rightarrow>
          if tk_category sc' = Semicolon then
            p_bind lx_token (\<lambda>_. p_ok (with_start_end_token token sc' (Return (without_token NoOp))))
          else
            p_bind (stmt 0 (\<lambda>c. c = Semicolon)) (\<lambda>(end, parameter).
            p_bind (p_lift (as_returnable_or_err parameter)) (\<lambda>parameter.
              case end of
                Done end \<Rightarrow> p_ok (with_start_end_token token end (Return parameter))
              | Cont \<Rightarrow> p_err (UnclosedStatement parameter)))
      | None \<Rightarrow>
          p_bind (stmt 0 (\<lambda>c. c = Semicolon)) (\<lambda>(end, parameter).
          p_bind (p_lift (as_returnable_or_err parameter)) (\<lambda>parameter.
            case end of
              Done end \<Rightarrow> p_ok (with_start_end_token token end (Return parameter))
            | Cont \<Rightarrow> p_err (UnclosedStatement parameter))))"

text \<open>\<open>parse_continue\<close> and \<open>parse_break\<close> differ in the kind of the statement.\<close>

definition parse_bare_keyword :: "statement_kind \<Rightarrow> token \<Rightarrow> statement parser" where
  "parse_bare_keyword kind kw =
    p_bind lx_peek (\<lambda>t. case t of
      None \<Rightarrow> p_err UnexpectedEoF
    | Some token \<Rightarrow>
        if tk_category token = Semicolon then p_bind lx_token (\<lambda>_. p_ok (with_start_end_token kw token kind))
        else p_err (UnexpectedToken token))"

definition parse_continue :: "token \<Rightarrow> statement parser" where
  "parse_continue kw = parse_bare_keyword Continue kw"

definition parse_break :: "token \<Rightarrow> statement parser" where
  "parse_break kw = parse_bare_keyword Break kw"

fun map_syntax_error_to_unclosed_left_paren :: "error_kind \<Rightarrow> error_kind" where
  "map_syntax_error_to_unclosed_left_paren (UnexpectedToken k) = UnclosedToken (k\<lparr>tk_category := LeftParen\<rparr>)"
| "map_syntax_error_to_unclosed_left_paren e = e"

definition is_end_of_category :: "lx_end \<Rightarrow> category \<Rightarrow> bool" where
  "is_end_of_category end category \<longleftrightarrow> (case end of Done x \<Rightarrow> tk_category x = category | Cont \<Rightarrow> False)"

definition is_for_assignment :: "statement_kind \<Rightarrow> bool" where
  "is_for_assignment k \<longleftrightarrow> (case k of Assign _ _ _ _ \<Rightarrow> True | NoOp \<Rightarrow> True | _ \<Rightarrow> False)"

definition parse_for_update :: "statement_parser \<Rightarrow> (lx_end \<times> statement) parser" where
  "parse_for_update stmt =
    p_bind lx_peek (\<lambda>t.
      if (case t of Some token \<Rightarrow> tk_category token = RightParen | None \<Rightarrow> False)
      then p_bind lx_token (\<lambda>_. p_ok (Done (the t), without_token NoOp))
      else p_map_err map_syntax_error_to_unclosed_left_paren (stmt 0 (\<lambda>c. c = RightParen)))"

definition parse_for :: "statement_parser \<Rightarrow> token \<Rightarrow> statement parser" where
  "parse_for stmt kw =
    p_bind jump_to_left_parenthesis (\<lambda>_.
    p_bind (stmt 0 (\<lambda>c. c = Semicolon)) (\<lambda>(end, assignment).
      if \<not> is_for_assignment (st_kind assignment) then p_err (unexpected_statement assignment)
      else if end = Cont then p_err (UnclosedStatement assignment)
      else
        p_bind (stmt 0 (\<lambda>c. c = Semicolon)) (\<lambda>(end, condition).
        p_bind (p_lift (as_returnable_or_err condition)) (\<lambda>condition.
          if end = Cont then p_err (UnclosedStatement condition)
          else
            p_bind (parse_for_update stmt) (\<lambda>(end, update).
              if \<not> is_end_of_category end RightParen then
                p_err (UnclosedToken ((st_start update)\<lparr>tk_category := LeftParen\<rparr>))
              else
                p_bind (stmt 0 (\<lambda>c. c = Semicolon)) (\<lambda>(end, body).
                  case end of
                    Cont \<Rightarrow> p_err (UnclosedStatement body)
                  | Done end \<Rightarrow> p_ok (with_start_end_token kw end (For assignment condition update body))))))))"

definition parse_while :: "statement_parser \<Rightarrow> token \<Rightarrow> statement parser" where
  "parse_while stmt token =
    p_bind jump_to_left_parenthesis (\<lambda>_.
    p_bind (p_map_err map_syntax_error_to_unclosed_left_paren (stmt 0 (\<lambda>c. c = RightParen))) (\<lambda>(end, condition).
      if \<not> is_end_of_category end RightParen then
        p_err (UnclosedToken ((st_start condition)\<lparr>tk_category := LeftParen\<rparr>))
      else
        p_bind (p_lift (as_returnable_or_err condition)) (\<lambda>condition.
        p_bind (stmt 0 (\<lambda>c. c = Semicolon)) (\<lambda>(end, body).
          case end of
            Done end \<Rightarrow> p_ok (with_start_end_token token end (While condition body))
          | Cont \<Rightarrow> p_err (UnclosedToken token)))))"

definition parse_until :: "statement_parser \<Rightarrow> (statement \<times> token) parser" where
  "parse_until stmt =
    p_bind next_token (\<lambda>token.
      if tk_category token = Identifier UntilKw then
        p_bind (stmt 0 (\<lambda>c. c = Semicolon)) (\<lambda>(end, s).
          case end of Done end \<Rightarrow> p_ok (s, end) | Cont \<Rightarrow> p_err (UnclosedToken token))
      else p_err (UnexpectedToken token))"

definition parse_repeat :: "statement_parser \<Rightarrow> token \<Rightarrow> statement parser" where
  "parse_repeat stmt token =
    p_bind (stmt 0 (\<lambda>c. c = Semicolon)) (\<lambda>(end, body).
      if end = Cont then p_err (UnclosedToken token)
      else p_bind (parse_until stmt) (\<lambda>(until, end).
        p_bind (p_lift (as_returnable_or_err until)) (\<lambda>until.
          p_ok (with_start_end_token token end (Repeat body until)))))"

definition parse_foreach :: "statement_parser \<Rightarrow> token \<Rightarrow> statement parser" where
  "parse_foreach stmt token =
    p_bind next_token (\<lambda>variable.
      if \<not> is_undefined (tk_category variable) then p_err (UnexpectedToken variable)
      else p_bind next_token (\<lambda>paren.
        if tk_category paren \<noteq> LeftParen then p_err (UnexpectedToken paren)
        else p_bind (p_map_err (\<lambda>_. UnclosedToken paren) (parse_paren stmt paren)) (\<lambda>container.
          p_bind (stmt 0 (\<lambda>c. c = Semicolon)) (\<lambda>(end, block).
            case end of
              Done end \<Rightarrow> p_ok (with_start_end_token token end (ForEach variable container block))
            | Cont \<Rightarrow> p_err (UnclosedToken token)))))"

definition parse_fct_anon_args :: "statement_parser \<Rightarrow> token \<Rightarrow> statement parser" where
  "parse_fct_anon_args stmt keyword =
    p_bind lx_peek (\<lambda>t. case t of
      None \<Rightarrow> p_err UnexpectedEoF
    | Some token \<Rightarrow>
        if tk_category token = LeftBrace then
          p_bind lx_token (\<lambda>_.
          p_bind (stmt 0 (\<lambda>c. c = RightBrace)) (\<lambda>(end, lookup).
          p_bind (p_lift (as_returnable_or_err lookup)) (\<lambda>lookup.
            case end of
              Done end \<Rightarrow> p_ok (with_start_end_token keyword end (Array (Some lookup)))
            | Cont \<Rightarrow> p_err (UnclosedToken token))))
        else p_ok (with_start_token keyword (Array None)))"

definition as_done :: "statement parser \<Rightarrow> (lx_end \<times> statement) parser" where
  "as_done p = p_bind p (\<lambda>s. p_ok (Done (st_end s), s))"

definition as_cont :: "statement parser \<Rightarrow> (lx_end \<times> statement) parser" where
  "as_cont p = p_bind p (\<lambda>s. p_ok (Cont, s))"

fun parse_keyword :: "statement_parser \<Rightarrow> identifier_type \<Rightarrow> token \<Rightarrow> (lx_end \<times> statement) parser" where
  "parse_keyword stmt ForKw token = as_done (parse_for stmt token)"
| "parse_keyword stmt ForEachKw token = as_done (parse_foreach stmt token)"
| "parse_keyword stmt IfKw token = as_done (parse_if stmt token)"
| "parse_keyword stmt ElseKw token = p_err (UnexpectedToken token)"
| "parse_keyword stmt WhileKw token = as_done (parse_while stmt token)"
| "parse_keyword stmt RepeatKw token = as_done (parse_repeat stmt token)"
| "parse_keyword stmt UntilKw token = p_err (UnexpectedToken token)"
| "parse_keyword stmt LocalVarKw token = as_done (parse_declaration stmt token)"
| "parse_keyword stmt GlobalVarKw token = as_done (parse_declaration stmt token)"
| "parse_keyword stmt ReturnKw token = as_done (parse_return stmt token)"
| "parse_keyword stmt IncludeKw token = as_done (parse_include stmt token)"
| "parse_keyword stmt ExitKw token = as_done (parse_exit stmt token)"
| "parse_keyword stmt FCTAnonArgs token = as_cont (parse_fct_anon_args stmt token)"
| "parse_keyword stmt NullKw token = p_ok (Cont, with_start_token token Primitive)"
| "parse_keyword stmt TrueKw token = p_ok (Cont, with_start_token token Primitive)"
| "parse_keyword stmt FalseKw token = p_ok (Cont, with_start_token token Primitive)"
| "parse_keyword stmt (ACT _) token = p_ok (Cont, with_start_token token AttackCategory)"
| "parse_keyword stmt FunctionKw token = as_done (parse_function stmt token)"
| "parse_keyword stmt ContinueKw token = as_done (parse_continue token)"
| "parse_keyword stmt BreakKw token = as_done (parse_break token)"
| "parse_keyword stmt (Undefined _) token = p_err (UnexpectedToken token)"

section \<open>Statements\<close>

definition prefix_statement :: "statement_parser \<Rightarrow> token \<Rightarrow> (category \<Rightarrow> bool) \<Rightarrow> (lx_end \<times> statement) parser" where
  "prefix_statement stmt token abort =
    (case operation_new token of
       None \<Rightarrow> p_err (UnexpectedToken token)
     | Some (OperatorOp kind) \<Rightarrow>
         p_bind (p_lift (prefix_binding_power token)) (\<lambda>bp.
         p_bind (stmt bp abort) (\<lambda>(end, right).
           p_ok (end, with_start_end_token token (st_end right) (Operator kind [right]))))
     | Some PrimitiveOp \<Rightarrow> p_ok (Cont, with_start_token token Primitive)
     | Some VariableOp \<Rightarrow> parse_variable stmt token
     | Some (GroupingOp _) \<Rightarrow> parse_grouping stmt token
     | Some (AssignOp c) \<Rightarrow>
         if c = MinusMinus \<or> c = PlusPlus then as_cont (parse_prefix_assign_operator stmt c token)
         else p_err (UnexpectedToken token)
     | Some (KeywordOp keyword) \<Rightarrow> parse_keyword stmt keyword token
     | Some NoOperation \<Rightarrow> p_ok (Done token, with_start_token token NoOp))"

definition infix_statement ::
  "statement_parser \<Rightarrow> operation \<Rightarrow> nat \<Rightarrow> token \<Rightarrow> statement \<Rightarrow> (category \<Rightarrow> bool) \<Rightarrow> (lx_end \<times> statement) parser" where
  "infix_statement stmt op right_bp token lhs abort =
    p_bind (stmt right_bp abort) (\<lambda>(end, rhs).
      if st_kind rhs = EoF then p_ok (Done token, rhs)
      else
        let end_token = (case end of
              Done x \<Rightarrow> if abort (tk_category x) then x else st_end rhs
            | Cont \<Rightarrow> st_end rhs);
            build_stmt = with_start_end_token (st_start lhs) end_token
        in case op of
          AssignOp category \<Rightarrow>
            if category = DoublePoint then
              (if st_kind lhs = Variable then p_ok (end, build_stmt (NamedParameter rhs))
               else p_err (unexpected_statement lhs))
            else if st_kind lhs = Variable then
              let lhs = (case st_kind rhs of
                    Parameter _ \<Rightarrow> with_start_end_token (st_start lhs) (st_end rhs) (Array None)
                  | _ \<Rightarrow> lhs)
              in p_ok (end, build_stmt (Assign category AssignReturn lhs rhs))
            else if is_assignable (st_kind lhs) then p_ok (end, build_stmt (Assign category AssignReturn lhs rhs))
            else p_ok (end, build_stmt (Operator (tk_category token) [lhs, rhs]))
        | _ \<Rightarrow> p_ok (end, build_stmt (Operator (tk_category token) [lhs, rhs])))"

datatype infix_state =
    NoInfix
  | ReturnContinue statement
  | ReturnEnd token statement
  | Unfinished statement

definition handle_infix ::
  "statement_parser \<Rightarrow> operation \<Rightarrow> nat \<Rightarrow> token \<Rightarrow> statement \<Rightarrow> (category \<Rightarrow> bool) \<Rightarrow> infix_state parser" where
  "handle_infix stmt op min_bp token left abort =
    (case infix_binding_power op of
       None \<Rightarrow> p_ok NoInfix
     | Some (x, y) \<Rightarrow>
         if x < min_bp then p_ok (ReturnContinue left)
         else
           p_bind lx_token (\<lambda>_.
           p_bind (infix_statement stmt op y token left abort) (\<lambda>(end, nl).
             case end of
               Done cat \<Rightarrow> p_bind reset_depth (\<lambda>_. p_ok (ReturnEnd cat nl))
             | Cont \<Rightarrow> p_ok (Unfinished nl))))"

definition finish_statement :: "token \<Rightarrow> statement \<Rightarrow> (lx_end \<times> statement) parser" where
  "finish_statement token left = p_ok (Done token, set_end token left)"

fun statement_loop ::
  "statement_parser \<Rightarrow> nat \<Rightarrow> (category \<Rightarrow> bool) \<Rightarrow> nat \<Rightarrow> statement \<Rightarrow> (lx_end \<times> statement) parser" where
  "statement_loop stmt min_bp abort 0 left = (\<lambda>_. None)"
| "statement_loop stmt min_bp abort (Suc n) left =
    p_bind lx_peek (\<lambda>t. case t of
      None \<Rightarrow> p_ok (Cont, left)
    | Some token \<Rightarrow>
        if abort (tk_category token) then
          p_bind lx_token (\<lambda>_. p_bind reset_depth (\<lambda>_. finish_statement token left))
        else case operation_new token of
          None \<Rightarrow> p_err (UnexpectedToken token)
        | Some op \<Rightarrow>
            if op = AssignOp PlusPlus \<or> op = AssignOp MinusMinus then
              p_bind lx_token (\<lambda>_.
                if is_assignable (st_kind left) then
                  statement_loop stmt min_bp abort n (with_start_end_token (st_end left) token
                    (Assign (tk_category token) ReturnAssign left (without_token NoOp)))
                else p_err (UnexpectedToken token))
            else
              p_bind (handle_infix stmt op min_bp token left abort) (\<lambda>state.
                case state of
                  NoInfix \<Rightarrow> p_err (UnexpectedToken token)
                | ReturnContinue left \<Rightarrow> p_ok (Cont, left)
                | ReturnEnd cat left \<Rightarrow> finish_statement cat left
                | Unfinished nl \<Rightarrow> statement_loop stmt min_bp abort n nl))"

definition run_statement_loop ::
  "statement_parser \<Rightarrow> nat \<Rightarrow> (category \<Rightarrow> bool) \<Rightarrow> statement \<Rightarrow> (lx_end \<times> statement) parser" where
  "run_statement_loop stmt min_bp abort left lx =
    statement_loop stmt min_bp abort (Suc (length (lx_tokens lx))) left lx"

definition enter_statement :: "unit parser" where
  "enter_statement lx =
    (let depth = lx_depth lx + 1; lx = lx\<lparr>lx_depth := depth\<rparr> in
     if depth \<ge> MAX_DEPTH then Some (Inl (MaxRecursionDepth MAX_DEPTH), lx) else Some (Inr (), lx))"

definition statement_body :: "statement_parser \<Rightarrow> statement_parser" where
  "statement_body stmt min_bp abort =
    p_bind enter_statement (\<lambda>_.
    p_bind lx_token (\<lambda>t. case t of
      None \<Rightarrow> finish_statement unexpected_none (without_token EoF)
    | Some token \<Rightarrow>
        if is_faulty token then p_err (UnexpectedToken token)
        else if abort (tk_category token) then finish_statement token (with_start_token token NoOp)
        else
          p_bind (prefix_statement stmt token abort) (\<lambda>(state, left).
            case state of
              Done x \<Rightarrow> finish_statement x left
            | Cont \<Rightarrow> run_statement_loop stmt min_bp abort left)))"

primrec statement_n :: "nat \<Rightarrow> statement_parser" where
  "statement_n 0 = (\<lambda>_ _ _. None)"
| "statement_n (Suc n) = statement_body (statement_n n)"

definition parse_statement :: "statement_parser" where
  "parse_statement min_bp abort lx = statement_n (Suc (length (lx_tokens lx))) min_bp abort lx"

text \<open>The iterator \<open>Lexer\<close> and what it yields for a code; the items are collected until the first end.\<close>

definition lexer_next :: "lexer \<Rightarrow> ((error_kind + statement) option \<times> lexer) option" where
  "lexer_next lx =
    (case parse_statement 0 (\<lambda>c. c = Semicolon) lx of
       None \<Rightarrow> None
     | Some (result, lx) \<Rightarrow> Some
         (if lx_depth lx \<ge> MAX_DEPTH then None
          else case result of
            Inr (end, s) \<Rightarrow>
              if st_kind s = EoF then None
              else if st_kind s = NoOp then Some (Inr s)
              else (case end of Done _ \<Rightarrow> Some (Inr s) | Cont \<Rightarrow> Some (Inl (unexpected_statement s)))
          | Inl e \<Rightarrow> Some (Inl e), lx))"

definition new_lexer :: "tokenizer \<Rightarrow> lexer" where
  "new_lexer t = \<lparr>lx_tokens = filter (\<lambda>k. tk_category k \<noteq> Comment) (tokens t), lx_depth = 0\<rparr>"

fun collect_statements :: "nat \<Rightarrow> lexer \<Rightarrow> (error_kind + statement) list option" where
  "collect_statements 0 lx = None"
| "collect_statements (Suc n) lx =
    (case lexer_next lx of
       None \<Rightarrow> None
     | Some (None, _) \<Rightarrow> Some []
     | Some (Some item, lx) \<Rightarrow> map_option (Cons item) (collect_statements n lx))"

definition parse_code :: "string \<Rightarrow> (error_kind + statement) list option" where
  "parse_code code =
    (let lx = new_lexer (new_tokenizer code) in collect_statements (Suc (length (lx_tokens lx))) lx)"

section \<open>The bounds are enough\<close>

text \<open>A parser behaves well on a lexer below the maximal depth: it returns, takes tokens only from the
  front, and is still below the maximal depth unless it fails. A strict parser takes a token if there is
  one, unless it has reached the maximal depth.\<close>

definition good_at :: "bool \<Rightarrow> 'a parser \<Rightarrow> lexer \<Rightarrow> bool" where
  "good_at strict p lx \<longleftrightarrow>
    (case p lx of
       None \<Rightarrow> False
     | Some (r, lx') \<Rightarrow> length (lx_tokens lx') \<le> length (lx_tokens lx) \<and> lx_depth lx' \<le> MAX_DEPTH
         \<and> (\<not> isl r \<longrightarrow> lx_depth lx' < MAX_DEPTH)
         \<and> (strict \<and> lx_depth lx' < MAX_DEPTH \<and> lx_tokens lx \<noteq> [] \<longrightarrow> length (lx_tokens lx') < length (lx_tokens lx)))"

definition good :: "bool \<Rightarrow> nat \<Rightarrow> 'a parser \<Rightarrow> bool" where
  "good strict m p \<longleftrightarrow> (\<forall>lx. length (lx_tokens lx) \<le> m \<longrightarrow> lx_depth lx < MAX_DEPTH \<longrightarrow> good_at strict p lx)"

named_theorems good_intros

lemma goodD: "good strict m p \<Longrightarrow> length (lx_tokens lx) \<le> m \<Longrightarrow> lx_depth lx < MAX_DEPTH \<Longrightarrow> good_at strict p lx"
  by (simp add: good_def)

lemma good_mono: "good strict m p \<Longrightarrow> k \<le> m \<Longrightarrow> good strict k p"
  by (simp add: good_def)

lemma good_weaken: "good True m p \<Longrightarrow> good False m p"
  by (auto simp: good_def good_at_def split: option.splits)

lemma good_at_bind:
  assumes "good_at False p lx"
    and "\<And>x lx'. p lx = Some (Inr x, lx') \<Longrightarrow> length (lx_tokens lx') \<le> length (lx_tokens lx) \<Longrightarrow> lx_depth lx' < MAX_DEPTH
      \<Longrightarrow> good_at False (f x) lx'"
  shows "good_at False (p_bind p f) lx"
proof -
  obtain r lx' where p: "p lx = Some (r, lx')" using assms(1) by (auto simp: good_at_def split: option.splits)
  show ?thesis
  proof (cases r)
    case (Inl e)
    then show ?thesis using assms(1) p by (simp add: good_at_def p_bind_def)
  next
    case (Inr x)
    then have "length (lx_tokens lx') \<le> length (lx_tokens lx)" "lx_depth lx' < MAX_DEPTH"
      using assms(1) p by (auto simp: good_at_def)
    then show ?thesis using assms(2) [of x lx'] p Inr by (auto simp: good_at_def p_bind_def split: option.splits)
  qed
qed

lemma good_bind [good_intros]: "good False m p \<Longrightarrow> (\<And>x. good False m (f x)) \<Longrightarrow> good False m (p_bind p f)"
  unfolding good_def by (auto intro!: good_at_bind)

lemma good_ok [good_intros]: "good False m (p_ok x)"
  by (simp add: good_def good_at_def p_ok_def)

lemma good_err [good_intros]: "good False m (p_err e)"
  by (simp add: good_def good_at_def p_err_def)

lemma good_lift [good_intros]: "good False m (p_lift r)"
  by (simp add: good_def good_at_def p_lift_def)

lemma good_reset_depth [good_intros]: "good False m reset_depth"
  by (simp add: good_def good_at_def reset_depth_def MAX_DEPTH_def)

lemma good_lx_peek [good_intros]: "good False m lx_peek"
  by (simp add: good_def good_at_def lx_peek_def)

lemma good_lx_token [good_intros]: "good False m lx_token"
  by (auto simp: good_def good_at_def lx_token_def split: list.split)

lemma good_next_token [good_intros]: "good False m next_token"
  unfolding next_token_def by (auto intro!: good_intros split: option.split)

lemma good_map_err [good_intros]: "good b m p \<Longrightarrow> good b m (p_map_err f p)"
  by (fastforce simp: good_def good_at_def p_map_err_def split: option.splits sum.splits)

lemma good_finish [good_intros]: "good False m (finish_statement t l)"
  unfolding finish_statement_def by (rule good_intros)

text \<open>Pointwise rules for the loops.\<close>

lemma good_at_ok [simp]: "lx_depth lx < MAX_DEPTH \<Longrightarrow> good_at False (p_ok x) lx"
  by (simp add: good_at_def p_ok_def)

lemma good_at_err [simp]: "lx_depth lx < MAX_DEPTH \<Longrightarrow> good_at False (p_err e) lx"
  by (simp add: good_at_def p_err_def)

lemma good_at_peek: "good_at b (p_bind lx_peek f) lx \<longleftrightarrow>
    good_at b (f (case lx_tokens lx of [] \<Rightarrow> None | t # _ \<Rightarrow> Some t)) lx"
  by (simp add: good_at_def p_bind_def lx_peek_def)

lemma good_at_weaken: "good_at True p lx \<Longrightarrow> good_at False p lx"
  by (auto simp: good_at_def split: option.splits)

lemma good_at_strict_bind:
  assumes "good_at True p lx" "lx_tokens lx \<noteq> []"
    and "\<And>x lx'. length (lx_tokens lx') < length (lx_tokens lx) \<Longrightarrow> lx_depth lx' < MAX_DEPTH \<Longrightarrow> good_at False (f x) lx'"
  shows "good_at False (p_bind p f) lx"
  using assms(1,2) by (intro good_at_bind good_at_weaken [OF assms(1)] assms(3)) (simp_all add: good_at_def)

lemma good_at_token_bind:
  assumes "lx_tokens lx = t # ts" "good_at False (f (Some t)) (lx\<lparr>lx_tokens := ts\<rparr>)"
  shows "good_at True (p_bind lx_token f) lx"
  using assms by (auto simp: good_at_def p_bind_def lx_token_def split: option.splits)

text \<open>Taking a token leaves less for what follows.\<close>

lemma good_token_bind:
  assumes "good False m (f None)" "\<And>t. 0 < m \<Longrightarrow> good False (m - 1) (f (Some t))"
  shows "good True m (p_bind lx_token f)"
  unfolding good_def
proof (intro allI impI)
  fix lx :: lexer
  assume lx: "length (lx_tokens lx) \<le> m" "lx_depth lx < MAX_DEPTH"
  show "good_at True (p_bind lx_token f) lx"
  proof (cases "lx_tokens lx")
    case Nil
    then show ?thesis using goodD [OF assms(1) lx]
      by (auto simp: good_at_def p_bind_def lx_token_def split: option.splits)
  next
    case (Cons t ts)
    then have "good False (m - 1) (f (Some t))" using assms(2) lx(1) by simp
    then show ?thesis using goodD [of False "m - 1" "f (Some t)" "lx\<lparr>lx_tokens := ts\<rparr>"] lx Cons
      by (intro good_at_token_bind) auto
  qed
qed

subsection \<open>The methods\<close>

text \<open>The loops take a token in every round.\<close>

lemma comma_group_loop_good:
  assumes stmt: "\<And>bp abort. good True m (stmt bp abort)"
  shows "length (lx_tokens lx) < n \<Longrightarrow> length (lx_tokens lx) \<le> m \<Longrightarrow> lx_depth lx < MAX_DEPTH
    \<Longrightarrow> good_at False (comma_group_loop stmt c n params) lx"
proof (induction n arbitrary: params lx)
  case (Suc n)
  have s: "good_at True (stmt bp abort) lx" for bp abort using goodD [OF stmt] Suc.prems by blast
  have loop: "good_at False (comma_group_loop stmt c n q) lx'"
    if "length (lx_tokens lx') < length (lx_tokens lx)" "lx_depth lx' < MAX_DEPTH" for lx' q
    using Suc.IH [of lx'] Suc.prems that by simp
  show ?case
    using Suc.prems(3)
    by (auto simp: good_at_peek Let_def split: list.splits lx_end.splits
        intro!: good_at_strict_bind [OF s] good_at_weaken [OF good_at_token_bind] loop)
qed simp

lemma block_loop_good:
  assumes stmt: "\<And>bp abort. good True m (stmt bp abort)"
  shows "length (lx_tokens lx) < n \<Longrightarrow> length (lx_tokens lx) \<le> m \<Longrightarrow> lx_depth lx < MAX_DEPTH
    \<Longrightarrow> good_at False (block_loop stmt kw n results) lx"
proof (induction n arbitrary: results lx)
  case (Suc n)
  have s: "good_at True (stmt bp abort) lx" for bp abort using goodD [OF stmt] Suc.prems by blast
  have loop: "good_at False (block_loop stmt kw n q) lx'"
    if "length (lx_tokens lx') < length (lx_tokens lx)" "lx_depth lx' < MAX_DEPTH" for lx' q
    using Suc.IH [of lx'] Suc.prems that by simp
  have close: "good_at False (p_bind reset_depth (\<lambda>_. p_ok x)) lx'" if "lx_depth lx' < MAX_DEPTH" for lx' and x :: statement
    using goodD [OF good_bind [OF good_reset_depth good_ok] order_refl that] .
  show ?case
    using Suc.prems(3)
    by (auto simp: good_at_peek Let_def split: list.splits
        intro!: good_at_strict_bind [OF s] good_at_weaken [OF good_at_token_bind] loop close)
qed simp

text \<open>The methods of the parser behave well when the statement parser does.\<close>

locale well_behaved =
  fixes stmt :: statement_parser and m :: nat
  assumes stmt: "good True m (stmt bp abort)"
begin

lemma stmt_weak [good_intros]: "good False m (stmt bp abort)"
  using stmt by (rule good_weaken)

lemma comma_group [good_intros]: "good False m (parse_comma_group stmt c)"
  unfolding good_def
proof (intro allI impI)
  fix lx :: lexer
  assume "length (lx_tokens lx) \<le> m" "lx_depth lx < MAX_DEPTH"
  then have "good_at False (comma_group_loop stmt c (Suc (length (lx_tokens lx))) []) lx"
    by (intro comma_group_loop_good [OF stmt]) simp_all
  then show "good_at False (parse_comma_group stmt c) lx" by (simp add: good_at_def parse_comma_group_def)
qed

lemma block_part [good_intros]: "good False m (parse_block stmt kw)"
  unfolding good_def
proof (intro allI impI)
  fix lx :: lexer
  assume "length (lx_tokens lx) \<le> m" "lx_depth lx < MAX_DEPTH"
  then have "good_at False (block_loop stmt kw (Suc (length (lx_tokens lx))) []) lx"
    by (intro block_loop_good [OF stmt]) simp_all
  then show "good_at False (parse_block stmt kw) lx" by (simp add: good_at_def parse_block_def)
qed

lemma paren [good_intros]: "good False m (parse_paren stmt t)"
  unfolding parse_paren_def by (auto intro!: good_intros split: lx_end.split)

lemma grouping [good_intros]: "good False m (parse_grouping stmt t)"
  unfolding parse_grouping_def by (auto intro!: good_intros split: lx_end.split)

lemma variable [good_intros]: "good False m (parse_variable stmt t)"
  unfolding parse_variable_def by (auto intro!: good_intros split: lx_end.split option.split)

lemma prefix_assign_operator [good_intros]: "good False m (parse_prefix_assign_operator stmt c t)"
  unfolding parse_prefix_assign_operator_def by (auto intro!: good_intros)

lemma declare_statement [good_intros]: "good False m (parse_declaration stmt t)"
  unfolding parse_declaration_def by (auto intro!: good_intros split: lx_end.split option.split)

lemma else_branch [good_intros]: "good False m (parse_else stmt t)"
  unfolding parse_else_def by (auto intro!: good_intros split: lx_end.split option.split)

lemma if_statement [good_intros]: "good False m (parse_if stmt t)"
  unfolding parse_if_def by (auto intro!: good_intros split: lx_end.split)

lemma jump [good_intros]: "good False m jump_to_left_parenthesis"
  unfolding jump_to_left_parenthesis_def by (auto intro!: good_intros)

lemma call_return_params [good_intros]: "good False m (parse_call_return_params stmt)"
  unfolding parse_call_return_params_def by (auto intro!: good_intros split: lx_end.split)

lemma call_statement [good_intros]: "good False m (parse_call_statement stmt k t)"
  unfolding parse_call_statement_def by (auto intro!: good_intros)

lemma function_declaration [good_intros]: "good False m (parse_function stmt t)"
  unfolding parse_function_def by (auto intro!: good_intros split: lx_end.split)

lemma return_statement [good_intros]: "good False m (parse_return stmt t)"
  unfolding parse_return_def by (auto intro!: good_intros split: lx_end.split option.split)

lemma bare_keyword [good_intros]: "good False m (parse_bare_keyword k t)"
  unfolding parse_bare_keyword_def by (auto intro!: good_intros split: option.split)

lemma for_update [good_intros]: "good False m (parse_for_update stmt)"
  unfolding parse_for_update_def by (auto intro!: good_intros)

lemma for_statement [good_intros]: "good False m (parse_for stmt t)"
  unfolding parse_for_def by (auto intro!: good_intros split: lx_end.split)

lemma while_statement [good_intros]: "good False m (parse_while stmt t)"
  unfolding parse_while_def by (auto intro!: good_intros split: lx_end.split)

lemma until_clause [good_intros]: "good False m (parse_until stmt)"
  unfolding parse_until_def by (auto intro!: good_intros split: lx_end.split)

lemma repeat_statement [good_intros]: "good False m (parse_repeat stmt t)"
  unfolding parse_repeat_def by (auto intro!: good_intros)

lemma foreach_statement [good_intros]: "good False m (parse_foreach stmt t)"
  unfolding parse_foreach_def by (auto intro!: good_intros split: lx_end.split)

lemma fct_anon_args [good_intros]: "good False m (parse_fct_anon_args stmt t)"
  unfolding parse_fct_anon_args_def by (auto intro!: good_intros split: lx_end.split option.split)

lemma keyword_part [good_intros]: "good False m (parse_keyword stmt k t)"
  by (cases k) (auto simp: as_done_def as_cont_def parse_exit_def parse_include_def parse_continue_def parse_break_def
      intro!: good_intros)

lemma prefix_part [good_intros]: "good False m (prefix_statement stmt t abort)"
  unfolding prefix_statement_def as_cont_def by (auto intro!: good_intros split: option.split operation.split)

lemma infix_part [good_intros]: "good False m (infix_statement stmt op bp t lhs abort)"
  unfolding infix_statement_def Let_def by (auto intro!: good_intros split: operation.split)

lemma handle_infix_part [good_intros]: "good False m (handle_infix stmt op bp t left abort)"
  unfolding handle_infix_def by (auto intro!: good_intros split: option.split lx_end.split)

text \<open>Only a round that took a token goes on.\<close>

lemma handle_infix_unfinished:
  assumes "handle_infix stmt op bp t left abort lx = Some (Inr (Unfinished nl), lx')"
    and "lx_tokens lx = k # ks" "length (lx_tokens lx) \<le> m" "lx_depth lx < MAX_DEPTH"
  shows "length (lx_tokens lx') < length (lx_tokens lx)"
proof -
  obtain x y where bp: "infix_binding_power op = Some (x, y)" "\<not> x < bp"
    using assms(1) by (auto simp: handle_infix_def p_ok_def split: option.splits if_splits)
  let ?f = "\<lambda>(end, nl). case end of Done cat \<Rightarrow> p_bind reset_depth (\<lambda>_. p_ok (ReturnEnd cat nl)) | Cont \<Rightarrow> p_ok (Unfinished nl)"
  have "good_at False (p_bind (infix_statement stmt op y t left abort) ?f) (lx\<lparr>lx_tokens := ks\<rparr>)"
    using assms(2-4) by (intro goodD [where m = m]) (auto intro!: good_intros split: lx_end.split)
  moreover have "p_bind (infix_statement stmt op y t left abort) ?f (lx\<lparr>lx_tokens := ks\<rparr>) = Some (Inr (Unfinished nl), lx')"
    using assms(1,2) bp by (simp add: handle_infix_def p_bind_def lx_token_def)
  ultimately show ?thesis using assms(2) by (simp add: good_at_def)
qed

lemma statement_loop_good:
  "length (lx_tokens lx) < n \<Longrightarrow> length (lx_tokens lx) \<le> m \<Longrightarrow> lx_depth lx < MAX_DEPTH
    \<Longrightarrow> good_at False (statement_loop stmt bp abort n left) lx"
proof (induction n arbitrary: left lx)
  case (Suc n)
  have loop: "good_at False (statement_loop stmt bp abort n l) lx'"
    if "length (lx_tokens lx') < length (lx_tokens lx)" "lx_depth lx' < MAX_DEPTH" for lx' l
    using Suc.IH [of lx'] Suc.prems that by simp
  have finish: "good_at False (finish_statement t l) lx'" if "lx_depth lx' < MAX_DEPTH" for t l lx'
    using that by (simp add: finish_statement_def)
  have close: "good_at False (p_bind reset_depth (\<lambda>_. finish_statement t l)) lx'" if "lx_depth lx' < MAX_DEPTH" for t l lx'
    using goodD [OF good_bind [OF good_reset_depth good_finish] order_refl that] .
  show ?case
  proof (cases "lx_tokens lx")
    case Nil
    then show ?thesis using Suc.prems(3) by (simp add: good_at_peek)
  next
    case (Cons k ks)
    have infix_case: "good_at False (p_bind (handle_infix stmt op bp k left abort) (\<lambda>state. case state of
        NoInfix \<Rightarrow> p_err (UnexpectedToken k) | ReturnContinue left \<Rightarrow> p_ok (Cont, left)
      | ReturnEnd cat left \<Rightarrow> finish_statement cat left | Unfinished nl \<Rightarrow> statement_loop stmt bp abort n nl)) lx" for op
      using goodD [OF handle_infix_part] Suc.prems handle_infix_unfinished [OF _ Cons]
      by (intro good_at_bind) (auto intro!: finish loop split: infix_state.split)
    show ?thesis
      using Suc.prems(3) Cons
      by (auto simp: good_at_peek split: option.split
          intro!: good_at_weaken [OF good_at_token_bind [OF Cons]] close loop infix_case)
  qed
qed simp

lemma run_loop [good_intros]: "good False m (run_statement_loop stmt bp abort left)"
  unfolding good_def
proof (intro allI impI)
  fix lx :: lexer
  assume "length (lx_tokens lx) \<le> m" "lx_depth lx < MAX_DEPTH"
  then have "good_at False (statement_loop stmt bp abort (Suc (length (lx_tokens lx))) left) lx"
    by (intro statement_loop_good) simp_all
  then show "good_at False (run_statement_loop stmt bp abort left) lx" by (simp add: good_at_def run_statement_loop_def)
qed

end

lemma good_enter_bind: "good True m p \<Longrightarrow> good True m (p_bind enter_statement (\<lambda>_. p))"
  unfolding good_def
proof (intro allI impI)
  fix lx :: lexer
  assume p: "\<forall>lx. length (lx_tokens lx) \<le> m \<longrightarrow> lx_depth lx < MAX_DEPTH \<longrightarrow> good_at True p lx"
    and lx: "length (lx_tokens lx) \<le> m" "lx_depth lx < MAX_DEPTH"
  show "good_at True (p_bind enter_statement (\<lambda>_. p)) lx"
  proof (cases "Suc (lx_depth lx) < MAX_DEPTH")
    case True
    then have "good_at True p (lx\<lparr>lx_depth := Suc (lx_depth lx)\<rparr>)" using p lx(1) by simp
    then show ?thesis using True by (auto simp: good_at_def p_bind_def enter_statement_def split: option.splits)
  next
    case False
    then show ?thesis using lx(2) by (simp add: good_at_def p_bind_def enter_statement_def)
  qed
qed

lemma statement_body_good:
  assumes "0 < m \<Longrightarrow> well_behaved stmt (m - 1)"
  shows "good True m (statement_body stmt bp abort)"
  unfolding statement_body_def
  by (intro good_enter_bind good_token_bind)
    (auto intro!: good_intros well_behaved.prefix_part [OF assms [unfolded One_nat_def]]
        well_behaved.run_loop [OF assms [unfolded One_nat_def]]
      split: option.split lx_end.split)

lemma statement_n_good: "good True m (statement_n (Suc m) bp abort)"
proof (induction m arbitrary: bp abort)
  case (Suc m)
  then have "well_behaved (statement_n (Suc m)) m" by unfold_locales
  then show ?case using statement_body_good [of "Suc m" "statement_n (Suc m)"] by simp
qed (simp add: statement_body_good)

interpretation nasl: well_behaved "statement_n (Suc m)" m for m
  by unfold_locales (rule statement_n_good)

text \<open>The iterator: an item takes at least one token.\<close>

lemma lexer_next_good:
  assumes "lx_depth lx < MAX_DEPTH"
  shows "\<exists>item lx'. lexer_next lx = Some (item, lx')
    \<and> (item \<noteq> None \<longrightarrow> lx_depth lx' < MAX_DEPTH \<and> length (lx_tokens lx') < length (lx_tokens lx))"
proof -
  have g: "good_at True (parse_statement 0 (\<lambda>c. c = Semicolon)) lx"
    using goodD [OF statement_n_good order_refl assms] by (simp add: good_at_def parse_statement_def)
  then obtain r lx' where p: "parse_statement 0 (\<lambda>c. c = Semicolon) lx = Some (r, lx')"
    by (auto simp: good_at_def split: option.splits)
  show ?thesis
  proof (cases "lx_tokens lx")
    case Nil
    then have "parse_statement 0 (\<lambda>c. c = Semicolon) lx =
        (if Suc (lx_depth lx) < MAX_DEPTH
         then Some (Inr (Done unexpected_none, set_end unexpected_none (without_token EoF)), lx\<lparr>lx_depth := Suc (lx_depth lx)\<rparr>)
         else Some (Inl (MaxRecursionDepth MAX_DEPTH), lx\<lparr>lx_depth := Suc (lx_depth lx)\<rparr>))"
      by (simp add: parse_statement_def statement_body_def p_bind_def enter_statement_def lx_token_def
          finish_statement_def p_ok_def Let_def)
    then show ?thesis by (auto simp: lexer_next_def set_end_def without_token_def)
  next
    case Cons
    then show ?thesis using g p by (auto simp: lexer_next_def good_at_def split: sum.splits)
  qed
qed

lemma collect_statements_good:
  "lx_depth lx < MAX_DEPTH \<Longrightarrow> length (lx_tokens lx) < n
    \<Longrightarrow> \<exists>items. collect_statements n lx = Some items \<and> length items \<le> length (lx_tokens lx)"
proof (induction n arbitrary: lx)
  case (Suc n)
  obtain item lx' where i: "lexer_next lx = Some (item, lx')"
      "item \<noteq> None \<Longrightarrow> lx_depth lx' < MAX_DEPTH \<and> length (lx_tokens lx') < length (lx_tokens lx)"
    using lexer_next_good [OF Suc.prems(1)] by blast
  show ?case
  proof (cases item)
    case None
    then show ?thesis using i(1) by simp
  next
    case (Some x)
    then have "\<exists>items. collect_statements n lx' = Some items \<and> length items \<le> length (lx_tokens lx')"
      using Suc.IH [of lx'] i(2) Suc.prems(2) by simp
    then show ?thesis using i Some by auto
  qed
qed simp

section \<open>Expressions of binary operators\<close>

text \<open>An expression of literals and binary operators, its tokens, and the statements that represent it.\<close>

datatype expr = Leaf token | Node expr token expr

fun expr_tokens :: "expr \<Rightarrow> token list" where
  "expr_tokens (Leaf t) = [t]"
| "expr_tokens (Node l opr r) = expr_tokens l @ opr # expr_tokens r"

fun leaves :: "expr \<Rightarrow> nat" where
  "leaves (Leaf _) = 1"
| "leaves (Node l _ r) = leaves l + leaves r"

fun represents :: "expr \<Rightarrow> statement \<Rightarrow> bool" where
  "represents (Leaf t) s \<longleftrightarrow> st_kind s = Primitive \<and> st_start s = t"
| "represents (Node l opr r) s \<longleftrightarrow>
    (\<exists>a b. st_kind s = Operator (tk_category opr) [a, b] \<and> represents l a \<and> represents r b)"

definition is_literal :: "token \<Rightarrow> bool" where
  "is_literal t \<longleftrightarrow> operation_new t = Some PrimitiveOp"

definition is_binary :: "token \<Rightarrow> bool" where
  "is_binary t \<longleftrightarrow> operation_new t = Some (OperatorOp (tk_category t)) \<and> infix_binding_power (OperatorOp (tk_category t)) \<noteq> None"

definition left_power :: "token \<Rightarrow> nat" where
  "left_power t = fst (the (infix_binding_power (OperatorOp (tk_category t))))"

definition right_power :: "token \<Rightarrow> nat" where
  "right_power t = snd (the (infix_binding_power (OperatorOp (tk_category t))))"

text \<open>The trees that binding powers and association to the left give: the operators of a right operand bind
  at least as strong as the right power of the operator before it, and the operator of a left operand
  binds stronger to the right than the operator after it to the left.\<close>

fun well_grouped :: "nat \<Rightarrow> expr \<Rightarrow> bool" where
  "well_grouped bp (Leaf t) \<longleftrightarrow> is_literal t"
| "well_grouped bp (Node l opr r) \<longleftrightarrow> is_binary opr \<and> bp \<le> left_power opr \<and> well_grouped bp l
    \<and> (case l of Leaf _ \<Rightarrow> True | Node _ opr' _ \<Rightarrow> left_power opr < right_power opr') \<and> well_grouped (right_power opr) r"

abbreviation semicolon :: "category \<Rightarrow> bool" where
  "semicolon \<equiv> \<lambda>c. c = Semicolon"

text \<open>What follows an expression: the semicolon, or an operator that is left to the caller.\<close>

definition follows :: "nat \<Rightarrow> token list \<Rightarrow> bool" where
  "follows bp rest \<longleftrightarrow>
    (case rest of [] \<Rightarrow> False | t # _ \<Rightarrow> tk_category t = Semicolon \<or> is_binary t \<and> left_power t < bp)"

definition parsed :: "expr \<Rightarrow> token list \<Rightarrow> nat \<Rightarrow> ((error_kind + (lx_end \<times> statement)) \<times> lexer) option \<Rightarrow> bool" where
  "parsed e rest depth res \<longleftrightarrow>
    (\<exists>s. represents e s \<and>
      res = (if tk_category (hd rest) = Semicolon
        then Some (Inr (Done (hd rest), s), \<lparr>lx_tokens = tl rest, lx_depth = 0\<rparr>)
        else Some (Inr (Cont, s), \<lparr>lx_tokens = rest, lx_depth = depth\<rparr>)))"

lemma represents_set_end [simp]: "represents e (set_end t s) = represents e s"
  by (cases e) (simp_all add: set_end_def)

lemma represents_not_EoF: "represents e s \<Longrightarrow> st_kind s \<noteq> EoF"
  by (cases e) auto

lemma is_binary_powers: "is_binary t \<Longrightarrow> infix_binding_power (OperatorOp (tk_category t)) = Some (left_power t, right_power t)"
  by (cases "infix_binding_power (OperatorOp (tk_category t))") (auto simp: is_binary_def left_power_def right_power_def)

lemma left_less_right: "is_binary t \<Longrightarrow> left_power t < right_power t"
  by (auto simp: is_binary_def left_power_def right_power_def infix_binding_power_def split: if_splits)

lemma operator_not_semicolon: "is_binary t \<Longrightarrow> tk_category t \<noteq> Semicolon"
  by (auto simp: is_binary_def operation_new_def operator_categories_def assign_categories_def Let_def)

lemma literal_token: "is_literal t \<Longrightarrow> \<not> is_faulty t \<and> tk_category t \<noteq> Semicolon"
  by (auto simp: is_literal_def operation_new_def is_faulty_def operator_categories_def assign_categories_def Let_def
      split: category.splits if_splits)

text \<open>One round of the loop on a binary operator.\<close>

lemma loop_binary:
  assumes "is_binary t" "bp \<le> left_power t"
    and "stmt (right_power t) semicolon \<lparr>lx_tokens = ts, lx_depth = d\<rparr> = Some (Inr (en, rhs), lx)" "st_kind rhs \<noteq> EoF"
  shows "\<exists>s. st_kind s = Operator (tk_category t) [left, rhs] \<and>
    statement_loop stmt bp semicolon (Suc n) left \<lparr>lx_tokens = t # ts, lx_depth = d\<rparr> =
      (case en of
         Done x \<Rightarrow> Some (Inr (Done x, set_end x s), lx\<lparr>lx_depth := 0\<rparr>)
       | Cont \<Rightarrow> statement_loop stmt bp semicolon n s lx)"
proof -
  let ?s = "with_start_end_token (st_start left)
    (case en of Done x \<Rightarrow> if tk_category x = Semicolon then x else st_end rhs | Cont \<Rightarrow> st_end rhs)
    (Operator (tk_category t) [left, rhs])"
  have op: "operation_new t = Some (OperatorOp (tk_category t))" using assms(1) by (simp add: is_binary_def)
  have "infix_statement stmt (OperatorOp (tk_category t)) (right_power t) t left semicolon \<lparr>lx_tokens = ts, lx_depth = d\<rparr> =
      Some (Inr (en, ?s), lx)"
    using assms(3,4) by (simp add: infix_statement_def p_bind_def p_ok_def Let_def)
  then have "statement_loop stmt bp semicolon (Suc n) left \<lparr>lx_tokens = t # ts, lx_depth = d\<rparr> =
      (case en of
         Done x \<Rightarrow> Some (Inr (Done x, set_end x ?s), lx\<lparr>lx_depth := 0\<rparr>)
       | Cont \<Rightarrow> statement_loop stmt bp semicolon n ?s lx)"
    using is_binary_powers [OF assms(1)] assms(2) op operator_not_semicolon [OF assms(1)]
    by (simp add: p_bind_def lx_peek_def lx_token_def handle_infix_def reset_depth_def p_ok_def finish_statement_def
        split: lx_end.split)
  then show ?thesis by (intro exI [of _ ?s]) (simp add: with_start_end_token_def)
qed

lemma loop_semicolon:
  assumes "tk_category t = Semicolon"
  shows "statement_loop stmt bp semicolon (Suc k) left \<lparr>lx_tokens = t # ts, lx_depth = d\<rparr> =
    Some (Inr (Done t, set_end t left), \<lparr>lx_tokens = ts, lx_depth = 0\<rparr>)"
  using assms by (simp add: p_bind_def lx_peek_def lx_token_def reset_depth_def finish_statement_def p_ok_def)

lemma loop_stop:
  assumes "is_binary t" "left_power t < bp"
  shows "statement_loop stmt bp semicolon (Suc k) left \<lparr>lx_tokens = t # ts, lx_depth = d\<rparr> =
    Some (Inr (Cont, left), \<lparr>lx_tokens = t # ts, lx_depth = d\<rparr>)"
proof -
  have "operation_new t = Some (OperatorOp (tk_category t))" using assms(1) by (simp add: is_binary_def)
  then show ?thesis using assms(2) is_binary_powers [OF assms(1)] operator_not_semicolon [OF assms(1)]
    by (simp add: p_bind_def lx_peek_def handle_infix_def p_ok_def)
qed

lemma literal_start:
  assumes "is_literal t" "Suc d < MAX_DEPTH"
  shows "statement_n (Suc n) bp semicolon \<lparr>lx_tokens = t # ts, lx_depth = d\<rparr> =
    statement_loop (statement_n n) bp semicolon (Suc (length ts)) (with_start_token t Primitive) \<lparr>lx_tokens = ts, lx_depth = Suc d\<rparr>"
  using assms literal_token [OF assms(1)]
  by (simp add: statement_body_def p_bind_def enter_statement_def lx_token_def prefix_statement_def is_literal_def
      p_ok_def run_statement_loop_def del: statement_loop.simps)

lemma follows_binary:
  assumes "follows bp rest" "tk_category (hd rest) \<noteq> Semicolon"
  obtains t ts where "rest = t # ts" "is_binary t" "left_power t < bp"
  using assms by (auto simp: follows_def split: list.splits)

text \<open>Reading an expression that a binary operator follows leads to the loop with a statement for it;
  reading an expression that ends leaves its statement.\<close>

definition root_power_above :: "token \<Rightarrow> expr \<Rightarrow> bool" where
  "root_power_above t e \<longleftrightarrow> (case e of Leaf _ \<Rightarrow> True | Node _ opr _ \<Rightarrow> left_power t < right_power opr)"

definition in_loop :: "nat \<Rightarrow> nat \<Rightarrow> expr \<Rightarrow> token list \<Rightarrow> nat \<Rightarrow> bool" where
  "in_loop n bp e rest d \<longleftrightarrow> (\<exists>k s. length rest < k \<and> represents e s \<and>
    statement_n (Suc n) bp semicolon \<lparr>lx_tokens = expr_tokens e @ rest, lx_depth = d\<rparr> =
      statement_loop (statement_n n) bp semicolon k s \<lparr>lx_tokens = rest, lx_depth = d + leaves e\<rparr>)"

lemma in_loop_Node:
  assumes "in_loop n bp l (opr # expr_tokens r @ rest) d" "is_binary opr" "bp \<le> left_power opr"
    and "statement_n n (right_power opr) semicolon \<lparr>lx_tokens = expr_tokens r @ rest, lx_depth = d + leaves l\<rparr> =
      Some (Inr (Cont, b), \<lparr>lx_tokens = rest, lx_depth = d + leaves l + leaves r\<rparr>)" "represents r b"
  shows "in_loop n bp (Node l opr r) rest d"
proof -
  obtain k a where k: "length (opr # expr_tokens r @ rest) < k" "represents l a"
      "statement_n (Suc n) bp semicolon \<lparr>lx_tokens = expr_tokens l @ opr # expr_tokens r @ rest, lx_depth = d\<rparr> =
        statement_loop (statement_n n) bp semicolon k a \<lparr>lx_tokens = opr # expr_tokens r @ rest, lx_depth = d + leaves l\<rparr>"
    using assms(1) unfolding in_loop_def by blast
  then obtain k' where k': "k = Suc k'" "length rest < k'" by (cases k) auto
  obtain s where "st_kind s = Operator (tk_category opr) [a, b]"
      "statement_loop (statement_n n) bp semicolon (Suc k') a \<lparr>lx_tokens = opr # expr_tokens r @ rest, lx_depth = d + leaves l\<rparr> =
        statement_loop (statement_n n) bp semicolon k' s \<lparr>lx_tokens = rest, lx_depth = d + leaves l + leaves r\<rparr>"
    using loop_binary [where stmt = "statement_n n", OF assms(2,3,4) represents_not_EoF [OF assms(5)], of a k'] by auto
  then show ?thesis unfolding in_loop_def using k k' assms(5)
    by (intro exI [of _ k'] exI [of _ s]) (simp add: add.assoc)
qed

definition loop_claim :: "expr \<Rightarrow> bool" where
  "loop_claim e \<longleftrightarrow> (\<forall>bp t ts n d. well_grouped bp e \<longrightarrow> is_binary t \<longrightarrow> root_power_above t e \<longrightarrow> d + leaves e < MAX_DEPTH
    \<longrightarrow> length (expr_tokens e @ t # ts) \<le> n \<longrightarrow> in_loop n bp e (t # ts) d)"

definition parse_claim :: "expr \<Rightarrow> bool" where
  "parse_claim e \<longleftrightarrow> (\<forall>bp rest n d. well_grouped bp e \<longrightarrow> follows bp rest \<longrightarrow> d + leaves e < MAX_DEPTH
    \<longrightarrow> length (expr_tokens e @ rest) \<le> n
    \<longrightarrow> parsed e rest (d + leaves e) (statement_n (Suc n) bp semicolon \<lparr>lx_tokens = expr_tokens e @ rest, lx_depth = d\<rparr>))"

lemma loop_claimD: "loop_claim e \<Longrightarrow> well_grouped bp e \<Longrightarrow> is_binary t \<Longrightarrow> root_power_above t e \<Longrightarrow> d + leaves e < MAX_DEPTH
    \<Longrightarrow> length (expr_tokens e @ t # ts) \<le> n \<Longrightarrow> in_loop n bp e (t # ts) d"
  unfolding loop_claim_def by blast

lemma parse_claimD: "parse_claim e \<Longrightarrow> well_grouped bp e \<Longrightarrow> follows bp rest \<Longrightarrow> d + leaves e < MAX_DEPTH
    \<Longrightarrow> length (expr_tokens e @ rest) < n
    \<Longrightarrow> parsed e rest (d + leaves e) (statement_n n bp semicolon \<lparr>lx_tokens = expr_tokens e @ rest, lx_depth = d\<rparr>)"
  unfolding parse_claim_def by (cases n) (simp_all add: less_Suc_eq_le del: statement_n.simps)

text \<open>From the loop, an operator for the caller ends the expression.\<close>

lemma in_loop_stop:
  assumes "in_loop n bp e (t # ts) d" "is_binary t" "left_power t < bp"
  shows "parsed e (t # ts) (d + leaves e) (statement_n (Suc n) bp semicolon \<lparr>lx_tokens = expr_tokens e @ t # ts, lx_depth = d\<rparr>)"
proof -
  obtain k s where k: "length (t # ts) < k" "represents e s"
      "statement_n (Suc n) bp semicolon \<lparr>lx_tokens = expr_tokens e @ t # ts, lx_depth = d\<rparr> =
        statement_loop (statement_n n) bp semicolon k s \<lparr>lx_tokens = t # ts, lx_depth = d + leaves e\<rparr>"
    using assms(1) unfolding in_loop_def by blast
  then obtain k' where "k = Suc k'" by (cases k) auto
  then show ?thesis
    using k loop_stop [OF assms(2,3)] operator_not_semicolon [OF assms(2)] unfolding parsed_def by (intro exI [of _ s]) simp
qed

lemma loop_claim_Leaf: "loop_claim (Leaf a)"
  unfolding loop_claim_def in_loop_def
proof (intro allI impI)
  fix bp t ts n d
  assume "well_grouped bp (Leaf a)" "d + leaves (Leaf a) < MAX_DEPTH"
  then show "\<exists>k s. length (t # ts) < k \<and> represents (Leaf a) s \<and>
      statement_n (Suc n) bp semicolon \<lparr>lx_tokens = expr_tokens (Leaf a) @ t # ts, lx_depth = d\<rparr> =
      statement_loop (statement_n n) bp semicolon k s \<lparr>lx_tokens = t # ts, lx_depth = d + leaves (Leaf a)\<rparr>"
    using literal_start [of a d n bp "t # ts"]
    by (intro exI [of _ "Suc (length (t # ts))"] exI [of _ "with_start_token a Primitive"])
      (simp add: with_start_token_def del: statement_n.simps statement_loop.simps)
qed

lemma parse_claim_Leaf: "parse_claim (Leaf a)"
  unfolding parse_claim_def
proof (intro allI impI)
  fix bp rest n d
  assume a: "well_grouped bp (Leaf a)" "follows bp rest" "d + leaves (Leaf a) < MAX_DEPTH"
    "length (expr_tokens (Leaf a) @ rest) \<le> n"
  show "parsed (Leaf a) rest (d + leaves (Leaf a))
      (statement_n (Suc n) bp semicolon \<lparr>lx_tokens = expr_tokens (Leaf a) @ rest, lx_depth = d\<rparr>)"
  proof (cases "tk_category (hd rest) = Semicolon")
    case True
    then obtain t ts where t: "rest = t # ts" "tk_category t = Semicolon" using a(2) by (cases rest) (auto simp: follows_def)
    then show ?thesis using a(1,3) literal_start [of a d n bp rest] loop_semicolon [OF t(2)]
      unfolding parsed_def by (intro exI [of _ "set_end t (with_start_token a Primitive)"])
        (simp add: with_start_token_def del: statement_n.simps statement_loop.simps)
  next
    case False
    then obtain t ts where t: "rest = t # ts" "is_binary t" "left_power t < bp" using follows_binary [OF a(2)] by blast
    then have "in_loop n bp (Leaf a) (t # ts) d"
      using a by (intro loop_claimD [OF loop_claim_Leaf]) (simp_all add: root_power_above_def)
    then show ?thesis using in_loop_stop t by blast
  qed
qed

lemma claims_Node:
  assumes "loop_claim l" "parse_claim r"
  shows "loop_claim (Node l opr r) \<and> parse_claim (Node l opr r)"
proof -
  have left: "in_loop n bp l (opr # expr_tokens r @ rest) d"
    if "well_grouped bp (Node l opr r)" "d + leaves (Node l opr r) < MAX_DEPTH" "length (expr_tokens (Node l opr r) @ rest) \<le> n"
    for bp rest n d
    using that by (intro loop_claimD [OF assms(1)]) (auto simp: root_power_above_def)
  have right: "parsed r rest (d + leaves l + leaves r)
      (statement_n n (right_power opr) semicolon \<lparr>lx_tokens = expr_tokens r @ rest, lx_depth = d + leaves l\<rparr>)"
    if "well_grouped bp (Node l opr r)" "d + leaves (Node l opr r) < MAX_DEPTH" "length (expr_tokens (Node l opr r) @ rest) \<le> n"
      "follows (right_power opr) rest" for bp rest n d
    using that by (intro parse_claimD [OF assms(2)]) auto
  have loop: "in_loop n bp (Node l opr r) (t # ts) d"
    if w: "well_grouped bp (Node l opr r)" "d + leaves (Node l opr r) < MAX_DEPTH" "length (expr_tokens (Node l opr r) @ t # ts) \<le> n"
      "is_binary t" "left_power t < right_power opr" for bp t ts n d
  proof -
    have "follows (right_power opr) (t # ts)" using w(4,5) by (simp add: follows_def)
    then obtain b where "represents r b"
        "statement_n n (right_power opr) semicolon \<lparr>lx_tokens = expr_tokens r @ t # ts, lx_depth = d + leaves l\<rparr> =
          Some (Inr (Cont, b), \<lparr>lx_tokens = t # ts, lx_depth = d + leaves l + leaves r\<rparr>)"
      using right [OF w(1-3)] operator_not_semicolon [OF w(4)] unfolding parsed_def by auto
    then show ?thesis using left [OF w(1-3)] w(1) by (intro in_loop_Node) auto
  qed
  have "parsed (Node l opr r) rest (d + leaves (Node l opr r))
      (statement_n (Suc n) bp semicolon \<lparr>lx_tokens = expr_tokens (Node l opr r) @ rest, lx_depth = d\<rparr>)"
    if w: "well_grouped bp (Node l opr r)" "d + leaves (Node l opr r) < MAX_DEPTH" "length (expr_tokens (Node l opr r) @ rest) \<le> n"
      "follows bp rest" for bp rest n d
  proof (cases "tk_category (hd rest) = Semicolon")
    case True
    then obtain t ts where t: "rest = t # ts" "tk_category t = Semicolon" using w(4) by (cases rest) (auto simp: follows_def)
    then obtain b where b: "represents r b"
        "statement_n n (right_power opr) semicolon \<lparr>lx_tokens = expr_tokens r @ rest, lx_depth = d + leaves l\<rparr> =
          Some (Inr (Done t, b), \<lparr>lx_tokens = ts, lx_depth = 0\<rparr>)"
      using right [OF w(1-3)] unfolding parsed_def by (auto simp: follows_def)
    obtain k a where k: "length (opr # expr_tokens r @ rest) < k" "represents l a"
        "statement_n (Suc n) bp semicolon \<lparr>lx_tokens = expr_tokens l @ opr # expr_tokens r @ rest, lx_depth = d\<rparr> =
          statement_loop (statement_n n) bp semicolon k a \<lparr>lx_tokens = opr # expr_tokens r @ rest, lx_depth = d + leaves l\<rparr>"
      using left [OF w(1-3)] unfolding in_loop_def by blast
    then obtain k' where k': "k = Suc k'" by (cases k) auto
    obtain s where "st_kind s = Operator (tk_category opr) [a, b]"
        "statement_loop (statement_n n) bp semicolon (Suc k') a \<lparr>lx_tokens = opr # expr_tokens r @ rest, lx_depth = d + leaves l\<rparr> =
          Some (Inr (Done t, set_end t s), \<lparr>lx_tokens = ts, lx_depth = 0\<rparr>)"
      using loop_binary [where stmt = "statement_n n" and t = opr, OF _ _ b(2) represents_not_EoF [OF b(1)], of bp a k'] w(1) by auto
    then have "represents (Node l opr r) (set_end t s)"
        "statement_n (Suc n) bp semicolon \<lparr>lx_tokens = expr_tokens (Node l opr r) @ rest, lx_depth = d\<rparr> =
          Some (Inr (Done t, set_end t s), \<lparr>lx_tokens = ts, lx_depth = 0\<rparr>)"
      using k k' b(1) by (simp_all del: statement_n.simps statement_loop.simps)
    then show ?thesis using t unfolding parsed_def
      by (intro exI [of _ "set_end t s"]) (simp del: represents.simps statement_n.simps)
  next
    case False
    then obtain t ts where t: "rest = t # ts" "is_binary t" "left_power t < bp" using follows_binary [OF w(4)] by blast
    have "left_power t < right_power opr" using t(3) w(1) left_less_right [of opr] by simp
    then have "in_loop n bp (Node l opr r) (t # ts) d" using loop w(1-3) t(1,2) by simp
    then show ?thesis using in_loop_stop t by blast
  qed
  then show ?thesis using loop unfolding loop_claim_def parse_claim_def by (auto simp: root_power_above_def)
qed

lemma parse_claims: "loop_claim e \<and> parse_claim e"
  by (induction e) (simp_all add: loop_claim_Leaf parse_claim_Leaf claims_Node)

lemma expression_next:
  assumes "well_grouped 0 e" "leaves e < MAX_DEPTH" "tk_category semi = Semicolon"
  obtains s where "represents e s"
    "lexer_next \<lparr>lx_tokens = expr_tokens e @ semi # ts, lx_depth = 0\<rparr> = Some (Some (Inr s), \<lparr>lx_tokens = ts, lx_depth = 0\<rparr>)"
proof -
  have "parsed e (semi # ts) (0 + leaves e)
      (parse_statement 0 semicolon \<lparr>lx_tokens = expr_tokens e @ semi # ts, lx_depth = 0\<rparr>)"
    unfolding parse_statement_def using assms parse_claims
    by (intro parse_claimD) (simp_all add: follows_def)
  then obtain s where s: "represents e s"
      "parse_statement 0 semicolon \<lparr>lx_tokens = expr_tokens e @ semi # ts, lx_depth = 0\<rparr> =
        Some (Inr (Done semi, s), \<lparr>lx_tokens = ts, lx_depth = 0\<rparr>)"
    using assms(3) unfolding parsed_def by auto
  moreover have "st_kind s \<noteq> EoF" using represents_not_EoF [OF s(1)] .
  ultimately show thesis by (intro that) (simp_all add: lexer_next_def MAX_DEPTH_def)
qed

text \<open>The end of the tokens ends the iteration, at any depth; a semicolon alone is an empty statement and leaves
  the depth one higher.\<close>

lemmas parser_defs = p_bind_def enter_statement_def lx_token_def p_ok_def

lemma end_of_tokens: "\<exists>lx. lexer_next \<lparr>lx_tokens = [], lx_depth = d\<rparr> = Some (None, lx)"
  by (simp add: lexer_next_def parse_statement_def statement_body_def parser_defs finish_statement_def set_end_def
      without_token_def Let_def)

lemma lone_semicolon:
  assumes "tk_category semi = Semicolon" "Suc d < MAX_DEPTH"
  shows "lexer_next \<lparr>lx_tokens = semi # ts, lx_depth = d\<rparr>
    = Some (Some (Inr (with_start_end_token semi semi NoOp)), \<lparr>lx_tokens = ts, lx_depth = Suc d\<rparr>)"
  using assms by (simp add: lexer_next_def parse_statement_def statement_body_def parser_defs finish_statement_def set_end_def
      with_start_token_def with_start_end_token_def is_faulty_def Let_def)

lemma depth_exhausted: "MAX_DEPTH \<le> Suc d \<Longrightarrow> \<exists>lx. lexer_next \<lparr>lx_tokens = ts, lx_depth = d\<rparr> = Some (None, lx)"
  by (simp add: lexer_next_def parse_statement_def statement_body_def parser_defs Let_def)

lemma semicolons_collected:
  assumes "tk_category semi = Semicolon"
  shows "Suc (d + m) = MAX_DEPTH \<Longrightarrow> collect_statements (Suc (k + m)) \<lparr>lx_tokens = replicate m semi @ ts, lx_depth = d\<rparr>
    = Some (replicate m (Inr (with_start_end_token semi semi NoOp)))"
proof (induction m arbitrary: d)
  case 0
  then show ?case using depth_exhausted [of d ts] by auto
next
  case (Suc m)
  then show ?case using lone_semicolon [OF assms, of d] Suc.IH [of "Suc d"] by simp
qed

section \<open>Properties\<close>

text \<open>C11: Parsing ends for every code: the parser returns statements and errors, no more than the code has
  characters, although methods call each other and iterate without a bound of their own.\<close>

theorem parse_terminates: "\<exists>items. parse_code code = Some items \<and> length items \<le> length code"
proof -
  have "length (lx_tokens (new_lexer (new_tokenizer code))) \<le> length code"
    using le_trans [OF length_filter_le lexed_length [OF new_tokens_lexed]] by (simp add: new_lexer_def)
  moreover have "\<exists>items. parse_code code = Some items \<and> length items \<le> length (lx_tokens (new_lexer (new_tokenizer code)))"
    unfolding parse_code_def Let_def by (rule collect_statements_good) (simp_all add: new_lexer_def MAX_DEPTH_def)
  ultimately show ?thesis using le_trans by blast
qed


text \<open>The tokens of \<open>1 + 2 * 3 - 4\<close>: the product binds stronger, the difference takes the sum on its left.\<close>

definition token_at :: "nat \<Rightarrow> category \<Rightarrow> token" where
  "token_at n c = \<lparr>tk_category = c, tk_line_column = (1, Suc n), tk_position = (n, Suc n)\<rparr>"

definition example_expr :: expr where
  "example_expr =
    Node (Node (Leaf (token_at 0 (NumberLit 1))) (token_at 1 Plus)
           (Node (Leaf (token_at 2 (NumberLit 2))) (token_at 3 Star) (Leaf (token_at 4 (NumberLit 3)))))
         (token_at 5 Minus) (Leaf (token_at 6 (NumberLit 4)))"


text \<open>Empty statements count as nesting that never ends: after one semicolon less than the maximal depth the
  parse is over, without an error and whatever code follows.\<close>

theorem semicolons_end_parse:
  assumes "tk_category semi = Semicolon"
  shows "collect_statements (length ts + MAX_DEPTH) \<lparr>lx_tokens = replicate (MAX_DEPTH - 1) semi @ ts, lx_depth = 0\<rparr>
    = Some (replicate (MAX_DEPTH - 1) (Inr (with_start_end_token semi semi NoOp)))"
  using semicolons_collected [OF assms, of 0 "MAX_DEPTH - 1" "length ts" ts] by (simp add: MAX_DEPTH_def add.commute del: collect_statements.simps)

theorem semicolons_end_parse_witness:
  "collect_statements 43 \<lparr>lx_tokens = replicate 41 (token_at 0 Semicolon) @ [token_at 1 RightParen], lx_depth = 0\<rparr>
    = Some (replicate 41 (Inr (with_start_end_token (token_at 0 Semicolon) (token_at 0 Semicolon) NoOp)))"
  using semicolons_end_parse [of "token_at 0 Semicolon" "[token_at 1 RightParen]"]
  by (simp add: token_at_def MAX_DEPTH_def del: collect_statements.simps replicate.simps)

end
