(* ===== verification/Nasl_Interpreter.thy ===== *)
theory Nasl_Interpreter
  imports Nasl_Operator Nasl_Lexer
begin

text \<open>
  The interpreter of NASL: src/rust/src/nasl/interpreter/interpreter.rs with call.rs, assign.rs,
  declare.rs, loop_extension.rs and operator.rs, the executor of builtin functions
  src/rust/src/nasl/utils/executor/mod.rs, and code_interpreter.rs.

  The state of an interpreter is a list of runs, the index of the active one and the state of the
  world that builtin functions may change. A computation returns \<open>None\<close> when its bound is used up,
  \<open>Some Panic\<close> when the code panics, and otherwise a value or an error together with the new state;
  the state is there after an error as well, since the caller may try again. The methods of the code
  call each other through \<open>Interpreter::resolve\<close>, which is the argument \<open>resolve\<close> of their models;
  \<open>resolve_n\<close> ties the knot with a bound on the nesting of calls and on the rounds of each loop.

  Builtin functions, the loader of included files and regular expressions are fields of an
  environment.
\<close>

section \<open>State\<close>

type_synonym position = "nat list"

definition new_position :: "nat \<Rightarrow> position" where
  "new_position i = [i]"

definition pos_up :: "position \<Rightarrow> position" where
  "pos_up p = p @ [0]"

definition reduce_last :: "position \<Rightarrow> position" where
  "reduce_last p = (if p = [] then p else butlast p @ [last p - 1])"

definition pos_down :: "position \<Rightarrow> position" where
  "pos_down p = (let q = butlast p in if q = [] then q else butlast q @ [last q + 1])"

definition root_index :: "position \<Rightarrow> nat" where
  "root_index p = (case p of [] \<Rightarrow> 0 | i # _ \<Rightarrow> i)"

definition current_init_statement :: "position \<Rightarrow> position" where
  "current_init_statement p = [root_index p]"

record run_specific =
  rs_register :: register
  rs_position :: position
  rs_skip :: "(position \<times> nasl_value) list"

record 'w machine =
  runs :: "run_specific list"
  m_index :: nat
  world :: 'w

text \<open>A set of builtin functions with their names. A function may panic.\<close>

type_synonym 'w function_set = "(string \<times> (register \<Rightarrow> 'w \<Rightarrow> ((fn_error + nasl_value) \<times> 'w) rs)) list"

record 'w env =
  sets :: "'w function_set list"
  loader :: "string \<Rightarrow> load_error + string"
  regex_new :: "string \<Rightarrow> (string \<Rightarrow> bool) option"

fun executor_exec :: "'w function_set list \<Rightarrow> string \<Rightarrow> register \<Rightarrow> 'w \<Rightarrow> ((fn_error + nasl_value) \<times> 'w) rs option" where
  "executor_exec [] k r w = None"
| "executor_exec (s # ss) k r w =
    (case map_of s k of Some f \<Rightarrow> Some (f r w) | None \<Rightarrow> executor_exec ss k r w)"

definition executor_contains :: "'w function_set list \<Rightarrow> string \<Rightarrow> bool" where
  "executor_contains ss k = list_ex (\<lambda>s. map_of s k \<noteq> None) ss"

definition new_machine :: "register \<Rightarrow> 'w \<Rightarrow> 'w machine" where
  "new_machine r w = \<lparr>runs = [\<lparr>rs_register = r, rs_position = new_position 0, rs_skip = []\<rparr>], m_index = 0, world = w\<rparr>"

section \<open>Computations\<close>

type_synonym ('w, 'a) interp = "'w machine \<Rightarrow> ((interpret_error + 'a) \<times> 'w machine) rs option"

definition i_ok :: "'a \<Rightarrow> ('w, 'a) interp" where
  "i_ok x s = Some (Ret (Inr x, s))"

definition i_err :: "interpret_error \<Rightarrow> ('w, 'a) interp" where
  "i_err e s = Some (Ret (Inl e, s))"

definition i_panic :: "('w, 'a) interp" where
  "i_panic s = Some Panic"

definition i_bind :: "('w, 'a) interp \<Rightarrow> ('a \<Rightarrow> ('w, 'b) interp) \<Rightarrow> ('w, 'b) interp" where
  "i_bind m f s =
    (case m s of
       None \<Rightarrow> None
     | Some Panic \<Rightarrow> Some Panic
     | Some (Ret (Inl e, s)) \<Rightarrow> Some (Ret (Inl e, s))
     | Some (Ret (Inr x, s)) \<Rightarrow> f x s)"

definition i_lift :: "interpret_error + 'a \<Rightarrow> ('w, 'a) interp" where
  "i_lift r s = Some (Ret (r, s))"

text \<open>The active run.\<close>

definition cur :: "'w machine \<Rightarrow> run_specific" where
  "cur s = runs s ! m_index s"

definition set_cur :: "run_specific \<Rightarrow> 'w machine \<Rightarrow> 'w machine" where
  "set_cur r s = s\<lparr>runs := (runs s)[m_index s := r]\<rparr>"

definition cur_register :: "'w machine \<Rightarrow> register" where
  "cur_register s = rs_register (cur s)"

definition map_register :: "(register \<Rightarrow> register) \<Rightarrow> 'w machine \<Rightarrow> 'w machine" where
  "map_register f s = set_cur ((cur s)\<lparr>rs_register := f (cur_register s)\<rparr>) s"

definition map_position :: "(position \<Rightarrow> position) \<Rightarrow> 'w machine \<Rightarrow> 'w machine" where
  "map_position f s = set_cur ((cur s)\<lparr>rs_position := f (rs_position (cur s))\<rparr>) s"

definition get_register :: "('w, register) interp" where
  "get_register s = Some (Ret (Inr (cur_register s), s))"

definition on_register :: "(register \<Rightarrow> register) \<Rightarrow> ('w, unit) interp" where
  "on_register f s = Some (Ret (Inr (), map_register f s))"

definition on_register_rs :: "(register \<Rightarrow> register rs) \<Rightarrow> ('w, unit) interp" where
  "on_register_rs f s =
    (case f (cur_register s) of Panic \<Rightarrow> Some Panic | Ret r \<Rightarrow> Some (Ret (Inr (), map_register (\<lambda>_. r) s)))"

definition interp_identifier :: "token \<Rightarrow> interpret_error + string" where
  "interp_identifier t =
    (case tk_category t of Identifier (Undefined x) \<Rightarrow> Inr x | cat \<Rightarrow> Inl (wrong_category cat))"

type_synonym 'w resolver = "statement \<Rightarrow> ('w, nasl_value) interp"

section \<open>Expressions\<close>

fun resolve_values :: "'w resolver \<Rightarrow> statement list \<Rightarrow> ('w, nasl_value list) interp" where
  "resolve_values resolve [] = i_ok []"
| "resolve_values resolve (x # xs) =
    i_bind (resolve x) (\<lambda>v. i_bind (resolve_values resolve xs) (\<lambda>vs. i_ok (v # vs)))"

definition resolve_parameter :: "'w resolver \<Rightarrow> statement list \<Rightarrow> ('w, nasl_value) interp" where
  "resolve_parameter resolve xs = i_bind (resolve_values resolve xs) (\<lambda>vs. i_ok (NArray vs))"

definition resolve_array :: "'w resolver \<Rightarrow> statement \<Rightarrow> statement option \<Rightarrow> ('w, nasl_value) interp" where
  "resolve_array resolve stmt position =
    i_bind (i_lift (interp_identifier (st_start stmt))) (\<lambda>name.
    i_bind get_register (\<lambda>r.
      case (position, case reg_named r name of Some c \<Rightarrow> c | None \<Rightarrow> CValue NNull) of
        (None, CValue v) \<Rightarrow> i_ok v
      | (Some p, CValue (NArray x)) \<Rightarrow> i_bind (resolve p) (\<lambda>idx. i_ok (element (NArray x) idx))
      | (Some p, CValue (NDict x)) \<Rightarrow> i_bind (resolve p) (\<lambda>idx. i_ok (element (NDict x) idx))
      | (Some _, CValue NNull) \<Rightarrow> i_ok NNull
      | (Some p, _) \<Rightarrow> i_err (unsupported p ''array'')
      | (None, CFunction _ _) \<Rightarrow> i_err (unsupported stmt ''variable'')))"

definition resolve_exit :: "'w resolver \<Rightarrow> statement \<Rightarrow> ('w, nasl_value) interp" where
  "resolve_exit resolve stmt =
    i_bind (resolve stmt) (\<lambda>rc. case rc of
      NNumber rc \<Rightarrow> i_ok (NExit rc)
    | _ \<Rightarrow> i_err (unsupported stmt ''numeric''))"

definition resolve_return :: "'w resolver \<Rightarrow> statement \<Rightarrow> ('w, nasl_value) interp" where
  "resolve_return resolve stmt = i_bind (resolve stmt) (\<lambda>rc. i_ok (NReturn rc))"

definition resolve_primitive :: "statement \<Rightarrow> ('w, nasl_value) interp" where
  "resolve_primitive stmt = i_lift (map_sum wrong_category id (token_value (st_start stmt)))"

definition resolve_variable :: "statement \<Rightarrow> ('w, nasl_value) interp" where
  "resolve_variable stmt =
    i_bind (i_lift (map_sum wrong_category id (token_value (st_start stmt)))) (\<lambda>name.
    i_bind get_register (\<lambda>r.
      case reg_named r (nasl_display name) of
        Some (CValue v) \<Rightarrow> i_ok v
      | None \<Rightarrow> i_ok NNull
      | Some (CFunction _ _) \<Rightarrow> i_err (unsupported stmt ''variable'')))"

definition resolve_if :: "'w resolver \<Rightarrow> statement \<Rightarrow> statement \<Rightarrow> statement option \<Rightarrow> ('w, nasl_value) interp" where
  "resolve_if resolve condition if_block else_block =
    i_bind (resolve condition) (\<lambda>v.
      if to_bool v then resolve if_block
      else case else_block of Some e \<Rightarrow> resolve e | None \<Rightarrow> i_ok NNull)"

text \<open>The values that end a block; a loop passes the first two on and ends at a break.\<close>

definition leaves_block :: "nasl_value \<Rightarrow> bool" where
  "leaves_block v = (case v of NExit _ \<Rightarrow> True | NReturn _ \<Rightarrow> True | NBreak \<Rightarrow> True | NContinue \<Rightarrow> True | _ \<Rightarrow> False)"

fun resolve_statements :: "'w resolver \<Rightarrow> statement list \<Rightarrow> ('w, nasl_value) interp" where
  "resolve_statements resolve [] = i_ok NNull"
| "resolve_statements resolve (x # xs) =
    i_bind (resolve x) (\<lambda>v. if leaves_block v then i_ok v else resolve_statements resolve xs)"

definition resolve_block :: "'w resolver \<Rightarrow> statement list \<Rightarrow> ('w, nasl_value) interp" where
  "resolve_block resolve blocks =
    i_bind (on_register (create_child [])) (\<lambda>_.
    i_bind (resolve_statements resolve blocks) (\<lambda>v.
    i_bind (on_register drop_last) (\<lambda>_. i_ok v)))"

definition resolve_attack_category :: "statement \<Rightarrow> ('w, nasl_value) interp" where
  "resolve_attack_category stmt =
    (case tk_category (st_start stmt) of Identifier (ACT cat) \<Rightarrow> i_ok (NAttackCategory cat) | _ \<Rightarrow> i_panic)"

definition i_rs :: "'a rs \<Rightarrow> ('w, 'a) interp" where
  "i_rs r s = (case r of Panic \<Rightarrow> Some Panic | Ret x \<Rightarrow> Some (Ret (Inr x, s)))"

text \<open>\<open>Interpreter::execute\<close>: an operator without operands is an index out of range.\<close>

definition execute_operands ::
  "'w resolver \<Rightarrow> statement list \<Rightarrow> (nasl_value \<Rightarrow> nasl_value option \<Rightarrow> interpret_result rs) \<Rightarrow> ('w, nasl_value) interp" where
  "execute_operands resolve stmts result =
    (case stmts of
       [] \<Rightarrow> i_panic
     | [x] \<Rightarrow> i_bind (resolve x) (\<lambda>a. i_bind (i_rs (result a None)) i_lift)
     | x # y # _ \<Rightarrow> i_bind (resolve x) (\<lambda>a. i_bind (resolve y) (\<lambda>b. i_bind (i_rs (result a (Some b))) i_lift)))"

fun resolve_times :: "'w resolver \<Rightarrow> nat \<Rightarrow> statement \<Rightarrow> ('w, unit) interp" where
  "resolve_times resolve 0 stmt = i_ok ()"
| "resolve_times resolve (Suc n) stmt = i_bind (resolve stmt) (\<lambda>_. resolve_times resolve n stmt)"

text \<open>The rounds of \<open>for _ in 1..repeat - 1\<close>.\<close>

definition repeat_rounds :: "i64 \<Rightarrow> nat" where
  "repeat_rounds repeat = nat (sint (repeat - 1) - 1)"

definition resolve_operator :: "'w env \<Rightarrow> 'w resolver \<Rightarrow> category \<Rightarrow> statement list \<Rightarrow> ('w, nasl_value) interp" where
  "resolve_operator env resolve cat stmts =
    (if cat = TokX then
       case stmts of
         repeatable # amount # _ \<Rightarrow>
           i_bind (resolve amount) (\<lambda>v.
             let repeat = to_i64 v in
             if repeat = 0 then i_ok NNull
             else i_bind (resolve_times resolve (repeat_rounds repeat) repeatable) (\<lambda>_. resolve repeatable))
       | _ \<Rightarrow> i_panic
     else case operator_value (regex_new env) cat of
       Some result \<Rightarrow> execute_operands resolve stmts result
     | None \<Rightarrow> i_err (wrong_category cat))"

section \<open>Assignments and declarations\<close>

definition named_value :: "string \<Rightarrow> ('w, nat \<times> nasl_value) interp" where
  "named_value key =
    i_bind get_register (\<lambda>r.
      case (case index_named r key of Some x \<Rightarrow> x | None \<Rightarrow> (0, CValue NNull)) of
        (_, CFunction _ _) \<Rightarrow> i_err (new_error FunctionExpectedValue None)
      | (idx, CValue v) \<Rightarrow> i_ok (idx, v))"

definition dynamic_return ::
  "string \<Rightarrow> assign_order \<Rightarrow> nasl_value option \<Rightarrow> nasl_value \<Rightarrow> (nasl_value \<Rightarrow> nasl_value \<Rightarrow> nasl_value rs) \<Rightarrow> ('w, nasl_value) interp" where
  "dynamic_return key order idx right result =
    i_bind (named_value key) (\<lambda>(ridx, left).
    i_bind (i_rs (assigned order idx left right result)) (\<lambda>(returned, stored).
    i_bind (on_register_rs (add_to_index ridx key (CValue stored))) (\<lambda>_. i_ok returned)))"

definition assign_target :: "'w resolver \<Rightarrow> statement \<Rightarrow> ('w, string \<times> nasl_value option) interp" where
  "assign_target resolve left =
    (case st_kind left of
       Variable \<Rightarrow> i_bind (i_lift (interp_identifier (st_start left))) (\<lambda>n. i_ok (n, None))
     | Array (Some stmt) \<Rightarrow>
         i_bind (i_lift (interp_identifier (st_start left))) (\<lambda>n. i_bind (resolve stmt) (\<lambda>v. i_ok (n, Some v)))
     | Array None \<Rightarrow> i_bind (i_lift (interp_identifier (st_start left))) (\<lambda>n. i_ok (n, None))
     | _ \<Rightarrow> i_err (unsupported left ''Array or Variable''))"

definition resolve_assign ::
  "'w resolver \<Rightarrow> category \<Rightarrow> assign_order \<Rightarrow> statement \<Rightarrow> statement \<Rightarrow> ('w, nasl_value) interp" where
  "resolve_assign resolve cat order left right =
    i_bind (assign_target resolve left) (\<lambda>(key, idx).
    i_bind (resolve right) (\<lambda>val.
      case assign_value cat of
        Some result \<Rightarrow>
          dynamic_return key (effective_order cat order) idx
            (if cat = PlusPlus \<or> cat = MinusMinus then NNull else val) result
      | None \<Rightarrow> i_err (wrong_category cat)))"

fun parameter_names :: "statement list \<Rightarrow> interpret_error + string list" where
  "parameter_names [] = Inr []"
| "parameter_names (a # as) =
    (if st_kind a = Variable
     then try_bind (interp_identifier (st_start a)) (\<lambda>n. try_bind (parameter_names as) (\<lambda>ns. Inr (n # ns)))
     else Inl (unsupported a ''variable''))"

definition declare_function :: "token \<Rightarrow> statement list \<Rightarrow> statement \<Rightarrow> ('w, nasl_value) interp" where
  "declare_function name arguments execution =
    i_bind (i_lift (interp_identifier name)) (\<lambda>name.
    i_bind (i_lift (parameter_names arguments)) (\<lambda>names.
    i_bind (on_register_rs (add_global name (CFunction names execution))) (\<lambda>_. i_ok NNull)))"

definition declare_name :: "token \<Rightarrow> statement \<Rightarrow> ('w, unit) interp" where
  "declare_name scope stmt =
    (case (st_kind stmt, tk_category (st_start stmt)) of
       (Variable, Identifier name) \<Rightarrow>
         (case tk_category scope of
            Identifier GlobalVarKw \<Rightarrow> on_register_rs (add_global (identifier_display name) (CValue NNull))
          | Identifier LocalVarKw \<Rightarrow> on_register (add_local (identifier_display name) (CValue NNull))
          | _ \<Rightarrow> i_panic)
     | _ \<Rightarrow> i_ok ())"

fun declare_variable :: "token \<Rightarrow> statement list \<Rightarrow> ('w, nasl_value) interp" where
  "declare_variable scope [] = i_ok NNull"
| "declare_variable scope (x # xs) = i_bind (declare_name scope x) (\<lambda>_. declare_variable scope xs)"

section \<open>Loops\<close>

text \<open>What a loop does with the value of its body: it goes on, or it ends with a value.\<close>

definition loop_end :: "nasl_value \<Rightarrow> nasl_value option" where
  "loop_end v = (case v of NBreak \<Rightarrow> Some NNull | NExit c \<Rightarrow> Some (NExit c) | NReturn x \<Rightarrow> Some (NReturn x) | _ \<Rightarrow> None)"

fun for_rounds :: "'w resolver \<Rightarrow> nat \<Rightarrow> statement \<Rightarrow> statement \<Rightarrow> statement \<Rightarrow> ('w, nasl_value) interp" where
  "for_rounds resolve 0 condition update body = (\<lambda>_. None)"
| "for_rounds resolve (Suc n) condition update body =
    i_bind (resolve condition) (\<lambda>c.
      if \<not> to_bool c then i_ok NNull
      else i_bind (resolve body) (\<lambda>ret.
        case loop_end ret of
          Some v \<Rightarrow> i_ok v
        | None \<Rightarrow> i_bind (resolve update) (\<lambda>_. for_rounds resolve n condition update body)))"

definition for_loop :: "'w resolver \<Rightarrow> nat \<Rightarrow> statement \<Rightarrow> statement \<Rightarrow> statement \<Rightarrow> statement \<Rightarrow> ('w, nasl_value) interp" where
  "for_loop resolve n assignment condition update body =
    i_bind (resolve assignment) (\<lambda>_. for_rounds resolve n condition update body)"

fun for_each_values :: "'w resolver \<Rightarrow> string \<Rightarrow> nasl_value list \<Rightarrow> statement \<Rightarrow> ('w, nasl_value) interp" where
  "for_each_values resolve name [] body = i_ok NNull"
| "for_each_values resolve name (v # vs) body =
    i_bind (on_register (add_local name (CValue v))) (\<lambda>_.
    i_bind (resolve body) (\<lambda>ret.
      case loop_end ret of Some v \<Rightarrow> i_ok v | None \<Rightarrow> for_each_values resolve name vs body))"

definition for_each_loop :: "'w resolver \<Rightarrow> token \<Rightarrow> statement \<Rightarrow> statement \<Rightarrow> ('w, nasl_value) interp" where
  "for_each_loop resolve variable iterable body =
    i_bind (i_lift (interp_identifier variable)) (\<lambda>name.
    i_bind (resolve iterable) (\<lambda>v. for_each_values resolve name (loop_values v) body))"

fun while_loop :: "'w resolver \<Rightarrow> nat \<Rightarrow> statement \<Rightarrow> statement \<Rightarrow> ('w, nasl_value) interp" where
  "while_loop resolve 0 condition body = (\<lambda>_. None)"
| "while_loop resolve (Suc n) condition body =
    i_bind (resolve condition) (\<lambda>c.
      if \<not> to_bool c then i_ok NNull
      else i_bind (resolve body) (\<lambda>ret.
        case loop_end ret of Some v \<Rightarrow> i_ok v | None \<Rightarrow> while_loop resolve n condition body))"

fun repeat_loop :: "'w resolver \<Rightarrow> nat \<Rightarrow> statement \<Rightarrow> statement \<Rightarrow> ('w, nasl_value) interp" where
  "repeat_loop resolve 0 body condition = (\<lambda>_. None)"
| "repeat_loop resolve (Suc n) body condition =
    i_bind (resolve body) (\<lambda>ret.
      case loop_end ret of
        Some v \<Rightarrow> i_ok v
      | None \<Rightarrow> i_bind (resolve condition) (\<lambda>c. if to_bool c then i_ok NNull else repeat_loop resolve n body condition))"

section \<open>Calls and includes\<close>

fun call_arguments :: "'w resolver \<Rightarrow> statement list \<Rightarrow> named \<Rightarrow> nasl_value list \<Rightarrow> ('w, named \<times> nasl_value list) interp" where
  "call_arguments resolve [] named position = i_ok (named, position)"
| "call_arguments resolve (p # ps) named position =
    (case st_kind p of
       NamedParameter val \<Rightarrow>
         i_bind (resolve val) (\<lambda>v.
         i_bind (i_lift (interp_identifier (st_start p))) (\<lambda>name.
           call_arguments resolve ps (AList.update name (CValue v) named) position))
     | _ \<Rightarrow> i_bind (resolve p) (\<lambda>v. call_arguments resolve ps named (position @ [v])))"

text \<open>The runs after a function has returned several values: every run skips to the position of the
  call with the first value, and there is a copy of every run for each further value.\<close>

definition fork_first :: "position \<Rightarrow> nasl_value \<Rightarrow> run_specific \<Rightarrow> run_specific" where
  "fork_first pos v r = r\<lparr>rs_skip := rs_skip r @ [(pos, v)]\<rparr>"

definition fork_copy :: "position \<Rightarrow> nasl_value \<Rightarrow> run_specific \<Rightarrow> run_specific" where
  "fork_copy pos v r =
    \<lparr>rs_register = rs_register r, rs_position = current_init_statement pos,
     rs_skip = filter (\<lambda>(p, _). p \<noteq> pos) (rs_skip r) @ [(pos, v)]\<rparr>"

definition fork_runs :: "nasl_value list \<Rightarrow> run_specific list \<Rightarrow> run_specific list" where
  "fork_runs x rs =
    (let pos = reduce_last (rs_position (hd rs));
         first = map (fork_first pos (hd x)) rs
     in first @ concat (map (\<lambda>v. map (fork_copy pos v) first) (tl x)))"

definition call_builtin :: "'w env \<Rightarrow> string \<Rightarrow> ('w, (fn_error + nasl_value) option) interp" where
  "call_builtin env name s =
    (case executor_exec (sets env) name (cur_register s) (world s) of
       None \<Rightarrow> Some (Ret (Inr None, s))
     | Some Panic \<Rightarrow> Some Panic
     | Some (Ret (r, w)) \<Rightarrow> Some (Ret (Inr (Some r), s\<lparr>world := w\<rparr>)))"

definition on_fork :: "nasl_value list \<Rightarrow> ('w, nasl_value) interp" where
  "on_fork x s =
    (if m_index s \<noteq> 0 then Some Panic
     else if x = [] then Some (Ret (Inr NNull, s))
     else Some (Ret (Inr (hd x), s\<lparr>runs := fork_runs x (runs s)\<rparr>)))"

fun default_parameters :: "string list \<Rightarrow> register \<Rightarrow> register" where
  "default_parameters [] r = r"
| "default_parameters (p # ps) r =
    default_parameters ps (if reg_named r p = None then add_local p (CValue NNull) r else r)"

definition call_function :: "'w resolver \<Rightarrow> string \<Rightarrow> ('w, nasl_value) interp" where
  "call_function resolve name =
    i_bind get_register (\<lambda>r.
      case reg_named r name of
        None \<Rightarrow> i_err (new_error (KeyNotFound name) None)
      | Some (CValue _) \<Rightarrow> i_bind (on_register drop_last) (\<lambda>_. i_err (new_error ValueExpectedFunction None))
      | Some (CFunction params stmt) \<Rightarrow>
          i_bind (on_register (default_parameters params)) (\<lambda>_.
          i_bind (resolve stmt) (\<lambda>v.
          i_bind (on_register drop_last) (\<lambda>_. i_ok (case v of NReturn x \<Rightarrow> x | a \<Rightarrow> a)))))"

definition call :: "'w env \<Rightarrow> 'w resolver \<Rightarrow> statement \<Rightarrow> statement list \<Rightarrow> ('w, nasl_value) interp" where
  "call env resolve stmt arguments =
    i_bind (i_lift (interp_identifier (st_start stmt))) (\<lambda>name.
    i_bind (call_arguments resolve arguments [] []) (\<lambda>(named, position).
    i_bind (on_register (create_root_child (AList.update FC_ANON_ARGS (CValue (NArray position)) named))) (\<lambda>_.
    i_bind (call_builtin env name) (\<lambda>result.
      case result of
        None \<Rightarrow> call_function resolve name
      | Some (Inr (NFork x)) \<Rightarrow> i_bind (on_fork x) (\<lambda>v. i_bind (on_register drop_last) (\<lambda>_. i_ok v))
      | Some (Inr v) \<Rightarrow> i_bind (on_register drop_last) (\<lambda>_. i_ok v)
      | Some (Inl e) \<Rightarrow>
          i_bind (on_register drop_last) (\<lambda>_. i_err (new_error (FunctionCallError name e) (Some stmt)))))))"

fun include_statements :: "'w resolver \<Rightarrow> string \<Rightarrow> (error_kind + statement) list \<Rightarrow> ('w, unit) interp" where
  "include_statements resolve key [] = i_ok ()"
| "include_statements resolve key (Inl e # xs) = i_err (new_error (IncludeSyntaxError key e) None)"
| "include_statements resolve key (Inr stmt # xs) = i_bind (resolve stmt) (\<lambda>_. include_statements resolve key xs)"

text \<open>The included file runs in an interpreter of its own that shares the world; its register replaces
  the one of the active run when it succeeds.\<close>

definition run_included :: "'w resolver \<Rightarrow> string \<Rightarrow> (error_kind + statement) list \<Rightarrow> ('w, nasl_value) interp" where
  "run_included resolve key items s =
    (case include_statements resolve key items (new_machine (cur_register s) (world s)) of
       None \<Rightarrow> None
     | Some Panic \<Rightarrow> Some Panic
     | Some (Ret (Inl e, t)) \<Rightarrow> Some (Ret (Inl e, s\<lparr>world := world t\<rparr>))
     | Some (Ret (Inr _, t)) \<Rightarrow> Some (Ret (Inr NNull, map_register (\<lambda>_. cur_register t) (s\<lparr>world := world t\<rparr>))))"

definition resolve_include :: "'w env \<Rightarrow> 'w resolver \<Rightarrow> statement \<Rightarrow> ('w, nasl_value) interp" where
  "resolve_include env resolve name =
    i_bind (resolve name) (\<lambda>v. case v of
      NString key \<Rightarrow>
        (case loader env key of
           Inl e \<Rightarrow> i_err (new_error (LoadErr e) None)
         | Inr code \<Rightarrow>
             (case parse_code code of
                None \<Rightarrow> (\<lambda>_. None)
              | Some items \<Rightarrow> run_included resolve key items))
    | _ \<Rightarrow> i_err (unsupported name ''string''))"

section \<open>Statements\<close>

fun may_return_value :: "position \<Rightarrow> (position \<times> nasl_value) list \<Rightarrow> nasl_value option" where
  "may_return_value pos [] = None"
| "may_return_value pos ((cp, v) # rest) =
    (if root_index pos < root_index cp then Some NNull
     else if cp = pos then Some v
     else may_return_value pos rest)"

definition resolve_kind :: "'w env \<Rightarrow> 'w resolver \<Rightarrow> nat \<Rightarrow> statement \<Rightarrow> ('w, nasl_value) interp" where
  "resolve_kind env resolve n stmt =
    (case st_kind stmt of
       Include inc \<Rightarrow> resolve_include env resolve inc
     | Array position \<Rightarrow> resolve_array resolve stmt position
     | Exit x \<Rightarrow> resolve_exit resolve x
     | Return x \<Rightarrow> resolve_return resolve x
     | NamedParameter _ \<Rightarrow> i_panic
     | For assignment condition update body \<Rightarrow> for_loop resolve n assignment condition update body
     | While condition body \<Rightarrow> while_loop resolve n condition body
     | Repeat body condition \<Rightarrow> repeat_loop resolve n body condition
     | ForEach variable iterable body \<Rightarrow> for_each_loop resolve variable iterable body
     | FunctionDeclaration name args exec \<Rightarrow> declare_function name (children args) exec
     | Primitive \<Rightarrow> resolve_primitive stmt
     | Variable \<Rightarrow> resolve_variable stmt
     | Call arguments \<Rightarrow> call env resolve stmt (children arguments)
     | Declare stmts \<Rightarrow> declare_variable (st_start stmt) stmts
     | Parameter x \<Rightarrow> resolve_parameter resolve x
     | Assign cat order left right \<Rightarrow> resolve_assign resolve cat order left right
     | Operator sign stmts \<Rightarrow> resolve_operator env resolve sign stmts
     | IfStmt condition if_block _ else_block \<Rightarrow> resolve_if resolve condition if_block else_block
     | Block blocks \<Rightarrow> resolve_block resolve blocks
     | NoOp \<Rightarrow> i_ok NNull
     | EoF \<Rightarrow> i_ok NNull
     | AttackCategory \<Rightarrow> resolve_attack_category stmt
     | Continue \<Rightarrow> i_ok NContinue
     | Break \<Rightarrow> i_ok NBreak)"

definition add_origin :: "statement \<Rightarrow> interpret_error \<Rightarrow> interpret_error" where
  "add_origin stmt e = (if ie_origin e = None then error_from_statement stmt (ie_kind e) else e)"

text \<open>The position goes up before the statement and down after it, also when it fails.\<close>

definition resolve_body :: "'w env \<Rightarrow> 'w resolver \<Rightarrow> nat \<Rightarrow> statement \<Rightarrow> ('w, nasl_value) interp" where
  "resolve_body env resolve n stmt s =
    (let s = map_position pos_up s in
     case may_return_value (rs_position (cur s)) (rs_skip (cur s)) of
       Some v \<Rightarrow> Some (Ret (Inr v, map_position pos_down s))
     | None \<Rightarrow>
         (case resolve_kind env resolve n stmt s of
            None \<Rightarrow> None
          | Some Panic \<Rightarrow> Some Panic
          | Some (Ret (r, s)) \<Rightarrow> Some (Ret (map_sum (add_origin stmt) id r, map_position pos_down s))))"

primrec resolve_n :: "'w env \<Rightarrow> nat \<Rightarrow> statement \<Rightarrow> ('w, nasl_value) interp" where
  "resolve_n env 0 = (\<lambda>_ _. None)"
| "resolve_n env (Suc n) = resolve_body env (resolve_n env n) n"

fun retry_resolve :: "'w env \<Rightarrow> nat \<Rightarrow> statement \<Rightarrow> nat \<Rightarrow> ('w, nasl_value) interp" where
  "retry_resolve env n stmt max_attempts s =
    (case resolve_n env n stmt s of
       Some (Ret (Inl e, s)) \<Rightarrow>
         (if max_attempts > 0 \<and> retryable e
          then retry_resolve env n stmt (max_attempts - 1) (s\<lparr>m_index := 0\<rparr>)
          else Some (Ret (Inl e, s)))
     | r \<Rightarrow> r)"

definition retry_resolve_next :: "'w env \<Rightarrow> nat \<Rightarrow> statement \<Rightarrow> nat \<Rightarrow> ('w, nasl_value) interp" where
  "retry_resolve_next env n stmt max_attempts s = retry_resolve env n stmt max_attempts (s\<lparr>m_index := 0\<rparr>)"

definition next_interpreter :: "'w machine \<Rightarrow> 'w machine option" where
  "next_interpreter s =
    (if length (runs s) = 1 \<or> m_index s + 1 = length (runs s) then None else Some (s\<lparr>m_index := m_index s + 1\<rparr>))"

section \<open>Scripts\<close>

record 'w code_interpreter =
  ci_lexer :: lexer
  ci_machine :: "'w machine"
  ci_statement :: "statement option"

definition new_code_interpreter :: "string \<Rightarrow> register \<Rightarrow> 'w \<Rightarrow> 'w code_interpreter" where
  "new_code_interpreter code r w =
    \<lparr>ci_lexer = new_lexer (new_tokenizer code), ci_machine = new_machine r w, ci_statement = None\<rparr>"

text \<open>\<open>next_statement\<close> and \<open>next_\<close>: the next result of the script and the interpreter after it; the inner
  \<open>None\<close> is the end of the script.\<close>

definition next_statement :: "'w env \<Rightarrow> nat \<Rightarrow> 'w code_interpreter \<Rightarrow> (interpret_result option \<times> 'w code_interpreter) rs option" where
  "next_statement env n ci =
    (case lexer_next (ci_lexer ci) of
       None \<Rightarrow> None
     | Some (None, lx) \<Rightarrow> Some (Ret (None, ci\<lparr>ci_lexer := lx, ci_statement := None\<rparr>))
     | Some (Some (Inl e), lx) \<Rightarrow>
         Some (Ret (Some (Inl (new_error (SyntaxErr e) None)), ci\<lparr>ci_lexer := lx, ci_statement := None\<rparr>))
     | Some (Some (Inr stmt), lx) \<Rightarrow>
         (case retry_resolve_next env n stmt 5 (ci_machine ci) of
            None \<Rightarrow> None
          | Some Panic \<Rightarrow> Some Panic
          | Some (Ret (r, m)) \<Rightarrow>
              Some (Ret (Some r, \<lparr>ci_lexer = lx, ci_machine = m, ci_statement = Some stmt\<rparr>))))"

definition next_result :: "'w env \<Rightarrow> nat \<Rightarrow> 'w code_interpreter \<Rightarrow> (interpret_result option \<times> 'w code_interpreter) rs option" where
  "next_result env n ci =
    (case ci_statement ci of
       None \<Rightarrow> next_statement env n ci
     | Some stmt \<Rightarrow>
         (case next_interpreter (ci_machine ci) of
            None \<Rightarrow> next_statement env n ci
          | Some m \<Rightarrow>
              (case retry_resolve env n stmt 5 m of
                 None \<Rightarrow> None
               | Some Panic \<Rightarrow> Some Panic
               | Some (Ret (r, m)) \<Rightarrow> Some (Ret (Some r, ci\<lparr>ci_machine := m\<rparr>)))))"

end
