(* ===== verification/Nasl_Semantics.thy ===== *)
theory Nasl_Semantics
  imports Nasl_Interpreter "HOL-Library.Sublist"
begin

text \<open>
  What holds of every run of the interpreter: a larger bound never changes a result; a statement leaves
  the scopes and the position of its run as it found them, and other runs alone; how runs are forked
  and what is left over when a statement fails.
\<close>

section \<open>Larger bounds\<close>

text \<open>A computation extends another one when it agrees with it wherever that one has a result.\<close>

definition extends :: "('w, 'a) interp \<Rightarrow> ('w, 'a) interp \<Rightarrow> bool" where
  "extends m m' \<longleftrightarrow> (\<forall>s. m s = None \<or> m s = m' s)"

named_theorems extends_intros

lemma extends_refl [simp, extends_intros]: "extends m m"
  by (simp add: extends_def)

lemma extends_bind [extends_intros]:
  "extends m m' \<Longrightarrow> (\<And>x. extends (f x) (f' x)) \<Longrightarrow> extends (i_bind m f) (i_bind m' f')"
  unfolding extends_def
proof
  fix s assume m: "\<forall>s. m s = None \<or> m s = m' s" and f: "\<And>x. \<forall>s. f x s = None \<or> f x s = f' x s"
  show "i_bind m f s = None \<or> i_bind m f s = i_bind m' f' s"
  proof (cases "m s")
    case (Some r)
    then have "m' s = Some r" using m by (metis option.distinct(1))
    with Some f show ?thesis by (auto simp: i_bind_def split: rs.splits sum.splits prod.splits)
  qed (simp add: i_bind_def)
qed

lemma extends_None [extends_intros]: "extends (\<lambda>_. None) m"
  by (simp add: extends_def)

lemma extends_if [extends_intros]:
  "(b \<Longrightarrow> extends m m') \<Longrightarrow> (\<not> b \<Longrightarrow> extends k k') \<Longrightarrow> extends (if b then m else k) (if b then m' else k')"
  by simp

lemma extends_option [extends_intros]:
  "(o' = None \<Longrightarrow> extends m m') \<Longrightarrow> (\<And>x. o' = Some x \<Longrightarrow> extends (f x) (f' x))
    \<Longrightarrow> extends (case o' of None \<Rightarrow> m | Some x \<Rightarrow> f x) (case o' of None \<Rightarrow> m' | Some x \<Rightarrow> f' x)"
  by (cases o') simp_all

locale extended_resolver =
  fixes resolve resolve' :: "'w resolver"
  assumes res [extends_intros]: "extends (resolve x) (resolve' x)"
begin

lemma extends_values [extends_intros]: "extends (resolve_values resolve xs) (resolve_values resolve' xs)"
  by (induction xs) (auto intro!: extends_intros)

lemma extends_statements [extends_intros]: "extends (resolve_statements resolve xs) (resolve_statements resolve' xs)"
  by (induction xs) (auto intro!: extends_intros)

lemma extends_times [extends_intros]: "extends (resolve_times resolve n x) (resolve_times resolve' n x)"
  by (induction n) (auto intro!: extends_intros)

lemma extends_arguments [extends_intros]:
  "extends (call_arguments resolve ps named position) (call_arguments resolve' ps named position)"
  by (induction ps arbitrary: named position) (auto intro!: extends_intros split: statement_kind.split)

lemma extends_for_rounds [extends_intros]:
  "n \<le> n' \<Longrightarrow> extends (for_rounds resolve n condition update body) (for_rounds resolve' n' condition update body)"
proof (induction n arbitrary: n')
  case (Suc n)
  then obtain k where "n' = Suc k" "n \<le> k" by (cases n') auto
  with Suc.IH show ?case by (auto intro!: extends_intros)
qed (simp add: extends_None)

lemma extends_while [extends_intros]:
  "n \<le> n' \<Longrightarrow> extends (while_loop resolve n condition body) (while_loop resolve' n' condition body)"
proof (induction n arbitrary: n')
  case (Suc n)
  then obtain k where "n' = Suc k" "n \<le> k" by (cases n') auto
  with Suc.IH show ?case by (auto intro!: extends_intros)
qed (simp add: extends_None)

lemma extends_repeat [extends_intros]:
  "n \<le> n' \<Longrightarrow> extends (repeat_loop resolve n body condition) (repeat_loop resolve' n' body condition)"
proof (induction n arbitrary: n')
  case (Suc n)
  then obtain k where "n' = Suc k" "n \<le> k" by (cases n') auto
  with Suc.IH show ?case by (auto intro!: extends_intros)
qed (simp add: extends_None)

lemma extends_for_each [extends_intros]:
  "extends (for_each_values resolve name vs body) (for_each_values resolve' name vs body)"
  by (induction vs) (auto intro!: extends_intros)

lemma extends_include_statements:
  "extends (include_statements resolve key xs) (include_statements resolve' key xs)"
proof (induction xs)
  case (Cons x xs)
  then show ?case by (cases x) (auto intro!: extends_intros)
qed simp

lemma extends_run_included [extends_intros]:
  "extends (run_included resolve key items) (run_included resolve' key items)"
  unfolding extends_def
proof
  fix s :: "'w machine"
  have "include_statements resolve key items (new_machine (cur_register s) (world s)) = None \<or>
      include_statements resolve key items (new_machine (cur_register s) (world s)) =
      include_statements resolve' key items (new_machine (cur_register s) (world s))"
    using extends_include_statements unfolding extends_def by blast
  then show "run_included resolve key items s = None \<or> run_included resolve key items s = run_included resolve' key items s"
    unfolding run_included_def by auto
qed

lemma extends_kind:
  assumes "n \<le> n'"
  shows "extends (resolve_kind env resolve n stmt) (resolve_kind env resolve' n' stmt)"
proof (cases "st_kind stmt")
  case (Include x)
  then show ?thesis
    by (auto simp: resolve_kind_def resolve_include_def intro!: extends_intros split: nasl_value.split sum.split)
next
  case (Array p)
  then show ?thesis
    by (auto simp: resolve_kind_def resolve_array_def intro!: extends_intros split: option.split context_type.split nasl_value.split)
next
  case (Call x)
  then show ?thesis
    by (auto simp: resolve_kind_def call_def call_function_def intro!: extends_intros
        split: option.split context_type.split nasl_value.split sum.split prod.split)
next
  case (Assign c ord l r)
  then show ?thesis
    by (auto simp: resolve_kind_def resolve_assign_def assign_target_def intro!: extends_intros
        split: option.split statement_kind.split prod.split)
next
  case (Operator c xs)
  then show ?thesis
    by (auto simp: resolve_kind_def resolve_operator_def execute_operands_def Let_def intro!: extends_intros
        split: option.split list.split)
next
  case (For a b c d)
  then show ?thesis using assms by (auto simp: resolve_kind_def for_loop_def intro!: extends_intros)
next
  case (ForEach a b c)
  then show ?thesis by (auto simp: resolve_kind_def for_each_loop_def intro!: extends_intros)
qed (use assms in \<open>auto simp: resolve_kind_def resolve_exit_def resolve_return_def resolve_parameter_def resolve_if_def
    resolve_block_def intro!: extends_intros split: nasl_value.split option.split\<close>)

lemma extends_body:
  assumes "n \<le> n'"
  shows "extends (resolve_body env resolve n stmt) (resolve_body env resolve' n' stmt)"
  unfolding extends_def
proof
  fix s :: "'w machine"
  have "resolve_kind env resolve n stmt (map_position pos_up s) = None \<or>
      resolve_kind env resolve n stmt (map_position pos_up s) = resolve_kind env resolve' n' stmt (map_position pos_up s)"
    using extends_kind [OF assms] unfolding extends_def by blast
  then show "resolve_body env resolve n stmt s = None \<or> resolve_body env resolve n stmt s = resolve_body env resolve' n' stmt s"
    unfolding resolve_body_def Let_def by (auto split: option.split)
qed

end

lemma resolve_n_extends: "n \<le> n' \<Longrightarrow> extends (resolve_n env n stmt) (resolve_n env n' stmt)"
proof (induction n arbitrary: n' stmt)
  case (Suc n)
  then obtain k where k: "n' = Suc k" "n \<le> k" by (cases n') auto
  have "extended_resolver (resolve_n env n) (resolve_n env k)" using Suc.IH k(2) by (intro extended_resolver.intro)
  from extended_resolver.extends_body [OF this k(2)] show ?case by (simp add: k(1))
qed (simp add: extends_None)

interpretation larger_bound: extended_resolver "resolve_n env n" "resolve_n env (n + k)" for env n k
  by unfold_locales (simp add: resolve_n_extends)

lemma resolve_n_mono:
  "resolve_n env n stmt s = Some r \<Longrightarrow> n \<le> n' \<Longrightarrow> resolve_n env n' stmt s = Some r"
  using resolve_n_extends [of n n' env stmt] unfolding extends_def by (metis option.distinct(1))

section \<open>Scopes and positions\<close>

definition wf_run :: "run_specific \<Rightarrow> bool" where
  "wf_run r \<longleftrightarrow> wf_register (rs_register r) \<and> rs_position r \<noteq> []"

definition wf_machine :: "'w machine \<Rightarrow> bool" where
  "wf_machine s \<longleftrightarrow> m_index s < length (runs s) \<and> list_all wf_run (runs s)"

text \<open>The scopes of the active run after a computation: the expected ones, or, when it failed, these
  and what was not cleaned up.\<close>

definition scopes_after :: "(nat option \<times> nat) list \<Rightarrow> 'e + 'a \<Rightarrow> register \<Rightarrow> bool" where
  "scopes_after expected r reg = (case r of Inr _ \<Rightarrow> shape reg = expected | Inl _ \<Rightarrow> prefix expected (shape reg))"

definition same_level :: "position \<Rightarrow> position \<Rightarrow> bool" where
  "same_level p q \<longleftrightarrow> length p = length q \<and> butlast p = butlast q"

definition other_runs :: "'w machine \<Rightarrow> 'w machine \<Rightarrow> bool" where
  "other_runs s s' \<longleftrightarrow> length (runs s) \<le> length (runs s') \<and> (\<forall>i < length (runs s). i \<noteq> m_index s \<longrightarrow>
    rs_register (runs s' ! i) = rs_register (runs s ! i) \<and> rs_position (runs s' ! i) = rs_position (runs s ! i))"

definition frame :: "((nat option \<times> nat) list \<Rightarrow> (nat option \<times> nat) list) \<Rightarrow> 'w machine \<Rightarrow> 'e + 'a \<Rightarrow> 'w machine \<Rightarrow> bool" where
  "frame g s r s' \<longleftrightarrow> wf_machine s' \<and> m_index s' = m_index s \<and> other_runs s s'
    \<and> scopes_after (g (shape (cur_register s))) r (cur_register s')
    \<and> same_level (rs_position (cur s)) (rs_position (cur s'))"

text \<open>A computation keeps the scopes, or closes the innermost one.\<close>

definition keeps :: "('w, 'a) interp \<Rightarrow> bool" where
  "keeps m \<longleftrightarrow> (\<forall>s r s'. wf_machine s \<longrightarrow> m s = Some (Ret (r, s')) \<longrightarrow> frame id s r s')"

definition closes :: "('w, 'a) interp \<Rightarrow> bool" where
  "closes m \<longleftrightarrow> (\<forall>s r s'. wf_machine s \<longrightarrow> 1 < length (cur_register s) \<longrightarrow> m s = Some (Ret (r, s')) \<longrightarrow> frame butlast s r s')"

named_theorems keeps_intros

lemma same_level_refl [simp]: "same_level p p"
  by (simp add: same_level_def)

lemma same_level_trans: "same_level p q \<Longrightarrow> same_level q r \<Longrightarrow> same_level p r"
  by (simp add: same_level_def)

lemma other_runs_refl [simp]: "other_runs s s"
  by (simp add: other_runs_def)

lemma other_runs_trans: "other_runs s t \<Longrightarrow> other_runs t u \<Longrightarrow> m_index t = m_index s \<Longrightarrow> other_runs s u"
  unfolding other_runs_def by (auto simp: order_trans)

lemma frame_refl [simp]: "wf_machine s \<Longrightarrow> frame id s r s"
  by (auto simp: frame_def scopes_after_def split: sum.split)

lemma frame_trans:
  "frame id s (Inr x) t \<Longrightarrow> frame g t r u \<Longrightarrow> frame g s r u"
  unfolding frame_def by (auto simp: scopes_after_def intro: same_level_trans other_runs_trans)

lemma frame_Inl: "frame g s (Inl e) t \<Longrightarrow> frame g s (Inl e' :: 'e + 'a) t"
  by (simp add: frame_def scopes_after_def)

lemma keepsD: "keeps m \<Longrightarrow> wf_machine s \<Longrightarrow> m s = Some (Ret (r, s')) \<Longrightarrow> frame id s r s'"
  unfolding keeps_def by blast

lemma closesD: "closes m \<Longrightarrow> wf_machine s \<Longrightarrow> 1 < length (cur_register s) \<Longrightarrow> m s = Some (Ret (r, s')) \<Longrightarrow> frame butlast s r s'"
  unfolding closes_def by blast

lemma i_bind_cases:
  assumes "i_bind m f s = Some (Ret (r, u))"
  obtains (fails) e where "m s = Some (Ret (Inl e, u))" "r = Inl e"
    | (returns) x t where "m s = Some (Ret (Inr x, t))" "f x t = Some (Ret (r, u))"
  using assms unfolding i_bind_def by (auto split: option.splits rs.splits sum.splits prod.splits)

lemma keeps_bind [keeps_intros]:
  assumes "keeps m" "\<And>x. keeps (f x)"
  shows "keeps (i_bind m f)"
  unfolding keeps_def
proof (intro allI impI)
  fix s r u assume wf: "wf_machine s" and "i_bind m f s = Some (Ret (r, u))"
  from this(2) show "frame id s r u"
  proof (cases rule: i_bind_cases)
    case (fails e)
    then show ?thesis using frame_Inl [OF keepsD [OF assms(1) wf fails(1)]] by simp
  next
    case (returns x t)
    have t: "frame id s (Inr x :: interpret_error + _) t" using keepsD [OF assms(1) wf returns(1)] .
    then have "wf_machine t" by (simp add: frame_def)
    then show ?thesis using frame_trans [OF t] keepsD [OF assms(2) _ returns(2)] by blast
  qed
qed

lemma frame_length: "frame id s (Inr x) t \<Longrightarrow> length (cur_register t) = length (cur_register s)"
  unfolding frame_def scopes_after_def by (auto dest: shape_length)

lemma closes_bind [keeps_intros]:
  assumes "keeps m" "\<And>x. closes (f x)"
  shows "closes (i_bind m f)"
  unfolding closes_def
proof (intro allI impI)
  fix s r u assume wf: "wf_machine s" "1 < length (cur_register s)" and "i_bind m f s = Some (Ret (r, u))"
  from this(3) show "frame butlast s r u"
  proof (cases rule: i_bind_cases)
    case (fails e)
    note f = keepsD [OF assms(1) wf(1) fails(1)]
    then have "prefix (shape (cur_register s)) (shape (cur_register u))" by (simp add: frame_def scopes_after_def)
    then have "prefix (butlast (shape (cur_register s))) (shape (cur_register u))"
      by (rule prefix_order.trans [OF prefixeq_butlast])
    then show ?thesis using fails(2) f by (simp add: frame_def scopes_after_def)
  next
    case (returns x t)
    have t: "frame id s (Inr x :: interpret_error + _) t" using keepsD [OF assms(1) wf(1) returns(1)] .
    then have "wf_machine t" by (simp add: frame_def)
    moreover have "1 < length (cur_register t)" using wf(2) frame_length [OF t] by simp
    ultimately show ?thesis using frame_trans [OF t] closesD [OF assms(2) _ _ returns(2)] by blast
  qed
qed

lemma keeps_simple [keeps_intros, simp]:
  "keeps (i_ok x)" "keeps (i_err e)" "keeps i_panic" "keeps (i_lift r)" "keeps get_register" "keeps (\<lambda>_. None)"
  by (auto simp: keeps_def i_ok_def i_err_def i_panic_def i_lift_def get_register_def)

lemma keeps_rs [keeps_intros, simp]: "keeps (i_rs r)"
  by (auto simp: keeps_def i_rs_def split: rs.splits)

lemma keeps_builtin [keeps_intros]: "keeps (call_builtin env name)"
  by (auto simp: keeps_def call_builtin_def frame_def scopes_after_def other_runs_def wf_machine_def cur_def cur_register_def
      split: option.splits prod.splits rs.splits)

text \<open>Changes of the active run.\<close>

lemma set_cur_simps [simp]:
  "m_index (set_cur r s) = m_index s"
  "length (runs (set_cur r s)) = length (runs s)"
  "world (set_cur r s) = world s"
  "m_index s < length (runs s) \<Longrightarrow> cur (set_cur r s) = r"
  by (simp_all add: set_cur_def cur_def)

lemma wf_set_cur: "wf_machine s \<Longrightarrow> wf_run r \<Longrightarrow> wf_machine (set_cur r s)"
  unfolding wf_machine_def set_cur_def
  by (auto simp: list_all_length nth_list_update)

lemma other_runs_set_cur [simp]: "other_runs s (set_cur r s)"
  by (auto simp: other_runs_def set_cur_def)

lemma wf_cur: "wf_machine s \<Longrightarrow> wf_run (cur s)"
  by (simp add: wf_machine_def cur_def list_all_length)

lemma cur_register_map [simp]:
  "wf_machine s \<Longrightarrow> cur_register (map_register f s) = f (cur_register s)"
  by (simp add: map_register_def cur_register_def wf_machine_def)

lemma map_register_simps [simp]:
  "m_index (map_register f s) = m_index s"
  "length (runs (map_register f s)) = length (runs s)"
  "world (map_register f s) = world s"
  "other_runs s (map_register f s)"
  by (simp_all add: map_register_def)

lemma wf_map_register: "wf_machine s \<Longrightarrow> wf_register (f (cur_register s)) \<Longrightarrow> wf_machine (map_register f s)"
  unfolding map_register_def using wf_cur [of s] by (intro wf_set_cur) (simp_all add: wf_run_def)

lemma map_register_frame:
  assumes "wf_machine s" "wf_register (f (cur_register s))" "shape (f (cur_register s)) = g (shape (cur_register s))"
  shows "frame g s r (map_register f s)"
proof -
  have "same_level (rs_position (cur s)) (rs_position (cur (map_register f s)))"
    using assms(1) by (simp add: map_register_def wf_machine_def)
  then show ?thesis using assms unfolding frame_def
    by (auto simp: wf_map_register scopes_after_def split: sum.split)
qed

lemma wf_cur_register: "wf_machine s \<Longrightarrow> wf_register (cur_register s)"
  using wf_cur [of s] by (simp add: wf_run_def cur_register_def)

lemma keeps_on_register [keeps_intros]:
  assumes "\<And>r. shape (f r) = shape r"
  shows "keeps (on_register f)"
  unfolding keeps_def on_register_def
proof (intro allI impI)
  fix s s' :: "'w machine" and r :: "interpret_error + unit"
  assume wf: "wf_machine s" and "Some (Ret (Inr (), map_register f s)) = Some (Ret (r, s'))"
  moreover have "wf_register (f (cur_register s))" using wf_cur_register [OF wf] shape_eq_wf [OF assms] by blast
  ultimately show "frame id s r s'" using assms by (auto intro: map_register_frame)
qed

lemma keeps_on_register_rs [keeps_intros]:
  assumes "\<And>r r'. f r = Ret r' \<Longrightarrow> shape r' = shape r"
  shows "keeps (on_register_rs f)"
  unfolding keeps_def on_register_rs_def
proof (intro allI impI)
  fix s s' :: "'w machine" and r :: "interpret_error + unit"
  assume wf: "wf_machine s"
    and e: "(case f (cur_register s) of Panic \<Rightarrow> Some Panic | Ret r \<Rightarrow> Some (Ret (Inr (), map_register (\<lambda>_. r) s))) = Some (Ret (r, s'))"
  then obtain q where q: "f (cur_register s) = Ret q" "s' = map_register (\<lambda>_. q) s" by (auto split: rs.splits)
  have "shape q = shape (cur_register s)" using assms [OF q(1)] .
  moreover from this have "wf_register q" using wf_cur_register [OF wf] shape_eq_wf by blast
  ultimately show "frame id s r s'" using wf q(2) by (auto intro: map_register_frame)
qed

text \<open>A scope that is opened is closed again.\<close>

lemma wf_drop_last: "wf_register r \<Longrightarrow> 1 < length r \<Longrightarrow> wf_register (drop_last r)"
  by (cases r rule: rev_cases) (auto simp: wf_register_def drop_last_def nth_append split: if_splits)

lemma closes_drop: "closes (i_bind (on_register drop_last) (\<lambda>_ s. Some (Ret (r, s))))"
  unfolding closes_def
proof (intro allI impI)
  fix s s' :: "'w machine" and q
  assume wf: "wf_machine s" "1 < length (cur_register s)"
    and e: "i_bind (on_register drop_last) (\<lambda>_ s. Some (Ret (r, s))) s = Some (Ret (q, s'))"
  have "shape (drop_last (cur_register s)) = butlast (shape (cur_register s))"
    by (simp add: shape_def drop_last_def map_butlast)
  then have "frame butlast s r (map_register drop_last s)"
    using wf wf_cur_register [OF wf(1)] by (intro map_register_frame) (simp_all add: wf_drop_last)
  then show "frame butlast s q s'" using e by (simp add: i_bind_def on_register_def)
qed

lemma closes_drop_ok [keeps_intros]: "closes (i_bind (on_register drop_last) (\<lambda>_. i_ok x))"
  using closes_drop [of "Inr x"] by (simp add: i_ok_def [abs_def])

lemma closes_drop_err [keeps_intros]: "closes (i_bind (on_register drop_last) (\<lambda>_. i_err e))"
  using closes_drop [of "Inl e"] by (simp add: i_err_def [abs_def])

lemma closes_err [keeps_intros]: "closes (i_err e)"
  unfolding closes_def by (auto simp: i_err_def frame_def scopes_after_def prefixeq_butlast)

lemma keeps_opened:
  assumes "closes m" "\<And>r. wf_register r \<Longrightarrow> wf_register (f r)" "\<And>r. \<exists>c. shape (f r) = shape r @ [c]"
  shows "keeps (i_bind (on_register f) (\<lambda>_. m))"
  unfolding keeps_def
proof (intro allI impI)
  fix s s' r
  assume wf: "wf_machine s" and "i_bind (on_register f) (\<lambda>_. m) s = Some (Ret (r, s'))"
  then have m: "m (map_register f s) = Some (Ret (r, s'))" by (simp add: i_bind_def on_register_def)
  obtain c where c: "shape (f (cur_register s)) = shape (cur_register s) @ [c]" using assms(3) by blast
  have wf': "wf_machine (map_register f s)" using wf assms(2) wf_cur_register by (blast intro: wf_map_register)
  have "length (f (cur_register s)) = Suc (length (cur_register s))" using arg_cong [OF c, of length] by simp
  moreover have "cur_register s \<noteq> []" using wf_cur_register [OF wf] by (simp add: wf_register_def)
  ultimately have "1 < length (cur_register (map_register f s))" using wf by simp
  from closesD [OF assms(1) wf' this m] have fr: "frame butlast (map_register f s) r s'" .
  moreover have "same_level (rs_position (cur s)) (rs_position (cur (map_register f s)))"
    using wf by (simp add: map_register_def wf_machine_def)
  moreover have "other_runs s s'" using fr other_runs_trans [of s "map_register f s" s'] by (simp add: frame_def)
  ultimately show "frame id s r s'"
    using c wf unfolding frame_def by (auto intro: same_level_trans)
qed

lemma keeps_child [keeps_intros]: "closes m \<Longrightarrow> keeps (i_bind (on_register (create_child d)) (\<lambda>_. m))"
  by (rule keeps_opened) (simp_all, simp add: create_child_def shape_def Let_def)

lemma keeps_root_child [keeps_intros]: "closes m \<Longrightarrow> keeps (i_bind (on_register (create_root_child d)) (\<lambda>_. m))"
  by (rule keeps_opened) (simp_all, simp add: create_root_child_def shape_def)

text \<open>Forks add runs and mark the others.\<close>

lemma length_fork_runs: "x \<noteq> [] \<Longrightarrow> length (fork_runs x rs) = length x * length rs"
  by (cases x) (simp_all add: fork_runs_def Let_def length_concat sum_list_triv o_def)

lemma fork_runs_nth:
  "i < length rs \<Longrightarrow> rs_register (fork_runs x rs ! i) = rs_register (rs ! i)
    \<and> rs_position (fork_runs x rs ! i) = rs_position (rs ! i)"
  by (simp add: fork_runs_def Let_def nth_append fork_first_def)

lemma wf_fork_runs: "list_all wf_run rs \<Longrightarrow> list_all wf_run (fork_runs x rs)"
  by (auto simp: fork_runs_def Let_def list_all_iff wf_run_def fork_first_def fork_copy_def current_init_statement_def)

lemma keeps_fork [keeps_intros]: "keeps (on_fork x)"
  unfolding keeps_def
proof (intro allI impI)
  fix s s' r
  assume wf: "wf_machine s" and e: "on_fork x s = Some (Ret (r, s'))"
  show "frame id s r s'"
  proof (cases "x = []")
    case True
    then show ?thesis using wf e by (auto simp: on_fork_def split: if_splits)
  next
    case False
    then have s: "s' = s\<lparr>runs := fork_runs x (runs s)\<rparr>" using e by (auto simp: on_fork_def split: if_splits)
    have len: "length (runs s) \<le> length (fork_runs x (runs s))" using False by (cases x) (simp_all add: length_fork_runs)
    have i: "m_index s < length (runs s)" using wf by (simp add: wf_machine_def)
    show ?thesis using wf len i fork_runs_nth [of _ "runs s" x]
      by (auto simp: s frame_def wf_machine_def other_runs_def scopes_after_def cur_register_def cur_def wf_fork_runs split: sum.split)
  qed
qed

lemma shape_default_parameters [simp]: "shape (default_parameters ps r) = shape r"
  by (induction ps arbitrary: r) simp_all

lemma wf_new_machine: "wf_register r \<Longrightarrow> wf_machine (new_machine r w)"
  by (simp add: wf_machine_def new_machine_def wf_run_def new_position_def)

lemma cur_register_new [simp]: "cur_register (new_machine r w) = r"
  by (simp add: cur_register_def cur_def new_machine_def)

lemma keeps_named_value [keeps_intros]: "keeps (named_value key)"
  unfolding named_value_def by (auto intro!: keeps_intros split: prod.split context_type.split)

lemma keeps_dynamic_return [keeps_intros]: "keeps (dynamic_return key order idx right result)"
  unfolding dynamic_return_def by (auto intro!: keeps_intros shape_add_to_index split: prod.split)

lemma keeps_declare_name [keeps_intros]: "keeps (declare_name scope stmt)"
  unfolding declare_name_def
  by (auto intro!: keeps_intros dest: shape_add_global split: statement_kind.split category.split identifier_type.split)

lemma keeps_declare_variable [keeps_intros]: "keeps (declare_variable scope xs)"
  by (induction xs) (auto intro!: keeps_intros)

lemma keeps_declare_function [keeps_intros]: "keeps (declare_function name args exec)"
  unfolding declare_function_def by (auto intro!: keeps_intros dest: shape_add_global)

section \<open>Every statement keeps its frame\<close>

locale framed_resolver =
  fixes resolve :: "'w resolver"
  assumes res [keeps_intros]: "keeps (resolve x)"
begin

lemma keeps_values [keeps_intros]: "keeps (resolve_values resolve xs)"
  by (induction xs) (auto intro!: keeps_intros)

lemma keeps_statements [keeps_intros]: "keeps (resolve_statements resolve xs)"
  by (induction xs) (auto intro!: keeps_intros)

lemma keeps_times [keeps_intros]: "keeps (resolve_times resolve n x)"
  by (induction n) (auto intro!: keeps_intros)

lemma keeps_arguments [keeps_intros]: "keeps (call_arguments resolve ps named position)"
  by (induction ps arbitrary: named position) (auto intro!: keeps_intros split: statement_kind.split)

lemma keeps_for_rounds [keeps_intros]: "keeps (for_rounds resolve n condition update body)"
  by (induction n) (auto intro!: keeps_intros split: option.split)

lemma keeps_while [keeps_intros]: "keeps (while_loop resolve n condition body)"
  by (induction n) (auto intro!: keeps_intros split: option.split)

lemma keeps_repeat [keeps_intros]: "keeps (repeat_loop resolve n body condition)"
  by (induction n) (auto intro!: keeps_intros split: option.split)

lemma keeps_for_each [keeps_intros]: "keeps (for_each_values resolve name vs body)"
  by (induction vs) (auto intro!: keeps_intros split: option.split)

lemma keeps_include_statements: "keeps (include_statements resolve key xs)"
proof (induction xs)
  case (Cons x xs)
  then show ?case by (cases x) (auto intro!: keeps_intros)
qed simp

lemma keeps_run_included [keeps_intros]: "keeps (run_included resolve key items)"
  unfolding keeps_def
proof (intro allI impI)
  fix s s' r
  assume wf: "wf_machine s" and e: "run_included resolve key items s = Some (Ret (r, s'))"
  obtain q t where q: "include_statements resolve key items (new_machine (cur_register s) (world s)) = Some (Ret (q, t))"
    using e by (auto simp: run_included_def split: option.splits rs.splits)
  have f: "frame id (new_machine (cur_register s) (world s)) q t"
    using wf_cur_register [OF wf] by (rule keepsD [OF keeps_include_statements wf_new_machine q])
  let ?w = "s\<lparr>world := world t\<rparr>"
  have w: "wf_machine ?w" "cur_register ?w = cur_register s" "rs_position (cur ?w) = rs_position (cur s)"
      "other_runs s ?w" "m_index ?w = m_index s"
    using wf by (simp_all add: wf_machine_def cur_register_def cur_def other_runs_def)
  show "frame id s r s'"
  proof (cases q)
    case (Inl e')
    then have "r = Inl e'" "s' = ?w" using e q by (simp_all add: run_included_def)
    then show ?thesis using w by (simp add: frame_def scopes_after_def)
  next
    case (Inr u)
    then have s': "s' = map_register (\<lambda>_. cur_register t) ?w" using e q by (simp add: run_included_def)
    have "shape (cur_register t) = shape (cur_register s)" using f Inr by (simp add: frame_def scopes_after_def)
    moreover have "wf_register (cur_register t)" using f by (auto simp: frame_def intro: wf_cur_register)
    ultimately have fr: "frame id ?w r s'" unfolding s' using w by (intro map_register_frame) simp_all
    moreover have "other_runs s s'" using fr other_runs_trans [of s ?w s'] w by (simp add: frame_def)
    ultimately show ?thesis using w by (auto simp: frame_def)
  qed
qed

lemma closes_call_function [keeps_intros]: "closes (call_function resolve name)"
  unfolding call_function_def by (auto intro!: keeps_intros split: option.split context_type.split)

lemma keeps_call [keeps_intros]: "keeps (call env resolve stmt args)"
  unfolding call_def
  by (auto intro!: keeps_intros split: option.split nasl_value.split sum.split prod.split)

lemma keeps_kind: "keeps (resolve_kind env resolve n stmt)"
proof (cases "st_kind stmt")
  case (Include x)
  then show ?thesis
    by (auto simp: resolve_kind_def resolve_include_def intro!: keeps_intros split: nasl_value.split sum.split option.split)
next
  case (Array p)
  then show ?thesis
    by (auto simp: resolve_kind_def resolve_array_def intro!: keeps_intros split: option.split context_type.split nasl_value.split)
next
  case (Assign c ord l r)
  then show ?thesis
    by (auto simp: resolve_kind_def resolve_assign_def assign_target_def intro!: keeps_intros
        split: option.split statement_kind.split prod.split)
next
  case (Operator c xs)
  then show ?thesis
    by (auto simp: resolve_kind_def resolve_operator_def execute_operands_def Let_def intro!: keeps_intros
        split: option.split list.split)
next
  case Variable
  then show ?thesis
    by (auto simp: resolve_kind_def resolve_variable_def intro!: keeps_intros split: option.split context_type.split)
next
  case (Block xs)
  then show ?thesis by (auto simp: resolve_kind_def resolve_block_def intro!: keeps_intros)
qed (auto simp: resolve_kind_def resolve_exit_def resolve_return_def resolve_parameter_def resolve_if_def for_loop_def
    for_each_loop_def resolve_primitive_def resolve_attack_category_def intro!: keeps_intros
    split: nasl_value.split option.split category.split identifier_type.split)

text \<open>The position goes up by one place at its own level, after a value as well as after an error.\<close>

lemma body_frame:
  assumes wf: "wf_machine s" and e: "resolve_body env resolve n stmt s = Some (Ret (r, s'))"
  shows "frame id s r s' \<and> rs_position (cur s') = butlast (rs_position (cur s)) @ [last (rs_position (cur s)) + 1]"
proof -
  let ?up = "map_position pos_up s"
  have p: "rs_position (cur s) \<noteq> []" using wf_cur [OF wf] by (simp add: wf_run_def)
  have i: "m_index s < length (runs s)" using wf by (simp add: wf_machine_def)
  have up: "wf_machine ?up" "cur_register ?up = cur_register s" "rs_position (cur ?up) = rs_position (cur s) @ [0]"
      "other_runs s ?up" "m_index ?up = m_index s" "rs_skip (cur ?up) = rs_skip (cur s)"
    using wf wf_cur [OF wf] i
    by (simp_all add: map_position_def pos_up_def cur_register_def wf_set_cur wf_run_def)
  obtain q :: "interpret_error + nasl_value" and t where t: "frame id ?up q t" "s' = map_position pos_down t" "\<And>e. q = Inl e \<Longrightarrow> \<exists>e'. r = Inl e'" "\<And>x. q = Inr x \<Longrightarrow> \<exists>x. r = Inr x"
  proof (cases "may_return_value (rs_position (cur ?up)) (rs_skip (cur ?up))")
    case None
    then obtain q t where "resolve_kind env resolve n stmt ?up = Some (Ret (q, t))" "s' = map_position pos_down t"
        "r = map_sum (add_origin stmt) id q"
      using e by (auto simp: resolve_body_def Let_def split: option.splits rs.splits)
    then show thesis using keepsD [OF keeps_kind up(1)] by (intro that [of q t]) auto
  next
    case (Some v)
    then show thesis using e up(1) by (intro that [of "Inr v" ?up]) (auto simp: resolve_body_def Let_def)
  qed
  obtain k where k: "rs_position (cur t) = rs_position (cur s) @ [k]"
  proof -
    have "butlast (rs_position (cur t)) = rs_position (cur s)" "rs_position (cur t) \<noteq> []"
      using t(1) up(3) by (auto simp: frame_def same_level_def)
    then show thesis using that append_butlast_last_id by metis
  qed
  have j: "m_index t < length (runs t)" "wf_machine t" using t(1) by (simp_all add: frame_def wf_machine_def)
  have down: "rs_position (cur s') = butlast (rs_position (cur s)) @ [last (rs_position (cur s)) + 1]"
    using j k p by (simp add: t(2) map_position_def pos_down_def Let_def)
  have s': "wf_machine s'" "cur_register s' = cur_register t" "other_runs t s'" "m_index s' = m_index t"
    using j wf_cur [OF j(2)] down by (simp_all add: t(2) map_position_def cur_register_def wf_set_cur wf_run_def)
  have "other_runs s s'"
    using up(4,5) t(1) s'(3) other_runs_trans [of s ?up t] other_runs_trans [of s t s'] by (simp add: frame_def)
  moreover have "scopes_after (shape (cur_register s)) r (cur_register s')"
    using t(1,3,4) up(2) s'(2) by (cases q) (auto simp: frame_def scopes_after_def)
  moreover have "same_level (rs_position (cur s)) (rs_position (cur s'))" using p by (simp add: down same_level_def)
  ultimately show ?thesis using s' up(5) t(1) down by (simp add: frame_def)
qed

lemma keeps_body: "keeps (resolve_body env resolve n stmt)"
  unfolding keeps_def using body_frame by blast

end

lemma keeps_resolve_n: "keeps (resolve_n env n stmt)"
proof (induction n arbitrary: stmt)
  case (Suc n)
  then have "framed_resolver (resolve_n env n)" by (intro framed_resolver.intro)
  then show ?case by (simp add: framed_resolver.keeps_body)
qed simp

interpretation framed: framed_resolver "resolve_n env n" for env n
  by unfold_locales (rule keeps_resolve_n)

end
