(* ===== verification/Vt_Runner.thy ===== *)
theory Vt_Runner
  imports Nasl_Semantics Scan_Model
begin

text \<open>
  The run of a script on a host: src/rust/src/scanner/vt_runner.rs and error.rs, with the stack of a
  scanner (scanner_stack.rs).

  The world of the interpreter is what the storage and the builtin functions share. The storage, the
  loader and the functions are operations of a record, as the stack is a type with associated types; the
  functions depend on the key and the target of the context they are called in. The results of a script
  are bounded in number by the same argument that bounds its calls and loops.

  The lemmas show which entries of the knowledge base let a script run, what a script that does not run
  leaves behind, and that the bound is no part of the result.
\<close>

section \<open>Results and errors\<close>

datatype execute_error =
    ExecStorage storage_error | ExecScheduling vt_error | ExecNotFound load_error | ExecParameter parameter

datatype script_result_kind =
    ReturnCode i64
  | MissingPort protocol string
  | ContainsExcludedKey string
  | MissingRequiredKey string
  | MissingMandatoryKey string
  | ScriptError interpret_error

record script_result =
  sres_oid :: string
  sres_filename :: string
  sres_stage :: stage
  sres_kind :: script_result_kind
  sres_target :: string

definition has_succeeded :: "script_result \<Rightarrow> bool" where
  "has_succeeded r \<longleftrightarrow> sres_kind r = ReturnCode 0"

definition kind_not_run :: "script_result_kind \<Rightarrow> bool" where
  "kind_not_run k =
    (case k of
       MissingRequiredKey _ \<Rightarrow> True | MissingMandatoryKey _ \<Rightarrow> True
     | ContainsExcludedKey _ \<Rightarrow> True | MissingPort _ _ \<Rightarrow> True | _ \<Rightarrow> False)"

definition has_not_run :: "script_result \<Rightarrow> bool" where
  "has_not_run r = kind_not_run (sres_kind r)"

section \<open>The stack of a scanner\<close>

text \<open>Retrieving tests and entries of the knowledge base, removing a scan, loading a file, and the
  functions of the executor in a context; \<open>stk_regex\<close> compiles a regular expression.\<close>

record 'w scanner_stack =
  stk_retrieve_kb :: "context_key \<Rightarrow> string \<Rightarrow> 'w \<Rightarrow> storage_error + field list"
  stk_retrieve_vts :: "'w \<Rightarrow> vt_retrieve"
  stk_remove_scan :: "context_key \<Rightarrow> 'w \<Rightarrow> (storage_error + unit) \<times> 'w"
  stk_loader :: "string \<Rightarrow> load_error + string"
  stk_functions :: "context_key \<Rightarrow> string \<Rightarrow> 'w function_set list"
  stk_regex :: "string \<Rightarrow> (string \<Rightarrow> bool) option"
  stk_orders :: hash_orders

record vt_runner =
  vr_target :: string
  vr_vt :: nvt
  vr_stage :: stage
  vr_param :: "parameter list option"
  vr_scan_id :: string

definition generate_key :: "vt_runner \<Rightarrow> context_key" where
  "generate_key r = ScanKey (vr_scan_id r) (Some (vr_target r))"

definition script_context :: "'w scanner_stack \<Rightarrow> vt_runner \<Rightarrow> 'w env" where
  "script_context st r =
    \<lparr>sets = stk_functions st (generate_key r) (vr_target r), loader = stk_loader st, regex_new = stk_regex st\<rparr>"

section \<open>Parameters and keys\<close>

definition vr_parameter :: "parameter \<Rightarrow> register \<Rightarrow> execute_error + register" where
  "vr_parameter p r = Inl (ExecParameter p)"

fun set_parameter_list :: "parameter list \<Rightarrow> register \<Rightarrow> execute_error + register" where
  "set_parameter_list [] r = Inr r"
| "set_parameter_list (p # ps) r = try_bind (vr_parameter p r) (set_parameter_list ps)"

definition set_parameters :: "vt_runner \<Rightarrow> register \<Rightarrow> execute_error + register" where
  "set_parameters vr r = (case vr_param vr of Some ps \<Rightarrow> set_parameter_list ps r | None \<Rightarrow> Inr r)"

fun protocol_display :: "protocol \<Rightarrow> string" where
  "protocol_display UDP = ''udp''"
| "protocol_display TCP = ''tcp''"

definition generate_port_kb_key :: "protocol \<Rightarrow> string \<Rightarrow> string" where
  "generate_port_kb_key p port = ''Ports/'' @ protocol_display p @ ''/'' @ port"

definition check_key ::
  "'w scanner_stack \<Rightarrow> 'w \<Rightarrow> context_key \<Rightarrow> string \<Rightarrow> script_result_kind option \<Rightarrow> (primitive \<Rightarrow> script_result_kind option)
    \<Rightarrow> script_result_kind option \<Rightarrow> script_result_kind + unit" where
  "check_key st w key name result_none result_some result_err =
    (case (case stk_retrieve_kb st key name w of
             Inr (KBF kb # _) \<Rightarrow> result_some (kb_value kb)
           | Inr _ \<Rightarrow> result_none
           | Inl _ \<Rightarrow> result_err) of
       None \<Rightarrow> Inr ()
     | Some x \<Rightarrow> Inl x)"

fun check_all :: "(string \<Rightarrow> script_result_kind + unit) \<Rightarrow> string list \<Rightarrow> script_result_kind + unit" where
  "check_all check [] = Inr ()"
| "check_all check (k # ks) = try_bind (check k) (\<lambda>_. check_all check ks)"

definition check_required_key :: "'w scanner_stack \<Rightarrow> 'w \<Rightarrow> context_key \<Rightarrow> string \<Rightarrow> script_result_kind + unit" where
  "check_required_key st w key k =
    check_key st w key k (Some (MissingRequiredKey k)) (\<lambda>_. None) (Some (MissingRequiredKey k))"

definition check_mandatory_key :: "'w scanner_stack \<Rightarrow> 'w \<Rightarrow> context_key \<Rightarrow> string \<Rightarrow> script_result_kind + unit" where
  "check_mandatory_key st w key k =
    check_key st w key k (Some (MissingMandatoryKey k)) (\<lambda>_. None) (Some (MissingMandatoryKey k))"

definition check_exclude_key :: "'w scanner_stack \<Rightarrow> 'w \<Rightarrow> context_key \<Rightarrow> string \<Rightarrow> script_result_kind + unit" where
  "check_exclude_key st w key k = check_key st w key k None (\<lambda>_. Some (ContainsExcludedKey k)) None"

definition check_port :: "'w scanner_stack \<Rightarrow> 'w \<Rightarrow> context_key \<Rightarrow> protocol \<Rightarrow> string \<Rightarrow> script_result_kind + unit" where
  "check_port st w key pt port =
    check_key st w key (generate_port_kb_key pt port) (Some (MissingPort pt port))
      (\<lambda>v. if primitive_to_bool v then None else Some (MissingPort pt port)) (Some (MissingPort pt port))"

definition check_keys :: "'w scanner_stack \<Rightarrow> vt_runner \<Rightarrow> 'w \<Rightarrow> script_result_kind + unit" where
  "check_keys st vr w =
    (let key = generate_key vr; vt = vr_vt vr in
     try_bind (check_all (check_required_key st w key) (nvt_required_keys vt)) (\<lambda>_.
     try_bind (check_all (check_mandatory_key st w key) (nvt_mandatory_keys vt)) (\<lambda>_.
     try_bind (check_all (check_exclude_key st w key) (nvt_excluded_keys vt)) (\<lambda>_.
     try_bind (check_all (check_port st w key TCP) (nvt_required_ports vt)) (\<lambda>_.
       check_all (check_port st w key UDP) (nvt_required_udp_ports vt))))))"

section \<open>The run of a script\<close>

text \<open>The loop over the stream of results: an exit ends it with its code, an error with the error, and
  the end of the stream is the code zero.\<close>

fun script_results :: "'w env \<Rightarrow> nat \<Rightarrow> nat \<Rightarrow> 'w code_interpreter \<Rightarrow> (script_result_kind \<times> 'w) rs option" where
  "script_results env n 0 ci = None"
| "script_results env n (Suc k) ci =
    (case next_result env n ci of
       None \<Rightarrow> None
     | Some Panic \<Rightarrow> Some Panic
     | Some (Ret (None, ci)) \<Rightarrow> Some (Ret (ReturnCode 0, world (ci_machine ci)))
     | Some (Ret (Some (Inr (NExit x)), ci)) \<Rightarrow> Some (Ret (ReturnCode x, world (ci_machine ci)))
     | Some (Ret (Some (Inl e), ci)) \<Rightarrow> Some (Ret (ScriptError e, world (ci_machine ci)))
     | Some (Ret (Some (Inr _), ci)) \<Rightarrow> script_results env n k ci)"

definition get_result_kind ::
  "'w scanner_stack \<Rightarrow> nat \<Rightarrow> vt_runner \<Rightarrow> string \<Rightarrow> register \<Rightarrow> 'w \<Rightarrow> (script_result_kind \<times> 'w) rs option" where
  "get_result_kind st n vr code r w =
    (case check_keys st vr w of
       Inl e \<Rightarrow> Some (Ret (e, w))
     | Inr _ \<Rightarrow> script_results (script_context st vr) n n (new_code_interpreter code r w))"

definition vr_result :: "vt_runner \<Rightarrow> script_result_kind \<Rightarrow> script_result" where
  "vr_result vr kind =
    \<lparr>sres_oid = nvt_oid (vr_vt vr), sres_filename = nvt_filename (vr_vt vr), sres_stage = vr_stage vr,
     sres_kind = kind, sres_target = vr_target vr\<rparr>"

definition vt_execute ::
  "'w scanner_stack \<Rightarrow> nat \<Rightarrow> vt_runner \<Rightarrow> 'w \<Rightarrow> ((execute_error + script_result) \<times> 'w) rs option" where
  "vt_execute st n vr w =
    (case stk_loader st (nvt_filename (vr_vt vr)) of
       Inl e \<Rightarrow> Some (Ret (Inl (ExecNotFound e), w))
     | Inr code \<Rightarrow>
         (case set_parameters vr new_register of
            Inl e \<Rightarrow> Some (Ret (Inl e, w))
          | Inr r \<Rightarrow>
              (case get_result_kind st n vr code r w of
                 None \<Rightarrow> None
               | Some Panic \<Rightarrow> Some Panic
               | Some (Ret (kind, w)) \<Rightarrow> Some (Ret (Inr (vr_result vr kind), w)))))"

section \<open>Bounds\<close>

lemma retry_resolve_mono:
  "retry_resolve env n stmt k s = Some r \<Longrightarrow> n \<le> m \<Longrightarrow> retry_resolve env m stmt k s = Some r"
proof (induction k arbitrary: s)
  case 0
  obtain x where x: "resolve_n env n stmt s = Some x" using 0 by (auto simp: retry_resolve.simps split: option.splits)
  then show ?case using 0 resolve_n_mono [OF x 0(2)] by (simp add: retry_resolve.simps split: rs.splits prod.splits sum.splits)
next
  case (Suc k)
  obtain x where x: "resolve_n env n stmt s = Some x"
    using Suc.prems(1) by (auto simp: retry_resolve.simps split: option.splits)
  have "resolve_n env m stmt s = Some x" using resolve_n_mono [OF x Suc.prems(2)] .
  then show ?case using Suc.prems Suc.IH x
    by (subst retry_resolve.simps, subst (asm) (2) retry_resolve.simps) (auto split: rs.splits prod.splits sum.splits if_splits)
qed

lemma next_statement_mono:
  assumes "next_statement env n ci = Some r" "n \<le> m"
  shows "next_statement env m ci = Some r"
proof (cases "lexer_next (ci_lexer ci)")
  case None
  then show ?thesis using assms by (simp add: next_statement_def)
next
  case (Some x)
  obtain item lx where x: "x = (item, lx)" by (cases x)
  show ?thesis
  proof (cases item)
    case None
    then show ?thesis using assms Some x by (simp add: next_statement_def)
  next
    case (Some y)
    show ?thesis
    proof (cases y)
      case (Inl e)
      then show ?thesis using assms Some \<open>lexer_next (ci_lexer ci) = Some x\<close> x by (simp add: next_statement_def)
    next
      case (Inr stmt)
      then have n: "next_statement env k ci =
          (case retry_resolve env k stmt 5 ((ci_machine ci)\<lparr>m_index := 0\<rparr>) of
             None \<Rightarrow> None
           | Some Panic \<Rightarrow> Some Panic
           | Some (Ret (r, s)) \<Rightarrow> Some (Ret (Some r, \<lparr>ci_lexer = lx, ci_machine = s, ci_statement = Some stmt\<rparr>)))" for k
        using Some \<open>lexer_next (ci_lexer ci) = Some x\<close> x by (simp add: next_statement_def retry_resolve_next_def)
      then obtain z where z: "retry_resolve env n stmt 5 ((ci_machine ci)\<lparr>m_index := 0\<rparr>) = Some z"
        using assms(1) by (auto split: option.splits)
      show ?thesis using assms(1) z retry_resolve_mono [OF z assms(2)] by (simp add: n)
    qed
  qed
qed

lemma next_result_mono:
  assumes "next_result env n ci = Some r" "n \<le> m"
  shows "next_result env m ci = Some r"
proof (cases "\<exists>stmt s. ci_statement ci = Some stmt \<and> next_interpreter (ci_machine ci) = Some s")
  case True
  then obtain stmt s where s: "ci_statement ci = Some stmt" "next_interpreter (ci_machine ci) = Some s" by blast
  then obtain z where z: "retry_resolve env n stmt 5 s = Some z"
    using assms(1) by (auto simp: next_result_def split: option.splits)
  show ?thesis using assms(1) z retry_resolve_mono [OF z assms(2)] s by (simp add: next_result_def)
next
  case False
  then have "next_result env k ci = next_statement env k ci" for k
    by (auto simp: next_result_def split: option.split)
  then show ?thesis using next_statement_mono assms by metis
qed

lemma script_results_mono:
  "script_results env n k ci = Some r \<Longrightarrow> n \<le> m \<Longrightarrow> k \<le> l \<Longrightarrow> script_results env m l ci = Some r"
proof (induction k arbitrary: l ci)
  case (Suc k)
  obtain l' where l: "l = Suc l'" "k \<le> l'" using Suc.prems(3) by (cases l) auto
  obtain x where x: "next_result env n ci = Some x" using Suc.prems(1) by (auto split: option.splits)
  have "next_result env m ci = Some x" using next_result_mono [OF x Suc.prems(2)] .
  then show ?case using Suc.prems(1,2) Suc.IH [OF _ _ l(2)] x
    by (auto simp: l(1) split: rs.splits prod.splits option.splits sum.splits nasl_value.splits)
qed simp

lemma get_result_kind_mono:
  "get_result_kind st n vr code r w = Some x \<Longrightarrow> n \<le> m \<Longrightarrow> get_result_kind st m vr code r w = Some x"
  by (auto simp: get_result_kind_def split: sum.splits intro: script_results_mono)

lemma vt_execute_mono:
  assumes "vt_execute st n vr w = Some x" "n \<le> m"
  shows "vt_execute st m vr w = Some x"
proof (cases "\<exists>code r. stk_loader st (nvt_filename (vr_vt vr)) = Inr code \<and> set_parameters vr new_register = Inr r")
  case True
  then obtain code r where c: "stk_loader st (nvt_filename (vr_vt vr)) = Inr code" "set_parameters vr new_register = Inr r" by blast
  then obtain z where z: "get_result_kind st n vr code r w = Some z"
    using assms(1) by (auto simp: vt_execute_def split: option.splits)
  show ?thesis using assms(1) c z get_result_kind_mono [OF z assms(2)] by (simp add: vt_execute_def)
next
  case False
  then show ?thesis using assms(1) by (auto simp: vt_execute_def split: sum.splits)
qed

section \<open>Keys\<close>

lemma check_all_ok: "check_all check ks = Inr () \<longleftrightarrow> (\<forall>k \<in> set ks. check k = Inr ())"
  by (induction ks) (auto simp: try_bind_def split: sum.splits)

lemma check_all_error: "check_all check ks = Inl e \<Longrightarrow> \<exists>k \<in> set ks. check k = Inl e"
  by (induction ks) (auto simp: try_bind_def split: sum.splits)

lemma unit_sum_cases:
  obtains "(x :: 'a + unit) = Inr ()" | e where "x = Inl e"
  by (cases x) auto

lemma try_bind_unit: "try_bind (x :: 'a + unit) f = Inr () \<longleftrightarrow> x = Inr () \<and> f () = Inr ()"
  by (cases x) (auto simp: try_bind_def)

lemma try_bind_error: "try_bind x f = Inl e \<longleftrightarrow> x = Inl e \<or> (\<exists>y. x = Inr y \<and> f y = Inl e)"
  by (cases x) (auto simp: try_bind_def)

lemma check_keys_error: "check_keys st vr w = Inl e \<Longrightarrow> kind_not_run e"
  by (auto simp: check_keys_def Let_def try_bind_error check_key_def check_required_key_def check_mandatory_key_def
      check_exclude_key_def check_port_def kind_not_run_def dest!: check_all_error split: option.splits sum.splits list.splits field.splits if_splits)

lemma script_results_runs: "script_results env n k ci = Some (Ret (kind, w)) \<Longrightarrow> \<not> kind_not_run kind"
  by (induction k arbitrary: ci)
    (auto simp: kind_not_run_def split: option.splits rs.splits prod.splits sum.splits nasl_value.splits)

text \<open>The first of the entries is true.\<close>

definition holds_true :: "kb list \<Rightarrow> bool" where
  "holds_true bs = (case bs of b # _ \<Rightarrow> primitive_to_bool (kb_value b) | [] \<Rightarrow> False)"

text \<open>A storage whose knowledge base has the entries \<open>lookup\<close>.\<close>

locale kb_reader =
  fixes st :: "'w scanner_stack" and lookup :: "context_key \<Rightarrow> string \<Rightarrow> 'w \<Rightarrow> kb list"
  assumes retrieves: "stk_retrieve_kb st key n w = Inr (map KBF (lookup key n w))"
begin

lemma required_ok: "check_required_key st w key k = Inr () \<longleftrightarrow> lookup key k w \<noteq> []"
  by (cases "lookup key k w") (simp_all add: check_required_key_def check_key_def retrieves)

lemma mandatory_ok: "check_mandatory_key st w key k = Inr () \<longleftrightarrow> lookup key k w \<noteq> []"
  by (cases "lookup key k w") (simp_all add: check_mandatory_key_def check_key_def retrieves)

lemma exclude_ok: "check_exclude_key st w key k = Inr () \<longleftrightarrow> lookup key k w = []"
  by (cases "lookup key k w") (simp_all add: check_exclude_key_def check_key_def retrieves)

lemma port_ok:
  "check_port st w key pt p = Inr () \<longleftrightarrow>
    holds_true (lookup key (generate_port_kb_key pt p) w)"
  by (cases "lookup key (generate_port_kb_key pt p) w") (simp_all add: check_port_def check_key_def retrieves holds_true_def)

lemma keys_ok:
  "check_keys st vr w = Inr () \<longleftrightarrow>
    (\<forall>k \<in> set (nvt_required_keys (vr_vt vr)) \<union> set (nvt_mandatory_keys (vr_vt vr)). lookup (generate_key vr) k w \<noteq> [])
    \<and> (\<forall>k \<in> set (nvt_excluded_keys (vr_vt vr)). lookup (generate_key vr) k w = [])
    \<and> (\<forall>p \<in> set (nvt_required_ports (vr_vt vr)). holds_true (lookup (generate_key vr) (generate_port_kb_key TCP p) w))
    \<and> (\<forall>p \<in> set (nvt_required_udp_ports (vr_vt vr)). holds_true (lookup (generate_key vr) (generate_port_kb_key UDP p) w))"
  by (auto simp: check_keys_def Let_def try_bind_unit check_all_ok required_ok mandatory_ok exclude_ok port_ok)

end

text \<open>The default stack: the in-memory storage with a loader and functions.\<close>

definition inmemory_stack ::
  "(string \<Rightarrow> load_error + string) \<Rightarrow> (context_key \<Rightarrow> string \<Rightarrow> default_dispatcher function_set list)
    \<Rightarrow> (string \<Rightarrow> (string \<Rightarrow> bool) option) \<Rightarrow> hash_orders \<Rightarrow> default_dispatcher scanner_stack" where
  "inmemory_stack ld fs rx ho =
    \<lparr>stk_retrieve_kb = (\<lambda>key n d. case retrieve_fields key (RetrieveKB n) d of Ret x \<Rightarrow> Inr x | Panic \<Rightarrow> Inr []),
     stk_retrieve_vts = inmemory_retrieve, stk_remove_scan = (\<lambda>key d. (Inr (), snd (remove_scan key d))),
     stk_loader = ld, stk_functions = fs, stk_regex = rx, stk_orders = ho\<rparr>"

interpretation inmemory_reader: kb_reader "inmemory_stack ld fs rx ho" kb_lookup for ld fs rx ho
  by unfold_locales (simp add: inmemory_stack_def retrieve_kb)

section \<open>Properties\<close>


text \<open>A script for concrete inputs.\<close>

definition sample_runner :: vt_runner where
  "sample_runner = \<lparr>vr_target = ''host'', vr_vt = default_nvt\<lparr>nvt_filename := ''a.nasl'', nvt_required_keys := [''login'']\<rparr>,
     vr_stage = Discovery, vr_param = None, vr_scan_id = ''id''\<rparr>"


text \<open>A test that was requested with parameters is never run, as parameters are not implemented.\<close>

lemma parameters_fail:
  assumes "stk_loader st (nvt_filename (vr_vt vr)) = Inr code" "vr_param vr = Some (p # ps)"
  shows "vt_execute st n vr w = Some (Ret (Inl (ExecParameter p), w))"
  using assms by (simp add: vt_execute_def set_parameters_def vr_parameter_def try_bind_def)

end
