(* ===== verification/Scan_Runner.thy ===== *)
theory Scan_Runner
  imports Vt_Runner
begin

text \<open>
  A scan over hosts and tests: src/rust/src/scanner/scan_runner.rs and running_scan.rs.

  The stream of a scan runner is the list of positions that are still to come; running it yields one
  result after the other and passes the world on. A running scan is a task with a state of its own, which
  makes one step per item of the stream, so that a request to stop can come between any two steps. The
  time is an argument of the steps that read it.

  The lemmas show the order of the scripts, the phase in which a scan ends, when the end of a scan
  panics, and how the progress of a host is counted.
\<close>

section \<open>The stream of scripts\<close>

type_synonym concurrent_vt = "stage \<times> runtime_vt list"

record scan_position =
  pos_host :: nat
  pos_stage :: nat
  pos_vt :: nat

definition all_positions :: "string list \<Rightarrow> concurrent_vt list \<Rightarrow> scan_position list" where
  "all_positions hosts vts =
    concat (map (\<lambda>(host, _).
      concat (map (\<lambda>(stg, (_, vs)).
        map (\<lambda>(i, _). \<lparr>pos_host = host, pos_stage = stg, pos_vt = i\<rparr>) (enumerate 0 vs)) (enumerate 0 vts))) (enumerate 0 hosts))"

record scan_runner =
  srn_scan :: scan
  srn_vts :: "concurrent_vt list"

text \<open>\<open>Schedule::cache\<close> collects the items of a plan; its items are never errors.\<close>

definition new_scan_runner :: "execution_plan_data \<Rightarrow> scan \<Rightarrow> scan_runner" where
  "new_scan_runner schedule sc = \<lparr>srn_scan = sc, srn_vts = collect_plan (Suc (length (plan_items schedule))) schedule\<rparr>"

definition runner_host_info :: "scan_runner \<Rightarrow> host_info" where
  "runner_host_info r = from_hosts_and_num_vts (target_hosts (scan_target (srn_scan r))) (length (srn_vts r))"

definition script_at :: "scan_runner \<Rightarrow> scan_position \<Rightarrow> vt_runner" where
  "script_at r pos =
    (case srn_vts r ! pos_stage pos of (stg, vts) \<Rightarrow>
       case vts ! pos_vt pos of (v, param) \<Rightarrow>
         \<lparr>vr_target = target_hosts (scan_target (srn_scan r)) ! pos_host pos, vr_vt = v, vr_stage = stg,
          vr_param = param, vr_scan_id = scan_id (srn_scan r)\<rparr>)"

definition runner_stream :: "scan_runner \<Rightarrow> vt_runner list" where
  "runner_stream r = map (script_at r) (all_positions (target_hosts (scan_target (srn_scan r))) (srn_vts r))"

section \<open>Running scans\<close>

datatype run_state =
    NotStarted
  | InProgress "vt_runner list" phase
  | RunEnded "vt_error + unit"
  | RunPanicked

record running_scan =
  rn_scan :: scan
  rn_keep_running :: bool
  rn_status :: status
  rn_state :: run_state

definition new_running_scan :: "scan \<Rightarrow> running_scan" where
  "new_running_scan sc = \<lparr>rn_scan = sc, rn_keep_running = True, rn_status = default_status, rn_state = NotStarted\<rparr>"

definition make_runner :: "'w scanner_stack \<Rightarrow> nat \<Rightarrow> scan \<Rightarrow> 'w \<Rightarrow> (vt_error + scan_runner) option" where
  "make_runner st rounds sc w =
    map_option (map_sum id (\<lambda>schedule. new_scan_runner schedule sc)) (execution_plan (stk_orders st) rounds (stk_retrieve_vts st w) (scan_vts sc))"

definition status_at_beginning :: "nat \<Rightarrow> host_info \<Rightarrow> status \<Rightarrow> status" where
  "status_at_beginning now hi s = s\<lparr>st_phase := Running, start_time := Some now, st_host_info := Some hi\<rparr>"

text \<open>At the end the phase and the time are set before the information of the hosts is finished, which
  panics when a host is still queued; the flag says whether it did.\<close>

definition status_at_end :: "nat \<Rightarrow> phase \<Rightarrow> status \<Rightarrow> bool \<times> status" where
  "status_at_end now end_phase s =
    (let s = s\<lparr>st_phase := end_phase, end_time := Some now\<rparr> in
     case st_host_info s of
       None \<Rightarrow> (False, s)
     | Some hi \<Rightarrow> (finish hi = Panic, s\<lparr>st_host_info := Some (hi\<lparr>hi_remaining := Map.empty\<rparr>)\<rparr>))"

definition begin_run :: "'w scanner_stack \<Rightarrow> nat \<Rightarrow> nat \<Rightarrow> 'w \<Rightarrow> running_scan \<Rightarrow> running_scan option" where
  "begin_run st rounds now w t =
    (case make_runner st rounds (rn_scan t) w of
       None \<Rightarrow> None
     | Some (Inl e) \<Rightarrow> Some (t\<lparr>rn_state := RunEnded (Inl e)\<rparr>)
     | Some (Inr r) \<Rightarrow>
         Some (t\<lparr>rn_status := status_at_beginning now (runner_host_info r) (rn_status t),
                 rn_state := InProgress (runner_stream r) Succeeded\<rparr>))"

definition end_run :: "nat \<Rightarrow> phase \<Rightarrow> running_scan \<Rightarrow> running_scan" where
  "end_run now end_phase t =
    (case status_at_end now end_phase (rn_status t) of
       (panics, s) \<Rightarrow> t\<lparr>rn_status := s, rn_state := (if panics then RunPanicked else RunEnded (Inr ()))\<rparr>)"

definition finished_script :: "execute_error + script_result \<Rightarrow> status \<Rightarrow> status" where
  "finished_script it s =
    (case it of
       Inr result \<Rightarrow> s\<lparr>st_host_info := map_option (register_finished_script (sres_target result)) (st_host_info s)\<rparr>
     | Inl _ \<Rightarrow> s)"

definition phase_after :: "execute_error + script_result \<Rightarrow> phase \<Rightarrow> phase" where
  "phase_after it end_phase = (case it of Inr result \<Rightarrow> if has_succeeded result then end_phase else Failed | Inl _ \<Rightarrow> Failed)"

text \<open>One round of the loop of \<open>run_to_completion\<close>, or what follows it. What a script did to the world before
  it panicked is left out.\<close>

definition run_step :: "'w scanner_stack \<Rightarrow> nat \<Rightarrow> nat \<Rightarrow> running_scan \<Rightarrow> 'w \<Rightarrow> (running_scan \<times> 'w) option" where
  "run_step st n now t w =
    (case rn_state t of
       NotStarted \<Rightarrow> map_option (\<lambda>t. (t, w)) (begin_run st n now w t)
     | InProgress [] end_phase \<Rightarrow> Some (end_run now end_phase t, w)
     | InProgress (v # vs) end_phase \<Rightarrow>
         (case vt_execute st n v w of
            None \<Rightarrow> None
          | Some Panic \<Rightarrow> Some (t\<lparr>rn_state := RunPanicked\<rparr>, w)
          | Some (Ret (it, w)) \<Rightarrow>
              let t = t\<lparr>rn_status := finished_script it (rn_status t)\<rparr> in
              Some (if rn_keep_running t then t\<lparr>rn_state := InProgress vs (phase_after it end_phase)\<rparr>
                    else end_run now Stopped t, w))
     | _ \<Rightarrow> Some (t, w))"

section \<open>The order of the scripts\<close>

definition script_for :: "scan_runner \<Rightarrow> string \<Rightarrow> stage \<Rightarrow> runtime_vt \<Rightarrow> vt_runner" where
  "script_for r host stg rv =
    \<lparr>vr_target = host, vr_vt = fst rv, vr_stage = stg, vr_param = snd rv, vr_scan_id = scan_id (srn_scan r)\<rparr>"

abbreviation runner_hosts :: "scan_runner \<Rightarrow> string list" where
  "runner_hosts r \<equiv> target_hosts (scan_target (srn_scan r))"

lemma map_enumerate: "map f (enumerate 0 xs) = map (\<lambda>i. f (i, xs ! i)) [0..<length xs]"
  by (rule nth_equalityI) (simp_all add: nth_enumerate_eq)

lemma map_nth_upt: "map (\<lambda>i. f (xs ! i)) [0..<length xs] = map f xs"
  by (rule nth_equalityI) simp_all

lemma scripts_at_stage:
  assumes "srn_vts r ! s = (stg, vs)"
  shows "map (\<lambda>(i, _). script_at r \<lparr>pos_host = h, pos_stage = s, pos_vt = i\<rparr>) (enumerate 0 vs) = map (script_for r (runner_hosts r ! h) stg) vs"
proof -
  have "script_at r \<lparr>pos_host = h, pos_stage = s, pos_vt = i\<rparr> = script_for r (runner_hosts r ! h) stg (vs ! i)" for i
    using assms by (cases "vs ! i") (simp add: script_at_def script_for_def)
  then show ?thesis by (simp add: map_enumerate map_nth_upt)
qed

lemma runner_stream_eq:
  "runner_stream r = concat (map (\<lambda>h. concat (map (\<lambda>(stg, vs). map (script_for r h stg) vs) (srn_vts r))) (runner_hosts r))"
proof -
  let ?g = "\<lambda>h (stg, vs). map (script_for r h stg) vs"
  have stages: "concat (map (\<lambda>(s, (_, vs)). map (\<lambda>(i, _). script_at r \<lparr>pos_host = h, pos_stage = s, pos_vt = i\<rparr>) (enumerate 0 vs))
      (enumerate 0 (srn_vts r))) = concat (map (?g (runner_hosts r ! h)) (srn_vts r))" for h
  proof -
    have "(case srn_vts r ! s of (_, vs) \<Rightarrow> map (\<lambda>(i, _). script_at r \<lparr>pos_host = h, pos_stage = s, pos_vt = i\<rparr>) (enumerate 0 vs))
        = ?g (runner_hosts r ! h) (srn_vts r ! s)" for s
      by (cases "srn_vts r ! s") (simp add: scripts_at_stage)
    then show ?thesis by (simp add: map_enumerate map_nth_upt del: concat_eq_concat_iff)
  qed
  have "runner_stream r = concat (map (\<lambda>(h, _). concat (map (\<lambda>(s, (_, vs)).
      map (\<lambda>(i, _). script_at r \<lparr>pos_host = h, pos_stage = s, pos_vt = i\<rparr>) (enumerate 0 vs)) (enumerate 0 (srn_vts r)))) (enumerate 0 (runner_hosts r)))"
    by (simp add: runner_stream_def all_positions_def map_concat o_def case_prod_unfold)
  also have "\<dots> = concat (map (\<lambda>(h, _). concat (map (?g (runner_hosts r ! h)) (srn_vts r))) (enumerate 0 (runner_hosts r)))"
    by (simp only: stages)
  also have "\<dots> = concat (map (\<lambda>h. concat (map (?g h) (srn_vts r))) (runner_hosts r))"
    by (simp only: map_enumerate case_prod_conv map_nth_upt [of "\<lambda>h. concat (map (?g h) (srn_vts r))"])
  finally show ?thesis .
qed

lemma new_scan_runner_vts:
  assumes "length (ep_data schedule) = 4" "ep_idx schedule \<le> 4"
  shows "srn_vts (new_scan_runner schedule sc) = plan_items schedule"
  using collect_plan_items [OF assms, of "Suc (length (plan_items schedule))"] by (simp add: new_scan_runner_def del: collect_plan.simps)

text \<open>A script of a stream is preceded by the scripts of the earlier groups of its host.\<close>

lemma stream_split:
  assumes "runner_stream r = before @ v # after"
  obtains h stg vs A B where "srn_vts r = A @ (stg, vs) # B" "h \<in> set (runner_hosts r)"
    "\<exists>rv \<in> set vs. v = script_for r h stg rv"
    "set (concat (map (\<lambda>(stg, vs). map (script_for r h stg) vs) A)) \<subseteq> set before"
proof -
  from concat_map_split [OF assms [unfolded runner_stream_eq]] obtain pre h post a b where
    h: "runner_hosts r = pre @ h # post" "concat (map (\<lambda>(stg, vs). map (script_for r h stg) vs) (srn_vts r)) = a @ v # b"
    and before: "set a \<subseteq> set before" by auto
  from concat_map_split [OF h(2)] obtain A g B c d where
    g: "srn_vts r = A @ g # B" "(case g of (stg, vs) \<Rightarrow> map (script_for r h stg) vs) = c @ v # d"
      "a = concat (map (\<lambda>(stg, vs). map (script_for r h stg) vs) A) @ c" by auto
  obtain stg vs where s: "g = (stg, vs)" by (cases g)
  have "v \<in> set (map (script_for r h stg) vs)" using g(2) s by simp
  then have "\<exists>rv \<in> set vs. v = script_for r h stg rv" by auto
  then show ?thesis using that [of A stg vs B h] g s h(1) before by auto
qed

lemma stream_dependencies:
  assumes orders: "valid_orders ho" and plan: "execution_plan ho rounds retr vts = Some (Inr schedule)"
    and stream: "runner_stream (new_scan_runner schedule sc) = before @ v # after"
    and dep: "dep \<in> set (nvt_dependencies (vr_vt v))"
  shows "\<exists>u \<in> set before. vr_target u = vr_target v \<and> vr_stage u = vr_stage v \<and> nvt_filename (vr_vt u) = dep"
proof -
  note o = execution_plan_ordered [OF orders plan]
  let ?r = "new_scan_runner schedule sc"
  obtain h stg vs A B where s: "srn_vts ?r = A @ (stg, vs) # B" "\<exists>rv \<in> set vs. v = script_for ?r h stg rv"
    "set (concat (map (\<lambda>(stg, vs). map (script_for ?r h stg) vs) A)) \<subseteq> set before"
    using stream_split [OF stream] by metis
  then obtain n p where v: "(n, p) \<in> set vs" "v = script_for ?r h stg (n, p)" by auto
  have "plan_items schedule = A @ (stg, vs) # B" using s(1) o by (simp add: new_scan_runner_vts)
  moreover have "dep \<in> set (nvt_dependencies n)" using dep v(2) by (simp add: script_for_def)
  ultimately have "\<exists>ws' v' p'. (stg, ws') \<in> set A \<and> (v', p') \<in> set ws' \<and> nvt_filename v' = dep"
    using plan_items_split v(1) o by metis
  then obtain ws' v' p' where
    d: "(stg, ws') \<in> set A" "(v', p') \<in> set ws'" "nvt_filename v' = dep" by blast
  have "script_for ?r h stg (v', p') \<in> set before" using s(3) d(1,2) by force
  then show ?thesis using v(2) d(3) by (force simp: script_for_def)
qed

section \<open>Undisturbed runs\<close>

text \<open>The results of the scripts of a stream, one after the other.\<close>

fun stream_results :: "'w scanner_stack \<Rightarrow> nat \<Rightarrow> vt_runner list \<Rightarrow> 'w \<Rightarrow> ((execute_error + script_result) list \<times> 'w) rs option" where
  "stream_results st n [] w = Some (Ret ([], w))"
| "stream_results st n (v # vs) w =
    (case vt_execute st n v w of
       None \<Rightarrow> None
     | Some Panic \<Rightarrow> Some Panic
     | Some (Ret (it, w)) \<Rightarrow>
         (case stream_results st n vs w of
            None \<Rightarrow> None
          | Some Panic \<Rightarrow> Some Panic
          | Some (Ret (its, w)) \<Rightarrow> Some (Ret (it # its, w))))"

fun run_steps :: "'w scanner_stack \<Rightarrow> nat \<Rightarrow> nat \<Rightarrow> nat \<Rightarrow> running_scan \<Rightarrow> 'w \<Rightarrow> (running_scan \<times> 'w) option" where
  "run_steps st n now 0 t w = Some (t, w)"
| "run_steps st n now (Suc k) t w =
    (case run_step st n now t w of None \<Rightarrow> None | Some (t, w) \<Rightarrow> run_steps st n now k t w)"

lemma run_steps_add:
  "run_steps st n now (k + l) t w = (case run_steps st n now k t w of None \<Rightarrow> None | Some (t, w) \<Rightarrow> run_steps st n now l t w)"
  by (induction k arbitrary: t w) (auto split: option.split)

lemma run_undisturbed:
  assumes "stream_results st n vs w = Some (Ret (its, w'))" "rn_state t = InProgress (vs @ us) ph" "rn_keep_running t"
  shows "run_steps st n now (length vs) t w =
    Some (t\<lparr>rn_status := fold finished_script its (rn_status t), rn_state := InProgress us (fold phase_after its ph)\<rparr>, w')"
  using assms
proof (induction vs arbitrary: its w t ph)
  case Nil
  then show ?case by (cases t) simp
next
  case (Cons v vs)
  obtain it w1 rest where x: "vt_execute st n v w = Some (Ret (it, w1))" "stream_results st n vs w1 = Some (Ret (rest, w'))" "its = it # rest"
    using Cons.prems(1) by (auto split: option.splits rs.splits)
  let ?t = "t\<lparr>rn_status := finished_script it (rn_status t), rn_state := InProgress (vs @ us) (phase_after it ph)\<rparr>"
  have "run_step st n now t w = Some (?t, w1)"
    using x(1) Cons.prems(2,3) by (simp add: run_step_def Let_def)
  moreover have "run_steps st n now (length vs) ?t w1 = Some (?t\<lparr>rn_status := fold finished_script rest (rn_status ?t),
      rn_state := InProgress us (fold phase_after rest (phase_after it ph))\<rparr>, w')"
    using Cons.prems(3) by (intro Cons.IH [OF x(2)]) simp_all
  ultimately show ?case using x(3) by simp
qed

definition targets_of :: "(execute_error + script_result) list \<Rightarrow> string list" where
  "targets_of its = concat (map (case_sum (\<lambda>_. []) (\<lambda>r. [sres_target r])) its)"

lemma fold_finished_script:
  "st_host_info s = Some hi \<Longrightarrow>
    fold finished_script its s = s\<lparr>st_host_info := Some (fold register_finished_script (targets_of its) hi)\<rparr>"
proof (induction its arbitrary: s hi)
  case Nil
  then show ?case by (cases s) (simp add: targets_of_def)
next
  case (Cons it its)
  then show ?case by (cases it) (simp_all add: finished_script_def targets_of_def)
qed

lemma fold_phase_after:
  "fold phase_after its ph = (if list_all (case_sum (\<lambda>_. False) has_succeeded) its then ph else Failed)"
  by (induction its arbitrary: ph) (auto simp: phase_after_def split: sum.splits)

lemma begun_run:
  assumes "make_runner st n sc w = Some (Inr r)"
  shows "run_steps st n now 1 (new_running_scan sc) w =
    Some ((new_running_scan sc)\<lparr>rn_status := status_at_beginning now (runner_host_info r) default_status,
      rn_state := InProgress (runner_stream r) Succeeded\<rparr>, w)"
  using assms by (simp add: run_step_def begin_run_def new_running_scan_def)

lemma after_scripts:
  assumes "make_runner st n sc w = Some (Inr r)" "runner_stream r = vs @ us" "stream_results st n vs w = Some (Ret (its, w'))"
  shows "run_steps st n now (Suc (length vs)) (new_running_scan sc) w =
    Some ((new_running_scan sc)\<lparr>rn_status := (status_at_beginning now (runner_host_info r) default_status)
        \<lparr>st_host_info := Some (fold register_finished_script (targets_of its) (runner_host_info r))\<rparr>,
      rn_state := InProgress us (if list_all (case_sum (\<lambda>_. False) has_succeeded) its then Succeeded else Failed)\<rparr>, w')"
proof -
  let ?t = "(new_running_scan sc)\<lparr>rn_status := status_at_beginning now (runner_host_info r) default_status,
      rn_state := InProgress (runner_stream r) Succeeded\<rparr>"
  have "st_host_info (rn_status ?t) = Some (runner_host_info r)" by (simp add: status_at_beginning_def)
  then show ?thesis
    using run_steps_add [of st n now 1 "length vs" "new_running_scan sc" w] begun_run [OF assms(1), of now]
      run_undisturbed [OF assms(3), of ?t us Succeeded now] assms(2)
    by (simp add: fold_finished_script fold_phase_after new_running_scan_def)
qed

section \<open>Properties\<close>

text \<open>C25: On every host a script is run after all scripts it depends on: each of them comes earlier in the stream of a
  scan, for the same host and in the same stage, in whatever order hash maps are iterated over.\<close>

theorem scripts_dependencies_first:
  assumes "make_runner st rounds sc w = Some (Inr r)" "runner_stream r = before @ v # after"
    and "dep \<in> set (nvt_dependencies (vr_vt v))" "valid_orders (stk_orders st)"
  shows "\<exists>u \<in> set before. vr_target u = vr_target v \<and> vr_stage u = vr_stage v \<and> nvt_filename (vr_vt u) = dep"
proof -
  obtain z where "execution_plan (stk_orders st) rounds (stk_retrieve_vts st w) (scan_vts sc) = Some z"
      "map_sum id (\<lambda>schedule. new_scan_runner schedule sc) z = Inr r"
    using assms(1) by (auto simp: make_runner_def)
  then obtain schedule where "execution_plan (stk_orders st) rounds (stk_retrieve_vts st w) (scan_vts sc) = Some (Inr schedule)"
      "r = new_scan_runner schedule sc" by (cases z) auto
  then show ?thesis using stream_dependencies [OF assms(4)] assms(2,3) by blast
qed


text \<open>The progress of a host is counted in groups of the plan, not in scripts: while the scan runs, a host counts as
  finished as soon as it has as many executed scripts as the plan has groups, however many scripts are left.\<close>

theorem progress_counts_groups:
  assumes "make_runner st n sc w = Some (Inr r)" "runner_stream r = vs @ us" "stream_results st n vs w = Some (Ret (its, w'))"
    and "0 < length (srn_vts r)" "length (srn_vts r) < 2 ^ 64"
  shows "\<exists>t hi. run_steps st n now (Suc (length vs)) (new_running_scan sc) w = Some (t, w')
    \<and> st_phase (rn_status t) = Running \<and> st_host_info (rn_status t) = Some hi
    \<and> hi_finished hi = word_of_nat (card {h \<in> set (runner_hosts r). length (srn_vts r) \<le> count_list (targets_of its) h})"
  using after_scripts [OF assms(1-3), of now] register_run [OF assms(4,5) refl, of "targets_of its" "runner_hosts r"]
  by (simp add: status_at_beginning_def runner_host_info_def)

text \<open>Concrete scans: two tests of which one depends on the other, and two tests of the same wave; the scripts are empty.\<close>

lemma empty_script: "script_results env (Suc n) (Suc k) (new_code_interpreter [] r w) = Some (Ret (ReturnCode 0, w))"
proof -
  have "tokenizer_next (new_tokenizer []) = (None, new_tokenizer [])"
    by (simp add: tokenizer_next_def new_tokenizer_def new_cursor_def skip_while.simps advance_def peek_def is_eof_def Let_def)
  then have "tokens (new_tokenizer []) = []" by (subst tokens.simps) simp
  then obtain lx where "lexer_next (new_lexer (new_tokenizer [])) = Some (None, lx)"
    using end_of_tokens [of 0] by (auto simp: new_lexer_def)
  then show ?thesis by (simp add: new_code_interpreter_def next_result_def next_statement_def new_machine_def)
qed

definition empty_stack :: "default_dispatcher scanner_stack" where
  "empty_stack = inmemory_stack (\<lambda>_. Inr []) (\<lambda>_ _. []) (\<lambda>_. None) insertion_orders"

definition scan_of :: "string list \<Rightarrow> vt list \<Rightarrow> scan" where
  "scan_of hosts vts = \<lparr>scan_id = ''id'', scan_target = \<lparr>target_hosts = hosts, target_ports = [], target_excluded_hosts = [],
     target_credentials = [], target_alive_test_ports = [], target_alive_test_methods = [], target_reverse_lookup_unify = None,
     target_reverse_lookup_only = None\<rparr>, scan_preferences = [], scan_vts = vts\<rparr>"

lemma scan_of_simps [simp]:
  "target_hosts (scan_target (scan_of hosts vts)) = hosts" "scan_id (scan_of hosts vts) = ''id''" "scan_vts (scan_of hosts vts) = vts"
  by (simp_all add: scan_of_def)

lemma execute_empty:
  assumes "vr_param v = None \<or> vr_param v = Some []" "nvt_required_keys (vr_vt v) = []" "nvt_mandatory_keys (vr_vt v) = []"
    "nvt_excluded_keys (vr_vt v) = []" "nvt_required_ports (vr_vt v) = []" "nvt_required_udp_ports (vr_vt v) = []"
  shows "vt_execute empty_stack (Suc n) v d = Some (Ret (Inr (vr_result v (ReturnCode 0)), d))"
proof -
  have "check_keys empty_stack v d = Inr ()" using assms by (simp add: check_keys_def try_bind_def)
  moreover have "set_parameters v new_register = Inr new_register" using assms(1) by (auto simp: set_parameters_def)
  moreover have "stk_loader empty_stack f = Inr []" for f by (simp add: empty_stack_def inmemory_stack_def)
  ultimately show ?thesis
    by (simp add: vt_execute_def get_result_kind_def empty_script del: script_results.simps)
qed

lemma sample_runner_of:
  "make_runner empty_stack 4 (scan_of hosts sample_scan) sample_store = Some (Inr \<lparr>srn_scan = scan_of hosts sample_scan, srn_vts = plan_items sample_plan\<rparr>)"
proof -
  have "make_runner empty_stack 4 (scan_of hosts sample_scan) sample_store = Some (Inr (new_scan_runner sample_plan (scan_of hosts sample_scan)))"
    by (simp add: make_runner_def empty_stack_def inmemory_stack_def scan_of_def sample_plan)
  then show ?thesis
    using collect_plan_items [of sample_plan "Suc (length (plan_items sample_plan))"]
    by (simp add: new_scan_runner_def sample_plan_shape del: collect_plan.simps)
qed

definition wave_vts :: "nvt list" where
  "wave_vts =
    [default_nvt\<lparr>nvt_oid := ''1'', nvt_filename := ''a'', nvt_category := GatherInfo\<rparr>,
     default_nvt\<lparr>nvt_oid := ''2'', nvt_filename := ''b'', nvt_category := GatherInfo\<rparr>]"

definition wave_store :: default_dispatcher where
  "wave_store = set_vts (map (\<lambda>n. (nvt_filename n, n)) wave_vts) new_dispatcher"

definition wave_scan :: "vt list" where
  "wave_scan = [\<lparr>vt_model_oid = ''1'', vt_parameters = []\<rparr>, \<lparr>vt_model_oid = ''2'', vt_parameters = []\<rparr>]"

definition wave_plan_data :: execution_plan_data where
  "wave_plan_data = \<lparr>ep_data =
     [\<lparr>waves = [[(''a'', wave_vts ! 0, Some []), (''b'', wave_vts ! 1, Some [])]], dependencies_added = True\<rparr>,
      empty_plan, empty_plan, empty_plan], ep_idx = 0\<rparr>"

lemma all_vts_wave: "all_vts wave_store = wave_vts"
  by (simp add: wave_store_def wave_vts_def set_vts_def all_vts_def new_dispatcher_def)

lemma wave_plan_data: "execution_plan insertion_orders 4 (inmemory_retrieve wave_store) wave_scan = Some (Inr wave_plan_data)"
  by (simp add: plan_eval insertion_orders_def all_vts_wave wave_vts_def wave_scan_def wave_plan_data_def)

lemma wave_items: "plan_items wave_plan_data = [(Discovery, [(wave_vts ! 0, Some []), (wave_vts ! 1, Some [])])]"
  by (simp add: plan_items_def wave_plan_data_def empty_plan_def stage_at_def numeral_eq_Suc)

lemma wave_runner_of:
  "make_runner empty_stack 4 (scan_of hosts wave_scan) wave_store = Some (Inr \<lparr>srn_scan = scan_of hosts wave_scan, srn_vts = plan_items wave_plan_data\<rparr>)"
proof -
  have "make_runner empty_stack 4 (scan_of hosts wave_scan) wave_store = Some (Inr (new_scan_runner wave_plan_data (scan_of hosts wave_scan)))"
    by (simp add: make_runner_def empty_stack_def inmemory_stack_def scan_of_def wave_plan_data)
  then show ?thesis
    using collect_plan_items [of wave_plan_data "Suc (length (plan_items wave_plan_data))"]
    by (simp add: new_scan_runner_def wave_plan_data_def del: collect_plan.simps)
qed

lemma execute_vts:
  assumes "v \<in> set wave_vts \<union> set sample_vts" "p = None \<or> p = Some []"
  shows "vt_execute empty_stack (Suc n) (script_for r h stg (v, p)) d = Some (Ret (Inr (vr_result (script_for r h stg (v, p)) (ReturnCode 0)), d))"
  using assms by (intro execute_empty) (auto simp: script_for_def wave_vts_def sample_vts_def default_nvt_def)

theorem scripts_dependencies_first_witness:
  "\<exists>r v u. make_runner empty_stack 4 (scan_of [''x'', ''y''] sample_scan) sample_store = Some (Inr r) \<and> length (runner_stream r) = 4
    \<and> runner_stream r ! 3 = v \<and> u \<in> set (take 3 (runner_stream r)) \<and> vr_target u = ''y'' \<and> nvt_filename (vr_vt u) = ''a''"
proof -
  let ?r = "\<lparr>srn_scan = scan_of [''x'', ''y''] sample_scan, srn_vts = plan_items sample_plan\<rparr>"
  have s: "runner_stream ?r = [script_for ?r ''x'' Discovery (sample_vts ! 0, None), script_for ?r ''x'' Discovery (sample_vts ! 1, Some []),
      script_for ?r ''y'' Discovery (sample_vts ! 0, None)] @ script_for ?r ''y'' Discovery (sample_vts ! 1, Some []) # []"
    by (simp add: runner_stream_eq sample_plan_items)
  then have l: "length (runner_stream ?r) = 4"
    "take 3 (runner_stream ?r) = [script_for ?r ''x'' Discovery (sample_vts ! 0, None), script_for ?r ''x'' Discovery (sample_vts ! 1, Some []),
      script_for ?r ''y'' Discovery (sample_vts ! 0, None)]" by simp_all
  have "''a'' \<in> set (nvt_dependencies (vr_vt (script_for ?r ''y'' Discovery (sample_vts ! 1, Some []))))"
    by (simp add: script_for_def sample_vts_def)
  moreover have "valid_orders (stk_orders empty_stack)" by (simp add: empty_stack_def inmemory_stack_def valid_insertion_orders)
  ultimately have dep: "\<exists>u \<in> set [script_for ?r ''x'' Discovery (sample_vts ! 0, None), script_for ?r ''x'' Discovery (sample_vts ! 1, Some []),
      script_for ?r ''y'' Discovery (sample_vts ! 0, None)].
      vr_target u = vr_target (script_for ?r ''y'' Discovery (sample_vts ! 1, Some []))
      \<and> vr_stage u = vr_stage (script_for ?r ''y'' Discovery (sample_vts ! 1, Some [])) \<and> nvt_filename (vr_vt u) = ''a''"
    by (rule scripts_dependencies_first [OF sample_runner_of s])
  obtain u where "u \<in> set (take 3 (runner_stream ?r))"
      "vr_target u = vr_target (script_for ?r ''y'' Discovery (sample_vts ! 1, Some []))" "nvt_filename (vr_vt u) = ''a''"
    using dep unfolding l(2) by blast
  moreover have "vr_target (script_for ?r ''y'' Discovery (sample_vts ! 1, Some [])) = ''y''" by (simp only: script_for_def vt_runner.simps)
  ultimately show ?thesis using sample_runner_of [of "[''x'', ''y'']"] l(1) by metis
qed


theorem progress_counts_groups_witness:
  "\<exists>t hi. run_steps empty_stack 4 9 2 (new_running_scan (scan_of [''x''] wave_scan)) wave_store = Some (t, wave_store)
    \<and> st_host_info (rn_status t) = Some hi \<and> hi_finished hi = 1 \<and> st_phase (rn_status t) = Running"
proof -
  let ?r = "\<lparr>srn_scan = scan_of [''x''] wave_scan, srn_vts = plan_items wave_plan_data\<rparr>"
  let ?a = "script_for ?r ''x'' Discovery (wave_vts ! 0, Some [])" and ?b = "script_for ?r ''x'' Discovery (wave_vts ! 1, Some [])"
  have s: "runner_stream ?r = [?a] @ [?b]" by (simp add: runner_stream_eq wave_items)
  have "wave_vts ! 0 \<in> set wave_vts" by (simp add: wave_vts_def)
  then have "stream_results empty_stack 4 [?a] wave_store = Some (Ret ([Inr (vr_result ?a (ReturnCode 0))], wave_store))"
    by (simp add: execute_vts numeral_eq_Suc)
  from progress_counts_groups [OF wave_runner_of s this, of 9] obtain t hi where
    t: "run_steps empty_stack 4 9 (Suc (length [?a])) (new_running_scan (scan_of [''x''] wave_scan)) wave_store = Some (t, wave_store)"
      "st_phase (rn_status t) = Running" "st_host_info (rn_status t) = Some hi"
      "hi_finished hi = word_of_nat (card {h \<in> set (runner_hosts ?r). length (srn_vts ?r) \<le> count_list (targets_of [Inr (vr_result ?a (ReturnCode 0))]) h})"
    by (auto simp: wave_items simp del: run_steps.simps)
  have "{h \<in> set (runner_hosts ?r). length (srn_vts ?r) \<le> count_list (targets_of [Inr (vr_result ?a (ReturnCode 0))]) h} = {''x''}"
    by (auto simp: wave_items targets_of_def vr_result_def script_for_def)
  then have "hi_finished hi = 1" using t(4) by simp
  moreover have "Suc (length [?a]) = 2" by simp
  ultimately show ?thesis using t(1-3) by metis
qed

end
