(* ===== verification/Native_Scanner.thy ===== *)
theory Native_Scanner
  imports Scan_Runner Scheduler
begin

text \<open>
  The scanner of openvasd that runs scripts itself: \<open>Scanner\<close> of src/rust/src/scanner/mod.rs with the
  handles of running_scan.rs.

  A started scan is a task; the scanner keeps a handle for every scan identifier, which is the index of the
  task. A task makes its steps between the requests; stopping clears its flag and aborts it, which is the
  end of its steps at a point that the model leaves open. The record \<open>native_scanner\<close> is the instance of the
  scanner that the scheduler calls.

  The lemmas show that the handles always lead to the task that was started last under their identifier, and
  what the scheduler makes of this scanner.
\<close>

record 'w native_state =
  ns_running :: "(string \<times> nat) list"
  ns_tasks :: "running_scan list"
  ns_world :: 'w

definition new_native_state :: "'w \<Rightarrow> 'w native_state" where
  "new_native_state w = \<lparr>ns_running = [], ns_tasks = [], ns_world = w\<rparr>"

definition ns_start_scan :: "scan \<Rightarrow> 'w native_state \<Rightarrow> (scan_error + unit) \<times> 'w native_state" where
  "ns_start_scan sc s =
    (Inr (), s\<lparr>ns_tasks := ns_tasks s @ [new_running_scan sc],
               ns_running := AList.update (scan_id sc) (length (ns_tasks s)) (ns_running s)\<rparr>)"

definition ns_can_start_scan :: "scan \<Rightarrow> 'w native_state \<Rightarrow> bool" where
  "ns_can_start_scan sc s = True"

definition handle_stop :: "nat \<Rightarrow> 'w native_state \<Rightarrow> 'w native_state" where
  "handle_stop i s = s\<lparr>ns_tasks := (ns_tasks s)[i := (ns_tasks s ! i)\<lparr>rn_keep_running := False\<rparr>]\<rparr>"

definition ns_stop_scan :: "string \<Rightarrow> 'w native_state \<Rightarrow> (scan_error + unit) \<times> 'w native_state" where
  "ns_stop_scan sid s =
    (case map_of (ns_running s) sid of
       None \<Rightarrow> (Inl (UnknownScan sid), s)
     | Some i \<Rightarrow> (Inr (), handle_stop i (s\<lparr>ns_running := AList.delete sid (ns_running s)\<rparr>)))"

definition ns_delete_scan :: "'w scanner_stack \<Rightarrow> string \<Rightarrow> 'w native_state \<Rightarrow> (scan_error + unit) \<times> 'w native_state" where
  "ns_delete_scan st sid s =
    (case ns_stop_scan sid s of
       (Inl e, s) \<Rightarrow> (Inl e, s)
     | (Inr _, s) \<Rightarrow>
         (case stk_remove_scan st (ScanKey sid None) (ns_world s) of
            (Inl _, w) \<Rightarrow> (Inl (UnknownScan sid), s\<lparr>ns_world := w\<rparr>)
          | (Inr _, w) \<Rightarrow> (Inr (), s\<lparr>ns_world := w\<rparr>)))"

definition ns_fetch_results :: "string \<Rightarrow> 'w native_state \<Rightarrow> scan_error + scan_results" where
  "ns_fetch_results sid s =
    (case map_of (ns_running s) sid of
       None \<Rightarrow> Inl (UnknownScan sid)
     | Some i \<Rightarrow> Inr \<lparr>sr_id = sid, sr_status = rn_status (ns_tasks s ! i), sr_results = []\<rparr>)"

definition native_scanner :: "'w native_state scanner" where
  "native_scanner =
    \<lparr>sc_start_scan = ns_start_scan, sc_can_start_scan = ns_can_start_scan, sc_stop_scan = ns_stop_scan,
     sc_fetch_results = (\<lambda>sid s. (ns_fetch_results sid s, s)), sc_do_addition = False\<rparr>"

text \<open>Requests and steps of the tasks in any order.\<close>

inductive native_step :: "'w scanner_stack \<Rightarrow> 'w native_state \<Rightarrow> 'w native_state \<Rightarrow> bool" for st where
  start: "native_step st s (snd (ns_start_scan sc s))"
| stop: "native_step st s (snd (ns_stop_scan sid s))"
| delete: "native_step st s (snd (ns_delete_scan st sid s))"
| task: "i < length (ns_tasks s) \<Longrightarrow> run_step st n now (ns_tasks s ! i) (ns_world s) = Some (t, w) \<Longrightarrow>
    native_step st s (s\<lparr>ns_tasks := (ns_tasks s)[i := t], ns_world := w\<rparr>)"

section \<open>Handles\<close>

text \<open>Every handle is the index of a task of its identifier, and no later task has the identifier.\<close>

definition task_ids :: "'w native_state \<Rightarrow> string list" where
  "task_ids s = map (\<lambda>t. scan_id (rn_scan t)) (ns_tasks s)"

definition latest :: "string list \<Rightarrow> string \<Rightarrow> nat \<Rightarrow> bool" where
  "latest ids sid i \<longleftrightarrow> i < length ids \<and> ids ! i = sid \<and> sid \<notin> set (drop (Suc i) ids)"

definition wf_handles :: "'w native_state \<Rightarrow> bool" where
  "wf_handles s \<longleftrightarrow> (\<forall>sid i. map_of (ns_running s) sid = Some i \<longrightarrow> latest (task_ids s) sid i)"

lemma latest_append: "latest ids sid i \<Longrightarrow> sid \<noteq> x \<Longrightarrow> latest (ids @ [x]) sid i"
  by (simp add: latest_def nth_append)

lemma latest_last: "latest (ids @ [x]) x (length ids)"
  by (simp add: latest_def)

lemma wf_new: "wf_handles (new_native_state w)"
  by (simp add: wf_handles_def new_native_state_def)

lemma run_step_scan:
  assumes "run_step st n now t w = Some (t', w')"
  shows "rn_scan t' = rn_scan t"
  using assms by (auto simp: run_step_def begin_run_def end_run_def Let_def split: run_state.splits option.splits list.splits rs.splits sum.splits prod.splits if_splits)

lemma task_ids_update:
  "scan_id (rn_scan t) = scan_id (rn_scan (ns_tasks s ! i)) \<Longrightarrow> map (\<lambda>t. scan_id (rn_scan t)) ((ns_tasks s)[i := t]) = task_ids s"
  by (cases "i < length (ns_tasks s)") (simp_all add: task_ids_def map_update list_update_same_conv list_update_beyond)

lemma wf_start:
  assumes "wf_handles s"
  shows "wf_handles (snd (ns_start_scan sc s))"
proof -
  have "task_ids (snd (ns_start_scan sc s)) = task_ids s @ [scan_id sc]" "length (task_ids s) = length (ns_tasks s)"
    by (simp_all add: task_ids_def ns_start_scan_def new_running_scan_def)
  then show ?thesis using assms latest_append [of "task_ids s"] latest_last [of "task_ids s" "scan_id sc"]
    by (auto simp: wf_handles_def ns_start_scan_def AList.update_conv' simp del: map_of_eq_Some_iff)
qed

lemma wf_stop:
  assumes "wf_handles s"
  shows "wf_handles (snd (ns_stop_scan sid s))"
proof -
  have "task_ids (handle_stop i s') = task_ids s'" for i and s' :: "'a native_state"
    by (simp add: handle_stop_def) (simp add: task_ids_def task_ids_update [unfolded task_ids_def])
  then show ?thesis using assms
    by (auto simp: wf_handles_def ns_stop_scan_def AList.delete_conv' task_ids_def handle_stop_def
        simp del: map_of_eq_Some_iff split: option.splits if_splits)
qed

lemma wf_world: "wf_handles s \<Longrightarrow> wf_handles (s\<lparr>ns_world := w\<rparr>)"
  by (simp add: wf_handles_def task_ids_def)

lemma wf_step: "native_step st s s' \<Longrightarrow> wf_handles s \<Longrightarrow> wf_handles s'"
proof (induction rule: native_step.induct)
  case (delete s sid)
  then show ?case
    using wf_stop [OF delete, of sid] wf_world
    by (auto simp: ns_delete_scan_def split: prod.splits sum.splits)
next
  case (task i s n now t w)
  then show ?case using task_ids_update [of t s i] run_step_scan [OF task(2)]
    by (simp add: wf_handles_def task_ids_def)
qed (auto intro: wf_start wf_stop)

lemma wf_reachable: "(native_step st)\<^sup>*\<^sup>* (new_native_state w) s \<Longrightarrow> wf_handles s"
  by (induction rule: rtranclp_induct) (auto intro: wf_step wf_new)

section \<open>Scans that stay\<close>

text \<open>The service with this scanner and with the storage in memory, as long as nobody requests anything for the scan \<open>i\<close>: the
  background tasks of the scheduler, requests for other scans, writes to the storage, in which every scan is
  stored under its identifier, and the tasks of the scanner.\<close>

definition im_ids :: "'e inmemory \<Rightarrow> bool" where
  "im_ids db \<longleftrightarrow> (\<forall>i p. map_of (im_scans db) i = Some p \<longrightarrow> scan_id (pr_scan p) = i)"

inductive others_step ::
  "'w scanner_stack \<Rightarrow> scheduler_config \<Rightarrow> 'e inmemory scan_storage \<Rightarrow> string
    \<Rightarrow> ('e inmemory, 'w native_state) service_state \<Rightarrow> ('e inmemory, 'w native_state) service_state \<Rightarrow> bool"
  for st cfg ops i where
  background: "background_step cfg ops native_scanner v v' \<Longrightarrow> others_step st cfg ops i v v'"
| client: "client_step cfg ops native_scanner j v v' \<Longrightarrow> j \<noteq> i \<Longrightarrow> others_step st cfg ops i v v'"
| storage: "im_ids db \<Longrightarrow> others_step st cfg ops i v (v\<lparr>sched := (sched v)\<lparr>sched_db := db\<rparr>\<rparr>)"
| task: "x = sched_scanner (sched v) \<Longrightarrow> m < length (ns_tasks x) \<Longrightarrow> run_step st n now (ns_tasks x ! m) (ns_world x) = Some (t, w)
    \<Longrightarrow> others_step st cfg ops i v (v\<lparr>sched := (sched v)\<lparr>sched_scanner := x\<lparr>ns_tasks := (ns_tasks x)[m := t], ns_world := w\<rparr>\<rparr>\<rparr>)"

text \<open>The handle of the scan leads to the task \<open>t\<close>.\<close>

definition holds_task :: "string \<Rightarrow> nat \<Rightarrow> running_scan \<Rightarrow> 'w native_state \<Rightarrow> bool" where
  "holds_task i k t x \<longleftrightarrow> wf_handles x \<and> map_of (ns_running x) i = Some k \<and> ns_tasks x ! k = t"

definition kept_running :: "string \<Rightarrow> nat \<Rightarrow> running_scan \<Rightarrow> ('e inmemory, 'w native_state) scheduler \<Rightarrow> bool" where
  "kept_running i k t s \<longleftrightarrow> i \<in> set (running s) \<and> i \<notin> set (queued s) \<and> holds_task i k t (sched_scanner s) \<and> im_ids (sched_db s)"

definition stuck :: "string \<Rightarrow> nat \<Rightarrow> running_scan \<Rightarrow> ('e inmemory, 'w native_state) service_state \<Rightarrow> bool" where
  "stuck i k t v \<longleftrightarrow> kept_running i k t (sched v)
    \<and> (\<forall>x is. fetch_task v = Appending x is \<longrightarrow> sr_id x = i \<longrightarrow> \<not> ends_scan (st_phase (sr_status x)))"

lemma holds_task_index: "holds_task i k t x \<Longrightarrow> k < length (ns_tasks x) \<and> task_ids x ! k = i"
  by (auto simp: holds_task_def wf_handles_def latest_def task_ids_def)

lemma holds_task_start:
  assumes "holds_task i k t x" "scan_id sc \<noteq> i"
  shows "holds_task i k t (snd (ns_start_scan sc x))"
  using assms wf_start [of x sc] holds_task_index [OF assms(1)]
  by (auto simp: holds_task_def ns_start_scan_def AList.update_conv' nth_append)

lemma holds_task_stop:
  assumes "holds_task i k t x" "j \<noteq> i"
  shows "holds_task i k t (snd (ns_stop_scan j x))"
proof (cases "map_of (ns_running x) j")
  case None
  then show ?thesis using assms(1) by (simp add: ns_stop_scan_def)
next
  case (Some m)
  then have "latest (task_ids x) j m" using assms(1) by (simp add: holds_task_def wf_handles_def)
  then have "m \<noteq> k" using holds_task_index [OF assms(1)] assms(2) by (auto simp: latest_def)
  then show ?thesis using assms wf_stop [of x j] Some
    by (auto simp: holds_task_def ns_stop_scan_def handle_stop_def AList.delete_conv')
qed

lemma holds_task_run:
  assumes "holds_task i k t x" "m < length (ns_tasks x)" "run_step st n now (ns_tasks x ! m) (ns_world x) = Some (u, w)"
    and "rn_state t = RunEnded r"
  shows "holds_task i k t (x\<lparr>ns_tasks := (ns_tasks x)[m := u], ns_world := w\<rparr>)"
proof -
  have "wf_handles (x\<lparr>ns_tasks := (ns_tasks x)[m := u], ns_world := w\<rparr>)"
    using wf_step [OF native_step.task [OF assms(2,3)]] assms(1) by (simp add: holds_task_def)
  moreover have "(ns_tasks x)[m := u] ! k = t"
    using assms holds_task_index [OF assms(1)] by (cases "m = k") (auto simp: holds_task_def run_step_def)
  ultimately show ?thesis using assms(1) by (simp add: holds_task_def)
qed

lemma im_ids_update: "im_update_status i st db = (r, db') \<Longrightarrow> im_ids db \<Longrightarrow> im_ids db'"
  by (auto simp: im_ids_def im_update_status_def AList.update_conv' split: option.splits if_splits)

lemma im_ids_append: "im_ids db \<Longrightarrow> im_ids (snd (im_append_fetched_result crypter js [x] db))"
  by (auto simp: im_ids_def AList.update_conv' Let_def split: option.split prod.split sum.split)

lemma synchronize_scans: "im_scans (snd (im_synchronize_feeds update_feed hash db)) = im_scans db"
  by (simp add: im_synchronize_feeds_def Let_def split: prod.split)

lemma im_ids_decrypted:
  "im_ids db \<Longrightarrow> get_decrypted_scan crypter i db = Inr (sc, st) \<Longrightarrow> scan_id sc = i"
  by (auto simp: im_ids_def get_decrypted_scan_def get_scan_def try_bind_def split: option.splits sum.splits)

lemma start_queued_kept:
  assumes "start_queued (in_memory_storage crypter js update_feed) native_scanner m s = (r, s')" "kept_running i k t s"
  shows "kept_running i k t s'"
  using assms
proof (induction m arbitrary: s)
  case (Suc m)
  show ?case
  proof (cases "queued s" rule: rev_cases)
    case Nil
    then show ?thesis using Suc.prems by simp
  next
    case (snoc q j)
    let ?u = "s\<lparr>queued := q\<rparr>"
    have j: "j \<noteq> i" and u: "kept_running i k t ?u" using Suc.prems(2) snoc by (auto simp: kept_running_def)
    show ?thesis
    proof (cases "get_decrypted_scan crypter j (sched_db s)")
      case (Inl e)
      then show ?thesis using Suc.prems(1) u snoc by (auto simp: in_memory_storage_def Let_def)
    next
      case (Inr p)
      obtain sc st where p: "p = (sc, st)" by (cases p)
      have "scan_id sc = j" using im_ids_decrypted [of "sched_db s" crypter j sc st] Inr p Suc.prems(2) by (simp add: kept_running_def)
      then have "kept_running i k t (?u\<lparr>sched_scanner := snd (ns_start_scan sc (sched_scanner s)), running := running s @ [j]\<rparr>)"
        using u j holds_task_start [of i k t "sched_scanner s" sc] by (simp add: kept_running_def)
      then show ?thesis using Suc.IH Suc.prems(1) Inr p snoc
        by (simp add: in_memory_storage_def native_scanner_def ns_can_start_scan_def ns_start_scan_def Let_def)
    qed
  qed
qed simp

lemma delete_kept:
  assumes "delete_scan_by_id (in_memory_storage crypter js update_feed) native_scanner j s = Ret (r, s')" "kept_running i k t s" "j \<noteq> i"
  shows "kept_running i k t s'"
proof -
  obtain q u where u: "unschedule native_scanner j s = (q, u)" by (cases "unschedule native_scanner j s")
  have "sched_scanner u \<in> {sched_scanner s, snd (ns_stop_scan j (sched_scanner s))}" "sched_db u = sched_db s"
    using u by (auto simp: unschedule_def native_scanner_def split: if_splits prod.splits sum.splits)
  moreover have "queued u \<in> {queued s, remove_id j (queued s)}" "running u \<in> {running s, remove_id j (running s)}"
    using unschedule_lists [OF u] by simp_all
  ultimately have kept: "kept_running i k t u"
    using assms(2,3) holds_task_stop [of i k t "sched_scanner s" j] set_remove_id_other [of i j "running s"]
      set_remove_id_subset [of j "queued s"]
    by (auto simp: kept_running_def)
  have "s' = u \<or> (\<exists>db. s' = u\<lparr>sched_db := db\<rparr> \<and> im_scans db = AList.delete j (im_scans (sched_db u)))"
    using assms(1) by (auto simp: delete_scan_by_id_def u in_memory_storage_def im_remove_scan_def remove_scan_id_def rs_bind_Ret_iff
        split: sum.splits rs.splits prod.splits)
  then show ?thesis using kept by (auto simp: kept_running_def im_ids_def AList.delete_conv' split: if_splits)
qed

lemma fetch_kept:
  assumes "fetch_results_of (in_memory_storage crypter js update_feed) native_scanner j s = (r, s')" "kept_running i k t s"
    and "rn_status t = default_status"
  shows "kept_running i k t s' \<and> (\<forall>x. r = Inr (Some x) \<longrightarrow> sr_id x = i \<longrightarrow> \<not> ends_scan (st_phase (sr_status x)))"
proof (cases "ns_fetch_results j (sched_scanner s)")
  case (Inl e)
  have "s' = s \<or> (\<exists>st q db. im_update_status j st (sched_db s) = (q, db) \<and> s' = s\<lparr>sched_db := db\<rparr>)" "\<forall>x. r \<noteq> Inr (Some x)"
    using assms(1) Inl by (auto simp: fetch_results_of_def native_scanner_def in_memory_storage_def Let_def split: sum.splits prod.splits)
  then show ?thesis using assms(2) im_ids_update by (auto simp: kept_running_def)
next
  case (Inr x)
  then have "s' = s" "r = Inr (Some x)" using assms(1) by (auto simp: fetch_results_of_def native_scanner_def Let_def)
  moreover have "\<not> ends_scan (st_phase (sr_status x))" if "sr_id x = i"
    using that Inr assms(2,3)
    by (auto simp: ns_fetch_results_def kept_running_def holds_task_def ends_scan_def default_status_def split: option.splits)
  ultimately show ?thesis using assms(2) by simp
qed

lemma append_kept:
  assumes "append_fetched_result (in_memory_storage crypter js update_feed) [x] s = (r, s')" "kept_running i k t s"
    and "sr_id x = i \<longrightarrow> \<not> ends_scan (st_phase (sr_status x))"
  shows "kept_running i k t s'"
proof -
  let ?run = "if ends_scan (st_phase (sr_status x)) then remove_id (sr_id x) (running s) else running s"
  have "s' = s\<lparr>running := ?run, sched_db := snd (im_append_fetched_result crypter js [x] (sched_db s))\<rparr>"
    using assms(1) by (auto simp: append_fetched_result_def in_memory_storage_def Let_def simp del: im_append_fetched_result.simps split: prod.splits)
  then show ?thesis using assms(2,3) im_ids_append [of "sched_db s" crypter js x] set_remove_id_other [of i "sr_id x" "running s"]
    by (auto simp: kept_running_def simp del: im_append_fetched_result.simps)
qed

lemma background_stuck:
  assumes "background_step cfg ops native_scanner v w" "stuck i k t v" "rn_status t = default_status"
    and "ops = in_memory_storage crypter js update_feed"
  shows "stuck i k t w"
proof -
  have s: "kept_running i k t (sched v)" using assms(2) by (simp add: stuck_def)
  from assms(1) show ?thesis
  proof cases
    case (start r s')
    then show ?thesis using start_queued_kept [OF start(3) [unfolded assms(4)] s] by (simp add: stuck_def)
  next
    case (fetch j "is" r s')
    then show ?thesis using fetch_kept [OF fetch(3) [unfolded assms(4)] s assms(3)]
      by (auto simp: stuck_def split: sum.splits option.splits)
  next
    case (append x "is" r s')
    then show ?thesis using append_kept [OF append(3) [unfolded assms(4)] s] assms(2) by (simp add: stuck_def)
  next
    case (end_update hash r s')
    have "im_scans (snd (im_synchronize_feeds update_feed hash (sched_db (sched v)))) = im_scans (sched_db (sched v))"
      by (rule synchronize_scans)
    then have "kept_running i k t s'" using s end_update(3)
      by (auto simp: assms(4) sync_finish_def in_memory_storage_def kept_running_def im_ids_def split: prod.splits)
    then show ?thesis using end_update assms(2) by (simp add: stuck_def)
  qed (use assms(2) in \<open>simp_all add: stuck_def kept_running_def sync_request_def\<close>)
qed

lemma stop_running_kept:
  assumes "stop_running (in_memory_storage crypter js update_feed) now j s = (r, s')" "kept_running i k t s" "j \<noteq> i"
  shows "kept_running i k t s'"
proof -
  let ?s = "s\<lparr>running := remove_id j (running s)\<rparr>"
  have "s' = ?s \<or> (\<exists>st q db. im_update_status j st (sched_db s) = (q, db) \<and> s' = ?s\<lparr>sched_db := db\<rparr>)"
    using assms(1) by (auto simp: stop_running_def in_memory_storage_def Let_def split: sum.splits prod.splits)
  then show ?thesis using assms(2,3) set_remove_id_other [of i j "running s"] im_ids_update by (auto simp: kept_running_def)
qed

lemma commit_kept:
  assumes "start_commit cfg (in_memory_storage crypter js update_feed) j st s = (r, s')" "kept_running i k t s" "j \<noteq> i"
  shows "kept_running i k t s'"
proof -
  have "sched_scanner s' = sched_scanner s" "im_ids (sched_db s')"
    using assms(1,2) im_ids_update [of j st "sched_db s"]
    by (auto simp: start_commit_def update_status_def in_memory_storage_def kept_running_def Let_def split: if_splits prod.splits sum.splits)
  then show ?thesis using assms(2,3) start_commit_lists [OF assms(1)] set_remove_id_other [of i j "running s"]
    by (auto simp: kept_running_def)
qed

lemma client_stuck:
  assumes "client_step cfg ops native_scanner j v w" "stuck i k t v" "j \<noteq> i" "ops = in_memory_storage crypter js update_feed"
  shows "stuck i k t w"
proof -
  have s: "kept_running i k t (sched v)" using assms(2) by (simp add: stuck_def)
  from assms(1) show ?thesis
  proof cases
    case (commit st r s')
    then show ?thesis using commit_kept [OF commit(3) [unfolded assms(4)] s assms(3)] assms(2) by (simp add: stuck_def)
  next
    case (delete r s')
    then show ?thesis using delete_kept [OF delete(2) [unfolded assms(4)] s assms(3)] assms(2) by (simp add: stuck_def)
  next
    case (stop_scanner q x)
    then have "x = snd (ns_stop_scan j (sched_scanner (sched v)))" by (simp add: native_scanner_def)
    then show ?thesis using stop_scanner(1) s assms(2) holds_task_stop [of i k t "sched_scanner (sched v)" j] assms(3) by (simp add: stuck_def kept_running_def)
  next
    case search_queue
    then show ?thesis using assms(2) set_remove_id_subset [of j "queued (sched v)"]
      by (auto simp: stuck_def kept_running_def stop_queued_def)
  next
    case (search_running now q s')
    then show ?thesis using stop_running_kept [OF search_running(3) [unfolded assms(4)] s assms(3)] assms(2) by (simp add: stuck_def)
  qed (use assms(2) in \<open>simp add: stuck_def\<close>)
qed

lemma others_step_stuck:
  assumes "others_step st cfg ops i v w" "stuck i k t v" "rn_state t = RunEnded (Inl e)" "rn_status t = default_status"
    and "ops = in_memory_storage crypter js update_feed"
  shows "stuck i k t w"
  using assms(1)
proof cases
  case background
  then show ?thesis using background_stuck assms(2,4,5) by blast
next
  case (client j)
  then show ?thesis using client_stuck assms(2,5) by blast
next
  case (storage db)
  then show ?thesis using assms(2) by (simp add: stuck_def kept_running_def)
next
  case (task x m n now u w')
  then show ?thesis using assms(2) holds_task_run [of i k t x, OF _ task(3,4) assms(3)] by (simp add: stuck_def kept_running_def)
qed

section \<open>Properties\<close>

text \<open>Whatever requests and steps there were, the results that the scanner has for an identifier are the ones of the
  task that was started last under it; an earlier task of the identifier is out of reach.\<close>

theorem fetches_latest_task:
  assumes "(native_step st)\<^sup>*\<^sup>* (new_native_state w) s" "ns_fetch_results sid s = Inr r"
  shows "\<exists>i < length (ns_tasks s). sr_status r = rn_status (ns_tasks s ! i) \<and> scan_id (rn_scan (ns_tasks s ! i)) = sid
    \<and> (\<forall>j < length (ns_tasks s). i < j \<longrightarrow> scan_id (rn_scan (ns_tasks s ! j)) \<noteq> sid)"
proof -
  obtain i where i: "map_of (ns_running s) sid = Some i" "sr_status r = rn_status (ns_tasks s ! i)"
    using assms(2) by (auto simp: ns_fetch_results_def split: option.splits)
  then have l: "latest (task_ids s) sid i" using wf_reachable [OF assms(1)] by (simp add: wf_handles_def)
  have "scan_id (rn_scan (ns_tasks s ! j)) \<noteq> sid" if "j < length (ns_tasks s)" "i < j" for j
  proof -
    have "drop (Suc i) (task_ids s) ! (j - Suc i) = task_ids s ! j" "j - Suc i < length (drop (Suc i) (task_ids s))"
      using that by (simp_all add: task_ids_def)
    then have "task_ids s ! j \<in> set (drop (Suc i) (task_ids s))" using nth_mem by metis
    then show ?thesis using l that(1) by (auto simp: latest_def task_ids_def)
  qed
  then show ?thesis using i(2) l by (auto simp: latest_def task_ids_def)
qed

theorem fetches_latest_task_witness:
  "\<exists>s r i. (native_step empty_stack)\<^sup>*\<^sup>* (new_native_state new_dispatcher) s \<and> ns_fetch_results ''id'' s = Inr r
    \<and> i < length (ns_tasks s) \<and> sr_status r = rn_status (ns_tasks s ! i)"
proof -
  let ?s = "snd (ns_start_scan (scan_of [] []) (new_native_state new_dispatcher))"
  have reach: "(native_step empty_stack)\<^sup>*\<^sup>* (new_native_state new_dispatcher) ?s" by (rule r_into_rtranclp) (rule native_step.start)
  obtain r where r: "ns_fetch_results ''id'' ?s = Inr r" by (simp add: ns_fetch_results_def ns_start_scan_def new_native_state_def)
  from fetches_latest_task [OF reach r] show ?thesis using reach r by blast
qed

text \<open>After a scan has been stopped the scanner does not know it: its results are not found, and deleting it fails
  before the storage is asked, so that the knowledge base and the results of the scan stay in the storage.\<close>

theorem stopped_scan_forgotten:
  assumes "ns_stop_scan sid s = (Inr (), s')"
  shows "ns_fetch_results sid s' = Inl (UnknownScan sid) \<and> ns_delete_scan st sid s' = (Inl (UnknownScan sid), s')
    \<and> ns_world s' = ns_world s"
  using assms by (auto simp: ns_stop_scan_def handle_stop_def ns_fetch_results_def ns_delete_scan_def AList.delete_conv' split: option.splits)

theorem stopped_scan_forgotten_witness:
  "\<exists>s'. ns_stop_scan ''id'' (snd (ns_start_scan (scan_of [] []) (new_native_state new_dispatcher))) = (Inr (), s')
    \<and> ns_fetch_results ''id'' s' = Inl (UnknownScan ''id'') \<and> ns_delete_scan empty_stack ''id'' s' = (Inl (UnknownScan ''id''), s')"
proof -
  let ?s = "snd (ns_start_scan (scan_of [] []) (new_native_state new_dispatcher))"
  obtain s' where s': "ns_stop_scan ''id'' ?s = (Inr (), s')" by (simp add: ns_stop_scan_def ns_start_scan_def new_native_state_def)
  from stopped_scan_forgotten [OF s', of empty_stack] s' show ?thesis by blast
qed

text \<open>A scan that the scanner does not know, such as one that waits in the queue of the scheduler, cannot be stopped:
  the scheduler asks the scanner first, and its error is the answer, without a change of the queue.\<close>

theorem queued_scan_not_stoppable:
  assumes "map_of (ns_running (sched_scanner s)) i = None"
  shows "stop_scan ops native_scanner now i s = (Inl (UnknownScan i), s)"
  using assms by (simp add: stop_scan_def native_scanner_def ns_stop_scan_def)

theorem queued_scan_not_stoppable_witness:
  "stop_scan sample_storage native_scanner 9 ''id'' ((new_scheduler (new_native_state new_dispatcher) sample_db)\<lparr>queued := [''id'']\<rparr>)
    = (Inl (UnknownScan ''id''), (new_scheduler (new_native_state new_dispatcher) sample_db)\<lparr>queued := [''id'']\<rparr>)"
  by (rule queued_scan_not_stoppable) (simp add: new_scheduler_def new_native_state_def)

text \<open>C27: A scan whose plan cannot be made never ends by itself: its task has ended with the error, but its status stays at stored.
  Whatever the background tasks, the tasks of the scanner, the storage and requests for other scans do from then on,
  in any order, the scan stays among the running scans, the scanner reports it as stored, and a request to start it is
  rejected, until a client stops or deletes it.\<close>

theorem failed_plan_never_ends:
  fixes v :: "('e inmemory, 'w native_state) service_state"
  assumes "make_runner st n sc w = Some (Inl e)" "begin_run st n now w (new_running_scan sc) = Some t"
    and "holds_task i k t (sched_scanner (sched v))" "i \<in> set (running (sched v))" "i \<notin> set (queued (sched v))"
    and "im_ids (sched_db (sched v))" "fetch_task v = Ticking" "ops = in_memory_storage crypter js update_feed"
    and "(others_step st cfg ops i)\<^sup>*\<^sup>* v v'"
  shows "i \<in> set (running (sched v')) \<and> rn_state (ns_tasks (sched_scanner (sched v')) ! k) = RunEnded (Inl e)
    \<and> ns_fetch_results i (sched_scanner (sched v')) = Inr \<lparr>sr_id = i, sr_status = default_status, sr_results = []\<rparr>
    \<and> start_check ops i (sched v') = Inl ScanRunning"
proof -
  have t: "rn_state t = RunEnded (Inl e)" "rn_status t = default_status"
    using assms(1,2) by (auto simp: begin_run_def new_running_scan_def)
  have "stuck i k t v" using assms(3-7) by (simp add: stuck_def kept_running_def)
  with assms(9) have "stuck i k t v'"
    by (induction rule: rtranclp_induct) (auto intro: others_step_stuck [OF _ _ t assms(8)])
  then show ?thesis using t
    by (auto simp: stuck_def kept_running_def holds_task_def ns_fetch_results_def start_check_def)
qed

definition broken_stack :: "default_dispatcher scanner_stack" where
  "broken_stack = empty_stack\<lparr>stk_retrieve_vts := \<lambda>_ _. Inl RetryExhausted\<rparr>"

theorem failed_plan_never_ends_witness:
  "\<exists>t v v'. begin_run broken_stack 2 9 new_dispatcher (new_running_scan (scan_of [] [])) = Some t
    \<and> others_step broken_stack sample_config sample_storage ''id'' v v' \<and> running (sched v') = [''id'']
    \<and> rn_state (ns_tasks (sched_scanner (sched v')) ! 0) = RunEnded (Inl (DB RetryExhausted))"
proof -
  have plan: "make_runner broken_stack 2 (scan_of [] []) new_dispatcher = Some (Inl (DB RetryExhausted))"
    by (simp add: make_runner_def broken_stack_def execution_plan_def)
  obtain t where t: "begin_run broken_stack 2 9 new_dispatcher (new_running_scan (scan_of [] [])) = Some t"
    by (simp add: begin_run_def plan new_running_scan_def)
  let ?s = "(new_scheduler \<lparr>ns_running = [(''id'', 0)], ns_tasks = [t], ns_world = new_dispatcher\<rparr> sample_db)\<lparr>running := [''id'']\<rparr>"
  let ?v = "\<lparr>sched = ?s, pending = [], stopping = [], fetch_task = Ticking, feed_task = NoUpdate\<rparr>"
  let ?w = "?v\<lparr>fetch_task := Coordinating\<rparr>"
  have id: "scan_id (rn_scan t) = ''id''" using t by (auto simp: begin_run_def plan new_running_scan_def)
  have "holds_task ''id'' 0 t (sched_scanner (sched ?v))"
    by (simp add: holds_task_def wf_handles_def latest_def task_ids_def id new_scheduler_def)
  moreover have "im_ids (sched_db (sched ?v))"
    by (simp add: im_ids_def new_scheduler_def sample_db_def new_inmemory_def sample_progress_def sample_scan_model_def)
  moreover have step: "others_step broken_stack sample_config sample_storage ''id'' ?v ?w"
    by (intro others_step.background background_step.tick) simp
  ultimately have "rn_state (ns_tasks (sched_scanner (sched ?w)) ! 0) = RunEnded (Inl (DB RetryExhausted))"
    using failed_plan_never_ends [OF plan t _ _ _ _ _ sample_storage_def r_into_rtranclp [of "others_step broken_stack sample_config sample_storage ''id''"],
        of 0 ?v ?w] by (simp add: new_scheduler_def)
  with t step show ?thesis by (intro exI [of _ t] exI [of _ ?v] exI [of _ ?w]) simp
qed

end
