(* ===== verification/Nasl_Scripts.thy ===== *)
theory Nasl_Scripts
  imports Nasl_Semantics
begin

text \<open>
  Properties of the interpreter: the frame of a statement, forked runs, repeated attempts, failing
  calls, assignments, the repetition operator, and the value of an expression from its tokens on.
\<close>

section \<open>Lemmas\<close>

declare retry_resolve.simps [simp del]

lemma retry_in_root:
  assumes "wf_machine s" "m_index s = 0" "retry_resolve env n stmt k s = Some (Ret (r, s'))"
  shows "wf_machine s' \<and> m_index s' = 0 \<and> other_runs s s'
    \<and> last (rs_position (runs s ! 0)) < last (rs_position (runs s' ! 0))"
  using assms
proof (induction k arbitrary: s rule: less_induct)
  case (less k)
  obtain q t where q: "resolve_n env n stmt s = Some (Ret (q, t))"
    using less.prems(3) by (subst (asm) retry_resolve.simps) (auto split: option.splits rs.splits)
  obtain n' where n: "n = Suc n'" using q by (cases n) auto
  have f: "frame id s q t \<and> rs_position (cur t) = butlast (rs_position (cur s)) @ [last (rs_position (cur s)) + 1]"
    using framed.body_frame [OF less.prems(1)] q by (simp add: n)
  then have t: "wf_machine t" "m_index t = 0" "other_runs s t" "last (rs_position (runs s ! 0)) < last (rs_position (runs t ! 0))"
    using less.prems(2) by (auto simp: frame_def cur_def)
  show ?case
  proof (cases "\<exists>e. q = Inl e \<and> 0 < k \<and> retryable e")
    case True
    moreover have "t\<lparr>m_index := 0\<rparr> = t" using t(2) by (cases t) simp
    ultimately have "retry_resolve env n stmt (k - 1) t = Some (Ret (r, s'))"
      using less.prems(3) q by (subst (asm) retry_resolve.simps) auto
    then have "wf_machine s' \<and> m_index s' = 0 \<and> other_runs t s'
        \<and> last (rs_position (runs t ! 0)) < last (rs_position (runs s' ! 0))"
      using True less.IH [of "k - 1" t] t by auto
    then show ?thesis using t less.prems(2) other_runs_trans [of s t s'] by auto
  next
    case False
    then have "s' = t"
      using less.prems(3) q by (subst (asm) retry_resolve.simps) (auto split: sum.splits if_splits)
    then show ?thesis using t by simp
  qed
qed

text \<open>A call when its arguments have been evaluated.\<close>

definition opened :: "named \<Rightarrow> nasl_value list \<Rightarrow> 'w machine \<Rightarrow> 'w machine" where
  "opened named position t = map_register (create_root_child (AList.update FC_ANON_ARGS (CValue (NArray position)) named)) t"

lemma call_evaluated:
  assumes "tk_category (st_start stmt) = Identifier (Undefined name)"
    and "call_arguments resolve args [] [] s = Some (Ret (Inr (named, position), t))"
  shows "call env resolve stmt args s =
    i_bind (call_builtin env name) (\<lambda>result.
      case result of
        None \<Rightarrow> call_function resolve name
      | Some (Inr (NFork x)) \<Rightarrow> i_bind (on_fork x) (\<lambda>v. i_bind (on_register drop_last) (\<lambda>_. i_ok v))
      | Some (Inr v) \<Rightarrow> i_bind (on_register drop_last) (\<lambda>_. i_ok v)
      | Some (Inl e) \<Rightarrow>
          i_bind (on_register drop_last) (\<lambda>_. i_err (new_error (FunctionCallError name e) (Some stmt)))) (opened named position t)"
  using assms by (simp add: call_def i_bind_def i_lift_def interp_identifier_def on_register_def opened_def)

lemma runs_map_register: "runs (map_register f s) = (runs s)[m_index s := (cur s)\<lparr>rs_register := f (cur_register s)\<rparr>]"
  by (simp add: map_register_def set_cur_def)

lemma concat_nth:
  "list_all (\<lambda>x. length x = l) xss \<Longrightarrow> i < length xss \<Longrightarrow> j < l \<Longrightarrow> concat xss ! (i * l + j) = xss ! i ! j"
proof (induction xss arbitrary: i)
  case (Cons x xss)
  then show ?case by (cases i) (simp_all add: nth_append)
qed simp

lemma fork_runs_copy:
  assumes "rs \<noteq> []" "i < length vs"
  shows "rs_register (fork_runs (v # vs) rs ! (Suc i * length rs)) = rs_register (hd rs)"
proof -
  let ?pos = "reduce_last (rs_position (hd rs))"
  let ?first = "map (fork_first ?pos v) rs"
  have "concat (map (\<lambda>v. map (fork_copy ?pos v) ?first) vs) ! (i * length rs + 0) = map (\<lambda>v. map (fork_copy ?pos v) ?first) vs ! i ! 0"
    using assms by (intro concat_nth) (simp_all add: list_all_iff)
  then have "fork_runs (v # vs) rs ! (Suc i * length rs) = fork_copy ?pos (vs ! i) (fork_first ?pos v (hd rs))"
    using assms by (simp add: fork_runs_def Let_def nth_append hd_conv_nth)
  then show ?thesis by (simp add: fork_copy_def fork_first_def)
qed

text \<open>A function is looked up in the root context.\<close>

lemma named_in_call:
  assumes "wf_register r" "name \<noteq> FC_ANON_ARGS" "d = [(FC_ANON_ARGS, c)]"
  shows "reg_named (create_root_child d r) name = map_of (ctx_defined (r ! 0)) name"
proof -
  have r: "r \<noteq> []" "ctx_id (r ! 0) = 0" "ctx_parent (r ! 0) = None"
    using assms(1) by (auto simp: wf_register_def split: option.splits)
  have "context_named (create_root_child d r) (length r) name = context_named r 0 name"
    using r(1) assms(2,3)
    by (subst context_named.simps) (simp add: create_root_child_def nth_append context_named_append)
  moreover have "context_named r 0 name = map_option (Pair 0) (map_of (ctx_defined (r ! 0)) name)"
    using r by (subst context_named.simps) (simp split: option.split)
  ultimately show ?thesis
    by (simp add: reg_named_def index_named_def create_root_child_def option.map_comp o_def option.map_ident)
qed

text \<open>Assignments through the register.\<close>

lemma store_found:
  assumes "wf_register r" "index_named r key = Some (i, c)"
  shows "\<exists>r'. add_to_index i key v r = Ret r' \<and> reg_named r' key = Some v \<and> (\<forall>m. m \<noteq> key \<longrightarrow> reg_named r' m = reg_named r m)"
proof -
  have r: "length r - 1 < length r" using assms(1) by (simp add: wf_register_def)
  have c: "context_named r (length r - 1) key = Some (i, c)" using assms by (simp add: index_named_def split: if_splits)
  have "i < length r" using context_named_bound [OF assms(1) r c] r by simp
  then show ?thesis using context_named_update_found [OF assms(1) r c, of v] context_named_update_other [of key _ r i v "length r - 1"] r
    by (auto simp: add_to_index_def reg_named_def index_named_def)
qed

lemma store_new:
  assumes "wf_register r" "index_named r key = None"
  shows "\<exists>r'. add_to_index 0 key v r = Ret r' \<and> reg_named r' key = Some v \<and> (\<forall>m. m \<noteq> key \<longrightarrow> reg_named r' m = reg_named r m)
    \<and> map_of (ctx_defined (r' ! 0)) key = Some v"
proof -
  have r: "length r - 1 < length r" "r \<noteq> []" using assms(1) by (simp_all add: wf_register_def)
  have c: "context_named r (length r - 1) key = None" using assms r by (simp add: index_named_def)
  show ?thesis using context_named_update_root [OF assms(1) r(1) c, of v] context_named_update_other [of key _ r 0 v "length r - 1"] r
    by (auto simp: add_to_index_def reg_named_def index_named_def add_named_def update_conv')
qed

lemma stored_value:
  assumes "wf_register r" "\<forall>ps body. reg_named r key \<noteq> Some (CFunction ps body)"
  obtains i x r' where "(case index_named r key of Some y \<Rightarrow> y | None \<Rightarrow> (0, CValue NNull)) = (i, CValue x)"
    "add_to_index i key (CValue v) r = Ret r'"
    "reg_named r' key = Some (CValue v)" "\<forall>m. m \<noteq> key \<longrightarrow> reg_named r' m = reg_named r m"
    "reg_named r key = None \<longrightarrow> map_of (ctx_defined (r' ! 0)) key = Some (CValue v)"
proof (cases "index_named r key")
  case None
  then obtain r' where "add_to_index 0 key (CValue v) r = Ret r'" "reg_named r' key = Some (CValue v)"
    "\<forall>m. m \<noteq> key \<longrightarrow> reg_named r' m = reg_named r m" "map_of (ctx_defined (r' ! 0)) key = Some (CValue v)"
    using store_new [OF assms(1) None, of "CValue v"] by blast
  then show ?thesis using that [of 0 NNull r'] None by simp
next
  case (Some p)
  obtain i c where p: "p = (i, c)" by (cases p)
  then obtain x where c: "c = CValue x" using assms(2) Some by (cases c) (simp_all add: reg_named_def)
  obtain r' where "add_to_index i key (CValue v) r = Ret r'" "reg_named r' key = Some (CValue v)"
    "\<forall>m. m \<noteq> key \<longrightarrow> reg_named r' m = reg_named r m"
    using store_found [OF assms(1), of key i c "CValue v"] Some p by blast
  then show ?thesis using that [of i x r'] Some p c by (simp add: reg_named_def)
qed

text \<open>Numbers and positions.\<close>

lemma sint_pred:
  fixes k :: i64
  shows "2 \<le> sint k \<Longrightarrow> sint (k - 1) = sint k - 1"
  using sint_lt [of k] sint_i64 [of "sint k - 1"] by simp


definition next_position :: "'w machine \<Rightarrow> 'w machine" where
  "next_position m = map_position (\<lambda>p. butlast p @ [last p + 1]) m"

lemma map_position_comp:
  "m_index s < length (runs s) \<Longrightarrow> map_position f (map_position g s) = map_position (\<lambda>p. f (g p)) s"
  by (simp add: map_position_def set_cur_def cur_def)

lemma map_position_simps [simp]:
  "m_index (map_position f s) = m_index s"
  "length (runs (map_position f s)) = length (runs s)"
  "world (map_position f s) = world s"
  "m_index s < length (runs s) \<Longrightarrow> rs_skip (cur (map_position f s)) = rs_skip (cur s)"
  "m_index s < length (runs s) \<Longrightarrow> cur_register (map_position f s) = cur_register s"
  "m_index s < length (runs s) \<Longrightarrow> rs_position (cur (map_position f s)) = f (rs_position (cur s))"
  by (simp_all add: map_position_def cur_register_def)

lemma map_position_cong:
  "f (rs_position (cur s)) = g (rs_position (cur s)) \<Longrightarrow> map_position f s = map_position g s"
  by (simp add: map_position_def)

text \<open>The value of an expression of binary operators.\<close>

fun expr_value :: "(string \<Rightarrow> (string \<Rightarrow> bool) option) \<Rightarrow> expr \<Rightarrow> interpret_result rs" where
  "expr_value regex (Leaf t) = Ret (map_sum wrong_category id (token_value t))"
| "expr_value regex (Node l opr r) =
    (case (expr_value regex l, expr_value regex r, operator_value regex (tk_category opr)) of
       (Ret (Inr a), Ret (Inr b), Some f) \<Rightarrow> f a (Some b)
     | _ \<Rightarrow> Panic)"

lemma no_repetition: "operator_value regex TokX = None"
  by (simp add: operator_value_def)

lemma resolve_expression:
  "represents e stmt \<Longrightarrow> expr_value (regex_new env) e = Ret (Inr v) \<Longrightarrow> leaves e \<le> n
    \<Longrightarrow> m_index m < length (runs m) \<Longrightarrow> rs_skip (cur m) = [] \<Longrightarrow> rs_position (cur m) \<noteq> []
    \<Longrightarrow> resolve_n env n stmt m = Some (Ret (Inr v, next_position m))"
proof (induction e arbitrary: stmt v n m)
  case (Leaf t)
  then obtain n' where n: "n = Suc n'" by (cases n) auto
  have "token_value t = Inr v" using Leaf.prems(2) by (cases "token_value t") simp_all
  then have "resolve_kind env (resolve_n env n') n' stmt m' = Some (Ret (Inr v, m'))" for m'
    using Leaf.prems(1) by (simp add: resolve_kind_def resolve_primitive_def i_lift_def)
  then show ?case using Leaf.prems(4-6)
    by (simp add: n resolve_body_def Let_def map_position_comp next_position_def pos_up_def pos_down_def)
      (rule map_position_cong, simp)
next
  case (Node l opr r)
  obtain x y where xy: "st_kind stmt = Operator (tk_category opr) [x, y]" "represents l x" "represents r y"
    using Node.prems(1) by auto
  obtain a b f where v: "expr_value (regex_new env) l = Ret (Inr a)" "expr_value (regex_new env) r = Ret (Inr b)"
      "operator_value (regex_new env) (tk_category opr) = Some f" "f a (Some b) = Ret (Inr v)"
    using Node.prems(2) by (auto split: rs.splits sum.splits option.splits)
  have "0 < leaves l" "0 < leaves r" by (induction l) (induction r, auto)+
  then obtain n' where n: "n = Suc n'" "leaves l \<le> n'" "leaves r \<le> n'" using Node.prems(3) by (cases n) auto
  let ?up = "map_position pos_up m"
  have "resolve_n env n' x ?up = Some (Ret (Inr a, next_position ?up))"
    using Node.prems(4-6) n(2) by (intro Node.IH(1) [OF xy(2) v(1)]) (simp_all add: pos_up_def)
  moreover have "resolve_n env n' y (next_position ?up) = Some (Ret (Inr b, next_position (next_position ?up)))"
    using Node.prems(4-6) n(3) unfolding next_position_def
    by (intro Node.IH(2) [OF xy(3) v(2), unfolded next_position_def]) (simp_all add: pos_up_def)
  ultimately have "resolve_kind env (resolve_n env n') n' stmt ?up = Some (Ret (Inr v, next_position (next_position ?up)))"
    using v(3,4) xy(1) no_repetition
    by (auto simp: resolve_kind_def resolve_operator_def execute_operands_def i_bind_def i_rs_def i_lift_def)
  moreover have "map_position pos_down (next_position (next_position ?up)) = next_position m"
    using Node.prems(4-6) unfolding next_position_def
    by (simp add: map_position_comp pos_up_def pos_down_def Let_def) (rule map_position_cong, simp)
  ultimately show ?case using Node.prems(4,5) by (simp add: n(1) resolve_body_def Let_def)
qed

text \<open>Scripts for concrete inputs: a function that fails for a while, one that returns several values, and
  one that counts its calls in the world.\<close>

definition flaky :: "register \<Rightarrow> nat \<Rightarrow> ((fn_error + nasl_value) \<times> nat) rs" where
  "flaky r w =
    Ret (if w = 0 then (Inl \<lparr>fe_kind = InternalErr (Retry ''busy''), fe_return_behavior = ExitScript, fe_retryable = True\<rparr>, Suc w)
     else (Inr NNull, Suc w))"

definition sample_env :: "nat env" where
  "sample_env =
    \<lparr>sets = [[(''flaky'', flaky), (''many'', \<lambda>r w. Ret (Inr (NFork [NNumber 1, NNumber 2]), w)), (''tick'', \<lambda>r w. Ret (Inr NNull, Suc w))]],
     loader = (\<lambda>k. Inl (LoadNotFound k)), regex_new = (\<lambda>_. None)\<rparr>"

definition call_of :: "string \<Rightarrow> statement" where
  "call_of name = with_start_token (token_at 0 (Identifier (Undefined name))) (Call (without_token (Parameter [])))"

definition sample_run :: run_specific where
  "sample_run = \<lparr>rs_register = new_register, rs_position = [0], rs_skip = []\<rparr>"

definition sample_machine :: "nat \<Rightarrow> nat \<Rightarrow> nat machine" where
  "sample_machine k i = \<lparr>runs = replicate k sample_run, m_index = i, world = 0\<rparr>"

lemmas interp_eval = resolve_body_def Let_def map_position_def map_register_def set_cur_def cur_def cur_register_def
  pos_up_def pos_down_def resolve_kind_def call_def i_bind_def i_ok_def i_err_def i_lift_def i_panic_def i_rs_def on_register_def
  get_register_def interp_identifier_def call_builtin_def call_function_def with_start_token_def without_token_def token_at_def call_of_def
  sample_env_def sample_run_def sample_machine_def create_root_child_def create_child_def drop_last_def new_register_def reg_index_def
  flaky_def new_error_def add_origin_def error_from_statement_def

lemma wf_sample_machine: "i < k \<Longrightarrow> wf_machine (sample_machine k i)"
  by (simp add: wf_machine_def sample_machine_def list_all_iff wf_run_def sample_run_def)

section \<open>Properties\<close>

text \<open>C13: Whatever a statement is and however it ends, it leaves the active run active, moves its position by
  one at its own level, and touches neither the variables nor the positions of the other runs. When it
  returns a value, the scopes are the ones from before; when it fails, they are still there, with the
  scopes it had opened possibly on top of them.\<close>

theorem resolve_frame:
  assumes "wf_machine s" "resolve_n env n stmt s = Some (Ret (r, s'))"
  shows "wf_machine s' \<and> m_index s' = m_index s \<and> other_runs s s'
    \<and> rs_position (cur s') = butlast (rs_position (cur s)) @ [last (rs_position (cur s)) + 1]
    \<and> (case r of Inr _ \<Rightarrow> shape (cur_register s') = shape (cur_register s)
        | Inl _ \<Rightarrow> prefix (shape (cur_register s)) (shape (cur_register s')))"
proof -
  obtain n' where "n = Suc n'" using assms(2) by (cases n) auto
  then have "frame id s r s' \<and> rs_position (cur s') = butlast (rs_position (cur s)) @ [last (rs_position (cur s)) + 1]"
    using framed.body_frame [OF assms(1)] assms(2) by simp
  then show ?thesis by (auto simp: frame_def scopes_after_def split: sum.splits)
qed

theorem resolve_frame_witness:
  "\<exists>s'. resolve_n sample_env 1 (call_of ''tick'') (sample_machine 2 1) = Some (Ret (Inr NNull, s'))
    \<and> m_index s' = 1 \<and> rs_position (cur s') = [1] \<and> shape (cur_register s') = shape new_register"
proof -
  obtain s' where "resolve_n sample_env 1 (call_of ''tick'') (sample_machine 2 1) = Some (Ret (Inr NNull, s'))"
    by (simp add: interp_eval numeral_2_eq_2)
  then show ?thesis
    using resolve_frame [of "sample_machine 2 1" sample_env 1 "call_of ''tick''" "Inr NNull" s'] wf_sample_machine [of 1 2]
    by (auto simp: sample_machine_def sample_run_def cur_def cur_register_def)
qed



text \<open>C17: A temporary failure in a forked run is retried in another one: the further attempts are made in the
  first run, which executes the statement again, while the forked run is left after its failure.\<close>

theorem retry_moves_to_root:
  assumes "wf_machine s" "m_index s \<noteq> 0" "resolve_n env n stmt s = Some (Ret (Inl e, t))" "retryable e"
    and "retry_resolve env n stmt (Suc k) s = Some (Ret (r, s'))"
  shows "m_index s' = 0
    \<and> last (rs_position (runs s ! 0)) < last (rs_position (runs s' ! 0))
    \<and> rs_position (runs s' ! m_index s) = rs_position (runs t ! m_index s)
    \<and> rs_register (runs s' ! m_index s) = rs_register (runs t ! m_index s)"
proof -
  obtain n' where "n = Suc n'" using assms(3) by (cases n) auto
  then have "frame id s (Inl e :: interpret_error + nasl_value) t" using framed.body_frame [OF assms(1)] assms(3) by simp
  then have f: "wf_machine t" "m_index t = m_index s" "other_runs s t" by (simp_all add: frame_def)
  let ?t = "t\<lparr>m_index := 0\<rparr>"
  have i: "m_index s < length (runs s)" using assms(1) by (simp add: wf_machine_def)
  then have j: "m_index s < length (runs t)" "0 < length (runs s)" using f(3) by (auto simp: other_runs_def)
  have "retry_resolve env n stmt k ?t = Some (Ret (r, s'))"
    using assms(3-5) by (subst (asm) retry_resolve.simps) simp
  then have "wf_machine s' \<and> m_index s' = 0 \<and> other_runs ?t s' \<and> last (rs_position (runs ?t ! 0)) < last (rs_position (runs s' ! 0))"
    using f(1) j by (intro retry_in_root) (auto simp: wf_machine_def)
  moreover have "rs_position (runs t ! 0) = rs_position (runs s ! 0)" using f(3) j(2) assms(2) by (auto simp: other_runs_def)
  ultimately show ?thesis using j assms(2) by (auto simp: other_runs_def)
qed

theorem retry_moves_to_root_witness:
  "\<exists>s'. retry_resolve sample_env 1 (call_of ''flaky'') 5 (sample_machine 2 1) = Some (Ret (Inr NNull, s'))
    \<and> m_index s' = 0 \<and> 0 < last (rs_position (runs s' ! 0))"
proof -
  obtain e t where e: "resolve_n sample_env 1 (call_of ''flaky'') (sample_machine 2 1) = Some (Ret (Inl e, t))" "retryable e"
    by (simp add: interp_eval numeral_2_eq_2 retryable_def)
  moreover obtain s' where s': "retry_resolve sample_env 1 (call_of ''flaky'') (Suc 4) (sample_machine 2 1) = Some (Ret (Inr NNull, s'))"
    by (simp add: retry_resolve.simps interp_eval numeral_2_eq_2 retryable_def)
  ultimately show ?thesis
    using retry_moves_to_root [of "sample_machine 2 1" sample_env 1 "call_of ''flaky''" e t 4 "Inr NNull" s'] wf_sample_machine [of 1 2]
    by (auto simp: sample_machine_def sample_run_def)
qed

text \<open>A function that returns several values splits the first run: the call has the first value and leaves
  the scopes of the caller, the runs multiply by the number of values, and the run of each further value
  still has the scope of the call open, with the arguments in it.\<close>

theorem fork_keeps_call_scope:
  assumes "wf_machine s" "m_index s = 0" "tk_category (st_start stmt) = Identifier (Undefined name)"
    and "call_arguments (resolve_n env n) args [] [] s = Some (Ret (Inr (named, position), t))"
    and "executor_exec (sets env) name (cur_register (opened named position t)) (world t) = Some (Ret (Inr (NFork (v # vs)), w))"
  shows "\<exists>s'. call env (resolve_n env n) stmt args s = Some (Ret (Inr v, s')) \<and> world s' = w
    \<and> length (runs s') = Suc (length vs) * length (runs t) \<and> cur_register s' = cur_register t
    \<and> (\<forall>i<length vs. rs_register (runs s' ! (Suc i * length (runs t)))
        = create_root_child (AList.update FC_ANON_ARGS (CValue (NArray position)) named) (cur_register t))"
proof -
  have "frame id s (Inr (named, position) :: interpret_error + _) t"
    using keepsD [OF framed.keeps_arguments assms(1,4)] .
  then have t: "m_index t = 0" "runs t \<noteq> []" using assms(2) by (auto simp: frame_def wf_machine_def)
  let ?c = "create_root_child (AList.update FC_ANON_ARGS (CValue (NArray position)) named) (cur_register t)"
  let ?o = "opened named position t"
  have o: "m_index ?o = 0" "length (runs ?o) = length (runs t)" "world ?o = world t" "runs ?o \<noteq> []" "rs_register (hd (runs ?o)) = ?c"
    using t by (simp_all add: opened_def runs_map_register hd_conv_nth)
  let ?f = "fork_runs (v # vs) (runs ?o)"
  let ?s' = "map_register drop_last (?o\<lparr>world := w, runs := ?f\<rparr>)"
  have "call env (resolve_n env n) stmt args s = Some (Ret (Inr v, ?s'))"
    using o(1,3) assms(5) by (subst call_evaluated [OF assms(3,4)]) (simp add: i_bind_def call_builtin_def on_fork_def on_register_def i_ok_def)
  moreover have "rs_register (?f ! (Suc i * length (runs t))) = ?c" if "i < length vs" for i
    using fork_runs_copy [OF o(4) that, of v] o by simp
  moreover have "rs_register (?f ! 0) = ?c"
    using o(4,5) by (cases "runs ?o") (simp_all add: fork_runs_def Let_def fork_first_def)
  ultimately show ?thesis using o(1,2) t
    by (intro exI [of _ ?s']) (simp add: runs_map_register length_fork_runs cur_register_def cur_def create_root_child_def drop_last_def)
qed

theorem fork_keeps_call_scope_witness:
  "\<exists>s'. call sample_env (resolve_n sample_env 1) (call_of ''many'') [] (sample_machine 1 0) = Some (Ret (Inr (NNumber 1), s'))
    \<and> length (runs s') = 2 \<and> length (cur_register s') = 1 \<and> length (rs_register (runs s' ! 1)) = 2"
  using fork_keeps_call_scope [of "sample_machine 1 0" "call_of ''many''" "''many''" sample_env 1 "[]" "[]" "[]" "sample_machine 1 0"
      "NNumber 1" "[NNumber 2]" 0] wf_sample_machine [of 0 1]
  by (auto simp: interp_eval opened_def)



text \<open>The repetition operator executes its statement once less than the number says: for every number from
  two on the function that counts its calls is called one time less.\<close>

theorem repetition_once_less:
  assumes "resolve amount s = Some (Ret (Inr (NNumber k), t))" "2 \<le> sint k"
    and "\<forall>s. \<exists>v s'. resolve repeatable s = Some (Ret (Inr v, s')) \<and> world s' = Suc (world s)"
  shows "\<exists>v s'. resolve_operator env resolve TokX [repeatable, amount] s = Some (Ret (Inr v, s'))
    \<and> world s' = world t + nat (sint k - 1)"
proof -
  have times: "\<exists>s'. resolve_times resolve m repeatable s = Some (Ret (Inr (), s')) \<and> world s' = world s + m" for m s
  proof (induction m arbitrary: s)
    case (Suc m)
    obtain v s1 where "resolve repeatable s = Some (Ret (Inr v, s1))" "world s1 = Suc (world s)" using assms(3) by blast
    then show ?case using Suc [of s1] by (auto simp: i_bind_def)
  qed (simp add: i_ok_def)
  have "sint (k - 1) = sint k - 1" using assms(2) by (rule sint_pred)
  then have rounds: "Suc (repeat_rounds k) = nat (sint k - 1)" using assms(2) by (simp add: repeat_rounds_def)
  obtain s1 where s1: "resolve_times resolve (repeat_rounds k) repeatable t = Some (Ret (Inr (), s1))" "world s1 = world t + repeat_rounds k"
    using times by blast
  obtain v s' where "resolve repeatable s1 = Some (Ret (Inr v, s'))" "world s' = Suc (world s1)" using assms(3) by blast
  moreover have "k \<noteq> 0" using assms(2) by auto
  ultimately show ?thesis using assms(1) s1 rounds by (simp add: resolve_operator_def i_bind_def)
qed

theorem repetition_once_less_witness:
  "\<exists>v s'. resolve_operator sample_env
      (\<lambda>stmt s. if st_kind stmt = Primitive then Some (Ret (Inr (NNumber 3), s)) else Some (Ret (Inr NNull, s\<lparr>world := Suc (world s)\<rparr>)))
      TokX [call_of ''tick'', with_start_token (token_at 1 (NumberLit 3)) Primitive] (sample_machine 1 0) = Some (Ret (Inr v, s'))
    \<and> world s' = 2"
  using repetition_once_less [of "\<lambda>stmt s. if st_kind stmt = Primitive then Some (Ret (Inr (NNumber 3), s)) else Some (Ret (Inr NNull, s\<lparr>world := Suc (world s)\<rparr>))"
    "with_start_token (token_at 1 (NumberLit 3)) Primitive" "sample_machine 1 0" 3 "sample_machine 1 0" "call_of ''tick''" sample_env]
  by (simp add: with_start_token_def call_of_def sample_machine_def numeral_2_eq_2)



text \<open>A call of a function that neither the library nor the root context has is an error that names the
  function, and the scope that had been opened for the call stays open.\<close>

theorem unknown_function_leaves_scope:
  assumes "wf_machine s" "tk_category (st_start stmt) = Identifier (Undefined name)" "name \<noteq> FC_ANON_ARGS"
    and "call_arguments (resolve_n env n) args [] [] s = Some (Ret (Inr ([], position), t))"
    and "\<And>r w. executor_exec (sets env) name r w = None" "map_of (ctx_defined (cur_register t ! 0)) name = None"
  shows "\<exists>e s'. call env (resolve_n env n) stmt args s = Some (Ret (Inl e, s')) \<and> ie_kind e = KeyNotFound name
    \<and> length (cur_register s') = Suc (length (cur_register s))"
proof -
  have f: "frame id s (Inr ([], position) :: interpret_error + named \<times> _) t"
    using keepsD [OF framed.keeps_arguments assms(1,4)] .
  then have t: "wf_register (cur_register t)" "m_index t < length (runs t)"
    by (auto simp: frame_def wf_machine_def wf_run_def list_all_iff cur_register_def cur_def)
  have "length (shape (cur_register t)) = length (shape (cur_register s))" using f by (simp add: frame_def scopes_after_def)
  then have len: "length (cur_register t) = length (cur_register s)" by (simp add: shape_def)
  let ?o = "opened [] position t"
  have o: "cur_register ?o = create_root_child [(FC_ANON_ARGS, CValue (NArray position))] (cur_register t)"
    using t(2) by (simp add: opened_def cur_register_def map_register_def)
  then have "reg_named (cur_register ?o) name = None" using named_in_call [OF t(1) assms(3)] assms(6) by simp
  then have "call env (resolve_n env n) stmt args s = Some (Ret (Inl (new_error (KeyNotFound name) None), ?o))"
    using assms(5) by (subst call_evaluated [OF assms(2,4)])
      (simp add: i_bind_def call_builtin_def call_function_def get_register_def i_err_def)
  then show ?thesis using o len by (simp add: new_error_def create_root_child_def)
qed

theorem unknown_function_leaves_scope_witness:
  "\<exists>e s'. call sample_env (resolve_n sample_env 1) (call_of ''lost'') [] (sample_machine 1 0) = Some (Ret (Inl e, s'))
    \<and> ie_kind e = KeyNotFound ''lost'' \<and> length (cur_register s') = 2"
  using unknown_function_leaves_scope [of "sample_machine 1 0" "call_of ''lost''" "''lost''" sample_env 1 "[]" "[]" "sample_machine 1 0"]
    wf_sample_machine [of 0 1]
  by (simp add: interp_eval FC_ANON_ARGS_def numeral_2_eq_2)

end
