(* ===== verification/Nasl_Args.thy ===== *)
theory Nasl_Args
  imports Nasl_Interpreter
begin

text \<open>
  How builtin functions get their arguments: the signatures of the attribute \<open>nasl_function\<close>
  (src/rust/crates/nasl-function-proc-macro/src), and src/rust/src/nasl/utils/function with the
  conversions from and to values and the checks of the arguments that were given.

  A conversion is a function from a value to an error or a result. Numbers are read into \<open>int\<close> after
  the check of the range of their type. The named arguments of a call are the names of its context;
  they are checked in the order of the hash map.
\<close>

section \<open>Conversions from values\<close>

definition bad_argument :: "string \<Rightarrow> fn_error + 'a" where
  "bad_argument what = Inl (fn_error_from_argument (WrongArgument what))"

definition value_arg :: "nasl_value \<Rightarrow> fn_error + nasl_value" where
  "value_arg v = Inr v"

definition string_arg :: "nasl_value \<Rightarrow> fn_error + string" where
  "string_arg v = (case v of NString s \<Rightarrow> Inr s | _ \<Rightarrow> bad_argument ''Expected string.'')"

definition bytes_arg :: "nasl_value \<Rightarrow> fn_error + 8 word list" where
  "bytes_arg v = (case v of NData b \<Rightarrow> Inr b | _ \<Rightarrow> bad_argument ''Expected byte data.'')"

definition bool_arg :: "nasl_value \<Rightarrow> fn_error + bool" where
  "bool_arg v = (case v of NBoolean b \<Rightarrow> Inr b | NNumber n \<Rightarrow> Inr (n \<noteq> 0) | _ \<Rightarrow> bad_argument ''Expected bool.'')"

text \<open>\<open>impl_from_nasl_value_for_numeric_type\<close> for a type with the given least and greatest number.\<close>

definition numeric_arg :: "int \<Rightarrow> int \<Rightarrow> nasl_value \<Rightarrow> fn_error + int" where
  "numeric_arg least greatest v =
    (case v of
       NNumber num \<Rightarrow>
         if least \<le> sint num \<and> sint num \<le> greatest then Inr (sint num)
         else bad_argument ''Expected positive number.''
     | e \<Rightarrow> bad_argument (''Expected a number, found '' @ [CHR 0x27] @ nasl_display e @ [CHR 0x27] @ ''.''))"

definition i64_arg :: "nasl_value \<Rightarrow> fn_error + int" where
  "i64_arg = numeric_arg (- (2 ^ 63)) (2 ^ 63 - 1)"

definition usize_arg :: "nasl_value \<Rightarrow> fn_error + nat" where
  "usize_arg v = map_sum id nat (numeric_arg 0 (2 ^ 64 - 1) v)"

definition string_or_data :: "nasl_value \<Rightarrow> fn_error + string" where
  "string_or_data v =
    (case v of
       NString s \<Rightarrow> Inr s
     | NData b \<Rightarrow> Inr (bytes_as_chars b)
     | _ \<Rightarrow> bad_argument ''Expected string or byte buffer.'')"

definition maybe_arg :: "(nasl_value \<Rightarrow> fn_error + 'a) \<Rightarrow> nasl_value \<Rightarrow> fn_error + 'a option" where
  "maybe_arg conv v = Inr (case conv v of Inr x \<Rightarrow> Some x | Inl _ \<Rightarrow> None)"

fun collect_args :: "(nasl_value \<Rightarrow> fn_error + 'a) \<Rightarrow> nasl_value list \<Rightarrow> fn_error + 'a list" where
  "collect_args conv [] = Inr []"
| "collect_args conv (v # vs) = try_bind (conv v) (\<lambda>x. try_bind (collect_args conv vs) (\<lambda>xs. Inr (x # xs)))"

definition vec_arg :: "(nasl_value \<Rightarrow> fn_error + 'a) \<Rightarrow> nasl_value \<Rightarrow> fn_error + 'a list" where
  "vec_arg conv v = (case v of NArray vals \<Rightarrow> collect_args conv vals | _ \<Rightarrow> bad_argument ''Expected an array..'')"

section \<open>Access to the arguments\<close>

definition get_optional_positional_arg :: "(nasl_value \<Rightarrow> fn_error + 'a) \<Rightarrow> register \<Rightarrow> nat \<Rightarrow> fn_error + 'a option" where
  "get_optional_positional_arg conv r position =
    (if position < length (positional r) then map_sum id Some (conv (positional r ! position)) else Inr None)"

definition get_positional_arg :: "(nasl_value \<Rightarrow> fn_error + 'a) \<Rightarrow> register \<Rightarrow> nat \<Rightarrow> nat \<Rightarrow> fn_error + 'a" where
  "get_positional_arg conv r position required =
    (if position < length (positional r) then conv (positional r ! position)
     else Inl (fn_error_from_argument (MissingPositionals required (length (positional r)))))"

definition context_type_as_nasl_value :: "context_type \<Rightarrow> string \<Rightarrow> fn_error + nasl_value" where
  "context_type_as_nasl_value ct arg_name =
    (case ct of
       CFunction _ _ \<Rightarrow> bad_argument (''Wrong argument for '' @ arg_name @ '', expected a value, found a function.'')
     | CValue v \<Rightarrow> Inr v)"

definition get_optional_named_arg :: "(nasl_value \<Rightarrow> fn_error + 'a) \<Rightarrow> register \<Rightarrow> string \<Rightarrow> fn_error + 'a option" where
  "get_optional_named_arg conv r name =
    (case reg_named r name of
       None \<Rightarrow> Inr None
     | Some ct \<Rightarrow> try_bind (context_type_as_nasl_value ct name) (\<lambda>v. map_sum id Some (conv v)))"

definition get_named_arg :: "(nasl_value \<Rightarrow> fn_error + 'a) \<Rightarrow> register \<Rightarrow> string \<Rightarrow> fn_error + 'a" where
  "get_named_arg conv r name =
    (case reg_named r name of
       None \<Rightarrow> Inl (missing_argument name)
     | Some ct \<Rightarrow> try_bind (context_type_as_nasl_value ct name) conv)"

definition get_optional_maybe_named_arg ::
  "(nasl_value \<Rightarrow> fn_error + 'a) \<Rightarrow> register \<Rightarrow> string \<Rightarrow> nat \<Rightarrow> fn_error + 'a option" where
  "get_optional_maybe_named_arg conv r name position =
    try_bind (get_optional_positional_arg conv r position) (\<lambda>via_position.
      case via_position of Some x \<Rightarrow> Inr (Some x) | None \<Rightarrow> get_optional_named_arg conv r name)"

definition get_maybe_named_arg :: "(nasl_value \<Rightarrow> fn_error + 'a) \<Rightarrow> register \<Rightarrow> string \<Rightarrow> nat \<Rightarrow> fn_error + 'a" where
  "get_maybe_named_arg conv r name position =
    try_bind (get_optional_positional_arg conv r position) (\<lambda>via_position.
      case via_position of Some x \<Rightarrow> Inr x | None \<Rightarrow> get_named_arg conv r name)"

definition checked_positionals :: "(nasl_value \<Rightarrow> fn_error + 'a) \<Rightarrow> register \<Rightarrow> nat \<Rightarrow> fn_error + 'a list" where
  "checked_positionals conv r start_position = collect_args conv (drop start_position (positional r))"

definition positionals :: "(nasl_value \<Rightarrow> fn_error + 'a) \<Rightarrow> register \<Rightarrow> nat \<Rightarrow> (fn_error + 'a) list" where
  "positionals conv r start_position = map conv (drop start_position (positional r))"

section \<open>Signatures\<close>

datatype arg_kind =
    PositionalArg nat
  | NamedArg string
  | MaybeNamedArg nat string
  | ContextArg
  | RegisterArg
  | PositionalIterator nat
  | CheckedPositionalIterator nat

text \<open>What the macro reads from a parameter: its name, its type as far as it matters, whether it is an
  \<open>Option\<close>, and the attribute it is mentioned in.\<close>

datatype param_type = TContext | TRegister | TPositionals | TCheckedPositionals | TOther

datatype attr_kind = AttrNamed | AttrMaybeNamed

record param =
  pa_name :: string
  pa_type :: param_type
  pa_optional :: bool
  pa_attr :: "attr_kind option"

record arg =
  ar_kind :: arg_kind
  ar_optional :: bool

definition get_arg_kind :: "param \<Rightarrow> nat \<Rightarrow> arg_kind" where
  "get_arg_kind p position =
    (case pa_type p of
       TContext \<Rightarrow> ContextArg
     | TRegister \<Rightarrow> RegisterArg
     | TPositionals \<Rightarrow> PositionalIterator position
     | TCheckedPositionals \<Rightarrow> CheckedPositionalIterator position
     | TOther \<Rightarrow>
         (case pa_attr p of
            None \<Rightarrow> PositionalArg position
          | Some AttrNamed \<Rightarrow> NamedArg (pa_name p)
          | Some AttrMaybeNamed \<Rightarrow> MaybeNamedArg position (pa_name p)))"

definition is_positional :: "arg_kind \<Rightarrow> bool" where
  "is_positional k = (case k of PositionalArg _ \<Rightarrow> True | MaybeNamedArg _ _ \<Rightarrow> True | _ \<Rightarrow> False)"

fun parse_function_args :: "nat \<Rightarrow> param list \<Rightarrow> arg list" where
  "parse_function_args position [] = []"
| "parse_function_args position (p # ps) =
    (let a = \<lparr>ar_kind = get_arg_kind p position, ar_optional = pa_optional p\<rparr> in
     a # parse_function_args (if is_positional (ar_kind a) then position + 1 else position) ps)"

fun arg_order :: "arg_kind \<Rightarrow> nat" where
  "arg_order ContextArg = 0"
| "arg_order RegisterArg = 0"
| "arg_order (PositionalArg _) = 1"
| "arg_order (MaybeNamedArg _ _) = 2"
| "arg_order (NamedArg _) = 3"
| "arg_order (PositionalIterator _) = 4"
| "arg_order (CheckedPositionalIterator _) = 4"

text \<open>\<open>verify_args\<close>: a signature whose arguments are not in this order does not compile.\<close>

fun first_unsorted_index :: "nat \<Rightarrow> nat list \<Rightarrow> nat option" where
  "first_unsorted_index i (a # b # xs) = (if b < a then Some (i + 1) else first_unsorted_index (i + 1) (b # xs))"
| "first_unsorted_index i _ = None"

definition verify_args :: "arg list \<Rightarrow> bool" where
  "verify_args as = (first_unsorted_index 0 (map (\<lambda>a. arg_order (ar_kind a)) as) = None)"

definition num_required_positional :: "arg list \<Rightarrow> nat" where
  "num_required_positional as =
    length (filter (\<lambda>a. (case ar_kind a of PositionalArg _ \<Rightarrow> True | _ \<Rightarrow> False) \<and> \<not> ar_optional a) as)"

definition max_num_allowed_positional :: "arg list \<Rightarrow> nat" where
  "max_num_allowed_positional as = length (filter (\<lambda>a. is_positional (ar_kind a)) as)"

definition has_positional_iterator_arg :: "arg list \<Rightarrow> bool" where
  "has_positional_iterator_arg as =
    list_ex (\<lambda>a. case ar_kind a of PositionalIterator _ \<Rightarrow> True | CheckedPositionalIterator _ \<Rightarrow> True | _ \<Rightarrow> False) as"

definition has_register_arg :: "arg list \<Rightarrow> bool" where
  "has_register_arg as = list_ex (\<lambda>a. ar_kind a = RegisterArg) as"

definition named_names :: "arg list \<Rightarrow> string list" where
  "named_names as = List.map_filter (\<lambda>a. case ar_kind a of NamedArg n \<Rightarrow> Some n | _ \<Rightarrow> None) as"

definition maybe_named_names :: "arg list \<Rightarrow> string list" where
  "maybe_named_names as = List.map_filter (\<lambda>a. case ar_kind a of MaybeNamedArg _ n \<Rightarrow> Some n | _ \<Rightarrow> None) as"

section \<open>Checks\<close>

text \<open>The feature \<open>enforce-no-trailing-arguments\<close> is one of the default features: an argument that is not
  expected is an error.\<close>

fun count_named_args :: "string list \<Rightarrow> string list \<Rightarrow> string list \<Rightarrow> fn_error + nat" where
  "count_named_args named maybe_named [] = Inr 0"
| "count_named_args named maybe_named (arg_name # names) =
    (if arg_name = FC_ANON_ARGS \<or> arg_name \<in> set named then count_named_args named maybe_named names
     else if arg_name \<in> set maybe_named then map_sum id Suc (count_named_args named maybe_named names)
     else Inl (fn_error_from_argument (UnexpectedArgument arg_name)))"

definition check_named_args :: "register \<Rightarrow> string list \<Rightarrow> string list \<Rightarrow> (fn_error + nat) rs" where
  "check_named_args r named maybe_named =
    (case iter_named_args r of None \<Rightarrow> Panic | Some names \<Rightarrow> Ret (count_named_args named maybe_named names))"

definition check_args :: "register \<Rightarrow> string list \<Rightarrow> string list \<Rightarrow> nat option \<Rightarrow> (fn_error + unit) rs" where
  "check_args r named maybe_named max_expected =
    rs_bind (check_named_args r named maybe_named) (\<lambda>c. Ret (try_bind c (\<lambda>num_maybe_named_given.
      case max_expected of
        None \<Rightarrow> Inr ()
      | Some m \<Rightarrow>
          let num_positional_expected = m - num_maybe_named_given;
              num_positional_given = length (positional r)
          in if num_positional_given > num_positional_expected
             then Inl (fn_error_from_argument (TrailingPositionals num_positional_expected num_positional_given))
             else Inr ())))"

definition gen_checks :: "arg list \<Rightarrow> register \<Rightarrow> (fn_error + unit) rs" where
  "gen_checks as r =
    (if has_register_arg as then Ret (Inr ())
     else check_args r (named_names as) (maybe_named_names as)
       (if has_positional_iterator_arg as then None else Some (max_num_allowed_positional as)))"

text \<open>The function that the macro generates: checks, arguments, body. The arguments are read by the body.\<close>

definition nasl_function ::
  "param list \<Rightarrow> (register \<Rightarrow> 'w \<Rightarrow> ((fn_error + nasl_value) \<times> 'w) rs) \<Rightarrow> register \<Rightarrow> 'w \<Rightarrow> ((fn_error + nasl_value) \<times> 'w) rs" where
  "nasl_function ps body r w =
    rs_bind (gen_checks (parse_function_args 0 ps) r) (\<lambda>c. case c of Inl e \<Rightarrow> Ret (Inl e, w) | Inr _ \<Rightarrow> body r w)"

definition with_arg :: "fn_error + 'a \<Rightarrow> ('a \<Rightarrow> ((fn_error + nasl_value) \<times> 'w) rs) \<Rightarrow> 'w \<Rightarrow> ((fn_error + nasl_value) \<times> 'w) rs" where
  "with_arg a f w = (case a of Inl e \<Rightarrow> Ret (Inl e, w) | Inr x \<Rightarrow> f x)"

text \<open>A function that has no state: its body is a computation of the result from the arguments.\<close>

definition arg_bind :: "fn_error + 'a \<Rightarrow> ('a \<Rightarrow> (fn_error + 'b) rs) \<Rightarrow> (fn_error + 'b) rs" where
  "arg_bind a f = (case a of Inl e \<Rightarrow> Ret (Inl e) | Inr x \<Rightarrow> f x)"

definition stateless ::
  "param list \<Rightarrow> (register \<Rightarrow> (fn_error + nasl_value) rs) \<Rightarrow> register \<Rightarrow> 'w \<Rightarrow> ((fn_error + nasl_value) \<times> 'w) rs" where
  "stateless ps body = nasl_function ps (\<lambda>r w. rs_bind (body r) (\<lambda>v. Ret (v, w)))"

text \<open>Results: \<open>to_nasl_result\<close>.\<close>

definition rs_ok :: "nasl_value \<Rightarrow> (fn_error + nasl_value) rs" where
  "rs_ok v = Ret (Inr v)"

definition option_result :: "('a \<Rightarrow> nasl_value) \<Rightarrow> 'a option \<Rightarrow> nasl_value" where
  "option_result f x = (case x of Some y \<Rightarrow> f y | None \<Rightarrow> NNull)"

definition number_result :: "int \<Rightarrow> nasl_value" where
  "number_result n = NNumber (word_of_int n)"

text \<open>Parameters of the signatures: positional, named, or either, \<open>opt\<close> for an \<open>Option\<close>.\<close>

definition by_position :: "string \<Rightarrow> param" where
  "by_position n = \<lparr>pa_name = n, pa_type = TOther, pa_optional = False, pa_attr = None\<rparr>"

definition by_name :: "string \<Rightarrow> param" where
  "by_name n = \<lparr>pa_name = n, pa_type = TOther, pa_optional = False, pa_attr = Some AttrNamed\<rparr>"

definition by_either :: "string \<Rightarrow> param" where
  "by_either n = \<lparr>pa_name = n, pa_type = TOther, pa_optional = False, pa_attr = Some AttrMaybeNamed\<rparr>"

definition opt :: "param \<Rightarrow> param" where
  "opt p = p\<lparr>pa_optional := True\<rparr>"

definition of_type :: "param_type \<Rightarrow> param" where
  "of_type t = \<lparr>pa_name = [], pa_type = t, pa_optional = False, pa_attr = None\<rparr>"

section \<open>Calls\<close>

text \<open>The register of a call with named and positional arguments.\<close>

definition call_register :: "Nasl_Register.named \<Rightarrow> nasl_value list \<Rightarrow> register \<Rightarrow> register" where
  "call_register given position r = create_root_child (AList.update FC_ANON_ARGS (CValue (NArray position)) given) r"

lemma index_call_register:
  "map_of given name = Some c \<Longrightarrow> name \<noteq> FC_ANON_ARGS \<Longrightarrow> reg_named (call_register given position r) name = Some c"
  by (simp add: call_register_def reg_named_def index_named_def create_root_child_def context_named.simps nth_append update_conv)

lemma positional_call_register [simp]: "positional (call_register given position r) = position"
  by (simp add: positional_def call_register_def reg_named_def index_named_def create_root_child_def context_named.simps nth_append update_conv)

lemma iter_call_register: "iter_named_args (call_register given position r) = Some (map fst (AList.update FC_ANON_ARGS (CValue (NArray position)) given))"
  by (simp add: iter_named_args_def call_register_def create_root_child_def)

text \<open>A name that is not an argument of the call is looked up in the root context.\<close>

lemma global_call_register:
  assumes "r \<noteq> []" "map_of given name = None" "name \<noteq> FC_ANON_ARGS" "ctx_parent (r ! 0) = None"
  shows "reg_named (call_register given position r) name = map_of (ctx_defined (r ! 0)) name"
proof -
  let ?r = "call_register given position r"
  have r: "?r ! length r = \<lparr>ctx_parent = Some 0, ctx_id = reg_index r,
      ctx_defined = AList.update FC_ANON_ARGS (CValue (NArray position)) given\<rparr>" "?r ! 0 = r ! 0" "length ?r = Suc (length r)"
    using assms(1) by (simp_all add: call_register_def create_root_child_def nth_append)
  have "context_named ?r 0 name = map_option (Pair (ctx_id (r ! 0))) (map_of (ctx_defined (r ! 0)) name)"
    by (subst context_named.simps) (simp add: r assms(4) split: option.split)
  moreover have "context_named ?r (length r) name = context_named ?r 0 name"
    by (subst context_named.simps) (use assms r in \<open>simp add: update_conv\<close>)
  moreover have "index_named ?r name = context_named ?r (length r) name"
    using r(3) by (auto simp: index_named_def)
  ultimately show ?thesis by (simp add: reg_named_def option.map_comp comp_def option.map_ident)
qed

lemmas args_eval = gen_checks_def parse_function_args.simps Let_def by_position_def by_name_def by_either_def opt_def of_type_def get_arg_kind_def
  is_positional_def has_register_arg_def has_positional_iterator_arg_def named_names_def maybe_named_names_def
  List.map_filter_def max_num_allowed_positional_def check_args_def check_named_args_def iter_call_register

lemmas args_get = index_call_register get_named_arg_def get_optional_named_arg_def get_positional_arg_def get_optional_positional_arg_def
  get_maybe_named_arg_def get_optional_maybe_named_arg_def checked_positionals_def context_type_as_nasl_value_def arg_bind_def rs_ok_def

lemma arg_bind_result [simp]: "arg_bind a f = Ret (Inr v) \<longleftrightarrow> (\<exists>x. a = Inr x \<and> f x = Ret (Inr v))"
  by (cases a) (simp_all add: arg_bind_def)

lemma rs_ok_result [simp]: "rs_ok v = Ret (Inr w) \<longleftrightarrow> v = w"
  by (simp add: rs_ok_def)

lemma stateless_result:
  assumes "stateless ps body r w = Ret (Inr v, w')"
  shows "w' = w \<and> body r = Ret (Inr v)"
proof -
  obtain c :: "fn_error + unit" where "(case c of Inl e \<Rightarrow> Ret (Inl e, w) | Inr _ \<Rightarrow> rs_bind (body r) (\<lambda>v. Ret (v, w))) = Ret (Inr v, w')"
    using assms by (auto simp: stateless_def nasl_function_def rs_bind_Ret_iff)
  then show ?thesis by (cases c) (auto simp: rs_bind_Ret_iff)
qed

lemma stateless_checked:
  "gen_checks (parse_function_args 0 ps) r = Ret (Inr ()) \<Longrightarrow> body r = Ret v \<Longrightarrow> stateless ps body r w = Ret (v, w)"
  by (simp add: stateless_def nasl_function_def)

lemma collect_values [simp]: "collect_args value_arg vs = Inr vs"
  by (induction vs) (simp_all add: value_arg_def)

section \<open>Types of results\<close>

datatype result_kind = KString | KData | KNumber | KBoolean | KStrings | KArray | KDict | KFork | KNull

fun has_kind :: "nasl_value \<Rightarrow> result_kind \<Rightarrow> bool" where
  "has_kind (NString _) k = (k = KString)"
| "has_kind (NData _) k = (k = KData)"
| "has_kind (NNumber _) k = (k = KNumber)"
| "has_kind (NBoolean _) k = (k = KBoolean)"
| "has_kind (NArray xs) k = (k = KArray \<or> k = KStrings \<and> list_all (\<lambda>x. has_kind x KString) xs)"
| "has_kind (NDict _) k = (k = KDict)"
| "has_kind (NFork _) k = (k = KFork)"
| "has_kind NNull k = (k = KNull)"
| "has_kind _ k = False"

text \<open>A function that returns values of the given kinds and leaves the world alone.\<close>

definition returns :: "result_kind list \<Rightarrow> (register \<Rightarrow> 'w \<Rightarrow> ((fn_error + nasl_value) \<times> 'w) rs) \<Rightarrow> bool" where
  "returns ks f \<longleftrightarrow> (\<forall>r w v w'. f r w = Ret (Inr v, w') \<longrightarrow> w' = w \<and> list_ex (has_kind v) ks)"

lemma returns_stateless: "(\<And>r v. body r = Ret (Inr v) \<Longrightarrow> list_ex (has_kind v) ks) \<Longrightarrow> returns ks (stateless ps body)"
  using stateless_result by (fastforce simp: returns_def)

lemma returns_set:
  assumes "list_all2 (\<lambda>a b. fst a = fst b \<and> returns (snd b) (snd a)) fs table" "map_of fs name = Some f" "f r w = Ret (Inr v, w')"
  shows "w' = w \<and> (\<exists>ks. map_of table name = Some ks \<and> list_ex (has_kind v) ks)"
  using assms(1,2)
proof (induction fs table rule: list_all2_induct)
  case (Cons a fs b table)
  then show ?case using assms(3) by (cases a; cases b) (auto simp: returns_def split: if_splits)
qed simp

end
