(* ===== verification/Nasl_Strings.thy ===== *)
theory Nasl_Strings
  imports Nasl_Args "HOL-Library.Sublist"
begin

text \<open>
  The builtin functions of NASL on strings: src/rust/src/nasl/builtin/string/mod.rs.

  Lengths and positions are in bytes of the UTF-8 text, as in the code; a range that does not start and
  end between two characters is a panic. Searching for a text is done on characters, which for UTF-8
  finds the same places. The crate \<open>glob\<close> (\<open>match\<close>) and the upper case of a text, which can leave the
  characters of the model, are parameters. What \<open>display\<close> prints is not modelled.
\<close>

section \<open>Slices\<close>

text \<open>The two parts of a text at a byte position; \<open>None\<close> when there is no boundary of characters.\<close>

fun split_at_byte :: "nat \<Rightarrow> string \<Rightarrow> (string \<times> string) option" where
  "split_at_byte n [] = (if n = 0 then Some ([], []) else None)"
| "split_at_byte n (c # cs) =
    (if n = 0 then Some ([], c # cs)
     else if n < utf8_len c then None
     else map_option (map_prod (Cons c) id) (split_at_byte (n - utf8_len c) cs))"

definition str_from :: "nat \<Rightarrow> string \<Rightarrow> string rs" where
  "str_from start s = (case split_at_byte start s of None \<Rightarrow> Panic | Some (_, b) \<Rightarrow> Ret b)"

definition str_to :: "nat \<Rightarrow> string \<Rightarrow> string rs" where
  "str_to stop s = (case split_at_byte stop s of None \<Rightarrow> Panic | Some (a, _) \<Rightarrow> Ret a)"

definition str_range :: "nat \<Rightarrow> nat \<Rightarrow> string \<Rightarrow> string rs" where
  "str_range start stop s = rs_bind (str_to stop s) (\<lambda>p. str_from start p)"

section \<open>Searching\<close>

text \<open>The places of the matches of a text, from left to right without overlaps, as positions of characters. The
  empty text matches before every character and at the end. \<open>skip\<close> characters belong to the last match.\<close>

fun match_indices :: "string \<Rightarrow> nat \<Rightarrow> nat \<Rightarrow> string \<Rightarrow> (nat \<times> nat) list" where
  "match_indices p i skip [] = (if skip = 0 \<and> p = [] then [(i, i)] else [])"
| "match_indices p i (Suc k) (c # s) = match_indices p (Suc i) k s"
| "match_indices p i 0 (c # s) =
    (if prefix p (c # s) then (i, i + length p) # match_indices p (Suc i) (length p - 1) s
     else match_indices p (Suc i) 0 s)"

definition str_find :: "string \<Rightarrow> string \<Rightarrow> nat option" where
  "str_find p s =
    (case match_indices p 0 0 s of [] \<Rightarrow> None | (i, _) # _ \<Rightarrow> Some i)"

fun split_pieces :: "nat \<Rightarrow> (nat \<times> nat) list \<Rightarrow> string \<Rightarrow> string list" where
  "split_pieces start [] s = [drop start s]"
| "split_pieces start ((a, b) # ms) s = take (a - start) (drop start s) # split_pieces b ms s"

fun inclusive_pieces :: "nat \<Rightarrow> (nat \<times> nat) list \<Rightarrow> string \<Rightarrow> string list" where
  "inclusive_pieces start [] s = (if start = length s then [] else [drop start s])"
| "inclusive_pieces start ((a, b) # ms) s = take (b - start) (drop start s) # inclusive_pieces b ms s"

definition str_split :: "string \<Rightarrow> string \<Rightarrow> string list" where
  "str_split p s = split_pieces 0 (match_indices p 0 0 s) s"

definition str_split_inclusive :: "string \<Rightarrow> string \<Rightarrow> string list" where
  "str_split_inclusive p s = inclusive_pieces 0 (match_indices p 0 0 s) s"

fun replace_at :: "nat \<Rightarrow> (nat \<times> nat) list \<Rightarrow> string \<Rightarrow> string \<Rightarrow> string" where
  "replace_at start [] rep s = drop start s"
| "replace_at start ((a, b) # ms) rep s = take (a - start) (drop start s) @ rep @ replace_at b ms rep s"

definition replacen :: "string \<Rightarrow> string \<Rightarrow> nat \<Rightarrow> string \<Rightarrow> string" where
  "replacen p rep n s = replace_at 0 (take n (match_indices p 0 0 s)) rep s"

definition str_replace_all :: "string \<Rightarrow> string \<Rightarrow> string \<Rightarrow> string" where
  "str_replace_all p rep s = replace_at 0 (match_indices p 0 0 s) rep s"

section \<open>Hexadecimal texts\<close>

definition hex_digit :: "nat \<Rightarrow> char" where
  "hex_digit k = (if k < 10 then char_of (48 + k) else char_of (87 + k))"

text \<open>\<open>{:02x}\<close> for a number below 256.\<close>

definition hex_byte :: "nat \<Rightarrow> string" where
  "hex_byte n = [hex_digit (n div 16), hex_digit (n mod 16)]"

definition encode_hex :: "8 word list \<Rightarrow> string" where
  "encode_hex bytes = concat (map (\<lambda>b. hex_byte (unat b)) bytes)"

definition hex_value :: "char \<Rightarrow> nat option" where
  "hex_value c =
    (let n = of_char c :: nat in
     if 48 \<le> n \<and> n \<le> 57 then Some (n - 48)
     else if 97 \<le> n \<and> n \<le> 102 then Some (n - 87)
     else if 65 \<le> n \<and> n \<le> 70 then Some (n - 55)
     else None)"

text \<open>\<open>u8::from_str_radix\<close> on a text of two bytes; a plus sign is allowed.\<close>

definition parse_hex_byte :: "string \<Rightarrow> 8 word option" where
  "parse_hex_byte s =
    (case s of
       [a, b] \<Rightarrow>
         (case (hex_value a, hex_value b) of
            (Some x, Some y) \<Rightarrow> Some (word_of_nat (16 * x + y))
          | (None, Some y) \<Rightarrow> if a = CHR ''+'' then Some (word_of_nat y) else None
          | _ \<Rightarrow> None)
     | _ \<Rightarrow> None)"

lemma split_at_byte_append: "split_at_byte n s = Some (a, b) \<Longrightarrow> s = a @ b \<and> str_len a = n"
  by (induction n s arbitrary: a b rule: split_at_byte.induct) (auto split: if_splits)

text \<open>\<open>decode_hex\<close>: two bytes at a time up to the first that are no number.\<close>

function decode_hex :: "string \<Rightarrow> 8 word list option rs" where
  "decode_hex s =
    (if s = [] then Ret (Some [])
     else case split_at_byte 2 s of
       None \<Rightarrow> Panic
     | Some (a, rest) \<Rightarrow>
         (case parse_hex_byte a of
            None \<Rightarrow> Ret None
          | Some b \<Rightarrow> rs_bind (decode_hex rest) (\<lambda>bs. Ret (map_option (Cons b) bs))))"
  by pat_completeness auto

termination
proof (relation "measure length")
  fix s :: string and x a rest b
  assume "s \<noteq> []" "split_at_byte 2 s = Some x" "(a, rest) = x"
  then have "s = a @ rest" "a \<noteq> []" using split_at_byte_append [of 2 s a rest] by auto
  then show "(rest, s) \<in> measure length" by simp
qed simp

declare decode_hex.simps [simp del]

section \<open>Texts of values\<close>

fun append_nasl_value_as_u8 :: "nasl_value \<Rightarrow> 8 word list" where
  "append_nasl_value_as_u8 (NString s) = as_bytes s"
| "append_nasl_value_as_u8 (NData d) = d"
| "append_nasl_value_as_u8 (NNumber x) = [ucast x]"
| "append_nasl_value_as_u8 (NArray x) = concat (map append_nasl_value_as_u8 x)"
| "append_nasl_value_as_u8 (NDict x) = concat (map (\<lambda>e. append_nasl_value_as_u8 (snd e)) x)"
| "append_nasl_value_as_u8 (NBoolean x) = [if x then 1 else 0]"
| "append_nasl_value_as_u8 (NAttackCategory x) = [word_of_nat (act_index x)]"
| "append_nasl_value_as_u8 _ = []"

definition is_ascii_graphic :: "char \<Rightarrow> bool" where
  "is_ascii_graphic c = (let n = of_char c :: nat in 33 \<le> n \<and> n \<le> 126)"

fun write_nasl_string :: "nasl_value \<Rightarrow> string" where
  "write_nasl_string (NString x) = x"
| "write_nasl_string (NData x) = bytes_as_chars x"
| "write_nasl_string (NNumber x) =
    (let c = char_of (unat (ucast x :: 8 word)) in if is_ascii_graphic c then [c] else ''.'')"
| "write_nasl_string (NArray x) = concat (map write_nasl_string x)"
| "write_nasl_string (NDict x) = concat (map (\<lambda>e. write_nasl_string (snd e)) x)"
| "write_nasl_string _ = ''.''"

fun write_nasl_string_value :: "nasl_value \<Rightarrow> string" where
  "write_nasl_string_value (NArray x) = concat (map write_nasl_string x)"
| "write_nasl_string_value (NDict x) = concat (map (\<lambda>e. write_nasl_string (snd e)) x)"
| "write_nasl_string_value (NString x) = x"
| "write_nasl_string_value (NNumber x) = show_int (sint x)"
| "write_nasl_string_value (NBoolean x) = (if x then ''1'' else ''0'')"
| "write_nasl_string_value (NAttackCategory x) = show_nat (act_index x)"
| "write_nasl_string_value (NData x) = bytes_as_chars x"
| "write_nasl_string_value _ = []"

definition combine_positionals_to_string :: "nasl_value list \<Rightarrow> string" where
  "combine_positionals_to_string ps = concat (map write_nasl_string_value ps)"

text \<open>\<open>str_to_int\<close>: the number, or the number without the last byte. The empty text and one that ends with a
  character of two bytes is an invalid slice.\<close>

definition str_to_int :: "string \<Rightarrow> int rs" where
  "str_to_int s =
    (case parse_i64 s of
       Some n \<Rightarrow> Ret n
     | None \<Rightarrow>
         if s = [] then Panic
         else rs_bind (str_to (str_len s - 1) s) (\<lambda>p. Ret (case parse_i64 p of Some n \<Rightarrow> n | None \<Rightarrow> 0)))"

text \<open>\<open>str::repeat\<close>: a text of more than \<open>isize::MAX\<close> bytes is a capacity overflow.\<close>

definition str_repeat :: "nat \<Rightarrow> string \<Rightarrow> string rs" where
  "str_repeat n s = (if n * str_len s < 2 ^ 63 then Ret (concat (replicate n s)) else Panic)"

section \<open>Functions\<close>

text \<open>\<open>raw_string\<close> and \<open>strcat\<close>.\<close>

definition raw_string :: "register \<Rightarrow> 'w \<Rightarrow> ((fn_error + nasl_value) \<times> 'w) rs" where
  "raw_string = stateless [of_type TCheckedPositionals] (\<lambda>r.
    arg_bind (checked_positionals value_arg r 0) (\<lambda>ps. rs_ok (NData (concat (map append_nasl_value_as_u8 ps)))))"

definition string_fn :: "register \<Rightarrow> 'w \<Rightarrow> ((fn_error + nasl_value) \<times> 'w) rs" where
  "string_fn = stateless [of_type TCheckedPositionals] (\<lambda>r.
    arg_bind (checked_positionals value_arg r 0) (\<lambda>ps. rs_ok (NString (combine_positionals_to_string ps))))"

definition toupper :: "(string \<Rightarrow> string) \<Rightarrow> register \<Rightarrow> 'w \<Rightarrow> ((fn_error + nasl_value) \<times> 'w) rs" where
  "toupper to_uppercase = stateless [opt (by_position ''s'')] (\<lambda>r.
    arg_bind (get_optional_positional_arg (maybe_arg string_or_data) r 0) (\<lambda>s.
      rs_ok (option_result (\<lambda>s. NString (to_uppercase s)) (Option.bind s id))))"

definition tolower :: "register \<Rightarrow> 'w \<Rightarrow> ((fn_error + nasl_value) \<times> 'w) rs" where
  "tolower = stateless [opt (by_position ''s'')] (\<lambda>r.
    arg_bind (get_optional_positional_arg (maybe_arg string_or_data) r 0) (\<lambda>s.
      rs_ok (option_result (\<lambda>s. NString (to_lowercase s)) (Option.bind s id))))"

definition strlen :: "register \<Rightarrow> 'w \<Rightarrow> ((fn_error + nasl_value) \<times> 'w) rs" where
  "strlen = stateless [opt (by_position ''s'')] (\<lambda>r.
    arg_bind (get_optional_positional_arg (maybe_arg string_or_data) r 0) (\<lambda>s.
      rs_ok (number_result (case Option.bind s id of Some s \<Rightarrow> int (str_len s) | None \<Rightarrow> 0))))"

definition substr_of :: "string \<Rightarrow> nat \<Rightarrow> nat option \<Rightarrow> string option rs" where
  "substr_of s start stop =
    (if start > str_len s then Ret None
     else rs_bind (case stop of Some stop \<Rightarrow> str_range start stop s | None \<Rightarrow> str_from start s) (\<lambda>t. Ret (Some t)))"

definition substr :: "register \<Rightarrow> 'w \<Rightarrow> ((fn_error + nasl_value) \<times> 'w) rs" where
  "substr = stateless [by_position ''s'', by_position ''start'', opt (by_position ''end'')] (\<lambda>r.
    arg_bind (get_positional_arg string_or_data r 0 2) (\<lambda>s.
    arg_bind (get_positional_arg usize_arg r 1 2) (\<lambda>start.
    arg_bind (get_optional_positional_arg usize_arg r 2) (\<lambda>stop.
      rs_bind (substr_of s start stop) (\<lambda>t. rs_ok (option_result NString t))))))"

definition hexstr_of :: "nasl_value \<Rightarrow> string option" where
  "hexstr_of v = (case v of NString s \<Rightarrow> Some (encode_hex (as_bytes s)) | NData b \<Rightarrow> Some (encode_hex b) | _ \<Rightarrow> None)"

definition hexstr :: "register \<Rightarrow> 'w \<Rightarrow> ((fn_error + nasl_value) \<times> 'w) rs" where
  "hexstr = stateless [opt (by_position ''s'')] (\<lambda>r.
    arg_bind (get_optional_positional_arg value_arg r 0) (\<lambda>s.
      rs_ok (option_result NString (Option.bind s hexstr_of))))"

definition hex :: "register \<Rightarrow> 'w \<Rightarrow> ((fn_error + nasl_value) \<times> 'w) rs" where
  "hex = stateless [by_position ''s''] (\<lambda>r.
    arg_bind (get_positional_arg i64_arg r 0 1) (\<lambda>s. rs_ok (NString (''0x'' @ hex_byte (nat (s mod 256))))))"

definition hexstr_to_data_of :: "string \<Rightarrow> (fn_error + nasl_value) rs" where
  "hexstr_to_data_of s =
    rs_bind (decode_hex s) (\<lambda>d. Ret (case d of
      Some b \<Rightarrow> Inr (NData b)
    | None \<Rightarrow> bad_argument (''Expected an even-length string containing only 0-9a-fA-F, found '' @ [CHR 0x27] @ s @ [CHR 0x27])))"

definition hexstr_to_data :: "register \<Rightarrow> 'w \<Rightarrow> ((fn_error + nasl_value) \<times> 'w) rs" where
  "hexstr_to_data = stateless [by_position ''s''] (\<lambda>r.
    arg_bind (get_positional_arg value_arg r 0 1) (\<lambda>s. hexstr_to_data_of (nasl_display s)))"

definition data_to_hexstr :: "register \<Rightarrow> 'w \<Rightarrow> ((fn_error + nasl_value) \<times> 'w) rs" where
  "data_to_hexstr = stateless [by_position ''bytes''] (\<lambda>r.
    arg_bind (get_positional_arg (maybe_arg bytes_arg) r 0 1) (\<lambda>b.
      rs_ok (option_result (\<lambda>b. NString (encode_hex b)) b)))"

definition crap :: "register \<Rightarrow> 'w \<Rightarrow> ((fn_error + nasl_value) \<times> 'w) rs" where
  "crap = stateless [by_either ''length'', opt (by_name ''data'')] (\<lambda>r.
    arg_bind (get_maybe_named_arg usize_arg r ''length'' 0) (\<lambda>n.
    arg_bind (get_optional_named_arg value_arg r ''data'') (\<lambda>data.
      rs_bind (str_repeat n (case data of Some x \<Rightarrow> nasl_display x | None \<Rightarrow> ''X'')) (\<lambda>s. rs_ok (NString s)))))"

definition trim_end :: "string \<Rightarrow> string" where
  "trim_end s = rev (dropWhile is_whitespace (rev s))"

definition chomp :: "register \<Rightarrow> 'w \<Rightarrow> ((fn_error + nasl_value) \<times> 'w) rs" where
  "chomp = stateless [by_position ''s''] (\<lambda>r.
    arg_bind (get_positional_arg string_or_data r 0 1) (\<lambda>s. rs_ok (NString (trim_end s))))"

definition stridx_of :: "string \<Rightarrow> string \<Rightarrow> nat \<Rightarrow> int rs" where
  "stridx_of haystack needle offset =
    rs_bind (str_from offset haystack) (\<lambda>t. Ret (case str_find needle t of Some i \<Rightarrow> int (str_len (take i t)) | None \<Rightarrow> - 1))"

definition stridx :: "register \<Rightarrow> 'w \<Rightarrow> ((fn_error + nasl_value) \<times> 'w) rs" where
  "stridx = stateless [by_position ''haystack'', by_position ''needle'', opt (by_position ''offset'')] (\<lambda>r.
    arg_bind (get_positional_arg value_arg r 0 2) (\<lambda>haystack.
    arg_bind (get_positional_arg value_arg r 1 2) (\<lambda>needle.
    arg_bind (get_optional_positional_arg usize_arg r 2) (\<lambda>offset.
      rs_bind (stridx_of (nasl_display haystack) (nasl_display needle) (case offset of Some n \<Rightarrow> n | None \<Rightarrow> 0)) (\<lambda>i.
        rs_ok (number_result i))))))"

definition display :: "register \<Rightarrow> 'w \<Rightarrow> ((fn_error + nasl_value) \<times> 'w) rs" where
  "display = stateless [of_type TCheckedPositionals] (\<lambda>r.
    arg_bind (checked_positionals value_arg r 0) (\<lambda>_. rs_ok NNull))"

definition ord_of :: "string \<Rightarrow> nasl_value" where
  "ord_of s = (case s of c # _ \<Rightarrow> number_result (of_char c) | [] \<Rightarrow> NNull)"

definition ord_fn :: "register \<Rightarrow> 'w \<Rightarrow> ((fn_error + nasl_value) \<times> 'w) rs" where
  "ord_fn = stateless [by_position ''s''] (\<lambda>r.
    arg_bind (get_positional_arg value_arg r 0 1) (\<lambda>s. rs_ok (ord_of (nasl_display s))))"

definition int_of_value :: "nasl_value \<Rightarrow> int rs" where
  "int_of_value v =
    (case v of
       NString s \<Rightarrow> str_to_int s
     | NData d \<Rightarrow> str_to_int (bytes_as_chars d)
     | NNumber n \<Rightarrow> Ret (sint n)
     | NBoolean b \<Rightarrow> Ret (if b then 1 else 0)
     | _ \<Rightarrow> Ret 0)"

definition int_fn :: "register \<Rightarrow> 'w \<Rightarrow> ((fn_error + nasl_value) \<times> 'w) rs" where
  "int_fn = stateless [by_position ''s''] (\<lambda>r.
    arg_bind (get_positional_arg value_arg r 0 1) (\<lambda>s. rs_bind (int_of_value s) (\<lambda>n. rs_ok (number_result n))))"

text \<open>\<open>insstr\<close>; \<open>replace_range\<close> is the text before, the new one and the text behind.\<close>

definition replace_range :: "nat \<Rightarrow> nat \<Rightarrow> string \<Rightarrow> string \<Rightarrow> string rs" where
  "replace_range start stop ins s =
    rs_bind (str_to start s) (\<lambda>a. rs_bind (str_from stop s) (\<lambda>b. Ret (a @ ins @ b)))"

definition insstr_of :: "string \<Rightarrow> string \<Rightarrow> nat \<Rightarrow> nat option \<Rightarrow> (fn_error + nasl_value) rs" where
  "insstr_of s ins start stop =
    (let stop = min (case stop of Some n \<Rightarrow> n | None \<Rightarrow> str_len s) (str_len s) in
     if start > stop
     then Ret (bad_argument (''start index ('' @ show_nat start @ '') larger than end ('' @ show_nat stop @ '').''))
     else rs_bind (if str_len s \<ge> stop + 1 then replace_range start (stop + 1) ins s else replace_range start stop ins s)
       (\<lambda>t. rs_ok (NString t)))"

definition insstr :: "register \<Rightarrow> 'w \<Rightarrow> ((fn_error + nasl_value) \<times> 'w) rs" where
  "insstr = stateless [by_position ''s'', by_position ''to_insert'', by_position ''start'', opt (by_position ''end'')] (\<lambda>r.
    arg_bind (get_positional_arg value_arg r 0 3) (\<lambda>s.
    arg_bind (get_positional_arg value_arg r 1 3) (\<lambda>to_insert.
    arg_bind (get_positional_arg usize_arg r 2 3) (\<lambda>start.
    arg_bind (get_optional_positional_arg usize_arg r 3) (\<lambda>stop.
      insstr_of (nasl_display s) (nasl_display to_insert) start stop)))))"

text \<open>\<open>match_\<close>; the parameter compiles a pattern into a text that says why it is none, or a matcher.\<close>

definition match_of :: "(string \<Rightarrow> string + (bool \<Rightarrow> string \<Rightarrow> bool)) \<Rightarrow> string \<Rightarrow> string \<Rightarrow> bool \<Rightarrow> (fn_error + nasl_value) rs" where
  "match_of pattern_new s p icase =
    (case pattern_new p of
       Inl err \<Rightarrow>
         Ret (bad_argument (''Argument '' @ [CHR 0x27] @ ''pattern'' @ [CHR 0x27] @ '' to '' @ [CHR 0x27] @ ''match'' @ [CHR 0x27]
           @ '' is not a valid pattern: '' @ p @ ''. '' @ err))
     | Inr matches_with \<Rightarrow> rs_ok (NBoolean (matches_with (\<not> icase) s)))"

definition match_fn ::
  "(string \<Rightarrow> string + (bool \<Rightarrow> string \<Rightarrow> bool)) \<Rightarrow> register \<Rightarrow> 'w \<Rightarrow> ((fn_error + nasl_value) \<times> 'w) rs" where
  "match_fn pattern_new = stateless [by_name ''string'', by_name ''pattern'', opt (by_name ''icase'')] (\<lambda>r.
    arg_bind (get_named_arg value_arg r ''string'') (\<lambda>s.
    arg_bind (get_named_arg value_arg r ''pattern'') (\<lambda>p.
    arg_bind (get_optional_named_arg bool_arg r ''icase'') (\<lambda>icase.
      match_of pattern_new (nasl_display s) (nasl_display p) (case icase of Some b \<Rightarrow> b | None \<Rightarrow> False)))))"

definition split_of :: "string \<Rightarrow> string option \<Rightarrow> bool option \<Rightarrow> string list" where
  "split_of s sep keep =
    (let separator = (case sep of Some t \<Rightarrow> t | None \<Rightarrow> [CHR 0x0A]) in
     if (case keep of Some b \<Rightarrow> b | None \<Rightarrow> True) then str_split_inclusive separator s else str_split separator s)"

definition split_fn :: "register \<Rightarrow> 'w \<Rightarrow> ((fn_error + nasl_value) \<times> 'w) rs" where
  "split_fn = stateless [by_position ''string'', opt (by_name ''sep''), opt (by_name ''keep'')] (\<lambda>r.
    arg_bind (get_positional_arg value_arg r 0 1) (\<lambda>s.
    arg_bind (get_optional_named_arg value_arg r ''sep'') (\<lambda>sep.
    arg_bind (get_optional_named_arg bool_arg r ''keep'') (\<lambda>keep.
      rs_ok (NArray (map NString (split_of (nasl_display s) (map_option nasl_display sep) keep)))))))"

definition str_replace_of :: "string \<Rightarrow> string \<Rightarrow> string option \<Rightarrow> nat option \<Rightarrow> string" where
  "str_replace_of s needle rep limit =
    (let rep = (case rep of Some t \<Rightarrow> t | None \<Rightarrow> []) in
     case limit of
       Some n \<Rightarrow> if n > 0 then replacen needle rep n s else str_replace_all needle rep s
     | None \<Rightarrow> str_replace_all needle rep s)"

definition str_replace_fn :: "register \<Rightarrow> 'w \<Rightarrow> ((fn_error + nasl_value) \<times> 'w) rs" where
  "str_replace_fn = stateless [by_name ''string'', by_name ''find'', opt (by_name ''replace''), opt (by_name ''count'')] (\<lambda>r.
    arg_bind (get_named_arg value_arg r ''string'') (\<lambda>s.
    arg_bind (get_named_arg value_arg r ''find'') (\<lambda>needle.
    arg_bind (get_optional_named_arg value_arg r ''replace'') (\<lambda>rep.
    arg_bind (get_optional_named_arg usize_arg r ''count'') (\<lambda>count.
      rs_ok (NString (str_replace_of (nasl_display s) (nasl_display needle) (map_option nasl_display rep) count)))))))"

definition strstr_of :: "string \<Rightarrow> string \<Rightarrow> nasl_value" where
  "strstr_of s needle = (case str_find needle s of Some i \<Rightarrow> NString (drop i s) | None \<Rightarrow> NNull)"

definition strstr :: "register \<Rightarrow> 'w \<Rightarrow> ((fn_error + nasl_value) \<times> 'w) rs" where
  "strstr = stateless [by_position ''string'', by_position ''find''] (\<lambda>r.
    arg_bind (get_positional_arg value_arg r 0 2) (\<lambda>s.
    arg_bind (get_positional_arg value_arg r 1 2) (\<lambda>needle.
      rs_ok (strstr_of (nasl_display s) (nasl_display needle)))))"

text \<open>The set of the functions under their names.\<close>

definition nasl_string_set ::
  "(string \<Rightarrow> string) \<Rightarrow> (string \<Rightarrow> string + (bool \<Rightarrow> string \<Rightarrow> bool)) \<Rightarrow> 'w function_set" where
  "nasl_string_set to_uppercase pattern_new =
    [(''hexstr'', hexstr), (''hex'', hex), (''raw_string'', raw_string), (''strcat'', raw_string),
     (''tolower'', tolower), (''toupper'', toupper to_uppercase), (''strlen'', strlen), (''string'', string_fn),
     (''substr'', substr), (''crap'', crap), (''chomp'', chomp), (''stridx'', stridx), (''display'', display),
     (''hexstr_to_data'', hexstr_to_data), (''data_to_hexstr'', data_to_hexstr), (''ord'', ord_fn),
     (''match'', match_fn pattern_new), (''insstr'', insstr), (''int'', int_fn), (''split'', split_fn),
     (''str_replace'', str_replace_fn), (''strstr'', strstr)]"

section \<open>Lemmas\<close>

text \<open>Slices.\<close>

lemma split_at_byte_append_str [simp]: "split_at_byte (str_len a) (a @ b) = Some (a, b)"
proof (induction a)
  case Nil
  then show ?case by (cases b) simp_all
next
  case (Cons c a)
  have "utf8_len c \<noteq> 0" by (simp add: utf8_len_def)
  then show ?case using Cons by simp
qed

lemma split_at_byte_all [simp]: "split_at_byte (str_len a) a = Some (a, [])"
  using split_at_byte_append_str [of a "[]"] by simp

lemma split_at_byte_zero [simp]: "split_at_byte 0 s = Some ([], s)"
  by (cases s) simp_all

lemma split_inside_char: "utf8_len c = 2 \<Longrightarrow> split_at_byte (str_len a + 1) (a @ c # b) = None"
proof (induction a)
  case (Cons d a)
  have "utf8_len d = 1 \<or> utf8_len d = 2" by (simp add: utf8_len_def)
  then show ?case using Cons by auto
qed simp

lemma str_from_append: "str_from (str_len a) (a @ b) = Ret b"
  by (simp add: str_from_def)

text \<open>The matches of a text are in order, without overlaps, and all there are.\<close>

fun match_chain :: "string \<Rightarrow> string \<Rightarrow> nat \<Rightarrow> (nat \<times> nat) list \<Rightarrow> bool" where
  "match_chain p s start [] \<longleftrightarrow> start \<le> length s \<and> (p \<noteq> [] \<longrightarrow> (\<forall>j\<ge>start. \<not> prefix p (drop j s)))"
| "match_chain p s start ((a, b) # ms) \<longleftrightarrow>
    start \<le> a \<and> b = a + length p \<and> b \<le> length s \<and> take (length p) (drop a s) = p
    \<and> (p \<noteq> [] \<longrightarrow> (\<forall>j. start \<le> j \<and> j < a \<longrightarrow> \<not> prefix p (drop j s))) \<and> match_chain p s b ms"

lemma match_chain_earlier:
  assumes "match_chain p s (Suc i) ms" "p \<noteq> [] \<longrightarrow> \<not> prefix p (drop i s)"
  shows "match_chain p s i ms"
proof -
  have later: "Suc i \<le> j" if "i \<le> j" "prefix p (drop j s)" "p \<noteq> []" for j
    using that assms(2) by (cases "i = j") auto
  show ?thesis
  proof (cases ms)
    case Nil
    then show ?thesis using assms(1) later by auto
  next
    case (Cons m ms')
    then show ?thesis using assms(1) later by (cases m) auto
  qed
qed

lemma drop_Cons_Suc: "drop i s = c # t \<Longrightarrow> drop (Suc i) s = t \<and> Suc i \<le> length s"
  by (metis Suc_leI drop_Suc drop_all drop_tl leI list.distinct(1) list.sel(3))

lemma match_indices_chain:
  "drop i s = t \<Longrightarrow> i \<le> length s \<Longrightarrow> k \<le> length t \<Longrightarrow> match_chain p s (i + k) (match_indices p i k t)"
proof (induction p i k t rule: match_indices.induct)
  case (1 p i skip)
  then show ?case by (auto simp: prefix_def)
next
  case (2 p i k c t)
  then show ?case using drop_Cons_Suc [OF 2(2)] by simp
next
  case (3 p i c t)
  have t: "drop (Suc i) s = t" "Suc i \<le> length s" using drop_Cons_Suc [OF 3(3)] by simp_all
  show ?case
  proof (cases "prefix p (c # t)")
    case True
    have len: "length p \<le> length (drop i s)" "take (length p) (drop i s) = p"
      using prefix_length_le [OF True] True 3(3) by (simp_all add: prefix_def) (metis append_eq_conv_conj)
    have "match_chain p s (Suc i + (length p - 1)) (match_indices p (Suc i) (length p - 1) t)"
      using 3(1) [OF True t] prefix_length_le [OF True] by simp
    then have "match_chain p s (i + length p) (match_indices p (Suc i) (length p - 1) t)"
    proof (cases "p = []")
      case True
      then show ?thesis using \<open>match_chain p s (Suc i + (length p - 1)) _\<close>
        by (simp add: match_chain_earlier)
    next
      case False
      then have "Suc i + (length p - 1) = i + length p" by simp
      then show ?thesis using \<open>match_chain p s (Suc i + (length p - 1)) _\<close> by (simp only:)
    qed
    then show ?thesis using True len 3(4) by auto
  next
    case False
    then show ?thesis using match_chain_earlier [of p s i "match_indices p (Suc i) 0 t"] 3(2) [OF False t] 3(3) by simp
  qed
qed

lemma matches_chain: "match_chain p s 0 (match_indices p 0 0 s)"
  using match_indices_chain [of 0 s s 0 p] by simp

lemma chain_start: "match_chain p s start ms \<Longrightarrow> start \<le> length s"
  by (cases ms) auto

lemma drop_take_between: "a \<le> b \<Longrightarrow> take (b - a) (drop a s) @ drop b s = drop a s"
  by (metis append_take_drop_id drop_drop le_add_diff_inverse2)

lemma concat_inclusive_pieces: "match_chain p s start ms \<Longrightarrow> concat (inclusive_pieces start ms s) = drop start s"
  by (induction start ms s rule: inclusive_pieces.induct) (auto simp: drop_take_between)

lemma replace_at_join: "replace_at start ms rep s = join rep (split_pieces start ms s)"
proof (induction start ms rep s rule: replace_at.induct)
  case (2 start a b ms rep s)
  then show ?case by (cases "split_pieces b ms s"; cases ms) auto
qed simp

lemma replace_at_same: "match_chain p s start ms \<Longrightarrow> replace_at start ms p s = drop start s"
proof (induction start ms p s rule: replace_at.induct)
  case (2 start a b ms p s)
  have "p @ drop b s = drop a s"
    using 2(2) append_take_drop_id [of "length p" "drop a s"] by (auto simp: add.commute)
  then show ?case using 2 by (auto simp: drop_take_between)
qed simp

lemma prefix_inside:
  assumes "take n (drop a s) = u @ p @ v"
  shows "prefix p (drop (a + length u) s)" "length u + length p \<le> n"
proof -
  have "drop a s = (u @ p @ v) @ drop n (drop a s)" using append_take_drop_id [of n "drop a s"] assms by simp
  then have "drop (length u) (drop a s) = p @ v @ drop n (drop a s)"
    by (metis append.assoc append_eq_conv_conj)
  then show "prefix p (drop (a + length u) s)" by (metis add.commute drop_drop prefixI)
  have "length (u @ p @ v) \<le> n" using assms by (metis length_take min.cobounded2)
  then show "length u + length p \<le> n" by simp
qed

lemma split_pieces_free:
  "match_chain p s start ms \<Longrightarrow> p \<noteq> [] \<Longrightarrow> t \<in> set (split_pieces start ms s) \<Longrightarrow> \<not> sublist p t"
proof (induction start ms s rule: split_pieces.induct)
  case (1 start s)
  show ?case
  proof
    assume "sublist p t"
    then obtain u v where "t = u @ p @ v" by (auto simp: sublist_def)
    then have "take (length s) (drop start s) = u @ p @ v" using 1(3) by simp
    then have "prefix p (drop (start + length u) s)" by (rule prefix_inside(1))
    then show False using 1(1,2) by simp
  qed
next
  case (2 start a b ms s)
  show ?case
  proof
    assume sub: "sublist p t"
    have "t \<noteq> take (a - start) (drop start s) \<Longrightarrow> t \<in> set (split_pieces b ms s)" using 2(4) by simp
    then have t: "t = take (a - start) (drop start s)" using 2(1) 2(2,3) sub by (metis match_chain.simps(2))
    obtain u v where "t = u @ p @ v" using sub by (auto simp: sublist_def)
    then have "take (a - start) (drop start s) = u @ p @ v" using t by simp
    then have inside: "prefix p (drop (start + length u) s)" "length u + length p \<le> a - start" by (rule prefix_inside)+
    have "0 < length p" using 2(3) by simp
    then have "start + length u < a" using inside(2) by linarith
    then show False using 2(2,3) inside(1) by auto
  qed
qed

lemma inclusive_pieces_end:
  "match_chain p s start ms \<Longrightarrow> t \<in> set (butlast (inclusive_pieces start ms s)) \<Longrightarrow> suffix p t"
proof (induction start ms s rule: inclusive_pieces.induct)
  case (2 start a b ms s)
  have "b - start = (a - start) + length p" "take (length p) (drop a s) = p" "start \<le> a" using 2(2) by auto
  then have "take (b - start) (drop start s) = take (a - start) (drop start s) @ p"
    by (simp only: take_add drop_drop) simp
  moreover have "t = take (b - start) (drop start s) \<or> t \<in> set (butlast (inclusive_pieces b ms s))"
    using 2(3) by (auto split: if_splits)
  ultimately show ?case using 2 by (auto simp: suffix_def)
qed (simp split: if_splits)

lemma str_find_Some:
  "str_find p s = Some i \<longleftrightarrow> i \<le> length s \<and> prefix p (drop i s) \<and> (\<forall>j<i. \<not> prefix p (drop j s))"
proof (cases "p = []")
  case True
  then show ?thesis by (cases s) (auto simp: str_find_def)
next
  case False
  show ?thesis
  proof (cases "match_indices p 0 0 s")
    case Nil
    then have "\<not> prefix p (drop i s)" using matches_chain [of p s] False by simp
    then show ?thesis using Nil by (simp add: str_find_def)
  next
    case (Cons m ms)
    then obtain a b where m: "m = (a, b)" by force
    have "take (length p) (drop a s) = p" "a \<le> length s" "\<forall>j<a. \<not> prefix p (drop j s)"
      using matches_chain [of p s] Cons m False by auto
    then have "prefix p (drop a s)" by (metis take_is_prefix)
    then show ?thesis using Cons m \<open>a \<le> length s\<close> \<open>\<forall>j<a. \<not> prefix p (drop j s)\<close>
      by (auto simp: str_find_def) (metis nat_neq_iff)+
  qed
qed

lemma str_find_None: "str_find p s = None \<longleftrightarrow> \<not> sublist p s"
proof -
  have "sublist p s \<longleftrightarrow> (\<exists>i\<le>length s. prefix p (drop i s))"
    unfolding sublist_def prefix_def by (metis append_eq_conv_conj append_take_drop_id le_add1 length_append)
  moreover have "(\<exists>i\<le>length s. prefix p (drop i s)) \<longleftrightarrow> (\<exists>i. str_find p s = Some i)"
  proof
    assume "\<exists>i\<le>length s. prefix p (drop i s)"
    then obtain i where i: "i \<le> length s \<and> prefix p (drop i s)" by blast
    define k where "k = (LEAST i. i \<le> length s \<and> prefix p (drop i s))"
    have "k \<le> length s \<and> prefix p (drop k s)" 
      unfolding k_def by (rule LeastI [of "\<lambda>i. i \<le> length s \<and> prefix p (drop i s)", OF i])
    moreover have "\<not> prefix p (drop j s)" if "j < k" for j
      using not_less_Least [of j "\<lambda>i. i \<le> length s \<and> prefix p (drop i s)"] that \<open>k \<le> length s \<and> _\<close> unfolding k_def by simp
    ultimately show "\<exists>i. str_find p s = Some i" using str_find_Some by blast
  qed (auto simp: str_find_Some)
  ultimately show ?thesis by auto
qed

text \<open>Hexadecimal texts.\<close>

lemma hex_value_digit: "k < 16 \<Longrightarrow> hex_value (hex_digit k) = Some k"
  by (auto simp: hex_value_def hex_digit_def Let_def)

lemma utf8_len_hex_digit: "k < 16 \<Longrightarrow> utf8_len (hex_digit k) = 1"
  by (auto simp: utf8_len_def hex_digit_def)

lemma str_len_hex_byte: "n < 256 \<Longrightarrow> str_len (hex_byte n) = 2"
  by (simp add: hex_byte_def utf8_len_hex_digit)

lemma parse_hex_byte_hex: "n < 256 \<Longrightarrow> parse_hex_byte (hex_byte n) = Some (word_of_nat n)"
  by (simp add: parse_hex_byte_def hex_byte_def hex_value_digit)

lemma decode_encode_hex: "decode_hex (encode_hex b) = Ret (Some b)"
proof (induction b)
  case Nil
  then show ?case by (subst decode_hex.simps) (simp add: encode_hex_def)
next
  case (Cons x b)
  have x: "unat x < 256" using unsigned_less [of x, where 'a = nat] by simp
  have e: "encode_hex (x # b) = hex_byte (unat x) @ encode_hex b" by (simp add: encode_hex_def)
  have "split_at_byte 2 (hex_byte (unat x) @ encode_hex b) = Some (hex_byte (unat x), encode_hex b)"
    using split_at_byte_append_str [of "hex_byte (unat x)" "encode_hex b"] str_len_hex_byte [OF x] by simp
  moreover have "hex_byte (unat x) \<noteq> []" by (simp add: hex_byte_def)
  ultimately show ?case using Cons parse_hex_byte_hex [OF x] unfolding e
    by (subst decode_hex.simps) simp
qed

text \<open>\<open>str_to_int\<close>.\<close>

lemma str_to_last_byte:
  assumes "s \<noteq> []"
  shows "str_to (str_len s - 1) s = (if utf8_len (last s) = 1 then Ret (butlast s) else Panic)"
proof -
  have s: "s = butlast s @ [last s]" using assms by simp
  have l: "utf8_len (last s) = 1 \<or> utf8_len (last s) = 2" by (simp add: utf8_len_def)
  have n: "str_len s = str_len (butlast s) + utf8_len (last s)" using s str_len_simps(3) [of "butlast s" "[last s]"] by simp
  show ?thesis
  proof (cases "utf8_len (last s) = 1")
    case True
    then show ?thesis using split_at_byte_append_str [of "butlast s" "[last s]"] s n by (simp add: str_to_def)
  next
    case False
    then show ?thesis using split_inside_char [of "last s" "butlast s" "[]"] l s n by (simp add: str_to_def)
  qed
qed

section \<open>Properties\<close>

text \<open>C19: Splitting a text loses nothing: with its separators kept the parts are the text, and every part but the last
  ends with the separator; without them the parts joined by the separator are the text, and no part contains
  the separator unless it is empty. Replacing a text is joining the parts by the replacement.\<close>

theorem split_roundtrip:
  "\<exists>kept parts.
      split_fn (call_register [(''sep'', CValue sep), (''keep'', CValue (NBoolean True))] [v] r) w = Ret (Inr (NArray (map NString kept)), w)
    \<and> concat kept = nasl_display v \<and> list_all (suffix (nasl_display sep)) (butlast kept)
    \<and> split_fn (call_register [(''sep'', CValue sep), (''keep'', CValue (NBoolean False))] [v] r) w = Ret (Inr (NArray (map NString parts)), w)
    \<and> join (nasl_display sep) parts = nasl_display v
    \<and> (nasl_display sep = [] \<or> list_all (\<lambda>t. \<not> sublist (nasl_display sep) t) parts)
    \<and> str_replace_of (nasl_display v) (nasl_display sep) (Some rep) None = join rep parts"
proof -
  let ?s = "nasl_display v" and ?p = "nasl_display sep"
  have split: "split_fn (call_register [(''sep'', CValue sep), (''keep'', CValue (NBoolean b))] [v] r) w
      = Ret (Inr (NArray (map NString (split_of ?s (Some ?p) (Some b)))), w)" for b
    unfolding split_fn_def
    by (rule stateless_checked) (simp_all add: args_eval args_get value_arg_def bool_arg_def FC_ANON_ARGS_def)
  have "join ?p (str_split ?p ?s) = ?s"
    using replace_at_same [OF matches_chain [of ?p ?s]] by (simp add: str_split_def replace_at_join)
  moreover have "?p = [] \<or> list_all (\<lambda>t. \<not> sublist ?p t) (str_split ?p ?s)"
    using split_pieces_free [OF matches_chain [of ?p ?s]] by (auto simp: list_all_iff str_split_def)
  moreover have "list_all (suffix ?p) (butlast (str_split_inclusive ?p ?s))"
    using inclusive_pieces_end [OF matches_chain [of ?p ?s]] by (auto simp: list_all_iff str_split_inclusive_def)
  ultimately show ?thesis
    using split [of True] split [of False] concat_inclusive_pieces [OF matches_chain [of ?p ?s]]
    by (intro exI [of _ "str_split_inclusive ?p ?s"] exI [of _ "str_split ?p ?s"])
      (simp add: split_of_def str_split_def str_split_inclusive_def str_replace_of_def str_replace_all_def replace_at_join)
qed

text \<open>C20: \<open>strstr\<close> and \<open>stridx\<close> agree on the first occurrence: when the text contains the other one, \<open>strstr\<close> is the
  rest of the text from there on and \<open>stridx\<close> the number of bytes before it; otherwise they are null and minus one.\<close>

theorem first_occurrence:
  "if sublist p s
   then \<exists>a b. s = a @ b \<and> prefix p b \<and> list_all (\<lambda>j. \<not> prefix p (drop j s)) [0..<length a]
      \<and> strstr_of s p = NString b \<and> stridx_of s p 0 = Ret (int (str_len a))
   else strstr_of s p = NNull \<and> stridx_of s p 0 = Ret (- 1)"
proof (cases "str_find p s")
  case None
  then show ?thesis using str_find_None [of p s] by (simp add: strstr_of_def stridx_of_def str_from_def)
next
  case (Some i)
  then have i: "i \<le> length s" "prefix p (drop i s)" "\<forall>j<i. \<not> prefix p (drop j s)" by (simp_all add: str_find_Some)
  have "sublist p s" using Some str_find_None [of p s] by fastforce
  moreover have "list_all (\<lambda>j. \<not> prefix p (drop j s)) [0..<length (take i s)]" using i by (simp add: list_all_iff)
  ultimately show ?thesis using i(2) Some
    by (simp only: if_True) (intro exI [of _ "take i s"] exI [of _ "drop i s"], simp add: strstr_of_def stridx_of_def str_from_def)
qed

text \<open>C21: \<open>hexstr_to_data\<close> is the inverse of \<open>data_to_hexstr\<close>, and of \<open>hexstr\<close>, which encodes the bytes of a text.\<close>

theorem hex_roundtrip:
  "data_to_hexstr (call_register [] [NData b] r) w = Ret (Inr (NString (encode_hex b)), w)
   \<and> hexstr (call_register [] [NString s] r) w = Ret (Inr (NString (encode_hex (as_bytes s))), w)
   \<and> hexstr_to_data (call_register [] [NString (encode_hex b)] r) w = Ret (Inr (NData b), w)"
proof (intro conjI)
  show "data_to_hexstr (call_register [] [NData b] r) w = Ret (Inr (NString (encode_hex b)), w)"
    unfolding data_to_hexstr_def by (rule stateless_checked) (simp_all add: args_eval args_get maybe_arg_def bytes_arg_def option_result_def)
  show "hexstr (call_register [] [NString s] r) w = Ret (Inr (NString (encode_hex (as_bytes s))), w)"
    unfolding hexstr_def by (rule stateless_checked) (simp_all add: args_eval args_get value_arg_def hexstr_of_def option_result_def)
  show "hexstr_to_data (call_register [] [NString (encode_hex b)] r) w = Ret (Inr (NData b), w)"
    unfolding hexstr_to_data_def
    by (rule stateless_checked) (simp_all add: args_eval args_get value_arg_def hexstr_to_data_of_def decode_encode_hex)
qed

lemma parse_i64_last: "s \<noteq> [] \<Longrightarrow> \<not> is_ascii_digit (last s) \<Longrightarrow> parse_i64 s = None"
  by (cases s) (auto simp: parse_i64_def list_all_iff split: if_splits)


text \<open>The types of the results.\<close>

definition string_kinds :: "(string \<times> result_kind list) list" where
  "string_kinds =
    [(''hexstr'', [KString, KNull]), (''hex'', [KString]), (''raw_string'', [KData]), (''strcat'', [KData]),
     (''tolower'', [KString, KNull]), (''toupper'', [KString, KNull]), (''strlen'', [KNumber]), (''string'', [KString]),
     (''substr'', [KString, KNull]), (''crap'', [KString]), (''chomp'', [KString]), (''stridx'', [KNumber]), (''display'', [KNull]),
     (''hexstr_to_data'', [KData]), (''data_to_hexstr'', [KString, KNull]), (''ord'', [KNumber, KNull]),
     (''match'', [KBoolean]), (''insstr'', [KString]), (''int'', [KNumber]), (''split'', [KStrings]),
     (''str_replace'', [KString]), (''strstr'', [KString, KNull])]"

lemma ord_kind: "has_kind (ord_of s) KNumber \<longleftrightarrow> \<not> has_kind (ord_of s) KNull"
  by (cases s) (simp_all add: ord_of_def number_result_def)

lemmas string_results = rs_bind_Ret_iff option_result_def number_result_def hexstr_to_data_of_def bad_argument_def ord_kind list_all_iff

lemma returns_texts:
  "returns [KString, KNull] hexstr" "returns [KString, KNull] tolower" "returns [KString, KNull] (toupper up)"
  "returns [KString, KNull] data_to_hexstr" "returns [KString, KNull] substr"
  unfolding hexstr_def tolower_def toupper_def data_to_hexstr_def substr_def
  by (rule returns_stateless, auto simp: string_results split: option.split_asm)+

lemma returns_strings:
  "returns [KString] hex" "returns [KString] string_fn" "returns [KString] crap" "returns [KString] chomp" "returns [KStrings] split_fn"
  "returns [KString] str_replace_fn"
  unfolding hex_def string_fn_def crap_def chomp_def split_fn_def str_replace_fn_def
  by (rule returns_stateless, auto simp: string_results)+

lemma returns_numbers:
  "returns [KNumber] strlen" "returns [KNumber] stridx" "returns [KNumber, KNull] ord_fn" "returns [KNumber] int_fn"
  unfolding strlen_def stridx_def ord_fn_def int_fn_def
  by (rule returns_stateless, auto simp: string_results)+

lemma returns_data:
  "returns [KData] raw_string" "returns [KNull] display" "returns [KData] hexstr_to_data"
  unfolding raw_string_def display_def hexstr_to_data_def
  by (rule returns_stateless, auto simp: string_results split: option.split_asm)+

lemma returns_strstr: "returns [KString, KNull] strstr"
  unfolding strstr_def by (rule returns_stateless) (auto simp: strstr_of_def split: option.split_asm)

lemma match_kind: "match_of glob s p icase = Ret (Inr v) \<Longrightarrow> list_ex (has_kind v) [KBoolean]"
  by (cases "glob p") (auto simp: match_of_def bad_argument_def)

lemma returns_match: "returns [KBoolean] (match_fn glob)"
  unfolding match_fn_def by (rule returns_stateless) (use match_kind in auto)

lemma insstr_kind: "insstr_of s ins start stop = Ret (Inr v) \<Longrightarrow> list_ex (has_kind v) [KString]"
  by (auto simp: insstr_of_def Let_def rs_bind_Ret_iff bad_argument_def split: if_split_asm)

lemma returns_insstr: "returns [KString] insstr"
  unfolding insstr_def by (rule returns_stateless) (use insstr_kind in auto)



end
