(* ===== verification/Infisto.thy ===== *)
theory Infisto
  imports Crypt
begin

text \<open>
  The indexed file storage: \<open>IndexedFileStorer\<close>, \<open>Range\<close> and the iterator of
  src/rust/src/storage/infisto/base.rs with the errors of error.rs.

  The directory of a storage is a map from file names to contents. A file that is read or removed must
  exist, and reading beyond its end is an error; the other errors of the operating system do not occur. The
  index file is written as JSON by serde, which is the parameter \<open>index_json\<close> with the law that what was
  written can be read.

  The locales \<open>byte_store\<close> and \<open>byte_storage\<close> are the contract of such a storage: a map from keys to lists of
  data sets. The file storage is an instance of it, and clients are verified against the contract.
\<close>

section \<open>Errors and ranges\<close>

datatype io_error_kind = CreateBaseDir | FileOpen | Write | Read | Remove | Seek

datatype os_error_kind = OsNotFound | UnexpectedEof

datatype infisto_error = IoError io_error_kind os_error_kind | Serialize

record index =
  ix_start :: nat
  ix_end :: nat

datatype range = All | From nat | Until nat | Between nat nat | Single nat

text \<open>\<open>Range::filter\<close>; a slice whose start is beyond its end panics.\<close>

definition range_filter :: "range \<Rightarrow> 'a list \<Rightarrow> 'a list rs" where
  "range_filter r fi =
    (case r of
       All \<Rightarrow> Ret fi
     | From i \<Rightarrow> Ret (if i \<ge> length fi then [] else drop i fi)
     | Until i \<Rightarrow> Ret (take (if i > length fi then length fi else i) fi)
     | Between s e \<Rightarrow>
         if s \<ge> length fi then Ret []
         else let e = (if e > length fi then length fi else e) in
           if s > e then Panic else Ret (drop s (take e fi))
     | Single i \<Rightarrow> Ret (if i \<ge> length fi then [] else [fi ! i]))"

section \<open>The file storage\<close>

type_synonym directory = "string \<rightharpoonup> bytes"

record index_json =
  ij_to_vec :: "index list \<Rightarrow> bytes"
  ij_from_slice :: "bytes \<Rightarrow> index list option"

definition index_json_laws :: "index_json \<Rightarrow> bool" where
  "index_json_laws js \<longleftrightarrow> (\<forall>ix. ij_from_slice js (ij_to_vec js ix) = Some ix)"

definition dat_file :: "string \<Rightarrow> string" where
  "dat_file key = key @ ''.dat''"

definition idx_file :: "string \<Rightarrow> string" where
  "idx_file key = key @ ''.idx''"

definition open_read :: "string \<Rightarrow> directory \<Rightarrow> infisto_error + bytes" where
  "open_read f d = (case d f of Some b \<Rightarrow> Inr b | None \<Rightarrow> Inl (IoError FileOpen OsNotFound))"

definition store_index :: "index_json \<Rightarrow> index list \<Rightarrow> string \<Rightarrow> directory \<Rightarrow> directory" where
  "store_index js ix key d = d(idx_file key \<mapsto> ij_to_vec js ix)"

definition fs_create :: "index_json \<Rightarrow> string \<Rightarrow> bytes \<Rightarrow> directory \<Rightarrow> index list \<times> directory" where
  "fs_create js key element d =
    (let ix = [\<lparr>ix_start = 0, ix_end = length element\<rparr>]
     in (ix, (store_index js ix key d)(dat_file key \<mapsto> element)))"

text \<open>The length of the buffer is a subtraction of the type \<open>usize\<close>: below zero it wraps around to a length that
  cannot be allocated. \<open>read_exact\<close> fails when the file is too short.\<close>

definition data_by_index :: "string \<Rightarrow> index \<Rightarrow> directory \<Rightarrow> (infisto_error + bytes) rs" where
  "data_by_index key idx d =
    (case open_read (dat_file key) d of
       Inl e \<Rightarrow> Ret (Inl e)
     | Inr file \<Rightarrow>
         if ix_end idx < ix_start idx then Panic
         else if ix_start idx < ix_end idx \<and> length file < ix_end idx then Ret (Inl (IoError Read UnexpectedEof))
         else Ret (Inr (take (ix_end idx - ix_start idx) (drop (ix_start idx) file))))"

definition load_index :: "index_json \<Rightarrow> string \<Rightarrow> directory \<Rightarrow> infisto_error + index list" where
  "load_index js key d =
    try_bind (open_read (idx_file key) d) (\<lambda>file.
      case ij_from_slice js file of Some ix \<Rightarrow> Inr ix | None \<Rightarrow> Inl Serialize)"

fun append_data :: "bytes list \<Rightarrow> nat \<Rightarrow> bytes \<Rightarrow> index list \<Rightarrow> bytes \<times> index list" where
  "append_data [] start file ix = (file, ix)"
| "append_data (b # bs) start file ix =
    append_data bs (start + length b) (file @ b) (ix @ [\<lparr>ix_start = start, ix_end = start + length b\<rparr>])"

definition index_start :: "index list \<Rightarrow> nat" where
  "index_start ix = (if ix = [] then 0 else ix_end (last ix))"

definition append_all_index ::
  "index_json \<Rightarrow> string \<Rightarrow> index list \<Rightarrow> bytes list \<Rightarrow> directory \<Rightarrow> (infisto_error + index list) \<times> directory" where
  "append_all_index js key ix bs d =
    (case open_read (dat_file key) d of
       Inl e \<Rightarrow> (Inl e, d)
     | Inr file \<Rightarrow>
         (case append_data bs (index_start ix) file ix of
            (file, ix) \<Rightarrow> (Inr ix, store_index js ix key (d(dat_file key \<mapsto> file)))))"

definition remove_file :: "string \<Rightarrow> directory \<Rightarrow> (infisto_error + unit) \<times> directory" where
  "remove_file f d = (case d f of None \<Rightarrow> (Inl (IoError Remove OsNotFound), d) | Some _ \<Rightarrow> (Inr (), d(f := None)))"

definition fs_clean :: "string \<Rightarrow> directory \<Rightarrow> (infisto_error + unit) \<times> directory" where
  "fs_clean key d =
    (case remove_file (dat_file key) d of
       (Inl e, d) \<Rightarrow> (Inl e, d)
     | (Inr _, d) \<Rightarrow> remove_file (idx_file key) d)"

definition fs_put :: "index_json \<Rightarrow> string \<Rightarrow> bytes \<Rightarrow> directory \<Rightarrow> (infisto_error + unit) \<times> directory" where
  "fs_put js key b d = (Inr (), snd (fs_create js key b d))"

definition fs_append_all :: "index_json \<Rightarrow> string \<Rightarrow> bytes list \<Rightarrow> directory \<Rightarrow> (infisto_error + unit) \<times> directory" where
  "fs_append_all js key bs d =
    (case bs of
       [] \<Rightarrow> (Inr (), d)
     | b # rest \<Rightarrow>
         (case load_index js key d of
            Inr ix \<Rightarrow> (case append_all_index js key ix bs d of (r, d) \<Rightarrow> (map_sum id (\<lambda>_. ()) r, d))
          | Inl (IoError FileOpen OsNotFound) \<Rightarrow>
              (case fs_create js key b d of
                 (ix, d) \<Rightarrow> (case append_all_index js key ix rest d of (r, d) \<Rightarrow> (map_sum id (\<lambda>_. ()) r, d)))
          | Inl e \<Rightarrow> (Inl e, d)))"

definition fs_remove :: "string \<Rightarrow> directory \<Rightarrow> (infisto_error + unit) \<times> directory" where
  "fs_remove key d = fs_clean key d"

definition fs_indices :: "index_json \<Rightarrow> string \<Rightarrow> directory \<Rightarrow> infisto_error + index list" where
  "fs_indices js key d = load_index js key d"

text \<open>The data sets of a list of indices, out of the bytes from the start of the first to the end of the last
  one; the slices of an index that does not lie in between panic. A data set that cannot be converted to the
  type of the reader, which \<open>ok\<close> tells, is an error.\<close>

fun cut_data :: "(bytes \<Rightarrow> bool) \<Rightarrow> nat \<Rightarrow> bytes \<Rightarrow> index list \<Rightarrow> (infisto_error + bytes list) rs" where
  "cut_data ok start b [] = Ret (Inr [])"
| "cut_data ok start b (i # ix) =
    (if ix_start i < start \<or> ix_end i < ix_start i \<or> length b < ix_end i - start then Panic
     else let d = take (ix_end i - ix_start i) (drop (ix_start i - start) b) in
       if ok d then rs_bind (cut_data ok start b ix) (\<lambda>rest. Ret (map_sum id ((#) d) rest))
       else Ret (Inl Serialize))"

definition fs_by_indices :: "(bytes \<Rightarrow> bool) \<Rightarrow> string \<Rightarrow> index list \<Rightarrow> directory \<Rightarrow> (infisto_error + bytes list) rs" where
  "fs_by_indices ok key ix d =
    (let start = (if ix = [] then 0 else ix_start (hd ix)) in
     rs_bind (data_by_index key \<lparr>ix_start = start, ix_end = index_start ix\<rparr> d) (\<lambda>r.
       case r of
         Inl e \<Rightarrow> Ret (Inl e)
       | Inr b \<Rightarrow> cut_data ok start b ix))"

subsection \<open>Storages\<close>

text \<open>The operations of the trait \<open>IndexedByteStorage\<close>. Data sets are read into any type they can be converted to;
  \<open>bo_by_indices\<close> is given the test whether the conversion succeeds and returns the bytes, which the default
  methods convert.\<close>

record 's byte_ops =
  bo_put :: "string \<Rightarrow> bytes \<Rightarrow> 's \<Rightarrow> (infisto_error + unit) \<times> 's"
  bo_append_all :: "string \<Rightarrow> bytes list \<Rightarrow> 's \<Rightarrow> (infisto_error + unit) \<times> 's"
  bo_remove :: "string \<Rightarrow> 's \<Rightarrow> (infisto_error + unit) \<times> 's"
  bo_indices :: "string \<Rightarrow> 's \<Rightarrow> infisto_error + index list"
  bo_by_indices :: "(bytes \<Rightarrow> bool) \<Rightarrow> string \<Rightarrow> index list \<Rightarrow> 's \<Rightarrow> (infisto_error + bytes list) rs"

definition file_ops :: "index_json \<Rightarrow> directory byte_ops" where
  "file_ops js = \<lparr>bo_put = fs_put js, bo_append_all = fs_append_all js, bo_remove = fs_remove, bo_indices = fs_indices js,
     bo_by_indices = fs_by_indices\<rparr>"

text \<open>The default methods: \<open>append\<close>, \<open>by_range\<close> and \<open>by_index\<close>.\<close>

definition bo_append :: "'s byte_ops \<Rightarrow> string \<Rightarrow> bytes \<Rightarrow> 's \<Rightarrow> (infisto_error + unit) \<times> 's" where
  "bo_append ops key b s = bo_append_all ops key [b] s"

definition converted :: "'s byte_ops \<Rightarrow> (bytes \<Rightarrow> 'a option) \<Rightarrow> string \<Rightarrow> index list \<Rightarrow> 's \<Rightarrow> (infisto_error + 'a list) rs" where
  "converted ops conv key ix s =
    rs_bind (bo_by_indices ops (\<lambda>b. conv b \<noteq> None) key ix s) (\<lambda>r. Ret (map_sum id (map (the \<circ> conv)) r))"

definition bo_by_range :: "'s byte_ops \<Rightarrow> (bytes \<Rightarrow> 'a option) \<Rightarrow> string \<Rightarrow> range \<Rightarrow> 's \<Rightarrow> (infisto_error + 'a list) rs" where
  "bo_by_range ops conv key r s =
    (case bo_indices ops key s of
       Inl e \<Rightarrow> Ret (Inl e)
     | Inr ix \<Rightarrow> rs_bind (range_filter r ix) (\<lambda>filtered. converted ops conv key filtered s))"

definition bo_by_index :: "'s byte_ops \<Rightarrow> (bytes \<Rightarrow> 'a option) \<Rightarrow> string \<Rightarrow> index \<Rightarrow> 's \<Rightarrow> (infisto_error + 'a option) rs" where
  "bo_by_index ops conv key i s =
    rs_bind (converted ops conv key [i] s) (\<lambda>r. Ret (map_sum id (\<lambda>bs. case bs of b # _ \<Rightarrow> Some b | [] \<Rightarrow> None) r))"

subsection \<open>The iterator\<close>

definition iter_load_indices :: "infisto_error + index list \<Rightarrow> infisto_error + index list" where
  "iter_load_indices r = (case r of Inr ix \<Rightarrow> Inr ix | Inl (IoError FileOpen OsNotFound) \<Rightarrow> Inr [] | Inl e \<Rightarrow> Inl e)"

text \<open>What the iterator yields: the data sets or errors of the indices, up to the first index without data.\<close>

fun iter_items :: "'s byte_ops \<Rightarrow> (bytes \<Rightarrow> 'a option) \<Rightarrow> string \<Rightarrow> index list \<Rightarrow> 's \<Rightarrow> (infisto_error + 'a) list rs" where
  "iter_items ops conv key [] s = Ret []"
| "iter_items ops conv key (i # ix) s =
    (case bo_by_index ops conv key i s of
       Panic \<Rightarrow> Panic
     | Ret (Inr None) \<Rightarrow> Ret []
     | Ret (Inr (Some b)) \<Rightarrow> rs_bind (iter_items ops conv key ix s) (\<lambda>rest. Ret (Inr b # rest))
     | Ret (Inl e) \<Rightarrow> rs_bind (iter_items ops conv key ix s) (\<lambda>rest. Ret (Inl e # rest)))"

definition iter_by_range :: "'s byte_ops \<Rightarrow> (bytes \<Rightarrow> 'a option) \<Rightarrow> string \<Rightarrow> range \<Rightarrow> 's
    \<Rightarrow> (infisto_error + (infisto_error + 'a) list) rs" where
  "iter_by_range ops conv key r s =
    (case iter_load_indices (bo_indices ops key s) of
       Inl e \<Rightarrow> Ret (Inl e)
     | Inr ix \<Rightarrow>
         rs_bind (range_filter r ix) (\<lambda>filtered. rs_bind (iter_items ops conv key filtered s) (\<lambda>items. Ret (Inr items))))"

section \<open>Ranges are slices\<close>

lemma range_slice:
  assumes "length ix = length xs"
  obtains "range_filter r ix = Panic" "range_filter r xs = Panic"
  | n m where "range_filter r ix = Ret (take n (drop m ix))" "range_filter r xs = Ret (take n (drop m xs))"
proof (cases r)
  case All
  then show ?thesis using that(2) [of "length xs" 0] assms by (simp add: range_filter_def)
next
  case (From i)
  then show ?thesis using that(2) [of "length xs" i] assms by (simp add: range_filter_def)
next
  case (Until i)
  then show ?thesis using that(2) [of "min i (length xs)" 0] assms by (auto simp: range_filter_def min_def)
next
  case (Between a b)
  show ?thesis
  proof (cases "a < length xs \<and> min b (length xs) < a")
    case True
    then have "range_filter r ix = Panic" "range_filter r xs = Panic"
      using Between assms by (auto simp: range_filter_def Let_def)
    then show ?thesis by (rule that(1))
  next
    case False
    have "range_filter r ix = Ret (take (min b (length xs) - a) (drop a ix))"
      using Between False assms by (cases "length xs \<le> a") (auto simp: range_filter_def Let_def drop_take min_def)
    moreover have "range_filter r xs = Ret (take (min b (length xs) - a) (drop a xs))"
      using Between False by (cases "length xs \<le> a") (auto simp: range_filter_def Let_def drop_take min_def)
    ultimately show ?thesis by (rule that(2))
  qed
next
  case (Single i)
  then show ?thesis using that(2) [of 1 i] assms by (auto simp: range_filter_def take_Suc hd_drop_conv_nth)
qed

lemma range_filter_Nil [simp]: "range_filter r [] = Ret []"
  by (cases r) (simp_all add: range_filter_def)

section \<open>The contract\<close>

text \<open>\<open>content\<close> is the list of data sets under a key. Reading is stated for slices of the index, which is what ranges
  give. \<open>strict\<close> says whether a data set that cannot be converted is an error or left out.\<close>

definition convert_ok :: "bool \<Rightarrow> (bytes \<Rightarrow> bool) \<Rightarrow> bytes list \<Rightarrow> infisto_error + bytes list" where
  "convert_ok strict ok bs = (if strict \<and> \<not> list_all ok bs then Inl Serialize else Inr (filter ok bs))"

definition convert_all :: "bool \<Rightarrow> (bytes \<Rightarrow> 'a option) \<Rightarrow> bytes list \<Rightarrow> infisto_error + 'a list" where
  "convert_all strict conv bs = map_sum id (map (the \<circ> conv)) (convert_ok strict (\<lambda>b. conv b \<noteq> None) bs)"

fun convert_each :: "bool \<Rightarrow> (bytes \<Rightarrow> 'a option) \<Rightarrow> bytes list \<Rightarrow> (infisto_error + 'a) list" where
  "convert_each strict conv [] = []"
| "convert_each strict conv (b # bs) =
    (case conv b of
       Some y \<Rightarrow> Inr y # convert_each strict conv bs
     | None \<Rightarrow> if strict then Inl Serialize # convert_each strict conv bs else [])"

text \<open>Sequences of writing operations, on a storage and on the map it stands for. Removing a key that does not exist
  is an error that changes nothing.\<close>

datatype store_op = Put string bytes | AppendAll string "bytes list" | RemoveKey string

fun run_op :: "'s byte_ops \<Rightarrow> store_op \<Rightarrow> 's \<Rightarrow> (infisto_error + unit) \<times> 's" where
  "run_op ops (Put k b) s = bo_put ops k b s"
| "run_op ops (AppendAll k bs) s = bo_append_all ops k bs s"
| "run_op ops (RemoveKey k) s = bo_remove ops k s"

definition run_ops :: "'s byte_ops \<Rightarrow> store_op list \<Rightarrow> 's \<Rightarrow> 's" where
  "run_ops ops os s = fold (\<lambda>op s. snd (run_op ops op s)) os s"

abbreviation stored :: "bytes list option \<Rightarrow> bytes list" where
  "stored c \<equiv> (case c of Some xs \<Rightarrow> xs | None \<Rightarrow> [])"

fun map_op :: "store_op \<Rightarrow> (string \<rightharpoonup> bytes list) \<Rightarrow> (string \<rightharpoonup> bytes list)" where
  "map_op (Put k b) c = c(k \<mapsto> [b])"
| "map_op (AppendAll k bs) c = (if bs = [] then c else c(k \<mapsto> stored (c k) @ bs))"
| "map_op (RemoveKey k) c = c(k := None)"

fun appends_data :: "store_op \<Rightarrow> bool" where
  "appends_data (AppendAll k bs) = (bs \<noteq> [])"
| "appends_data _ = True"

locale byte_store =
  fixes ops :: "'s byte_ops" and content :: "'s \<Rightarrow> string \<rightharpoonup> bytes list" and inv :: "'s \<Rightarrow> bool" and strict :: bool
  assumes put: "inv s \<Longrightarrow> \<exists>s'. bo_put ops k b s = (Inr (), s') \<and> inv s' \<and> content s' = (content s)(k \<mapsto> [b])"
    and append_all: "inv s \<Longrightarrow> bs \<noteq> [] \<Longrightarrow>
      \<exists>s'. bo_append_all ops k bs s = (Inr (), s') \<and> inv s' \<and> content s' = (content s)(k \<mapsto> stored (content s k) @ bs)"
    and remove: "inv s \<Longrightarrow> content s k \<noteq> None \<Longrightarrow>
      \<exists>s'. bo_remove ops k s = (Inr (), s') \<and> inv s' \<and> content s' = (content s)(k := None)"
    and remove_missing: "inv s \<Longrightarrow> content s k = None \<Longrightarrow> bo_remove ops k s = (Inl (IoError Remove OsNotFound), s)"
    and indices: "inv s \<Longrightarrow> content s k = Some xs \<Longrightarrow> \<exists>ix. bo_indices ops k s = Inr ix \<and> length ix = length xs"
    and indices_missing: "inv s \<Longrightarrow> content s k = None \<Longrightarrow> bo_indices ops k s = Inl (IoError FileOpen OsNotFound)"
    and by_slice: "inv s \<Longrightarrow> content s k = Some xs \<Longrightarrow> bo_indices ops k s = Inr ix \<Longrightarrow>
      bo_by_indices ops ok k (take n (drop m ix)) s = Ret (convert_ok strict ok (take n (drop m xs)))"
begin

lemma by_range:
  assumes "inv s" "content s k = Some xs"
  shows "bo_by_range ops conv k r s = rs_bind (range_filter r xs) (\<lambda>ys. Ret (convert_all strict conv ys))"
proof -
  obtain ix where ix: "bo_indices ops k s = Inr ix" "length ix = length xs" using indices [OF assms] by blast
  show ?thesis
    by (cases rule: range_slice [OF ix(2), of r])
      (simp_all add: ix(1) by_slice [OF assms ix(1)] bo_by_range_def converted_def convert_all_def)
qed

lemma by_range_missing: "inv s \<Longrightarrow> content s k = None \<Longrightarrow> bo_by_range ops conv k r s = Ret (Inl (IoError FileOpen OsNotFound))"
  by (simp add: bo_by_range_def indices_missing)

lemma iter_slice:
  assumes "inv s" "content s k = Some xs" "bo_indices ops k s = Inr ix" "length ix = length xs"
  shows "iter_items ops conv k (take n (drop m ix)) s = Ret (convert_each strict conv (take n (drop m xs)))"
proof (induction n arbitrary: m)
  case (Suc n)
  show ?case
  proof (cases "m < length xs")
    case True
    then have c: "take (Suc n) (drop m ix) = ix ! m # take n (drop (Suc m) ix)" "take (Suc n) (drop m xs) = xs ! m # take n (drop (Suc m) xs)"
      "[ix ! m] = take 1 (drop m ix)" "take 1 (drop m xs) = [xs ! m]"
      using assms(4) by (simp_all add: Cons_nth_drop_Suc [symmetric])
    have "bo_by_index ops conv k (ix ! m) s =
        Ret (case conv (xs ! m) of Some y \<Rightarrow> Inr (Some y) | None \<Rightarrow> if strict then Inl Serialize else Inr None)"
      unfolding bo_by_index_def converted_def c(3) by_slice [OF assms(1-3)] c(4)
      by (simp add: convert_ok_def split: option.split)
    then show ?thesis using Suc [of "Suc m"] by (simp add: c(1,2) split: option.split)
  qed (use assms(4) in simp)
qed simp

lemma iter_range:
  assumes "inv s"
  shows "iter_by_range ops conv k r s =
    rs_bind (range_filter r (stored (content s k))) (\<lambda>ys. Ret (Inr (convert_each strict conv ys)))"
proof (cases "content s k")
  case None
  then show ?thesis using assms by (simp add: iter_by_range_def indices_missing iter_load_indices_def)
next
  case (Some xs)
  obtain ix where ix: "bo_indices ops k s = Inr ix" "length ix = length xs" using indices [OF assms Some] by blast
  show ?thesis
    by (cases rule: range_slice [OF ix(2), of r]) (simp_all add: ix(1) Some iter_slice [OF assms Some ix] iter_by_range_def iter_load_indices_def)
qed

lemma append: "inv s \<Longrightarrow>
    \<exists>s'. bo_append ops k b s = (Inr (), s') \<and> inv s' \<and> content s' = (content s)(k \<mapsto> stored (content s k) @ [b])"
  using append_all [of s "[b]" k] by (simp add: bo_append_def)

lemma run_op:
  assumes "inv s" "appends_data op"
  shows "inv (snd (run_op ops op s))" "content (snd (run_op ops op s)) = map_op op (content s)"
proof -
  have "inv (snd (run_op ops op s)) \<and> content (snd (run_op ops op s)) = map_op op (content s)"
  proof (cases op)
    case (Put k b)
    then show ?thesis using put [OF assms(1), of k b] by auto
  next
    case (AppendAll k bs)
    then show ?thesis using append_all [OF assms(1), of bs k] assms(2) by auto
  next
    case (RemoveKey k)
    then show ?thesis using remove [OF assms(1), of k] remove_missing [OF assms(1), of k] assms(1)
      by (cases "content s k") auto
  qed
  then show "inv (snd (run_op ops op s))" "content (snd (run_op ops op s)) = map_op op (content s)" by simp_all
qed

lemma run_ops:
  "inv s \<Longrightarrow> list_all appends_data os \<Longrightarrow> inv (run_ops ops os s) \<and> content (run_ops ops os s) = fold map_op os (content s)"
  by (induction os arbitrary: s) (simp_all add: run_ops_def run_op)

lemma read_after:
  assumes "inv s" "list_all appends_data os"
  shows "bo_by_range ops conv k r (run_ops ops os s) =
    (case fold map_op os (content s) k of
       None \<Rightarrow> Ret (Inl (IoError FileOpen OsNotFound))
     | Some xs \<Rightarrow> rs_bind (range_filter r xs) (\<lambda>ys. Ret (convert_all strict conv ys)))"
  using run_ops [OF assms] by (auto simp: by_range by_range_missing split: option.split)

lemma iterate_after:
  assumes "inv s" "list_all appends_data os"
  shows "iter_by_range ops conv k r (run_ops ops os s) =
    rs_bind (range_filter r (stored (fold map_op os (content s) k))) (\<lambda>ys. Ret (Inr (convert_each strict conv ys)))"
  using run_ops [OF assms] by (simp add: iter_range)

end

text \<open>A storage that also accepts an empty list to append, and changes nothing then.\<close>

locale byte_storage = byte_store +
  assumes append_nil: "inv s \<Longrightarrow> \<exists>s'. bo_append_all ops k [] s = (Inr (), s') \<and> inv s' \<and> content s' = content s"
begin

lemma run_op_any: "inv s \<Longrightarrow> inv (snd (run_op ops op s)) \<and> content (snd (run_op ops op s)) = map_op op (content s)"
proof (cases "appends_data op")
  case False
  assume "inv s"
  moreover from False obtain k where "op = AppendAll k []" by (cases op) auto
  ultimately show ?thesis using append_nil [of s k] by auto
qed (simp add: run_op)

lemma run_any: "inv s \<Longrightarrow> inv (run_ops ops os s) \<and> content (run_ops ops os s) = fold map_op os (content s)"
  by (induction os arbitrary: s) (simp_all add: run_ops_def run_op_any)

lemma read_any:
  assumes "inv s"
  shows "bo_by_range ops conv k r (run_ops ops os s) =
    (case fold map_op os (content s) k of
       None \<Rightarrow> Ret (Inl (IoError FileOpen OsNotFound))
     | Some xs \<Rightarrow> rs_bind (range_filter r xs) (\<lambda>ys. Ret (convert_all strict conv ys)))"
  using run_any [OF assms] by (auto simp: by_range by_range_missing split: option.split)

end

section \<open>The file storage is a byte storage\<close>

fun index_from :: "nat \<Rightarrow> bytes list \<Rightarrow> index list" where
  "index_from start [] = []"
| "index_from start (b # bs) = \<lparr>ix_start = start, ix_end = start + length b\<rparr> # index_from (start + length b) bs"

definition fs_content :: "index_json \<Rightarrow> directory \<Rightarrow> string \<rightharpoonup> bytes list" where
  "fs_content js d key =
    (case (d (dat_file key), d (idx_file key)) of
       (Some b, Some i) \<Rightarrow>
         map_option (map (\<lambda>i. take (ix_end i - ix_start i) (drop (ix_start i) b))) (ij_from_slice js i)
     | _ \<Rightarrow> None)"

definition fs_inv :: "index_json \<Rightarrow> directory \<Rightarrow> bool" where
  "fs_inv js d \<longleftrightarrow> index_json_laws js \<and> (\<forall>key. d (dat_file key) = None \<and> d (idx_file key) = None
    \<or> (\<exists>xs. d (dat_file key) = Some (concat xs) \<and> d (idx_file key) = Some (ij_to_vec js (index_from 0 xs))))"

lemma file_names [simp]:
  "dat_file k = dat_file k' \<longleftrightarrow> k = k'" "idx_file k = idx_file k' \<longleftrightarrow> k = k'" "dat_file k \<noteq> idx_file k'" "idx_file k \<noteq> dat_file k'"
  by (auto simp: dat_file_def idx_file_def append_eq_append_conv)

lemma length_index_from [simp]: "length (index_from a xs) = length xs"
  by (induction xs arbitrary: a) simp_all

lemma index_from_append: "index_from a (xs @ ys) = index_from a xs @ index_from (a + length (concat xs)) ys"
  by (induction xs arbitrary: a) (simp_all add: add.assoc)

lemma index_start_from: "index_start (index_from 0 xs) = length (concat xs)"
proof (cases xs rule: rev_cases)
  case (snoc ys y)
  then show ?thesis by (simp add: index_start_def index_from_append)
qed (simp add: index_start_def)

lemma append_data_from:
  "append_data bs (length (concat xs)) (concat xs) (index_from 0 xs) = (concat (xs @ bs), index_from 0 (xs @ bs))"
proof (induction bs arbitrary: xs)
  case (Cons b bs)
  show ?case using Cons [of "xs @ [b]"] by (simp add: index_from_append)
qed simp

lemma read_from:
  "map (\<lambda>i. take (ix_end i - ix_start i) (drop (ix_start i - a) (concat xs))) (index_from a xs) = xs"
proof -
  have "map (\<lambda>i. take (ix_end i - ix_start i) (drop (ix_start i - a) (pre @ concat xs))) (index_from (a + length pre) xs) = xs" for pre
  proof (induction xs arbitrary: pre)
    case (Cons b bs)
    show ?case using Cons [of "pre @ b"] by (simp add: add.assoc)
  qed simp
  from this [of "[]"] show ?thesis by simp
qed

lemma fs_content_files:
  assumes "index_json_laws js" "d (dat_file key) = Some (concat xs)" "d (idx_file key) = Some (ij_to_vec js (index_from 0 xs))"
  shows "fs_content js d key = Some xs"
  using assms read_from [of 0 xs] by (simp add: fs_content_def index_json_laws_def)

lemma fs_files:
  assumes "fs_inv js d"
  obtains "d (dat_file key) = None" "d (idx_file key) = None" "fs_content js d key = None"
  | xs where "d (dat_file key) = Some (concat xs)" "d (idx_file key) = Some (ij_to_vec js (index_from 0 xs))"
      "fs_content js d key = Some xs"
proof -
  from assms consider "d (dat_file key) = None \<and> d (idx_file key) = None"
    | xs where "d (dat_file key) = Some (concat xs)" "d (idx_file key) = Some (ij_to_vec js (index_from 0 xs))"
    unfolding fs_inv_def by metis
  then show ?thesis
  proof cases
    case 1
    then show ?thesis using that(1) by (simp add: fs_content_def)
  next
    case 2
    then show ?thesis using that(2) fs_content_files [OF _ 2] assms by (simp add: fs_inv_def)
  qed
qed

lemma fs_present:
  assumes "fs_inv js d" "fs_content js d key = Some xs"
  shows "d (dat_file key) = Some (concat xs)" "d (idx_file key) = Some (ij_to_vec js (index_from 0 xs))"
  using assms(2) by (cases rule: fs_files [OF assms(1), of key]; simp)+

lemma fs_absent:
  assumes "fs_inv js d" "fs_content js d key = None"
  shows "d (dat_file key) = None" "d (idx_file key) = None"
  using assms(2) by (cases rule: fs_files [OF assms(1), of key]; simp)+

lemma fs_laws: "fs_inv js d \<Longrightarrow> ij_from_slice js (ij_to_vec js ix) = Some ix"
  by (simp add: fs_inv_def index_json_laws_def)

text \<open>Writing both files of a key.\<close>

definition fs_write :: "index_json \<Rightarrow> string \<Rightarrow> bytes list \<Rightarrow> directory \<Rightarrow> directory" where
  "fs_write js key xs d = d(dat_file key \<mapsto> concat xs, idx_file key \<mapsto> ij_to_vec js (index_from 0 xs))"

lemma fs_write_other: "k \<noteq> key \<Longrightarrow> fs_write js key xs d (dat_file k) = d (dat_file k)" "k \<noteq> key \<Longrightarrow> fs_write js key xs d (idx_file k) = d (idx_file k)"
  by (simp_all add: fs_write_def)

lemma fs_write_inv: "fs_inv js d \<Longrightarrow> fs_inv js (fs_write js key xs d)"
proof -
  assume inv: "fs_inv js d"
  have "fs_write js key xs d (dat_file k) = None \<and> fs_write js key xs d (idx_file k) = None
    \<or> (\<exists>ys. fs_write js key xs d (dat_file k) = Some (concat ys)
        \<and> fs_write js key xs d (idx_file k) = Some (ij_to_vec js (index_from 0 ys)))" for k
    using inv by (cases "k = key") (auto simp: fs_write_other fs_inv_def fs_write_def)
  then show ?thesis using inv by (simp add: fs_inv_def)
qed

lemma fs_write_content: "fs_inv js d \<Longrightarrow> fs_content js (fs_write js key xs d) = (fs_content js d)(key \<mapsto> xs)"
proof (rule ext)
  fix k
  assume "fs_inv js d"
  then show "fs_content js (fs_write js key xs d) k = ((fs_content js d)(key \<mapsto> xs)) k"
    using fs_content_files [of js "fs_write js key xs d" key xs]
    by (cases "k = key") (simp_all add: fs_content_def fs_write_other fs_write_def fs_inv_def)
qed

lemma fs_create_write: "fs_create js key b d = (index_from 0 [b], fs_write js key [b] d)"
  by (simp add: fs_create_def fs_write_def store_index_def Let_def fun_upd_twist)

lemma fs_write_twice: "fs_write js key ys (fs_write js key xs d) = fs_write js key ys d"
  by (simp add: fs_write_def fun_upd_twist)

lemma append_all_index_write:
  "d (dat_file key) = Some (concat xs) \<Longrightarrow>
    append_all_index js key (index_from 0 xs) bs d = (Inr (index_from 0 (xs @ bs)), fs_write js key (xs @ bs) d)"
  using append_data_from [of bs xs]
  by (simp add: append_all_index_def open_read_def index_start_from store_index_def fs_write_def)

lemma fs_append_all_write:
  assumes "fs_inv js d" "bs \<noteq> []"
  shows "fs_append_all js key bs d = (Inr (), fs_write js key (stored (fs_content js d key) @ bs) d)"
proof (cases rule: fs_files [OF assms(1), of key])
  case 1
  obtain b rest where bs: "bs = b # rest" using assms(2) by (cases bs) auto
  have "append_all_index js key (index_from 0 [b]) rest (fs_write js key [b] d)
      = (Inr (index_from 0 ([b] @ rest)), fs_write js key ([b] @ rest) (fs_write js key [b] d))"
    by (rule append_all_index_write) (simp add: fs_write_def)
  then show ?thesis using 1
    by (simp add: bs fs_append_all_def load_index_def open_read_def try_bind_def fs_create_write fs_write_twice)
next
  case (2 xs)
  then show ?thesis using assms append_all_index_write [of d key xs js bs]
    by (cases bs) (simp_all add: fs_append_all_def load_index_def open_read_def try_bind_def fs_laws [OF assms(1)])
qed

lemma index_from_slice:
  "take n (drop m (index_from a xs)) = index_from (a + length (concat (take m xs))) (take n (drop m xs))"
proof (induction m arbitrary: a xs)
  case 0
  show ?case
  proof (induction n arbitrary: a xs)
    case (Suc n)
    then show ?case by (cases xs) simp_all
  qed simp
next
  case (Suc m)
  then show ?case by (cases xs) (simp_all add: add.assoc)
qed

lemma cut_data_from:
  "cut_data ok a (pre @ concat ys) (index_from (a + length pre) ys) = Ret (convert_ok True ok ys)"
proof (induction ys arbitrary: pre)
  case (Cons y ys)
  show ?case using Cons [of "pre @ y"] by (simp add: convert_ok_def add.assoc)
qed (simp add: convert_ok_def)

lemma index_start_index_from: "index_start (index_from a ys) = (if ys = [] then 0 else a + length (concat ys))"
proof (cases ys rule: rev_cases)
  case (snoc zs z)
  then show ?thesis by (simp add: index_start_def index_from_append)
qed (simp add: index_start_def)

lemma hd_index_from: "ys \<noteq> [] \<Longrightarrow> index_from a ys \<noteq> [] \<and> ix_start (hd (index_from a ys)) = a"
  by (cases ys) simp_all

lemma fs_by_slice:
  assumes "d (dat_file key) = Some (concat xs)"
  shows "fs_by_indices ok key (take n (drop m (index_from 0 xs))) d = Ret (convert_ok True ok (take n (drop m xs)))"
proof (cases "take n (drop m xs) = []")
  case True
  then show ?thesis using assms
    by (simp only: index_from_slice True) (simp add: fs_by_indices_def data_by_index_def open_read_def index_start_def convert_ok_def)
next
  case False
  define ys where "ys = take n (drop m xs)"
  define a where "a = length (concat (take m xs))"
  have "xs = take m xs @ ys @ drop n (drop m xs)" unfolding ys_def append_take_drop_id ..
  then have split: "concat xs = concat (take m xs) @ concat ys @ concat (drop n (drop m xs))" by (metis concat_append)
  have len: "length (concat xs) = a + length (concat ys) + length (concat (drop n (drop m xs)))"
    by (simp only: split length_append a_def)
  have cut: "take (length (concat ys)) (drop a (concat xs)) = concat ys" by (simp add: split a_def)
  have "data_by_index key \<lparr>ix_start = a, ix_end = a + length (concat ys)\<rparr> d = Ret (Inr (concat ys))"
    using assms len cut by (simp add: data_by_index_def open_read_def)
  moreover have "index_from a ys \<noteq> []" "ix_start (hd (index_from a ys)) = a" "ys \<noteq> []"
    using False hd_index_from [of ys a] by (simp_all add: ys_def)
  ultimately show ?thesis using cut_data_from [of ok a "[]" ys]
    by (simp add: fs_by_indices_def index_from_slice ys_def [symmetric] a_def [symmetric] index_start_index_from)
qed

lemma fs_remove_present:
  assumes "fs_inv js d" "fs_content js d key \<noteq> None"
  shows "\<exists>d'. fs_remove key d = (Inr (), d') \<and> fs_inv js d' \<and> fs_content js d' = (fs_content js d)(key := None)"
proof -
  obtain xs where xs: "d (dat_file key) = Some (concat xs)" "d (idx_file key) = Some (ij_to_vec js (index_from 0 xs))"
    using fs_present [OF assms(1)] assms(2) by blast
  define d' where "d' = d(dat_file key := None, idx_file key := None)"
  have "fs_remove key d = (Inr (), d')"
    using xs by (simp add: fs_remove_def fs_clean_def remove_file_def d'_def)
  moreover have other: "k \<noteq> key \<Longrightarrow> d' (dat_file k) = d (dat_file k) \<and> d' (idx_file k) = d (idx_file k)"
    and here: "d' (dat_file key) = None" "d' (idx_file key) = None" for k
    by (simp_all add: d'_def)
  moreover have "fs_inv js d'" using assms(1) other here unfolding fs_inv_def by metis
  moreover have "fs_content js d' k = ((fs_content js d)(key := None)) k" for k
    using other here by (cases "k = key") (simp_all add: fs_content_def)
  ultimately show ?thesis by blast
qed

interpretation file_storage: byte_storage "file_ops js" "fs_content js" "fs_inv js" True for js
proof unfold_locales
  fix d k b bs xs ok n m ix
  assume inv: "fs_inv js d"
  show "\<exists>d'. bo_put (file_ops js) k b d = (Inr (), d') \<and> fs_inv js d' \<and> fs_content js d' = (fs_content js d)(k \<mapsto> [b])"
    using inv by (simp add: file_ops_def fs_put_def fs_create_write fs_write_inv fs_write_content)
  show "\<exists>d'. bo_append_all (file_ops js) k bs d = (Inr (), d') \<and> fs_inv js d'
      \<and> fs_content js d' = (fs_content js d)(k \<mapsto> stored (fs_content js d k) @ bs)" if "bs \<noteq> []"
    using inv that by (simp add: file_ops_def fs_append_all_write fs_write_inv fs_write_content)
  show "\<exists>d'. bo_remove (file_ops js) k d = (Inr (), d') \<and> fs_inv js d' \<and> fs_content js d' = (fs_content js d)(k := None)"
    if "fs_content js d k \<noteq> None"
    using fs_remove_present [OF inv that] by (simp add: file_ops_def)
  show "bo_remove (file_ops js) k d = (Inl (IoError Remove OsNotFound), d)" if "fs_content js d k = None"
    using fs_absent [OF inv that] by (simp add: file_ops_def fs_remove_def fs_clean_def remove_file_def)
  show "bo_indices (file_ops js) k d = Inl (IoError FileOpen OsNotFound)" if "fs_content js d k = None"
    using fs_absent [OF inv that] by (simp add: file_ops_def fs_indices_def load_index_def open_read_def try_bind_def)
  show "\<exists>d'. bo_append_all (file_ops js) k [] d = (Inr (), d') \<and> fs_inv js d' \<and> fs_content js d' = fs_content js d"
    using inv by (simp add: file_ops_def fs_append_all_def)
  assume some: "fs_content js d k = Some xs"
  have ix: "bo_indices (file_ops js) k d = Inr (index_from 0 xs)"
    using fs_present [OF inv some]
    by (simp add: file_ops_def fs_indices_def load_index_def open_read_def try_bind_def fs_laws [OF inv])
  then show "\<exists>ix. bo_indices (file_ops js) k d = Inr ix \<and> length ix = length xs" by simp
  show "bo_by_indices (file_ops js) ok k (take n (drop m ix)) d = Ret (convert_ok True ok (take n (drop m xs)))"
    if "bo_indices (file_ops js) k d = Inr ix"
    using that ix fs_by_slice [where d = d and key = k and xs = xs, OF fs_present(1) [OF inv some]] by (simp add: file_ops_def)
qed

section \<open>Sequences of operations\<close>

lemma empty_fs_inv: "index_json_laws js \<Longrightarrow> fs_inv js Map.empty"
  by (simp add: fs_inv_def)

lemma empty_fs_content: "fs_content js Map.empty = Map.empty"
  by (rule ext) (simp add: fs_content_def)

text \<open>A way to write an index, for examples: the positions in unary.\<close>

fun unary_nats :: "nat \<Rightarrow> bytes \<Rightarrow> nat list" where
  "unary_nats n [] = []"
| "unary_nats n (b # bs) = (if b = 0 then n # unary_nats 0 bs else unary_nats (Suc n) bs)"

fun index_pairs :: "nat list \<Rightarrow> index list" where
  "index_pairs (a # b # ns) = \<lparr>ix_start = a, ix_end = b\<rparr> # index_pairs ns"
| "index_pairs _ = []"

definition unary_index :: index_json where
  "unary_index = \<lparr>
     ij_to_vec = (\<lambda>ix. concat (map (\<lambda>i. replicate (ix_start i) 1 @ 0 # replicate (ix_end i) 1 @ [0]) ix)),
     ij_from_slice = (\<lambda>b. Some (index_pairs (unary_nats 0 b)))\<rparr>"

lemma unary_replicate: "unary_nats n (replicate m 1 @ 0 # bs) = (n + m) # unary_nats 0 bs"
  by (induction m arbitrary: n) simp_all

lemma unary_index_laws: "index_json_laws unary_index"
proof -
  have "index_pairs (unary_nats 0 (concat (map (\<lambda>i. replicate (ix_start i) 1 @ 0 # replicate (ix_end i) 1 @ [0]) ix))) = ix" for ix
    by (induction ix) (simp_all add: unary_replicate)
  then show ?thesis by (simp add: index_json_laws_def unary_index_def)
qed

text \<open>C28: The indexed file storage implements a map from keys to lists of data sets. After every sequence of \<open>put\<close>,
  \<open>append_all\<close> and \<open>remove\<close> on a new storage, reading a range of a key gives exactly that range of the data sets the same
  sequence puts into the map, converted, a panic where the range panics, and the error that there is no such
  file when the map has no such key.\<close>

theorem files_refine_map:
  assumes "index_json_laws js"
  shows "bo_by_range (file_ops js) conv key r (run_ops (file_ops js) os Map.empty) =
    (case fold map_op os Map.empty key of
       None \<Rightarrow> Ret (Inl (IoError FileOpen OsNotFound))
     | Some xs \<Rightarrow> rs_bind (range_filter r xs) (\<lambda>ys. Ret (convert_all True conv ys)))"
  using file_storage.read_any [OF empty_fs_inv [OF assms]] by (simp add: empty_fs_content)

theorem files_refine_map_witness:
  "index_json_laws unary_index \<and>
    bo_by_range (file_ops unary_index) Some ''a'' (Between 1 3)
      (run_ops (file_ops unary_index) [Put ''a'' [1, 2], AppendAll ''a'' [[], [3]], RemoveKey ''b'', Put ''b'' [4]] Map.empty)
    = Ret (Inr [[], [3]])"
  using files_refine_map [OF unary_index_laws, of Some "''a''" "Between 1 3"
      "[Put ''a'' [1, 2], AppendAll ''a'' [[], [3]], RemoveKey ''b'', Put ''b'' [4]]"] unary_index_laws
  by (simp add: range_filter_def convert_all_def convert_ok_def)

end
