(* ===== verification/Infisto_Layers.thy ===== *)
theory Infisto_Layers
  imports Infisto "HOL-Library.Multiset"
begin

text \<open>
  The two storages built on the indexed file storage: \<open>CachedIndexFileStorer\<close> of
  src/rust/src/storage/infisto/base.rs, which keeps the indices of the last five keys, and
  \<open>ChaCha20IndexFileStorer\<close> of crypto.rs, which encrypts each data set; and the \<open>Serialization\<close> of serde.rs.

  Both are shown to have the contract of a byte storage: the cached one in terms of the same files, as
  long as no empty list is appended to a key that does not exist, and the encrypted one on top of any byte
  storage.
\<close>

unbundle bit_operations_syntax

section \<open>The cached storage\<close>

type_synonym index_cache = "(string \<times> index list) option list"

record cached =
  ca_base :: directory
  ca_cache :: index_cache

definition init_cached :: "directory \<Rightarrow> cached" where
  "init_cached d = \<lparr>ca_base = d, ca_cache = replicate 5 None\<rparr>"

fun find_cached_from :: "nat \<Rightarrow> string \<Rightarrow> index_cache \<Rightarrow> (nat \<times> index list) option" where
  "find_cached_from i key [] = None"
| "find_cached_from i key (e # c) =
    (case e of
       Some (k, v) \<Rightarrow> if k = key then Some (i, v) else find_cached_from (Suc i) key c
     | None \<Rightarrow> find_cached_from (Suc i) key c)"

definition find_cached :: "string \<Rightarrow> index_cache \<Rightarrow> (nat \<times> index list) option" where
  "find_cached key c = find_cached_from 0 key c"

definition swap :: "nat \<Rightarrow> nat \<Rightarrow> 'a list \<Rightarrow> 'a list" where
  "swap i j xs = xs[j := xs ! i, i := xs ! j]"

text \<open>The loops \<open>for i in (1..=ci).rev() \{ cache.swap(i - 1, i) \}\<close>.\<close>

definition swap_down :: "nat \<Rightarrow> 'a list \<Rightarrow> 'a list" where
  "swap_down ci c = fold (\<lambda>i c. swap (i - 1) i c) (rev [1..<Suc ci]) c"

definition cached_put :: "index_json \<Rightarrow> string \<Rightarrow> bytes \<Rightarrow> cached \<Rightarrow> (infisto_error + unit) \<times> cached" where
  "cached_put js key b s =
    (let c = ca_cache s;
         c = (case find_cached key c of Some (i, _) \<Rightarrow> swap 0 i c | None \<Rightarrow> swap_down (length c - 1) c)
     in case fs_create js key b (ca_base s) of (ix, d) \<Rightarrow> (Inr (), \<lparr>ca_base = d, ca_cache = c[0 := Some (key, ix)]\<rparr>))"

definition cached_enlarged :: "string \<Rightarrow> nat \<Rightarrow> (infisto_error + index list) \<times> directory \<Rightarrow> cached \<Rightarrow> (infisto_error + unit) \<times> cached" where
  "cached_enlarged key ci r s =
    (case r of
       (Inl e, d) \<Rightarrow> (Inl e, s\<lparr>ca_base := d\<rparr>)
     | (Inr ix, d) \<Rightarrow> (Inr (), \<lparr>ca_base = d, ca_cache = (swap_down ci (ca_cache s))[0 := Some (key, ix)]\<rparr>))"

definition cached_append_all :: "index_json \<Rightarrow> string \<Rightarrow> bytes list \<Rightarrow> cached \<Rightarrow> (infisto_error + unit) \<times> cached" where
  "cached_append_all js key bs s =
    (case find_cached key (ca_cache s) of
       Some (ci, fi) \<Rightarrow> cached_enlarged key ci (append_all_index js key fi bs (ca_base s)) s
     | None \<Rightarrow>
         (case load_index js key (ca_base s) of
            Inr ix \<Rightarrow> cached_enlarged key (length (ca_cache s) - 1) (append_all_index js key ix bs (ca_base s)) s
          | Inl (IoError FileOpen OsNotFound) \<Rightarrow>
              (case bs of
                 b # rest \<Rightarrow>
                   (case fs_create js key b (ca_base s) of
                      (ix, d) \<Rightarrow> cached_enlarged key (length (ca_cache s) - 1) (append_all_index js key ix rest d) s)
               | [] \<Rightarrow> cached_enlarged key 0 (Inr [], ca_base s) s)
          | Inl e \<Rightarrow> (Inl e, s)))"

definition cached_remove :: "string \<Rightarrow> cached \<Rightarrow> (infisto_error + unit) \<times> cached" where
  "cached_remove key s =
    (case fs_clean key (ca_base s) of
       (Inl e, d) \<Rightarrow> (Inl e, s\<lparr>ca_base := d\<rparr>)
     | (Inr _, d) \<Rightarrow> (Inr (), \<lparr>ca_base = d,
         ca_cache = map (\<lambda>e. case e of Some (k, _) \<Rightarrow> if k = key then None else e | None \<Rightarrow> None) (ca_cache s)\<rparr>))"

definition cached_indices :: "index_json \<Rightarrow> string \<Rightarrow> cached \<Rightarrow> infisto_error + index list" where
  "cached_indices js key s =
    (case find_cached key (ca_cache s) of Some (_, fi) \<Rightarrow> Inr fi | None \<Rightarrow> load_index js key (ca_base s))"

definition cached_ops :: "index_json \<Rightarrow> cached byte_ops" where
  "cached_ops js = \<lparr>bo_put = cached_put js, bo_append_all = cached_append_all js, bo_remove = cached_remove,
     bo_indices = cached_indices js, bo_by_indices = (\<lambda>ok key ix s. fs_by_indices ok key ix (ca_base s))\<rparr>"

section \<open>The encrypted storage\<close>

text \<open>The ChaCha20 cipher is that of the theory Crypt. The nonces come from the random number generator of the thread.\<close>

text \<open>\<open>Encrypted\<close>: the nonce, followed by the data; the slices of a shorter value panic.\<close>

definition encrypted_new :: "bytes \<Rightarrow> bytes \<Rightarrow> bytes" where
  "encrypted_new nonce b = nonce @ b"

definition encrypted_data :: "bytes \<Rightarrow> bytes rs" where
  "encrypted_data e = (if length e < 12 then Panic else Ret (drop 12 e))"

definition encrypted_nonce :: "bytes \<Rightarrow> bytes rs" where
  "encrypted_nonce e = (if length e < 12 then Panic else Ret (take 12 e))"

definition chacha_decrypt :: "keystream \<Rightarrow> bytes \<Rightarrow> bytes \<Rightarrow> bytes rs" where
  "chacha_decrypt ks key e =
    rs_bind (encrypted_data e) (\<lambda>b. rs_bind (encrypted_nonce e) (\<lambda>nonce. Ret (apply_keystream ks key nonce b)))"

record 's chacha =
  cc_store :: 's
  cc_nonces :: "nat \<Rightarrow> bytes"

definition chacha_encrypt :: "keystream \<Rightarrow> bytes \<Rightarrow> bytes \<Rightarrow> (nat \<Rightarrow> bytes) \<Rightarrow> bytes \<times> (nat \<Rightarrow> bytes)" where
  "chacha_encrypt ks key b nonces = (encrypted_new (nonces 0) (apply_keystream ks key (nonces 0) b), \<lambda>n. nonces (Suc n))"

fun chacha_encrypt_all :: "keystream \<Rightarrow> bytes \<Rightarrow> bytes list \<Rightarrow> (nat \<Rightarrow> bytes) \<Rightarrow> bytes list \<times> (nat \<Rightarrow> bytes)" where
  "chacha_encrypt_all ks key [] nonces = ([], nonces)"
| "chacha_encrypt_all ks key (b # bs) nonces =
    (case chacha_encrypt ks key b nonces of
       (e, nonces) \<Rightarrow> (case chacha_encrypt_all ks key bs nonces of (es, nonces) \<Rightarrow> (e # es, nonces)))"

fun chacha_decrypt_all :: "keystream \<Rightarrow> bytes \<Rightarrow> bytes list \<Rightarrow> bytes list rs" where
  "chacha_decrypt_all ks key [] = Ret []"
| "chacha_decrypt_all ks key (e # es) =
    rs_bind (chacha_decrypt ks key e) (\<lambda>b. rs_bind (chacha_decrypt_all ks key es) (\<lambda>bs. Ret (b # bs)))"

definition chacha_put :: "keystream \<Rightarrow> bytes \<Rightarrow> 's byte_ops \<Rightarrow> string \<Rightarrow> bytes \<Rightarrow> 's chacha \<Rightarrow> (infisto_error + unit) \<times> 's chacha" where
  "chacha_put ks key ops k b s =
    (case chacha_encrypt ks key b (cc_nonces s) of
       (e, nonces) \<Rightarrow> (case bo_put ops k e (cc_store s) of (r, st) \<Rightarrow> (r, \<lparr>cc_store = st, cc_nonces = nonces\<rparr>)))"

definition chacha_append_all ::
  "keystream \<Rightarrow> bytes \<Rightarrow> 's byte_ops \<Rightarrow> string \<Rightarrow> bytes list \<Rightarrow> 's chacha \<Rightarrow> (infisto_error + unit) \<times> 's chacha" where
  "chacha_append_all ks key ops k bs s =
    (case chacha_encrypt_all ks key bs (cc_nonces s) of
       (es, nonces) \<Rightarrow> (case bo_append_all ops k es (cc_store s) of (r, st) \<Rightarrow> (r, \<lparr>cc_store = st, cc_nonces = nonces\<rparr>)))"

definition chacha_remove :: "'s byte_ops \<Rightarrow> string \<Rightarrow> 's chacha \<Rightarrow> (infisto_error + unit) \<times> 's chacha" where
  "chacha_remove ops k s = (case bo_remove ops k (cc_store s) of (r, st) \<Rightarrow> (r, s\<lparr>cc_store := st\<rparr>))"

definition chacha_by_indices ::
  "keystream \<Rightarrow> bytes \<Rightarrow> 's byte_ops \<Rightarrow> (bytes \<Rightarrow> bool) \<Rightarrow> string \<Rightarrow> index list \<Rightarrow> 's chacha \<Rightarrow> (infisto_error + bytes list) rs" where
  "chacha_by_indices ks key ops ok k ix s =
    rs_bind (bo_by_indices ops (\<lambda>_. True) k ix (cc_store s)) (\<lambda>r.
      case r of
        Inl e \<Rightarrow> Ret (Inl e)
      | Inr es \<Rightarrow> rs_bind (chacha_decrypt_all ks key es) (\<lambda>bs. Ret (Inr (filter ok bs))))"

definition chacha_ops :: "keystream \<Rightarrow> bytes \<Rightarrow> 's byte_ops \<Rightarrow> 's chacha byte_ops" where
  "chacha_ops ks key ops = \<lparr>bo_put = chacha_put ks key ops, bo_append_all = chacha_append_all ks key ops,
     bo_remove = chacha_remove ops, bo_indices = (\<lambda>k s. bo_indices ops k (cc_store s)),
     bo_by_indices = chacha_by_indices ks key ops\<rparr>"

section \<open>Serialization\<close>

datatype 'a serialization = Deserialized 'a | Serialized bytes

record 'a serde =
  sd_to_vec :: "'a \<Rightarrow> bytes option"
  sd_from_slice :: "bytes \<Rightarrow> 'a option"

definition serialize :: "'a serde \<Rightarrow> 'a \<Rightarrow> infisto_error + 'a serialization" where
  "serialize sd t = (case sd_to_vec sd t of Some v \<Rightarrow> Inr (Serialized v) | None \<Rightarrow> Inl Serialize)"

definition deserialize :: "'a serialization \<Rightarrow> infisto_error + 'a" where
  "deserialize s = (case s of Deserialized t \<Rightarrow> Inr t | Serialized _ \<Rightarrow> Inl Serialize)"

definition serialization_try_from :: "'a serde \<Rightarrow> bytes \<Rightarrow> 'a serialization option" where
  "serialization_try_from sd v = map_option Deserialized (sd_from_slice sd v)"

definition serialization_as_ref :: "'a serialization \<Rightarrow> bytes" where
  "serialization_as_ref s = (case s of Deserialized _ \<Rightarrow> [0] | Serialized v \<Rightarrow> v)"

section \<open>The cached storage is a byte store\<close>

abbreviation entries :: "index_cache \<Rightarrow> (string \<times> index list) list" where
  "entries c \<equiv> List.map_filter id c"

definition cached_inv :: "index_json \<Rightarrow> cached \<Rightarrow> bool" where
  "cached_inv js s \<longleftrightarrow> fs_inv js (ca_base s) \<and> length (ca_cache s) = 5 \<and> distinct (map fst (entries (ca_cache s)))
    \<and> (\<forall>(k, ix) \<in> set (entries (ca_cache s)). \<exists>xs. fs_content js (ca_base s) k = Some xs \<and> ix = index_from 0 xs)"

lemma entries_Cons: "entries (e # c) = (case e of Some x \<Rightarrow> x # entries c | None \<Rightarrow> entries c)"
  by (simp add: List.map_filter_def split: option.split)

lemma mset_entries: "mset c = mset c' \<Longrightarrow> mset (entries c) = mset (entries c')"
  by (metis List.map_filter_def mset_filter mset_map)

lemma find_cached_from_Some:
  "find_cached_from i key c = Some (j, v) \<Longrightarrow> i \<le> j \<and> j < i + length c \<and> c ! (j - i) = Some (key, v)"
proof (induction c arbitrary: i)
  case (Cons e c)
  consider w where "e = Some (key, w)" "j = i" "w = v" | "find_cached_from (Suc i) key c = Some (j, v)"
    using Cons.prems by (auto split: option.splits if_splits)
  then show ?case
  proof cases
    case 2
    then have "Suc i \<le> j \<and> j < Suc i + length c \<and> c ! (j - Suc i) = Some (key, v)" by (rule Cons.IH)
    moreover then have "j - i = Suc (j - Suc i)" by linarith
    ultimately show ?thesis by simp
  qed simp
qed simp

lemma find_cached_from_None: "find_cached_from i key c = None \<Longrightarrow> key \<notin> fst ` set (entries c)"
proof (induction c arbitrary: i)
  case (Cons e c)
  then have "find_cached_from (Suc i) key c = None" "\<forall>v. e \<noteq> Some (key, v)" by (auto split: option.splits if_splits)
  then show ?case using Cons.IH [of "Suc i"] by (auto simp: entries_Cons split: option.split)
qed (simp add: List.map_filter_simps)

lemma find_cached_Some: "find_cached key c = Some (j, v) \<Longrightarrow> j < length c \<and> c ! j = Some (key, v)"
  using find_cached_from_Some [of 0 key c j v] by (simp add: find_cached_def)

lemma find_cached_None: "find_cached key c = None \<Longrightarrow> key \<notin> fst ` set (entries c)"
  using find_cached_from_None [of 0] by (simp add: find_cached_def)

lemma entries_nth: "j < length c \<Longrightarrow> c ! j = Some e \<Longrightarrow> e \<in> set (entries c)"
  by (auto simp: List.map_filter_def image_iff in_set_conv_nth intro!: bexI [of _ "Some e"])

lemma mset_swap_list [simp]: "i < length c \<Longrightarrow> j < length c \<Longrightarrow> mset (swap i j c) = mset c"
  by (simp add: swap_def mset_swap)

lemma length_swap [simp]: "length (swap i j c) = length c"
  by (simp add: swap_def)

lemma swap_down_Suc: "swap_down (Suc ci) c = swap_down ci (swap ci (Suc ci) c)"
  by (simp add: swap_down_def)

lemma swap_down: "ci < length c \<Longrightarrow> mset (swap_down ci c) = mset c \<and> swap_down ci c ! 0 = c ! ci"
proof (induction ci arbitrary: c)
  case 0
  then show ?case by (simp add: swap_down_def)
next
  case (Suc ci)
  then show ?case using Suc.IH [of "swap ci (Suc ci) c"] by (simp add: swap_down_Suc) (simp add: swap_def)
qed

text \<open>The cache once it was rearranged and its first entry was overwritten: the other entries are those of other keys.\<close>

lemma rearranged:
  assumes "mset c' = mset c" "c \<noteq> []" "distinct (map fst (entries c))"
    and "(\<exists>v. c' ! 0 = Some (key, v)) \<or> key \<notin> fst ` set (entries c)"
  shows "length (c'[0 := Some (key, ix)]) = length c" "distinct (map fst (entries (c'[0 := Some (key, ix)])))"
    "set (entries (c'[0 := Some (key, ix)])) \<subseteq> insert (key, ix) {e \<in> set (entries c). fst e \<noteq> key}"
proof -
  obtain e r where c': "c' = e # r" using assms(1,2) by (cases c') auto
  have m: "mset (entries c') = mset (entries c)" by (rule mset_entries [OF assms(1)])
  then have d: "distinct (map fst (entries c'))" using assms(3) by (metis mset_eq_imp_distinct_iff mset_map)
  have st: "set (entries c') = set (entries c)" using m by (rule mset_eq_setD)
  have k: "key \<notin> fst ` set (entries r)" and dr: "distinct (map fst (entries r))"
    using assms(4) d unfolding st [symmetric] c' entries_Cons by (cases e; force)+
  have sub: "set (entries r) \<subseteq> set (entries c)" unfolding st [symmetric] by (auto simp: c' entries_Cons split: option.splits)
  show "length (c'[0 := Some (key, ix)]) = length c" using assms(1) by (metis length_list_update size_mset)
  show "distinct (map fst (entries (c'[0 := Some (key, ix)])))" using k dr by (simp add: c' entries_Cons)
  show "set (entries (c'[0 := Some (key, ix)])) \<subseteq> insert (key, ix) {e \<in> set (entries c). fst e \<noteq> key}"
    using sub k by (force simp: c' entries_Cons)
qed

lemma cached_write:
  assumes "cached_inv js s" "mset c' = mset (ca_cache s)"
    and "(\<exists>v. c' ! 0 = Some (key, v)) \<or> key \<notin> fst ` set (entries (ca_cache s))"
  shows "cached_inv js \<lparr>ca_base = fs_write js key xs (ca_base s), ca_cache = c'[0 := Some (key, index_from 0 xs)]\<rparr>"
proof -
  have s: "fs_inv js (ca_base s)" "length (ca_cache s) = 5" "distinct (map fst (entries (ca_cache s)))"
    "\<And>k ix. (k, ix) \<in> set (entries (ca_cache s)) \<Longrightarrow> \<exists>xs. fs_content js (ca_base s) k = Some xs \<and> ix = index_from 0 xs"
    using assms(1) unfolding cached_inv_def by auto
  have "ca_cache s \<noteq> []" using s(2) by auto
  note r = rearranged [OF assms(2) this s(3) assms(3), of "index_from 0 xs"]
  have "\<exists>ys. fs_content js (fs_write js key xs (ca_base s)) k = Some ys \<and> ix = index_from 0 ys"
    if "(k, ix) \<in> set (entries (c'[0 := Some (key, index_from 0 xs)]))" for k ix
  proof (cases "k = key")
    case True
    then have "ix = index_from 0 xs" using subsetD [OF r(3) that] by auto
    then show ?thesis using True s(1) by (simp add: fs_write_content)
  next
    case False
    then have "(k, ix) \<in> set (entries (ca_cache s))" using subsetD [OF r(3) that] by auto
    then show ?thesis using False s(1,4) by (simp add: fs_write_content)
  qed
  then show ?thesis using r(1,2) s(1,2) by (auto simp: cached_inv_def fs_write_inv)
qed

lemma cached_found:
  assumes "cached_inv js s" "find_cached key (ca_cache s) = Some (ci, ix)"
  obtains xs where "fs_content js (ca_base s) key = Some xs" "ix = index_from 0 xs" "ci < length (ca_cache s)"
    "ca_cache s ! ci = Some (key, ix)"
proof -
  note f = find_cached_Some [OF assms(2)]
  then have "(key, ix) \<in> set (entries (ca_cache s))" using entries_nth by blast
  then show ?thesis using assms(1) f that unfolding cached_inv_def by blast
qed

lemma cached_put_write:
  assumes "cached_inv js s"
  obtains s' where "cached_put js key b s = (Inr (), s')" "cached_inv js s'" "ca_base s' = fs_write js key [b] (ca_base s)"
proof -
  define c where "c = (case find_cached key (ca_cache s) of Some (i, _) \<Rightarrow> swap 0 i (ca_cache s) | None \<Rightarrow> swap_down (length (ca_cache s) - 1) (ca_cache s))"
  have len: "length (ca_cache s) = 5" using assms by (simp add: cached_inv_def)
  have "mset c = mset (ca_cache s) \<and> ((\<exists>v. c ! 0 = Some (key, v)) \<or> key \<notin> fst ` set (entries (ca_cache s)))"
  proof (cases "find_cached key (ca_cache s)")
    case None
    then show ?thesis using find_cached_None swap_down [of 4 "ca_cache s"] len by (auto simp: c_def)
  next
    case (Some p)
    obtain i ix where p: "p = (i, ix)" by fastforce
    note f = find_cached_Some [OF Some [unfolded p]]
    moreover have "swap 0 i (ca_cache s) ! 0 = ca_cache s ! i" using len f by (simp add: swap_def)
    ultimately show ?thesis using len by (auto simp: c_def Some p)
  qed
  then have "cached_inv js \<lparr>ca_base = fs_write js key [b] (ca_base s), ca_cache = c[0 := Some (key, index_from 0 [b])]\<rparr>"
    using cached_write [OF assms] by blast
  moreover have "cached_put js key b s = (Inr (), \<lparr>ca_base = fs_write js key [b] (ca_base s), ca_cache = c[0 := Some (key, index_from 0 [b])]\<rparr>)"
    by (simp add: cached_put_def c_def [symmetric] fs_create_write Let_def)
  ultimately show ?thesis using that by simp
qed

lemma cached_enlarged_write:
  assumes "cached_inv js s" "ci < length (ca_cache s)"
    and "(\<exists>v. ca_cache s ! ci = Some (key, v)) \<or> key \<notin> fst ` set (entries (ca_cache s))"
  obtains s' where "cached_enlarged key ci (Inr (index_from 0 xs), fs_write js key xs (ca_base s)) s = (Inr (), s')"
    "cached_inv js s'" "ca_base s' = fs_write js key xs (ca_base s)"
proof -
  have "cached_inv js \<lparr>ca_base = fs_write js key xs (ca_base s), ca_cache = (swap_down ci (ca_cache s))[0 := Some (key, index_from 0 xs)]\<rparr>"
    using cached_write [OF assms(1), of "swap_down ci (ca_cache s)" key xs] swap_down [OF assms(2)] assms(3) by auto
  then show ?thesis using that by (simp add: cached_enlarged_def)
qed

lemma cached_append_write:
  assumes "cached_inv js s" "bs \<noteq> []"
  obtains s' where "cached_append_all js key bs s = (Inr (), s')" "cached_inv js s'"
    "ca_base s' = fs_write js key (stored (fs_content js (ca_base s) key) @ bs) (ca_base s)"
proof (cases "find_cached key (ca_cache s)")
  case (Some p)
  obtain ci ix where p: "p = (ci, ix)" by fastforce
  have inv: "fs_inv js (ca_base s)" using assms(1) by (simp add: cached_inv_def)
  obtain xs where xs: "fs_content js (ca_base s) key = Some xs" "ix = index_from 0 xs" "ci < length (ca_cache s)"
      "ca_cache s ! ci = Some (key, ix)"
    using cached_found [OF assms(1) Some [unfolded p]] .
  from cached_enlarged_write [OF assms(1) xs(3)] xs(4) obtain s' where
    s': "cached_enlarged key ci (Inr (index_from 0 (xs @ bs)), fs_write js key (xs @ bs) (ca_base s)) s = (Inr (), s')"
      "cached_inv js s'" "ca_base s' = fs_write js key (xs @ bs) (ca_base s)" by blast
  have "append_all_index js key ix bs (ca_base s) = (Inr (index_from 0 (xs @ bs)), fs_write js key (xs @ bs) (ca_base s))"
    unfolding xs(2) by (rule append_all_index_write, rule fs_present(1) [OF inv xs(1)])
  then show ?thesis using that [of s'] s' xs(1) by (simp add: cached_append_all_def Some p)
next
  case None
  have inv: "fs_inv js (ca_base s)" and len: "length (ca_cache s) - 1 < length (ca_cache s)"
    using assms(1) by (simp_all add: cached_inv_def)
  from cached_enlarged_write [OF assms(1) len disjI2 [OF find_cached_None [OF None]]]
  obtain s' where s': "cached_enlarged key (length (ca_cache s) - 1)
        (Inr (index_from 0 (stored (fs_content js (ca_base s) key) @ bs)), fs_write js key (stored (fs_content js (ca_base s) key) @ bs) (ca_base s)) s = (Inr (), s')"
      "cached_inv js s'" "ca_base s' = fs_write js key (stored (fs_content js (ca_base s) key) @ bs) (ca_base s)" by blast
  have "cached_append_all js key bs s = (Inr (), s')"
  proof (cases rule: fs_files [OF inv, of key])
    case 1
    obtain b rest where bs: "bs = b # rest" using assms(2) by (cases bs) auto
    have "append_all_index js key (index_from 0 [b]) rest (fs_write js key [b] (ca_base s))
        = (Inr (index_from 0 ([b] @ rest)), fs_write js key ([b] @ rest) (fs_write js key [b] (ca_base s)))"
      by (rule append_all_index_write) (simp add: fs_write_def)
    then show ?thesis using s'(1) 1 None
      by (simp add: bs cached_append_all_def load_index_def open_read_def try_bind_def fs_create_write fs_write_twice)
  next
    case (2 xs)
    then show ?thesis using s'(1) None append_all_index_write [where d = "ca_base s" and key = key and xs = xs and bs = bs and js = js] 2(1)
      by (simp add: cached_append_all_def load_index_def open_read_def try_bind_def fs_laws [OF inv])
  qed
  then show ?thesis using that s' by blast
qed

lemma entries_removed:
  "entries (map (\<lambda>e. case e of Some (k, _) \<Rightarrow> if k = key then None else e | None \<Rightarrow> None) c) = filter (\<lambda>(k, _). k \<noteq> key) (entries c)"
  by (induction c) (auto simp: entries_Cons List.map_filter_simps split: option.split)

lemma cached_remove_present:
  assumes "cached_inv js s" "fs_content js (ca_base s) key \<noteq> None"
  shows "\<exists>s'. cached_remove key s = (Inr (), s') \<and> cached_inv js s' \<and> fs_content js (ca_base s') = (fs_content js (ca_base s))(key := None)"
proof -
  have inv: "fs_inv js (ca_base s)" using assms(1) by (simp add: cached_inv_def)
  obtain d' where d': "fs_clean key (ca_base s) = (Inr (), d')" "fs_inv js d'" "fs_content js d' = (fs_content js (ca_base s))(key := None)"
    using fs_remove_present [OF inv assms(2)] by (auto simp: fs_remove_def)
  show ?thesis using assms(1) d'
    by (auto simp: cached_remove_def cached_inv_def entries_removed distinct_map inj_on_def)
qed

lemma cached_index:
  assumes "cached_inv js s" "fs_content js (ca_base s) key = Some xs"
  shows "cached_indices js key s = Inr (index_from 0 xs)"
proof (cases "find_cached key (ca_cache s)")
  case None
  have inv: "fs_inv js (ca_base s)" using assms(1) by (simp add: cached_inv_def)
  then show ?thesis using None fs_present [OF inv assms(2)]
    by (simp add: cached_indices_def load_index_def open_read_def try_bind_def fs_laws [OF inv])
next
  case (Some p)
  obtain ci ix where p: "p = (ci, ix)" by fastforce
  show ?thesis using cached_found [OF assms(1) Some [unfolded p]] assms(2) by (auto simp: cached_indices_def Some p)
qed

lemma cached_missing: "cached_inv js s \<Longrightarrow> fs_content js (ca_base s) key = None \<Longrightarrow> find_cached key (ca_cache s) = None"
  using cached_found by (metis not_Some_eq surj_pair)

interpretation cached_storage: byte_store "cached_ops js" "\<lambda>s. fs_content js (ca_base s)" "cached_inv js" True for js
proof unfold_locales
  fix s k b bs xs ok n m ix
  assume inv: "cached_inv js s"
  then have fs: "fs_inv js (ca_base s)" by (simp add: cached_inv_def)
  show "\<exists>s'. bo_put (cached_ops js) k b s = (Inr (), s') \<and> cached_inv js s' \<and> fs_content js (ca_base s') = (fs_content js (ca_base s))(k \<mapsto> [b])"
    by (rule cached_put_write [OF inv, of k b]) (simp add: cached_ops_def fs_write_content [OF fs])
  show "\<exists>s'. bo_append_all (cached_ops js) k bs s = (Inr (), s') \<and> cached_inv js s'
      \<and> fs_content js (ca_base s') = (fs_content js (ca_base s))(k \<mapsto> stored (fs_content js (ca_base s) k) @ bs)" if "bs \<noteq> []"
    by (rule cached_append_write [OF inv that, of k]) (simp add: cached_ops_def fs_write_content [OF fs])
  show "\<exists>s'. bo_remove (cached_ops js) k s = (Inr (), s') \<and> cached_inv js s' \<and> fs_content js (ca_base s') = (fs_content js (ca_base s))(k := None)"
    if "fs_content js (ca_base s) k \<noteq> None"
    using cached_remove_present [OF inv that] by (simp add: cached_ops_def)
  show "bo_remove (cached_ops js) k s = (Inl (IoError Remove OsNotFound), s)" if "fs_content js (ca_base s) k = None"
    using fs_absent [OF fs that] by (simp add: cached_ops_def cached_remove_def fs_clean_def remove_file_def)
  show "bo_indices (cached_ops js) k s = Inl (IoError FileOpen OsNotFound)" if "fs_content js (ca_base s) k = None"
    using fs_absent [OF fs that] cached_missing [OF inv that]
    by (simp add: cached_ops_def cached_indices_def load_index_def open_read_def try_bind_def)
  assume some: "fs_content js (ca_base s) k = Some xs"
  have index: "bo_indices (cached_ops js) k s = Inr (index_from 0 xs)"
    using cached_index [OF inv some] by (simp add: cached_ops_def)
  then show "\<exists>ix. bo_indices (cached_ops js) k s = Inr ix \<and> length ix = length xs" by simp
  show "bo_by_indices (cached_ops js) ok k (take n (drop m ix)) s = Ret (convert_ok True ok (take n (drop m xs)))"
    if "bo_indices (cached_ops js) k s = Inr ix"
    using that index fs_by_slice [where d = "ca_base s" and key = k and xs = xs, OF fs_present(1) [OF fs some]]
    by (simp add: cached_ops_def)
qed

section \<open>The encrypted storage is a byte storage\<close>

definition decrypted :: "keystream \<Rightarrow> bytes \<Rightarrow> bytes \<Rightarrow> bytes" where
  "decrypted ks key e = apply_keystream ks key (take 12 e) (drop 12 e)"

lemma decrypt_all: "\<forall>e \<in> set es. 12 \<le> length e \<Longrightarrow> chacha_decrypt_all ks key es = Ret (map (decrypted ks key) es)"
  by (induction es) (simp_all add: chacha_decrypt_def encrypted_data_def encrypted_nonce_def decrypted_def)

lemma encrypt_one:
  assumes "\<forall>n. length (nonces n) = 12"
  obtains e nonces' where "chacha_encrypt ks key b nonces = (e, nonces')" "12 \<le> length e" "decrypted ks key e = b"
    "\<forall>n. length (nonces' n) = 12"
  using assms that by (simp add: chacha_encrypt_def encrypted_new_def decrypted_def)

lemma encrypt_all:
  assumes "\<forall>n. length (nonces n) = 12"
  obtains es nonces' where "chacha_encrypt_all ks key bs nonces = (es, nonces')" "\<forall>e \<in> set es. 12 \<le> length e"
    "map (decrypted ks key) es = bs" "\<forall>n. length (nonces' n) = 12"
  using assms
proof (induction bs arbitrary: nonces thesis)
  case (Cons b bs)
  obtain e n1 where e: "chacha_encrypt ks key b nonces = (e, n1)" "12 \<le> length e" "decrypted ks key e = b" "\<forall>n. length (n1 n) = 12"
    using encrypt_one [OF Cons.prems(2)] .
  obtain es n2 where es: "chacha_encrypt_all ks key bs n1 = (es, n2)" "\<forall>e \<in> set es. 12 \<le> length e"
      "map (decrypted ks key) es = bs" "\<forall>n. length (n2 n) = 12"
    using Cons.IH [OF _ e(4)] .
  show ?case using Cons.prems(1) [of "e # es" n2] e es by simp
qed simp

definition chacha_content :: "keystream \<Rightarrow> bytes \<Rightarrow> ('s \<Rightarrow> string \<rightharpoonup> bytes list) \<Rightarrow> 's chacha \<Rightarrow> string \<rightharpoonup> bytes list" where
  "chacha_content ks key content s k = map_option (map (decrypted ks key)) (content (cc_store s) k)"

definition chacha_inv :: "('s \<Rightarrow> string \<rightharpoonup> bytes list) \<Rightarrow> ('s \<Rightarrow> bool) \<Rightarrow> 's chacha \<Rightarrow> bool" where
  "chacha_inv content valid s \<longleftrightarrow> valid (cc_store s) \<and> (\<forall>n. length (cc_nonces s n) = 12)
    \<and> (\<forall>k es. content (cc_store s) k = Some es \<longrightarrow> (\<forall>e \<in> set es. 12 \<le> length e))"

lemma chacha_content_upd:
  "content (cc_store s') = (content (cc_store s))(k := v) \<Longrightarrow>
    chacha_content ks key content s' = (chacha_content ks key content s)(k := map_option (map (decrypted ks key)) v)"
  by (rule ext) (simp add: chacha_content_def)

lemma chacha_inv_upd:
  assumes "chacha_inv content valid s" "valid st" "\<forall>n. length (nonces n) = 12" "content st = (content (cc_store s))(k := v)"
    and "\<And>es e. v = Some es \<Longrightarrow> e \<in> set es \<Longrightarrow> 12 \<le> length e"
  shows "chacha_inv content valid \<lparr>cc_store = st, cc_nonces = nonces\<rparr>"
  using assms unfolding chacha_inv_def by (auto split: if_splits)

locale chacha_storage = byte_storage +
  fixes ks :: keystream and key :: bytes
begin

lemma chacha_invD:
  assumes "chacha_inv content inv s"
  shows "inv (cc_store s)" "\<forall>n. length (cc_nonces s n) = 12"
    "content (cc_store s) k = Some es \<Longrightarrow> e \<in> set es \<Longrightarrow> 12 \<le> length e"
  using assms by (auto simp: chacha_inv_def)

lemma chacha_put_content:
  assumes "chacha_inv content inv s"
  shows "\<exists>s'. bo_put (chacha_ops ks key ops) k b s = (Inr (), s') \<and> chacha_inv content inv s'
    \<and> chacha_content ks key content s' = (chacha_content ks key content s)(k \<mapsto> [b])"
proof -
  note s = chacha_invD [OF assms]
  obtain e n1 where e: "chacha_encrypt ks key b (cc_nonces s) = (e, n1)" "12 \<le> length e" "decrypted ks key e = b" "\<forall>n. length (n1 n) = 12"
    using encrypt_one [OF s(2)] .
  obtain st where st: "bo_put ops k e (cc_store s) = (Inr (), st)" "inv st" "content st = (content (cc_store s))(k \<mapsto> [e])"
    using put [OF s(1)] by blast
  have "chacha_inv content inv \<lparr>cc_store = st, cc_nonces = n1\<rparr>"
    by (rule chacha_inv_upd [OF assms st(2) e(4) st(3)]) (use e(2) in auto)
  then show ?thesis using e(1,3) st chacha_content_upd [of content "\<lparr>cc_store = st, cc_nonces = n1\<rparr>" s k "Some [e]" ks key]
    by (simp add: chacha_ops_def chacha_put_def)
qed

lemma chacha_append_nil:
  assumes "chacha_inv content inv s"
  shows "\<exists>s'. bo_append_all (chacha_ops ks key ops) k [] s = (Inr (), s') \<and> chacha_inv content inv s'
    \<and> chacha_content ks key content s' = chacha_content ks key content s"
proof -
  note s = chacha_invD [OF assms]
  obtain st where st: "bo_append_all ops k [] (cc_store s) = (Inr (), st)" "inv st" "content st = content (cc_store s)"
    using append_nil [OF s(1)] by blast
  then show ?thesis using assms
    by (auto simp: chacha_ops_def chacha_append_all_def chacha_content_def chacha_inv_def)
qed

lemma chacha_append_content:
  assumes "chacha_inv content inv s" "bs \<noteq> []"
  shows "\<exists>s'. bo_append_all (chacha_ops ks key ops) k bs s = (Inr (), s') \<and> chacha_inv content inv s'
    \<and> chacha_content ks key content s' = (chacha_content ks key content s)(k \<mapsto> stored (chacha_content ks key content s k) @ bs)"
proof -
  note s = chacha_invD [OF assms(1)]
  obtain es n1 where e: "chacha_encrypt_all ks key bs (cc_nonces s) = (es, n1)" "\<forall>e \<in> set es. 12 \<le> length e"
      "map (decrypted ks key) es = bs" "\<forall>n. length (n1 n) = 12"
    using encrypt_all [OF s(2)] .
  have "es \<noteq> []" using e(3) assms(2) by auto
  then obtain st where st: "bo_append_all ops k es (cc_store s) = (Inr (), st)" "inv st"
      "content st = (content (cc_store s))(k \<mapsto> stored (content (cc_store s) k) @ es)"
    using append_all [OF s(1)] by blast
  have "chacha_inv content inv \<lparr>cc_store = st, cc_nonces = n1\<rparr>"
    by (rule chacha_inv_upd [OF assms(1) st(2) e(4) st(3)]) (use e(2) s(3) in \<open>auto split: option.splits\<close>)
  moreover have "stored (chacha_content ks key content s k) @ bs = map (decrypted ks key) (stored (content (cc_store s) k) @ es)"
    using e(3) by (simp add: chacha_content_def split: option.split)
  ultimately show ?thesis using e(1) st
      chacha_content_upd [of content "\<lparr>cc_store = st, cc_nonces = n1\<rparr>" s k "Some (stored (content (cc_store s) k) @ es)" ks key]
    by (simp add: chacha_ops_def chacha_append_all_def)
qed

lemma chacha_remove_content:
  assumes "chacha_inv content inv s" "chacha_content ks key content s k \<noteq> None"
  shows "\<exists>s'. bo_remove (chacha_ops ks key ops) k s = (Inr (), s') \<and> chacha_inv content inv s'
    \<and> chacha_content ks key content s' = (chacha_content ks key content s)(k := None)"
proof -
  note s = chacha_invD [OF assms(1)]
  obtain st where st: "bo_remove ops k (cc_store s) = (Inr (), st)" "inv st" "content st = (content (cc_store s))(k := None)"
    using remove [OF s(1), of k] assms(2) by (auto simp: chacha_content_def)
  have "chacha_inv content inv (s\<lparr>cc_store := st\<rparr>)"
    using chacha_inv_upd [OF assms(1) st(2) s(2) st(3)] by (cases s) simp
  then show ?thesis using st chacha_content_upd [of content "s\<lparr>cc_store := st\<rparr>" s k None ks key]
    by (simp add: chacha_ops_def chacha_remove_def)
qed

lemma chacha_by_slice:
  assumes "chacha_inv content inv s" "chacha_content ks key content s k = Some xs" "bo_indices (chacha_ops ks key ops) k s = Inr ix"
  shows "bo_by_indices (chacha_ops ks key ops) ok k (take n (drop m ix)) s = Ret (convert_ok False ok (take n (drop m xs)))"
proof -
  note s = chacha_invD [OF assms(1)]
  obtain es where es: "content (cc_store s) k = Some es" "xs = map (decrypted ks key) es"
    using assms(2) by (auto simp: chacha_content_def)
  have "bo_by_indices ops (\<lambda>_. True) k (take n (drop m ix)) (cc_store s) = Ret (Inr (take n (drop m es)))"
    using by_slice [OF s(1) es(1), of ix "\<lambda>_. True" n m] assms(3)
    by (simp add: chacha_ops_def convert_ok_def list_all_iff)
  moreover have "\<forall>e \<in> set (take n (drop m es)). 12 \<le> length e" using s(3) [OF es(1)] by (meson in_set_dropD in_set_takeD)
  ultimately show ?thesis
    by (simp add: chacha_ops_def chacha_by_indices_def decrypt_all es(2) convert_ok_def take_map drop_map)
qed

end

sublocale chacha_storage < encrypted: byte_storage "chacha_ops ks key ops" "chacha_content ks key content" "chacha_inv content inv" False
proof (unfold_locales, goal_cases)
  case (1 s k b)
  then show ?case by (rule chacha_put_content)
next
  case (2 s bs k)
  then show ?case by (rule chacha_append_content)
next
  case (3 s k)
  then show ?case by (rule chacha_remove_content)
next
  case (4 s k)
  then show ?case using remove_missing [OF chacha_invD(1) [OF 4(1)], of k]
    by (simp add: chacha_ops_def chacha_remove_def chacha_content_def)
next
  case (5 s k xs)
  then show ?case using indices [OF chacha_invD(1) [OF 5(1)], of k] by (auto simp: chacha_ops_def chacha_content_def)
next
  case (6 s k)
  then show ?case using indices_missing [OF chacha_invD(1) [OF 6(1)], of k] by (simp add: chacha_ops_def chacha_content_def)
next
  case (7 s k xs ix ok n m)
  then show ?case by (rule chacha_by_slice)
next
  case (8 s k)
  then show ?case by (rule chacha_append_nil)
qed

interpretation encrypted_files: chacha_storage "file_ops js" "fs_content js" "fs_inv js" True ks key for js ks key
  by unfold_locales

section \<open>Both layers read what was written\<close>

lemma init_cached_inv: "fs_inv js d \<Longrightarrow> cached_inv js (init_cached d)"
  by (simp add: cached_inv_def init_cached_def numeral_eq_Suc entries_Cons List.map_filter_simps)

text \<open>C29: The cache of indices is transparent. On the same files, after every sequence of operations in which no empty list is
  appended, the cached storage reads the same as the storage without a cache, whatever was cached, moved and
  dropped in between.\<close>

theorem cached_like_files:
  assumes "fs_inv js d" "list_all appends_data os"
  shows "bo_by_range (cached_ops js) conv key r (run_ops (cached_ops js) os (init_cached d)) =
    bo_by_range (file_ops js) conv key r (run_ops (file_ops js) os d)"
proof -
  have "ca_base (init_cached d) = d" by (simp add: init_cached_def)
  then show ?thesis
    using cached_storage.read_after [OF init_cached_inv [OF assms(1)] assms(2), of conv key r] file_storage.read_after [OF assms, of conv key r] by simp
qed

theorem cached_like_files_witness:
  "(let os = map (\<lambda>k. Put k [1]) [''a'', ''b'', ''c'', ''d'', ''e'', ''f''] @ [AppendAll ''a'' [[2]], RemoveKey ''f'']
    in fs_inv unary_index Map.empty \<and> list_all appends_data os \<and>
      bo_by_range (cached_ops unary_index) Some ''a'' All (run_ops (cached_ops unary_index) os (init_cached Map.empty)) =
      bo_by_range (file_ops unary_index) Some ''a'' All (run_ops (file_ops unary_index) os Map.empty))"
  unfolding Let_def
  using cached_like_files [OF empty_fs_inv [OF unary_index_laws],
      of "map (\<lambda>k. Put k [1]) [''a'', ''b'', ''c'', ''d'', ''e'', ''f''] @ [AppendAll ''a'' [[2]], RemoveKey ''f'']"]
    empty_fs_inv [OF unary_index_laws] by simp

text \<open>C30: What is stored encrypted is read back. Over the file storage, after every sequence of operations on a new storage,
  with every key and with every nonces of twelve bytes, the encrypted storage reads the data sets that were written, and it
  leaves out those that cannot be converted instead of failing.\<close>

theorem encrypted_reads_written:
  assumes "index_json_laws js" "\<forall>n. length (nonces n) = 12"
  shows "bo_by_range (chacha_ops ks secret (file_ops js)) conv key r
      (run_ops (chacha_ops ks secret (file_ops js)) os \<lparr>cc_store = Map.empty, cc_nonces = nonces\<rparr>) =
    (case fold map_op os Map.empty key of
       None \<Rightarrow> Ret (Inl (IoError FileOpen OsNotFound))
     | Some xs \<Rightarrow> rs_bind (range_filter r xs) (\<lambda>ys. Ret (Inr (List.map_filter conv ys))))"
proof -
  have inv: "chacha_inv (fs_content js) (fs_inv js) \<lparr>cc_store = Map.empty, cc_nonces = nonces\<rparr>"
    using assms by (simp add: chacha_inv_def empty_fs_inv empty_fs_content)
  have new: "chacha_content ks secret (fs_content js) \<lparr>cc_store = Map.empty, cc_nonces = nonces\<rparr> = Map.empty"
    by (rule ext) (simp add: chacha_content_def empty_fs_content)
  have "convert_all False conv ys = Inr (List.map_filter conv ys)" for ys
    by (simp add: convert_all_def convert_ok_def List.map_filter_def o_def)
  then show ?thesis using encrypted_files.encrypted.read_any [OF inv, of ks secret conv key r os] new by (simp split: option.split)
qed

theorem encrypted_reads_written_witness:
  "index_json_laws unary_index \<and> (\<forall>n. length ((\<lambda>n. replicate 12 (of_nat n)) n) = 12) \<and>
    bo_by_range (chacha_ops (\<lambda>k n i. 7) [1] (file_ops unary_index)) Some ''a'' (From 1)
      (run_ops (chacha_ops (\<lambda>k n i. 7) [1] (file_ops unary_index)) [Put ''a'' [1], AppendAll ''a'' [[2], [3]]]
        \<lparr>cc_store = Map.empty, cc_nonces = \<lambda>n. replicate 12 (of_nat n)\<rparr>) = Ret (Inr [[2], [3]])"
  using encrypted_reads_written [OF unary_index_laws, of "\<lambda>n. replicate 12 (of_nat n)" "\<lambda>k n i. 7" "[1]" Some "''a''" "From 1"
      "[Put ''a'' [1], AppendAll ''a'' [[2], [3]]]"] unary_index_laws
  by (simp add: range_filter_def List.map_filter_simps)

text \<open>Appending an empty list to a key that does not exist breaks the cached storage for that key: the empty index is cached
  without any files, so every later \<open>append_all\<close> and \<open>remove\<close> fails because the file does not exist, where the storage without
  a cache creates the files.\<close>

theorem cached_empty_append_breaks:
  fixes s :: cached
  assumes "ca_cache s \<noteq> []" "find_cached key (ca_cache s) = None" "ca_base s (idx_file key) = None" "ca_base s (dat_file key) = None"
    and "bs \<noteq> []"
  shows "\<exists>s'. cached_append_all js key [] s = (Inr (), s') \<and> ca_base s' = ca_base s
    \<and> cached_append_all js key bs s' = (Inl (IoError FileOpen OsNotFound), s')
    \<and> cached_remove key s' = (Inl (IoError Remove OsNotFound), s')
    \<and> fst (fs_append_all js key bs (ca_base s)) = Inr ()"
proof -
  obtain e c where c: "ca_cache s = e # c" using assms(1) by (cases "ca_cache s") auto
  obtain b rest where bs: "bs = b # rest" using assms(5) by (cases bs) auto
  define s' where "s' = \<lparr>ca_base = ca_base s, ca_cache = Some (key, []) # c\<rparr>"
  have "cached_append_all js key [] s = (Inr (), s')"
    using assms(2-4) by (simp add: cached_append_all_def load_index_def open_read_def try_bind_def cached_enlarged_def swap_down_def c s'_def)
  moreover have "cached_append_all js key bs s' = (Inl (IoError FileOpen OsNotFound), s')"
    using assms(4) by (simp add: cached_append_all_def find_cached_def s'_def append_all_index_def open_read_def cached_enlarged_def)
  moreover have "cached_remove key s' = (Inl (IoError Remove OsNotFound), s')"
    using assms(4) by (simp add: cached_remove_def s'_def fs_clean_def remove_file_def)
  moreover have "fst (fs_append_all js key bs (ca_base s)) = Inr ()"
    using assms(3,4) by (simp add: bs fs_append_all_def load_index_def open_read_def try_bind_def fs_create_write
        append_all_index_def fs_write_def split: prod.split)
  ultimately show ?thesis by (auto simp: s'_def)
qed

theorem cached_empty_append_breaks_witness:
  "ca_cache (init_cached Map.empty) \<noteq> [] \<and> find_cached ''a'' (ca_cache (init_cached Map.empty)) = None
    \<and> (\<exists>s'. cached_append_all unary_index ''a'' [] (init_cached Map.empty) = (Inr (), s')
      \<and> cached_remove ''a'' s' = (Inl (IoError Remove OsNotFound), s'))"
  using cached_empty_append_breaks [of "init_cached Map.empty" "''a''" "[[1]]" unary_index]
  by (force simp: init_cached_def find_cached_def numeral_eq_Suc)

end
