(* ===== verification/File_Storage.thy ===== *)
theory File_Storage
  imports Infisto_Layers Scheduler "HOL-Library.Char_ord" "HOL-Library.List_Lexorder"
begin

text \<open>
  The scan storage of the service on files, src/rust/src/openvasd/storage/file.rs: \<open>Storage<S>\<close> over any indexed
  byte storage \<open>S\<close>, which is the plain or the encrypted file storage.

  The state has the byte storage and the in-memory storage that the feeds and the knowledge base are kept in.
  JSON is a parameter: \<open>file_serde\<close> for the scans, the status, the ids and the clients, and \<open>json\<close> for the
  results. The theorems rely on the law that a value that was written can be read back, for the values that
  are stored. Operations that read can panic, as reading a range can; results are read when the iterator is
  made and not while it is consumed.

  The lemmas are proved in the locale \<open>file_scans\<close>, for every byte storage; it is interpreted for the plain and
  for the encrypted files.
\<close>

section \<open>Model\<close>

fun io_error_kind_display :: "io_error_kind \<Rightarrow> string" where
  "io_error_kind_display CreateBaseDir = ''Could not create base directory.''"
| "io_error_kind_display FileOpen = ''Could not open file.''"
| "io_error_kind_display Write = ''Could not write to file.''"
| "io_error_kind_display Read = ''Could not read from file.''"
| "io_error_kind_display Remove = ''Could not remove file.''"
| "io_error_kind_display Seek = ''Could not seek in file.''"

fun os_error_kind_display :: "os_error_kind \<Rightarrow> string" where
  "os_error_kind_display OsNotFound = ''entity not found''"
| "os_error_kind_display UnexpectedEof = ''unexpected end of file''"

fun infisto_error_display :: "infisto_error \<Rightarrow> string" where
  "infisto_error_display (IoError k e) = ''IO Error. '' @ io_error_kind_display k @ ''. '' @ os_error_kind_display e"
| "infisto_error_display Serialize = ''Could not serialize index''"

definition from_infisto :: "infisto_error \<Rightarrow> openvasd_error" where
  "from_infisto e = StorageFailure (infisto_error_display e)"

record file_serde =
  sd_scan :: "scan serde"
  sd_status :: "status serde"
  sd_id :: "string serde"
  sd_idmap :: "(string \<times> string) serde"

record ('s, 'e) file_state =
  fo_storage :: 's
  fo_underlying :: "'e inmemory"

definition new_file_state :: "'s \<Rightarrow> feed_hash list \<Rightarrow> ('s, 'e) file_state" where
  "new_file_state s feeds = \<lparr>fo_storage = s, fo_underlying = new_inmemory feeds\<rparr>"

definition scan_key :: "string \<Rightarrow> string" where
  "scan_key i = ''scan_'' @ i"

definition status_key :: "string \<Rightarrow> string" where
  "status_key i = ''status_'' @ i"

definition results_key :: "string \<Rightarrow> string" where
  "results_key i = ''results_'' @ i"

subsection \<open>Reading\<close>

definition results_range :: "nat option \<Rightarrow> nat option \<Rightarrow> range" where
  "results_range from to =
    (case (from, to) of
       (None, None) \<Rightarrow> All
     | (None, Some t) \<Rightarrow> Until t
     | (Some f, None) \<Rightarrow> From f
     | (Some f, Some t) \<Rightarrow> Between f t)"

definition get_results_sync ::
  "'s byte_ops \<Rightarrow> string \<Rightarrow> nat option \<Rightarrow> nat option \<Rightarrow> ('s, 'e) file_state \<Rightarrow> (openvasd_error + bytes list) rs" where
  "get_results_sync ops i from to s =
    rs_bind (iter_by_range ops Some (results_key i) (results_range from to) (fo_storage s)) (\<lambda>r.
      case r of
        Inl e \<Rightarrow> Ret (Inl (from_infisto e))
      | Inr items \<Rightarrow> Ret (Inr (List.map_filter (case_sum (\<lambda>_. None) Some) items)))"

text \<open>\<open>by_range\<close> of all data sets, read as values\<close>

definition read_all :: "'s byte_ops \<Rightarrow> 'a serde \<Rightarrow> string \<Rightarrow> ('s, 'e) file_state \<Rightarrow> (infisto_error + 'a serialization list) rs" where
  "read_all ops sd key s = bo_by_range ops (serialization_try_from sd) key All (fo_storage s)"

definition first_value :: "'a serialization list \<Rightarrow> openvasd_error + 'a" where
  "first_value vs =
    (case vs of
       Deserialized v # _ \<Rightarrow> Inr v
     | Serialized _ # _ \<Rightarrow> Inl Serialization
     | [] \<Rightarrow> Inl ScanNotFound)"

definition fo_get_scan ::
  "'s byte_ops \<Rightarrow> file_serde \<Rightarrow> string \<Rightarrow> ('s, 'e) file_state \<Rightarrow> (openvasd_error + (scan \<times> status)) rs" where
  "fo_get_scan ops sd i s =
    rs_bind (read_all ops (sd_scan sd) (scan_key i) s) (\<lambda>scans.
      case scans of
        Inl e \<Rightarrow> Ret (Inl (from_infisto e))
      | Inr scans \<Rightarrow>
          rs_bind (read_all ops (sd_status sd) (status_key i) s) (\<lambda>status.
            case status of
              Inl e \<Rightarrow> Ret (Inl (from_infisto e))
            | Inr status \<Rightarrow>
                Ret (try_bind (first_value scans) (\<lambda>scan. try_bind (first_value status) (\<lambda>status. Inr (scan, status))))))"

definition fo_get_decrypted_scan ::
  "'s byte_ops \<Rightarrow> file_serde \<Rightarrow> string \<Rightarrow> ('s, 'e) file_state \<Rightarrow> (openvasd_error + (scan \<times> status)) rs" where
  "fo_get_decrypted_scan ops sd i s = fo_get_scan ops sd i s"

definition fo_get_scan_ids :: "'s byte_ops \<Rightarrow> file_serde \<Rightarrow> ('s, 'e) file_state \<Rightarrow> (openvasd_error + string list) rs" where
  "fo_get_scan_ids ops sd s =
    rs_bind (read_all ops (sd_id sd) ''scans'' s) (\<lambda>r.
      case (case r of Inl (IoError FileOpen OsNotFound) \<Rightarrow> Inr [] | _ \<Rightarrow> r) of
        Inl e \<Rightarrow> Ret (Inl (from_infisto e))
      | Inr scans \<Rightarrow>
          Ret (Inr (remdups_adj (sort (List.map_filter (\<lambda>x. case x of Serialized _ \<Rightarrow> None | Deserialized x \<Rightarrow> Some x) scans)))))"

definition fo_get_status ::
  "'s byte_ops \<Rightarrow> file_serde \<Rightarrow> string \<Rightarrow> ('s, 'e) file_state \<Rightarrow> (openvasd_error + status) rs" where
  "fo_get_status ops sd i s =
    rs_bind (read_all ops (sd_status sd) (status_key i) s) (\<lambda>r.
      Ret (case r of Inl e \<Rightarrow> Inl (from_infisto e) | Inr status \<Rightarrow> first_value status))"

subsection \<open>Writing\<close>

text \<open>A sequence of operations on the byte storage that ends with the first error.\<close>

fun try_ops :: "('s \<Rightarrow> (infisto_error + unit) \<times> 's) list \<Rightarrow> 's \<Rightarrow> (infisto_error + unit) \<times> 's" where
  "try_ops [] s = (Inr (), s)"
| "try_ops (f # fs) s = (case f s of (Inl e, s) \<Rightarrow> (Inl e, s) | (Inr _, s) \<Rightarrow> try_ops fs s)"

definition on_storage ::
  "('s \<Rightarrow> (infisto_error + unit) \<times> 's) \<Rightarrow> ('s, 'e) file_state \<Rightarrow> (openvasd_error + unit) \<times> ('s, 'e) file_state" where
  "on_storage f s = (case f (fo_storage s) of (r, st) \<Rightarrow> (map_sum from_infisto id r, s\<lparr>fo_storage := st\<rparr>))"

definition fo_update_status ::
  "'s byte_ops \<Rightarrow> file_serde \<Rightarrow> string \<Rightarrow> status \<Rightarrow> ('s, 'e) file_state \<Rightarrow> (openvasd_error + unit) \<times> ('s, 'e) file_state" where
  "fo_update_status ops sd i st s =
    (case serialize (sd_status sd) st of
       Inl e \<Rightarrow> (Inl (from_infisto e), s)
     | Inr status \<Rightarrow> on_storage (bo_put ops (status_key i) (serialization_as_ref status)) s)"

text \<open>The results of one scan are numbered from the number of stored data sets on.\<close>

fun number_results :: "json \<Rightarrow> nat \<Rightarrow> result list \<Rightarrow> openvasd_error + bytes list" where
  "number_results js n [] = Inr []"
| "number_results js n (r # rs) =
    (case to_vec js (r\<lparr>r_id := n\<rparr>) of
       Inl _ \<Rightarrow> Inl Serialization
     | Inr b \<Rightarrow> try_bind (number_results js (Suc n) rs) (\<lambda>bs. Inr (b # bs)))"

definition stored_results :: "'s byte_ops \<Rightarrow> string \<Rightarrow> 's \<Rightarrow> nat" where
  "stored_results ops i s = (case bo_indices ops (results_key i) s of Inr ix \<Rightarrow> length ix | Inl _ \<Rightarrow> 0)"

fun fo_append_fetched_result ::
  "'s byte_ops \<Rightarrow> file_serde \<Rightarrow> json \<Rightarrow> scan_results list \<Rightarrow> ('s, 'e) file_state \<Rightarrow> (openvasd_error + unit) \<times> ('s, 'e) file_state" where
  "fo_append_fetched_result ops sd js [] s = (Inr (), s)"
| "fo_append_fetched_result ops sd js (r # rs) s =
    (case fo_update_status ops sd (sr_id r) (sr_status r) s of
       (Inl e, s) \<Rightarrow> (Inl e, s)
     | (Inr _, s) \<Rightarrow>
         if sr_results r = [] then fo_append_fetched_result ops sd js rs s
         else
           (case number_results js (stored_results ops (sr_id r) (fo_storage s)) (sr_results r) of
              Inl e \<Rightarrow> (Inl e, s)
            | Inr bs \<Rightarrow>
                (case on_storage (bo_append_all ops (results_key (sr_id r)) bs) s of
                   (Inl e, s) \<Rightarrow> (Inl e, s)
                 | (Inr _, s) \<Rightarrow> fo_append_fetched_result ops sd js rs s)))"

definition fo_insert_scan ::
  "'s byte_ops \<Rightarrow> file_serde \<Rightarrow> scan \<Rightarrow> ('s, 'e) file_state \<Rightarrow> (openvasd_error + unit) \<times> ('s, 'e) file_state" where
  "fo_insert_scan ops sd sp s =
    (case (serialize (sd_scan sd) sp, serialize (sd_status sd) default_status) of
       (Inl e, _) \<Rightarrow> (Inl (from_infisto e), s)
     | (_, Inl e) \<Rightarrow> (Inl (from_infisto e), s)
     | (Inr sc, Inr st) \<Rightarrow>
         on_storage (try_ops [
           bo_put ops (scan_key (scan_id sp)) (serialization_as_ref sc),
           bo_put ops (status_key (scan_id sp)) (serialization_as_ref st),
           (\<lambda>st. case serialize (sd_id sd) (scan_id sp) of
                    Inl e \<Rightarrow> (Inl e, st)
                  | Inr i \<Rightarrow> bo_append ops ''scans'' (serialization_as_ref i) st)]) s)"

text \<open>The error of removing the results is ignored.\<close>

definition fo_remove_scan ::
  "'s byte_ops \<Rightarrow> file_serde \<Rightarrow> string \<Rightarrow> ('s, 'e) file_state \<Rightarrow> ((openvasd_error + unit) \<times> ('s, 'e) file_state) rs" where
  "fo_remove_scan ops sd i s =
    rs_bind (fo_get_scan_ids ops sd s) (\<lambda>r.
      case r of
        Inl e \<Rightarrow> Ret (Inl e, s)
      | Inr ids \<Rightarrow>
          let ids = List.map_filter (\<lambda>x. case serialize (sd_id sd) x of Inr v \<Rightarrow> Some (serialization_as_ref v) | Inl _ \<Rightarrow> None)
                      (filter (\<lambda>x. x \<noteq> i) ids)
          in Ret (on_storage (try_ops [
               (\<lambda>st. (Inr (), snd (bo_remove ops (results_key i) st))),
               bo_remove ops (scan_key i),
               bo_remove ops (status_key i),
               bo_remove ops ''scans'',
               bo_append_all ops ''scans'' ids]) s))"

subsection \<open>Clients\<close>

definition fo_add_scan_client_id ::
  "'s byte_ops \<Rightarrow> file_serde \<Rightarrow> string \<Rightarrow> string \<Rightarrow> ('s, 'e) file_state \<Rightarrow> (openvasd_error + unit) \<times> ('s, 'e) file_state" where
  "fo_add_scan_client_id ops sd sid cid s =
    (case serialize (sd_idmap sd) (cid, sid) of
       Inl e \<Rightarrow> (Inl (from_infisto e), s)
     | Inr v \<Rightarrow> on_storage (bo_append ops ''idmap'' (serialization_as_ref v)) s)"

definition deserialized :: "'a serialization list \<Rightarrow> 'a list" where
  "deserialized = List.map_filter (\<lambda>x. case deserialize x of Inr v \<Rightarrow> Some v | Inl _ \<Rightarrow> None)"

definition fo_remove_scan_id ::
  "'s byte_ops \<Rightarrow> file_serde \<Rightarrow> string \<Rightarrow> ('s, 'e) file_state \<Rightarrow> ((openvasd_error + unit) \<times> ('s, 'e) file_state) rs" where
  "fo_remove_scan_id ops sd sid s =
    rs_bind (read_all ops (sd_idmap sd) ''idmap'' s) (\<lambda>r.
      case r of
        Inl e \<Rightarrow> Ret (Inl (from_infisto e), s)
      | Inr ids \<Rightarrow>
          let new = List.map_filter (\<lambda>x. case serialize (sd_idmap sd) x of Inr v \<Rightarrow> Some (serialization_as_ref v) | Inl _ \<Rightarrow> None)
                      (filter (\<lambda>(_, x). x \<noteq> sid) (deserialized ids))
          in Ret (on_storage (try_ops [bo_remove ops ''idmap'', bo_append_all ops ''idmap'' new]) s))"

definition fo_get_scans_of_client_id ::
  "'s byte_ops \<Rightarrow> file_serde \<Rightarrow> string \<Rightarrow> ('s, 'e) file_state \<Rightarrow> string list rs" where
  "fo_get_scans_of_client_id ops sd cid s =
    rs_bind (read_all ops (sd_idmap sd) ''idmap'' s) (\<lambda>r.
      Ret (map snd (filter (\<lambda>(x, _). x = cid) (deserialized (case r of Inr ids \<Rightarrow> ids | Inl _ \<Rightarrow> [])))))"

definition fo_is_client_allowed ::
  "'s byte_ops \<Rightarrow> file_serde \<Rightarrow> string \<Rightarrow> string \<Rightarrow> ('s, 'e) file_state \<Rightarrow> bool rs" where
  "fo_is_client_allowed ops sd sid cid s =
    rs_bind (fo_get_scans_of_client_id ops sd cid s) (\<lambda>scans. Ret (list_ex (\<lambda>i. i = sid) scans))"

subsection \<open>Feeds and results of running scripts\<close>

definition fo_synchronize_feeds ::
  "(feed_type \<Rightarrow> string \<Rightarrow> default_dispatcher \<Rightarrow> (openvasd_error + unit) \<times> default_dispatcher)
    \<Rightarrow> feed_hash list \<Rightarrow> ('s, 'e) file_state \<Rightarrow> (openvasd_error + unit) \<times> ('s, 'e) file_state" where
  "fo_synchronize_feeds update_feed hash s =
    (case im_synchronize_feeds update_feed hash (fo_underlying s) of (r, u) \<Rightarrow> (r, s\<lparr>fo_underlying := u\<rparr>))"

definition fo_feed_hash :: "('s, 'e) file_state \<Rightarrow> feed_hash list" where
  "fo_feed_hash s = im_feed_hash (fo_underlying s)"

text \<open>\<open>todo!()\<close>\<close>

definition fo_current_feed_version :: "('s, 'e) file_state \<Rightarrow> (openvasd_error + string) rs" where
  "fo_current_feed_version s = Panic"

definition fo_handle_result ::
  "'s byte_ops \<Rightarrow> json \<Rightarrow> context_key \<Rightarrow> result \<Rightarrow> ('s, 'e) file_state \<Rightarrow> (storage_error + unit) \<times> ('s, 'e) file_state" where
  "fo_handle_result ops js key r s =
    (let i = context_key_as_ref key in
     case to_vec js (r\<lparr>r_id := stored_results ops i (fo_storage s)\<rparr>) of
       Inl e \<Rightarrow> (Inl (UnexpectedData (''Unable to serialize results: '' @ e)), s)
     | Inr b \<Rightarrow>
         (case bo_append_all ops (results_key i) [b] (fo_storage s) of
            (r, st) \<Rightarrow> (map_sum (\<lambda>e. Dirty (''Unable to store to disk: '' @ infisto_error_display e)) id r, s\<lparr>fo_storage := st\<rparr>)))"

definition fo_remove_result ::
  "'s byte_ops \<Rightarrow> json \<Rightarrow> context_key \<Rightarrow> nat option \<Rightarrow> ('s, 'e) file_state \<Rightarrow> ((storage_error + result list) \<times> ('s, 'e) file_state) rs" where
  "fo_remove_result ops js key idx s =
    (let i = context_key_as_ref key in
     rs_bind (get_results_sync ops i idx (map_option Suc idx) s) (\<lambda>r.
       case r of
         Inl e \<Rightarrow> Ret (Inl (Dirty (openvasd_error_display e)), s)
       | Inr bytes \<Rightarrow>
           let deleted = List.map_filter (from_slice js) bytes in
           Ret (case idx of
                  Some _ \<Rightarrow> (Inr deleted, s)
                | None \<Rightarrow>
                    (case bo_remove ops (results_key i) (fo_storage s) of
                       (Inl _, st) \<Rightarrow> (Inl (NotFound (results_key i)), s\<lparr>fo_storage := st\<rparr>)
                     | (Inr _, st) \<Rightarrow> (Inr deleted, s\<lparr>fo_storage := st\<rparr>)))))"

section \<open>Lemmas\<close>

lemma keys_distinct [simp]:
  "scan_key i = scan_key j \<longleftrightarrow> i = j" "status_key i = status_key j \<longleftrightarrow> i = j" "results_key i = results_key j \<longleftrightarrow> i = j"
  "scan_key i \<noteq> status_key j" "scan_key i \<noteq> results_key j" "status_key i \<noteq> scan_key j" "status_key i \<noteq> results_key j"
  "results_key i \<noteq> scan_key j" "results_key i \<noteq> status_key j"
  "scan_key i \<noteq> ''scans''" "status_key i \<noteq> ''scans''" "results_key i \<noteq> ''scans''"
  "''scans'' \<noteq> scan_key i" "''scans'' \<noteq> status_key i" "''scans'' \<noteq> results_key i"
  "scan_key i \<noteq> ''idmap''" "status_key i \<noteq> ''idmap''" "results_key i \<noteq> ''idmap''"
  by (simp_all add: scan_key_def status_key_def results_key_def)

text \<open>A value that can be written and read back.\<close>

definition serde_ok :: "'a serde \<Rightarrow> 'a \<Rightarrow> bool" where
  "serde_ok sd t \<longleftrightarrow> (\<exists>v. sd_to_vec sd t = Some v \<and> sd_from_slice sd v = Some t)"

definition encoded :: "'a serde \<Rightarrow> 'a \<Rightarrow> bytes" where
  "encoded sd t = the (sd_to_vec sd t)"

lemma serde_okD: "serde_ok sd t \<Longrightarrow> serialize sd t = Inr (Serialized (encoded sd t)) \<and> sd_from_slice sd (encoded sd t) = Some t"
  by (auto simp: serde_ok_def serialize_def encoded_def)

lemma convert_encoded:
  assumes "list_all (serde_ok sd) ts"
  shows "convert_all strict (serialization_try_from sd) (map (encoded sd) ts) = Inr (map Deserialized ts)"
proof -
  have "serialization_try_from sd (encoded sd t) = Some (Deserialized t)" if "t \<in> set ts" for t
    using assms that by (simp add: serialization_try_from_def serde_okD list_all_iff)
  then show ?thesis by (simp add: convert_all_def convert_ok_def list_all_iff filter_map o_def cong: map_cong)
qed

lemma map_filter_encoded:
  "list_all (serde_ok sd) ts \<Longrightarrow>
    List.map_filter (\<lambda>x. case serialize sd x of Inr v \<Rightarrow> Some (serialization_as_ref v) | Inl _ \<Rightarrow> None) ts = map (encoded sd) ts"
  by (induction ts) (simp_all add: List.map_filter_simps serde_okD serialization_as_ref_def)

lemma deserialized_map [simp]: "deserialized (map Deserialized ts) = ts"
  by (induction ts) (simp_all add: deserialized_def deserialize_def List.map_filter_simps)

lemma map_filter_deserialized [simp]:
  "List.map_filter (\<lambda>x. case x of Serialized _ \<Rightarrow> None | Deserialized x \<Rightarrow> Some x) (map Deserialized ts) = ts"
  by (induction ts) (simp_all add: List.map_filter_simps)

lemma results_items [simp]: "List.map_filter (case_sum (\<lambda>_. None) Some) (convert_each strict Some bs) = bs"
  by (induction bs) (simp_all add: List.map_filter_simps)

lemma distinct_sorted_dedup: "sorted xs \<Longrightarrow> distinct (remdups_adj xs)" for xs :: "'a :: linorder list"
  by (induction xs rule: remdups_adj.induct) (auto simp: less_le_not_le)

lemma sorted_dedup_filter:
  "remdups_adj (sort (filter P (remdups_adj (sort xs)))) = filter P (remdups_adj (sort xs))" for xs :: "'a :: linorder list"
proof -
  have "sorted (filter P (remdups_adj (sort xs)))" by (intro sorted_wrt_filter sorted_remdups_adj) simp
  moreover have "distinct (filter P (remdups_adj (sort xs)))" by (intro distinct_filter distinct_sorted_dedup) simp
  ultimately show ?thesis by (simp add: sorted_sort_id remdups_adj_distinct)
qed

lemma number_results_enumerate:
  assumes "\<And>r n. r \<in> set rs \<Longrightarrow> to_vec js (r\<lparr>r_id := n\<rparr>) = Inr (enc (r\<lparr>r_id := n\<rparr>))"
  shows "number_results js n rs = Inr (map (\<lambda>(n, r). enc (r\<lparr>r_id := n\<rparr>)) (enumerate n rs))"
  using assms by (induction rs arbitrary: n) (simp_all add: try_bind_def)

section \<open>The storage over a byte storage\<close>

text \<open>The values of the data sets under a key.\<close>

definition holds :: "('s \<Rightarrow> string \<rightharpoonup> bytes list) \<Rightarrow> 'a serde \<Rightarrow> string \<Rightarrow> ('s, 'e) file_state \<Rightarrow> 'a list \<Rightarrow> bool" where
  "holds content sd key s ts \<longleftrightarrow> stored (content (fo_storage s) key) = map (encoded sd) ts \<and> list_all (serde_ok sd) ts"

locale file_scans = byte_storage
begin

lemma read_all_present:
  assumes "inv (fo_storage s)" "content (fo_storage s) key = Some bs"
  shows "read_all ops sd key s = Ret (convert_all strict (serialization_try_from sd) bs)"
  using by_range [OF assms, of "serialization_try_from sd" All] by (simp add: read_all_def range_filter_def)

lemma read_all_values:
  assumes "inv (fo_storage s)" "content (fo_storage s) key \<noteq> None" "holds content sd key s ts"
  shows "read_all ops sd key s = Ret (Inr (map Deserialized ts))"
  using assms by (auto simp: read_all_present convert_encoded holds_def)

lemma read_all_missing:
  "inv (fo_storage s) \<Longrightarrow> content (fo_storage s) key = None \<Longrightarrow> read_all ops sd key s = Ret (Inl (IoError FileOpen OsNotFound))"
  by (simp add: read_all_def by_range_missing)

text \<open>What is read depends on what is stored under the key only.\<close>

lemma read_all_same:
  assumes "inv (fo_storage s)" "inv (fo_storage s')" "content (fo_storage s') key = content (fo_storage s) key"
  shows "read_all ops sd key s' = read_all ops sd key s"
  using assms by (cases "content (fo_storage s) key") (simp_all add: read_all_missing read_all_present)

lemma results_slice:
  assumes "inv (fo_storage s)"
  shows "get_results_sync ops i f t s =
    rs_bind (range_filter (results_range f t) (stored (content (fo_storage s) (results_key i)))) (\<lambda>bs. Ret (Inr bs))"
proof -
  have "rs_bind (rs_bind r (\<lambda>ys. Ret (Inr (convert_each strict Some ys))))
      (\<lambda>r. case r of Inl e \<Rightarrow> Ret (Inl (from_infisto e)) | Inr items \<Rightarrow> Ret (Inr (List.map_filter (case_sum (\<lambda>_. None) Some) items)))
    = rs_bind r (\<lambda>bs. Ret (Inr bs))" for r :: "bytes list rs"
    by (cases r) simp_all
  then show ?thesis using assms by (simp add: get_results_sync_def iter_range)
qed

lemma ids_values:
  assumes "inv (fo_storage s)" "holds content (sd_id sd) ''scans'' s ids"
  shows "fo_get_scan_ids ops sd s = Ret (Inr (remdups_adj (sort ids)))"
proof (cases "content (fo_storage s) ''scans''")
  case None
  then have "ids = []" using assms(2) by (simp add: holds_def)
  then show ?thesis using assms(1) None by (simp add: fo_get_scan_ids_def read_all_missing List.map_filter_simps)
next
  case (Some bs)
  then show ?thesis using read_all_values [OF assms(1) _ assms(2)] by (simp add: fo_get_scan_ids_def)
qed

lemma clients_values:
  assumes "inv (fo_storage s)" "holds content (sd_idmap sd) ''idmap'' s cs"
  shows "fo_get_scans_of_client_id ops sd cid s = Ret (map snd (filter (\<lambda>(c, _). c = cid) cs))"
proof (cases "content (fo_storage s) ''idmap''")
  case None
  then have "cs = []" using assms(2) by (simp add: holds_def)
  then show ?thesis using assms(1) None by (simp add: fo_get_scans_of_client_id_def read_all_missing deserialized_def List.map_filter_simps)
next
  case (Some bs)
  then show ?thesis using read_all_values [OF assms(1) _ assms(2)] by (simp add: fo_get_scans_of_client_id_def)
qed

lemma get_scan_values:
  assumes "inv (fo_storage s)" "content (fo_storage s) (scan_key i) = Some [encoded (sd_scan sd) sp]" "serde_ok (sd_scan sd) sp"
    and "content (fo_storage s) (status_key i) = Some [encoded (sd_status sd) st]" "serde_ok (sd_status sd) st"
  shows "fo_get_scan ops sd i s = Ret (Inr (sp, st))"
proof -
  have "read_all ops (sd_scan sd) (scan_key i) s = Ret (Inr [Deserialized sp])"
    using read_all_values [of s "scan_key i" "sd_scan sd" "[sp]"] assms by (simp add: holds_def)
  moreover have "read_all ops (sd_status sd) (status_key i) s = Ret (Inr [Deserialized st])"
    using read_all_values [of s "status_key i" "sd_status sd" "[st]"] assms by (simp add: holds_def)
  ultimately show ?thesis by (simp add: fo_get_scan_def first_value_def try_bind_def)
qed

lemma get_status_values:
  assumes "inv (fo_storage s)" "content (fo_storage s) (status_key i) = Some [encoded (sd_status sd) st]" "serde_ok (sd_status sd) st"
  shows "fo_get_status ops sd i s = Ret (Inr st)"
  using read_all_values [of s "status_key i" "sd_status sd" "[st]"] assms by (simp add: holds_def fo_get_status_def first_value_def)

lemma get_scan_missing:
  assumes "inv (fo_storage s)" "content (fo_storage s) (scan_key i) = None"
  shows "fo_get_scan ops sd i s = Ret (Inl (from_infisto (IoError FileOpen OsNotFound)))"
  using assms by (simp add: fo_get_scan_def read_all_missing)

lemma get_scan_same:
  assumes "inv (fo_storage s)" "inv (fo_storage s')"
    and "content (fo_storage s') (scan_key i) = content (fo_storage s) (scan_key i)"
    and "content (fo_storage s') (status_key i) = content (fo_storage s) (status_key i)"
  shows "fo_get_scan ops sd i s' = fo_get_scan ops sd i s"
  unfolding fo_get_scan_def read_all_same [OF assms(1,2,3)] read_all_same [OF assms(1,2,4)] ..

lemma on_storage_write:
  assumes "f (fo_storage s) = (Inr (), st)"
  shows "on_storage f s = (Inr (), s\<lparr>fo_storage := st\<rparr>)"
  using assms by (simp add: on_storage_def)

lemma update_status_content:
  assumes "inv (fo_storage s)" "serde_ok (sd_status sd) st"
  obtains s' where "fo_update_status ops sd i st s = (Inr (), s')" "inv (fo_storage s')"
    "content (fo_storage s') = (content (fo_storage s))(status_key i \<mapsto> [encoded (sd_status sd) st])"
proof -
  obtain t where t: "bo_put ops (status_key i) (encoded (sd_status sd) st) (fo_storage s) = (Inr (), t)" "inv t"
      "content t = (content (fo_storage s))(status_key i \<mapsto> [encoded (sd_status sd) st])"
    using put [OF assms(1)] by blast
  then show ?thesis using that [of "s\<lparr>fo_storage := t\<rparr>"] serde_okD [OF assms(2)]
    by (simp add: fo_update_status_def on_storage_write serialization_as_ref_def)
qed

lemma insert_content:
  assumes "inv (fo_storage s)" "serde_ok (sd_scan sd) sp" "serde_ok (sd_status sd) default_status" "serde_ok (sd_id sd) (scan_id sp)"
  obtains s' where "fo_insert_scan ops sd sp s = (Inr (), s')" "inv (fo_storage s')"
    "content (fo_storage s') = (content (fo_storage s))(scan_key (scan_id sp) \<mapsto> [encoded (sd_scan sd) sp],
       status_key (scan_id sp) \<mapsto> [encoded (sd_status sd) default_status],
       ''scans'' \<mapsto> stored (content (fo_storage s) ''scans'') @ [encoded (sd_id sd) (scan_id sp)])"
proof -
  define a where "a = encoded (sd_scan sd) sp"
  define b where "b = encoded (sd_status sd) default_status"
  define c where "c = encoded (sd_id sd) (scan_id sp)"
  obtain s1 where s1: "bo_put ops (scan_key (scan_id sp)) a (fo_storage s) = (Inr (), s1)" "inv s1"
      "content s1 = (content (fo_storage s))(scan_key (scan_id sp) \<mapsto> [a])" using put [OF assms(1)] by blast
  obtain s2 where s2: "bo_put ops (status_key (scan_id sp)) b s1 = (Inr (), s2)" "inv s2"
      "content s2 = (content s1)(status_key (scan_id sp) \<mapsto> [b])" using put [OF s1(2)] by blast
  obtain s3 where s3: "bo_append ops ''scans'' c s2 = (Inr (), s3)" "inv s3"
      "content s3 = (content s2)(''scans'' \<mapsto> stored (content s2 ''scans'') @ [c])" using append [OF s2(2)] by blast
  have "fo_insert_scan ops sd sp s = (Inr (), s\<lparr>fo_storage := s3\<rparr>)"
    using serde_okD [OF assms(2)] serde_okD [OF assms(3)] serde_okD [OF assms(4)] s1(1) s2(1) s3(1)
    by (simp add: fo_insert_scan_def serialization_as_ref_def a_def b_def c_def on_storage_def)
  then show ?thesis using that [of "s\<lparr>fo_storage := s3\<rparr>"] s3(2,3) by (simp add: s1(3) s2(3) a_def b_def c_def)
qed

lemma remove_any: "inv t \<Longrightarrow> inv (snd (bo_remove ops k t)) \<and> content (snd (bo_remove ops k t)) = (content t)(k := None)"
  using run_op [of t "RemoveKey k"] by simp

lemma append_any:
  assumes "inv t"
  obtains t' where "bo_append_all ops k bs t = (Inr (), t')" "inv t'" "content t' = map_op (AppendAll k bs) (content t)"
proof (cases "bs = []")
  case True
  then show ?thesis using append_nil [OF assms, of k] that by auto
next
  case False
  then show ?thesis using append_all [OF assms False, of k] that by auto
qed

lemma remove_content:
  assumes "inv (fo_storage s)" "holds content (sd_id sd) ''scans'' s ids"
    and "content (fo_storage s) (scan_key i) \<noteq> None" "content (fo_storage s) (status_key i) \<noteq> None"
    and "content (fo_storage s) ''scans'' \<noteq> None"
  obtains s' where "fo_remove_scan ops sd i s = Ret (Inr (), s')" "inv (fo_storage s')"
    "content (fo_storage s') = map_op (AppendAll ''scans'' (map (encoded (sd_id sd)) (filter (\<lambda>x. x \<noteq> i) (remdups_adj (sort ids)))))
       ((content (fo_storage s))(results_key i := None, scan_key i := None, status_key i := None, ''scans'' := None))"
proof -
  define new where "new = filter (\<lambda>x. x \<noteq> i) (remdups_adj (sort ids))"
  have "list_all (serde_ok (sd_id sd)) new" using assms(2) by (auto simp: holds_def list_all_iff new_def)
  note enc = map_filter_encoded [OF this]
  define s1 where "s1 = snd (bo_remove ops (results_key i) (fo_storage s))"
  have s1: "inv s1" "content s1 = (content (fo_storage s))(results_key i := None)"
    using remove_any [OF assms(1)] by (simp_all add: s1_def)
  obtain s2 where s2: "bo_remove ops (scan_key i) s1 = (Inr (), s2)" "inv s2" "content s2 = (content s1)(scan_key i := None)"
    using remove [OF s1(1), of "scan_key i"] assms(3) s1(2) by auto
  obtain s3 where s3: "bo_remove ops (status_key i) s2 = (Inr (), s3)" "inv s3" "content s3 = (content s2)(status_key i := None)"
    using remove [OF s2(2), of "status_key i"] assms(4) s2(3) s1(2) by auto
  obtain s4 where s4: "bo_remove ops ''scans'' s3 = (Inr (), s4)" "inv s4" "content s4 = (content s3)(''scans'' := None)"
    using remove [OF s3(2), of "''scans''"] assms(5) s3(3) s2(3) s1(2) by auto
  obtain s5 where s5: "bo_append_all ops ''scans'' (map (encoded (sd_id sd)) new) s4 = (Inr (), s5)" "inv s5"
      "content s5 = map_op (AppendAll ''scans'' (map (encoded (sd_id sd)) new)) (content s4)"
    using append_any [OF s4(2)] .
  have "fo_remove_scan ops sd i s = Ret (Inr (), s\<lparr>fo_storage := s5\<rparr>)"
    using s2(1) s3(1) s4(1) s5(1)
    by (simp add: fo_remove_scan_def ids_values [OF assms(1,2)] new_def [symmetric] enc on_storage_def s1_def [symmetric])
  moreover have "content s5 = map_op (AppendAll ''scans'' (map (encoded (sd_id sd)) new))
      ((content (fo_storage s))(results_key i := None, scan_key i := None, status_key i := None, ''scans'' := None))"
    by (simp only: s5(3) s4(3) s3(3) s2(3) s1(2))
  ultimately show ?thesis using that [of "s\<lparr>fo_storage := s5\<rparr>"] s5(2) by (simp only: new_def file_state.select_convs file_state.update_convs) simp
qed

lemma scan_present:
  assumes "inv (fo_storage s)" "fo_get_scan ops sd i s = Ret (Inr p)"
  shows "content (fo_storage s) (scan_key i) \<noteq> None" "content (fo_storage s) (status_key i) \<noteq> None"
proof -
  show "content (fo_storage s) (scan_key i) \<noteq> None" using assms get_scan_missing by force
  show "content (fo_storage s) (status_key i) \<noteq> None"
  proof
    assume "content (fo_storage s) (status_key i) = None"
    then show False
      using assms by (cases "read_all ops (sd_scan sd) (scan_key i) s") (auto simp: fo_get_scan_def read_all_missing split: sum.splits)
  qed
qed

lemma holds_present: "holds content sd key s ts \<Longrightarrow> t \<in> set ts \<Longrightarrow> content (fo_storage s) key \<noteq> None"
  by (cases "content (fo_storage s) key") (auto simp: holds_def)

lemma stored_results_length: "inv (fo_storage s) \<Longrightarrow> stored_results ops i (fo_storage s) = length (stored (content (fo_storage s) (results_key i)))"
  using indices [of "fo_storage s" "results_key i"] indices_missing [of "fo_storage s" "results_key i"]
  by (cases "content (fo_storage s) (results_key i)") (auto simp: stored_results_def)

lemma append_results_content:
  assumes "inv (fo_storage s)" "serde_ok (sd_status sd) (sr_status x)"
    and "\<And>r n. r \<in> set (sr_results x) \<Longrightarrow> to_vec js (r\<lparr>r_id := n\<rparr>) = Inr (enc (r\<lparr>r_id := n\<rparr>))"
  obtains s' where "fo_append_fetched_result ops sd js [x] s = (Inr (), s')" "inv (fo_storage s')"
    "content (fo_storage s') = map_op (AppendAll (results_key (sr_id x))
         (map (\<lambda>(n, r). enc (r\<lparr>r_id := n\<rparr>)) (enumerate (length (stored (content (fo_storage s) (results_key (sr_id x))))) (sr_results x))))
       ((content (fo_storage s))(status_key (sr_id x) \<mapsto> [encoded (sd_status sd) (sr_status x)]))"
proof -
  define old where "old = stored (content (fo_storage s) (results_key (sr_id x)))"
  define new where "new = map (\<lambda>(n, r). enc (r\<lparr>r_id := n\<rparr>)) (enumerate (length old) (sr_results x))"
  obtain s1 where s1: "fo_update_status ops sd (sr_id x) (sr_status x) s = (Inr (), s1)" "inv (fo_storage s1)"
      "content (fo_storage s1) = (content (fo_storage s))(status_key (sr_id x) \<mapsto> [encoded (sd_status sd) (sr_status x)])"
    using update_status_content [OF assms(1,2)] .
  have "stored_results ops (sr_id x) (fo_storage s1) = length old"
    using stored_results_length [OF s1(2)] s1(3) by (simp add: old_def)
  then have num: "number_results js (stored_results ops (sr_id x) (fo_storage s1)) (sr_results x) = Inr new"
    using number_results_enumerate [where js = js and enc = enc and rs = "sr_results x"] assms(3) by (simp add: new_def)
  show ?thesis
  proof (cases "sr_results x = []")
    case True
    then show ?thesis using that [of s1] s1 by simp
  next
    case False
    obtain t where t: "bo_append_all ops (results_key (sr_id x)) new (fo_storage s1) = (Inr (), t)" "inv t"
        "content t = map_op (AppendAll (results_key (sr_id x)) new) (content (fo_storage s1))"
      using append_any [OF s1(2)] .
    have "fo_append_fetched_result ops sd js [x] s = (Inr (), s1\<lparr>fo_storage := t\<rparr>)"
      using False s1(1) num t(1) by (simp add: on_storage_def)
    then show ?thesis using that [of "s1\<lparr>fo_storage := t\<rparr>"] t(2,3) s1(3) by (simp only: new_def old_def) simp
  qed
qed

lemma add_client_content:
  assumes "inv (fo_storage s)" "serde_ok (sd_idmap sd) (cid, sid)" "holds content (sd_idmap sd) ''idmap'' s cs"
  obtains s' where "fo_add_scan_client_id ops sd sid cid s = (Inr (), s')" "inv (fo_storage s')"
    "holds content (sd_idmap sd) ''idmap'' s' (cs @ [(cid, sid)])"
proof -
  obtain t where t: "bo_append ops ''idmap'' (encoded (sd_idmap sd) (cid, sid)) (fo_storage s) = (Inr (), t)" "inv t"
      "content t = (content (fo_storage s))(''idmap'' \<mapsto> stored (content (fo_storage s) ''idmap'') @ [encoded (sd_idmap sd) (cid, sid)])"
    using append [OF assms(1)] by blast
  have "fo_add_scan_client_id ops sd sid cid s = (Inr (), s\<lparr>fo_storage := t\<rparr>)"
    using serde_okD [OF assms(2)] t(1) by (simp add: fo_add_scan_client_id_def on_storage_def serialization_as_ref_def)
  then show ?thesis using that [of "s\<lparr>fo_storage := t\<rparr>"] t(2,3) assms(2,3) by (simp add: holds_def)
qed

lemma remove_client_content:
  assumes "inv (fo_storage s)" "holds content (sd_idmap sd) ''idmap'' s cs" "content (fo_storage s) ''idmap'' \<noteq> None"
  obtains s' where "fo_remove_scan_id ops sd sid s = Ret (Inr (), s')" "inv (fo_storage s')"
    "holds content (sd_idmap sd) ''idmap'' s' (filter (\<lambda>(_, x). x \<noteq> sid) cs)"
    "\<And>k. k \<noteq> ''idmap'' \<Longrightarrow> content (fo_storage s') k = content (fo_storage s) k"
proof -
  define new where "new = filter (\<lambda>(_, x). x \<noteq> sid) cs"
  have ok: "list_all (serde_ok (sd_idmap sd)) new" using assms(2) by (auto simp: holds_def list_all_iff new_def)
  note enc = map_filter_encoded [OF ok]
  obtain s1 where s1: "bo_remove ops ''idmap'' (fo_storage s) = (Inr (), s1)" "inv s1" "content s1 = (content (fo_storage s))(''idmap'' := None)"
    using remove [OF assms(1,3)] by blast
  obtain s2 where s2: "bo_append_all ops ''idmap'' (map (encoded (sd_idmap sd)) new) s1 = (Inr (), s2)" "inv s2"
      "content s2 = map_op (AppendAll ''idmap'' (map (encoded (sd_idmap sd)) new)) (content s1)"
    using append_any [OF s1(2)] .
  have "fo_remove_scan_id ops sd sid s = Ret (Inr (), s\<lparr>fo_storage := s2\<rparr>)"
    using s1(1) s2(1)
    by (simp add: fo_remove_scan_id_def read_all_values [OF assms(1,3,2)] new_def [symmetric] enc on_storage_def)
  moreover have "holds content (sd_idmap sd) ''idmap'' (s\<lparr>fo_storage := s2\<rparr>) new"
    using ok s2(3) s1(3) by (simp add: holds_def)
  moreover have "content s2 k = content (fo_storage s) k" if "k \<noteq> ''idmap''" for k using that s2(3) s1(3) by simp
  ultimately show ?thesis using that [of "s\<lparr>fo_storage := s2\<rparr>"] s2(2) by (simp add: new_def)
qed

lemma allowed_values:
  assumes "inv (fo_storage s)" "holds content (sd_idmap sd) ''idmap'' s cs"
  shows "fo_is_client_allowed ops sd sid cid s = Ret ((cid, sid) \<in> set cs)"
  by (force simp: fo_is_client_allowed_def clients_values [OF assms] list_ex_iff)

end

interpretation plain_files: file_scans "file_ops ij" "fs_content ij" "fs_inv ij" True for ij
  by unfold_locales

interpretation encrypted_scans: file_scans "chacha_ops ks secret (file_ops ij)" "chacha_content ks secret (fs_content ij)"
    "chacha_inv (fs_content ij) (fs_inv ij)" False for ij ks secret
  by unfold_locales

section \<open>Properties\<close>

text \<open>The properties are stated for the encrypted storage; \<open>encrypted_db\<close> is its operations, \<open>encrypted_valid\<close> its
  invariant and \<open>encrypted_view\<close> what it stores.\<close>

abbreviation encrypted_db :: "keystream \<Rightarrow> bytes \<Rightarrow> index_json \<Rightarrow> directory chacha byte_ops" where
  "encrypted_db ks key ij \<equiv> chacha_ops ks key (file_ops ij)"

abbreviation encrypted_valid :: "index_json \<Rightarrow> (directory chacha, 'e) file_state \<Rightarrow> bool" where
  "encrypted_valid ij s \<equiv> chacha_inv (fs_content ij) (fs_inv ij) (fo_storage s)"

abbreviation encrypted_view :: "keystream \<Rightarrow> bytes \<Rightarrow> index_json \<Rightarrow> directory chacha \<Rightarrow> string \<rightharpoonup> bytes list" where
  "encrypted_view ks key ij \<equiv> chacha_content ks key (fs_content ij)"

text \<open>A way to write one value, for examples.\<close>

definition const_serde :: "'a \<Rightarrow> 'a serde" where
  "const_serde v = \<lparr>sd_to_vec = (\<lambda>_. Some [1]), sd_from_slice = (\<lambda>_. Some v)\<rparr>"

lemma const_serde_ok: "serde_ok (const_serde v) v"
  by (simp add: serde_ok_def const_serde_def)

definition sample_ks :: keystream where
  "sample_ks k n i = of_nat i + 7"

definition sample_serde :: file_serde where
  "sample_serde = \<lparr>sd_scan = const_serde (sample_scan_model ''s1''), sd_status = const_serde default_status,
     sd_id = const_serde ''s1'', sd_idmap = const_serde (''c1'', ''s1'')\<rparr>"

definition sample_file_state :: "(directory chacha, unit) file_state" where
  "sample_file_state = new_file_state \<lparr>cc_store = Map.empty, cc_nonces = (\<lambda>n. replicate 12 (of_nat n))\<rparr> []"

lemma sample_serde_ok:
  "serde_ok (sd_scan sample_serde) (sample_scan_model ''s1'')" "serde_ok (sd_status sample_serde) default_status"
  "serde_ok (sd_id sample_serde) ''s1''" "serde_ok (sd_idmap sample_serde) (''c1'', ''s1'')"
  by (simp_all add: sample_serde_def const_serde_ok)

lemma sample_valid: "encrypted_valid unary_index sample_file_state"
  by (simp add: sample_file_state_def new_file_state_def chacha_inv_def empty_fs_inv unary_index_laws empty_fs_content)

lemma sample_view: "encrypted_view ks key ij (fo_storage sample_file_state) k = None"
  by (simp add: sample_file_state_def new_file_state_def chacha_content_def empty_fs_content)

text \<open>C31: A scan that was stored in encrypted files is handed out exactly as the client sent it, in phase \<open>Stored\<close>, its id is listed, and
  the scans, the status and the results of all other ids are as before. Storing a scan again resets its status and keeps the
  results of the earlier run.\<close>

theorem file_scan_roundtrip:
  assumes "encrypted_valid ij s"
    and "serde_ok (sd_scan sd) sp" "serde_ok (sd_status sd) default_status" "serde_ok (sd_id sd) (scan_id sp)"
    and "holds (encrypted_view ks key ij) (sd_id sd) ''scans'' s ids"
  shows "\<exists>s'. fo_insert_scan (encrypted_db ks key ij) sd sp s = (Inr (), s') \<and> encrypted_valid ij s'
    \<and> fo_get_decrypted_scan (encrypted_db ks key ij) sd (scan_id sp) s' = Ret (Inr (sp, default_status))
    \<and> fo_get_scan_ids (encrypted_db ks key ij) sd s' = Ret (Inr (remdups_adj (sort (ids @ [scan_id sp]))))
    \<and> (\<forall>j. j \<noteq> scan_id sp \<longrightarrow> fo_get_scan (encrypted_db ks key ij) sd j s' = fo_get_scan (encrypted_db ks key ij) sd j s)
    \<and> (\<forall>j f t. get_results_sync (encrypted_db ks key ij) j f t s' = get_results_sync (encrypted_db ks key ij) j f t s)"
proof -
  obtain s' where s': "fo_insert_scan (encrypted_db ks key ij) sd sp s = (Inr (), s')" "encrypted_valid ij s'"
    "encrypted_view ks key ij (fo_storage s') = (encrypted_view ks key ij (fo_storage s))(scan_key (scan_id sp) \<mapsto> [encoded (sd_scan sd) sp],
       status_key (scan_id sp) \<mapsto> [encoded (sd_status sd) default_status],
       ''scans'' \<mapsto> stored (encrypted_view ks key ij (fo_storage s) ''scans'') @ [encoded (sd_id sd) (scan_id sp)])"
    using encrypted_scans.insert_content [OF assms(1-4)] .
  have "fo_get_scan (encrypted_db ks key ij) sd (scan_id sp) s' = Ret (Inr (sp, default_status))"
    by (rule encrypted_scans.get_scan_values [OF s'(2) _ assms(2) _ assms(3)]) (simp_all add: s'(3))
  moreover have "holds (encrypted_view ks key ij) (sd_id sd) ''scans'' s' (ids @ [scan_id sp])"
    using assms(4,5) by (simp add: holds_def s'(3))
  then have "fo_get_scan_ids (encrypted_db ks key ij) sd s' = Ret (Inr (remdups_adj (sort (ids @ [scan_id sp]))))"
    by (rule encrypted_scans.ids_values [OF s'(2)])
  moreover have "fo_get_scan (encrypted_db ks key ij) sd j s' = fo_get_scan (encrypted_db ks key ij) sd j s" if "j \<noteq> scan_id sp" for j
    by (rule encrypted_scans.get_scan_same [OF assms(1) s'(2)]) (use that in \<open>simp_all add: s'(3)\<close>)
  moreover have "get_results_sync (encrypted_db ks key ij) j f t s' = get_results_sync (encrypted_db ks key ij) j f t s" for j f t
    by (simp add: encrypted_scans.results_slice assms(1) s'(2,3))
  ultimately show ?thesis using s'(1,2) by (simp add: fo_get_decrypted_scan_def)
qed

theorem file_scan_roundtrip_witness:
  "encrypted_valid unary_index sample_file_state \<and> holds (encrypted_view sample_ks [1] unary_index) (sd_id sample_serde) ''scans'' sample_file_state []
    \<and> (\<exists>s'. fo_insert_scan (encrypted_db sample_ks [1] unary_index) sample_serde (sample_scan_model ''s1'') sample_file_state = (Inr (), s')
      \<and> fo_get_decrypted_scan (encrypted_db sample_ks [1] unary_index) sample_serde ''s1'' s' = Ret (Inr (sample_scan_model ''s1'', default_status)))"
proof -
  have "scan_id (sample_scan_model ''s1'') = ''s1''" by (simp add: sample_scan_model_def)
  moreover have "holds (encrypted_view sample_ks [1] unary_index) (sd_id sample_serde) ''scans'' sample_file_state []"
    by (simp add: holds_def sample_view)
  ultimately show ?thesis
    using file_scan_roundtrip [OF sample_valid sample_serde_ok(1,2)] sample_serde_ok(3) sample_valid by fastforce
qed

text \<open>C32: The results that a fetch brings for a scan are appended in order and numbered on from the number of results stored before, so the
  number of a result is its position in the file; the status is replaced, and the results of other scans are as
  before.\<close>

theorem file_results_appended:
  assumes "encrypted_valid ij s" "serde_ok (sd_status sd) (sr_status x)"
    and "\<forall>r \<in> set (sr_results x). \<forall>n. to_vec js (r\<lparr>r_id := n\<rparr>) = Inr (enc (r\<lparr>r_id := n\<rparr>))"
    and "get_results_sync (encrypted_db ks key ij) (sr_id x) None None s = Ret (Inr old)"
  shows "\<exists>s'. fo_append_fetched_result (encrypted_db ks key ij) sd js [x] s = (Inr (), s') \<and> encrypted_valid ij s'
    \<and> get_results_sync (encrypted_db ks key ij) (sr_id x) None None s' =
        Ret (Inr (old @ map (\<lambda>(n, r). enc (r\<lparr>r_id := n\<rparr>)) (enumerate (length old) (sr_results x))))
    \<and> fo_get_status (encrypted_db ks key ij) sd (sr_id x) s' = Ret (Inr (sr_status x))
    \<and> (\<forall>j f t. j \<noteq> sr_id x \<longrightarrow> get_results_sync (encrypted_db ks key ij) j f t s' = get_results_sync (encrypted_db ks key ij) j f t s)"
proof -
  have old: "stored (encrypted_view ks key ij (fo_storage s) (results_key (sr_id x))) = old"
    using assms(4) encrypted_scans.results_slice [OF assms(1), of ks key "sr_id x" None None] by (simp add: results_range_def range_filter_def)
  obtain s' where s': "fo_append_fetched_result (encrypted_db ks key ij) sd js [x] s = (Inr (), s')" "encrypted_valid ij s'"
    "encrypted_view ks key ij (fo_storage s') = map_op (AppendAll (results_key (sr_id x))
         (map (\<lambda>(n, r). enc (r\<lparr>r_id := n\<rparr>)) (enumerate (length old) (sr_results x))))
       ((encrypted_view ks key ij (fo_storage s))(status_key (sr_id x) \<mapsto> [encoded (sd_status sd) (sr_status x)]))"
    using encrypted_scans.append_results_content [where js = js and enc = enc and ks = ks and secret = key and x = x, OF assms(1,2)]
      assms(3) unfolding old by metis
  have "fo_get_status (encrypted_db ks key ij) sd (sr_id x) s' = Ret (Inr (sr_status x))"
    by (rule encrypted_scans.get_status_values [OF s'(2) _ assms(2)]) (simp add: s'(3))
  moreover have "get_results_sync (encrypted_db ks key ij) (sr_id x) None None s' =
      Ret (Inr (old @ map (\<lambda>(n, r). enc (r\<lparr>r_id := n\<rparr>)) (enumerate (length old) (sr_results x))))"
    using old by (simp add: encrypted_scans.results_slice s'(2,3) results_range_def range_filter_def)
  moreover have "get_results_sync (encrypted_db ks key ij) j f t s' = get_results_sync (encrypted_db ks key ij) j f t s" if "j \<noteq> sr_id x" for j f t
    using that by (simp add: encrypted_scans.results_slice assms(1) s'(2,3))
  ultimately show ?thesis using s'(1,2) by blast
qed

theorem file_results_appended_witness:
  "encrypted_valid unary_index sample_file_state
    \<and> get_results_sync (encrypted_db sample_ks [1] unary_index) ''s1'' None None sample_file_state = Ret (Inr [])
    \<and> (\<exists>s'. fo_append_fetched_result (encrypted_db sample_ks [1] unary_index) sample_serde \<lparr>to_vec = \<lambda>r. Inr [of_nat (r_id r)], from_slice = \<lambda>_. None\<rparr>
        [\<lparr>sr_id = ''s1'', sr_status = default_status, sr_results = [sample_result, sample_result]\<rparr>] sample_file_state = (Inr (), s')
      \<and> get_results_sync (encrypted_db sample_ks [1] unary_index) ''s1'' None None s' = Ret (Inr [[0], [1]]))"
proof -
  have "get_results_sync (encrypted_db sample_ks [1] unary_index) ''s1'' None None sample_file_state = Ret (Inr [])"
    using encrypted_scans.results_slice [OF sample_valid] by (simp add: sample_view results_range_def range_filter_def)
  then show ?thesis
    using file_results_appended [OF sample_valid, of sample_serde "\<lparr>sr_id = ''s1'', sr_status = default_status, sr_results = [sample_result, sample_result]\<rparr>"
        "\<lparr>to_vec = \<lambda>r. Inr [of_nat (r_id r)], from_slice = \<lambda>_. None\<rparr>" "\<lambda>r. [of_nat (r_id r)]" sample_ks "[1]" "[]"]
      sample_serde_ok(2) sample_valid by auto
qed

text \<open>C33: The results from \<open>f\<close> to \<open>t\<close> are that slice of the stored results, as they are for the in-memory storage, with one exception: when
  both are given, \<open>f\<close> is beyond \<open>t\<close> and there are more than \<open>f\<close> results, the request panics instead of being answered with an
  empty list. An id without results, known or not, has an empty list.\<close>

theorem file_results_slice:
  fixes s :: "(directory chacha, 'e) file_state"
  assumes "encrypted_valid ij s" "get_results_sync (encrypted_db ks key ij) i None None s = Ret (Inr bs)"
  shows "get_results_sync (encrypted_db ks key ij) i f t s =
    (if \<exists>f' t'. f = Some f' \<and> t = Some t' \<and> f' < length bs \<and> t' < f' then Panic
     else Ret (Inr (drop (case f of Some n \<Rightarrow> n | None \<Rightarrow> 0) (take (case t of Some n \<Rightarrow> n | None \<Rightarrow> length bs) bs))))"
proof -
  have "stored (encrypted_view ks key ij (fo_storage s) (results_key i)) = bs"
    using assms(2) encrypted_scans.results_slice [OF assms(1), of ks key i None None] by (simp add: results_range_def range_filter_def)
  then show ?thesis
    by (cases f; cases t) (auto simp: encrypted_scans.results_slice [OF assms(1)] results_range_def range_filter_def Let_def)
qed

theorem file_results_slice_witness:
  "encrypted_valid unary_index sample_file_state \<and>
    get_results_sync (encrypted_db sample_ks [1] unary_index) ''s1'' (Some 2) (Some 1) sample_file_state = Ret (Inr [])"
proof -
  have "get_results_sync (encrypted_db sample_ks [1] unary_index) ''s1'' None None sample_file_state = Ret (Inr [])"
    using encrypted_scans.results_slice [OF sample_valid] by (simp add: sample_view results_range_def range_filter_def)
  from file_results_slice [OF sample_valid this] show ?thesis using sample_valid by simp
qed

text \<open>C34: A scan that is removed is gone: it is not found, its results are gone and its id is not listed, while all other scans and
  their results are as before. The error that reports it is a storage error, not the one for an unknown scan.\<close>

theorem file_scan_removed:
  fixes s :: "(directory chacha, 'e) file_state"
  assumes "encrypted_valid ij s" "holds (encrypted_view ks key ij) (sd_id sd) ''scans'' s ids" "i \<in> set ids"
    and "fo_get_scan (encrypted_db ks key ij) sd i s = Ret (Inr (sp, st))"
  shows "\<exists>s'. fo_remove_scan (encrypted_db ks key ij) sd i s = Ret (Inr (), s') \<and> encrypted_valid ij s'
    \<and> fo_get_scan (encrypted_db ks key ij) sd i s' = Ret (Inl (StorageFailure ''IO Error. Could not open file.. entity not found''))
    \<and> get_results_sync (encrypted_db ks key ij) i None None s' = Ret (Inr [])
    \<and> fo_get_scan_ids (encrypted_db ks key ij) sd s' = Ret (Inr (filter (\<lambda>x. x \<noteq> i) (remdups_adj (sort ids))))
    \<and> (\<forall>j. j \<noteq> i \<longrightarrow> fo_get_scan (encrypted_db ks key ij) sd j s' = fo_get_scan (encrypted_db ks key ij) sd j s
        \<and> (\<forall>f t. get_results_sync (encrypted_db ks key ij) j f t s' = get_results_sync (encrypted_db ks key ij) j f t s))"
proof -
  have present: "encrypted_view ks key ij (fo_storage s) (scan_key i) \<noteq> None"
      "encrypted_view ks key ij (fo_storage s) (status_key i) \<noteq> None" "encrypted_view ks key ij (fo_storage s) ''scans'' \<noteq> None"
    using encrypted_scans.scan_present [OF assms(1,4)] encrypted_scans.holds_present [OF assms(2,3)] by simp_all
  define new where "new = filter (\<lambda>x. x \<noteq> i) (remdups_adj (sort ids))"
  obtain s' where s': "fo_remove_scan (encrypted_db ks key ij) sd i s = Ret (Inr (), s')" "encrypted_valid ij s'"
    "encrypted_view ks key ij (fo_storage s') = map_op (AppendAll ''scans'' (map (encoded (sd_id sd)) new))
       ((encrypted_view ks key ij (fo_storage s))(results_key i := None, scan_key i := None, status_key i := None, ''scans'' := None))"
    using encrypted_scans.remove_content [OF assms(1,2) present] unfolding new_def .
  have "fo_get_scan (encrypted_db ks key ij) sd i s' = Ret (Inl (from_infisto (IoError FileOpen OsNotFound)))"
    by (rule encrypted_scans.get_scan_missing [OF s'(2)]) (simp add: s'(3))
  moreover have "holds (encrypted_view ks key ij) (sd_id sd) ''scans'' s' new"
    using assms(2) by (auto simp: holds_def s'(3) new_def list_all_iff)
  then have "fo_get_scan_ids (encrypted_db ks key ij) sd s' = Ret (Inr (remdups_adj (sort new)))"
    by (rule encrypted_scans.ids_values [OF s'(2)])
  moreover have "remdups_adj (sort new) = new"
    unfolding new_def by (rule sorted_dedup_filter)
  moreover have "fo_get_scan (encrypted_db ks key ij) sd j s' = fo_get_scan (encrypted_db ks key ij) sd j s" if "j \<noteq> i" for j
    by (rule encrypted_scans.get_scan_same [OF assms(1) s'(2)]) (use that in \<open>simp_all add: s'(3)\<close>)
  moreover have "get_results_sync (encrypted_db ks key ij) j f t s' = get_results_sync (encrypted_db ks key ij) j f t s" if "j \<noteq> i" for j f t
    using that by (simp add: encrypted_scans.results_slice assms(1) s'(2,3))
  moreover have "get_results_sync (encrypted_db ks key ij) i None None s' = Ret (Inr [])"
    by (simp add: encrypted_scans.results_slice s'(2,3) results_range_def range_filter_def)
  ultimately show ?thesis using s'(1,2) by (simp add: new_def from_infisto_def)
qed

theorem file_scan_removed_witness:
  "\<exists>s0 s'. fo_insert_scan (encrypted_db sample_ks [1] unary_index) sample_serde (sample_scan_model ''s1'') sample_file_state = (Inr (), s0)
    \<and> fo_remove_scan (encrypted_db sample_ks [1] unary_index) sample_serde ''s1'' s0 = Ret (Inr (), s')
    \<and> fo_get_scan_ids (encrypted_db sample_ks [1] unary_index) sample_serde s' = Ret (Inr [])"
proof -
  have i: "scan_id (sample_scan_model ''s1'') = ''s1''" by (simp add: sample_scan_model_def)
  have ok: "serde_ok (sd_id sample_serde) (scan_id (sample_scan_model ''s1''))" using sample_serde_ok(3) by (simp add: i)
  obtain s0 where s0: "fo_insert_scan (encrypted_db sample_ks [1] unary_index) sample_serde (sample_scan_model ''s1'') sample_file_state = (Inr (), s0)"
    "encrypted_valid unary_index s0"
    "encrypted_view sample_ks [1] unary_index (fo_storage s0) = (encrypted_view sample_ks [1] unary_index (fo_storage sample_file_state))
      (scan_key ''s1'' \<mapsto> [encoded (sd_scan sample_serde) (sample_scan_model ''s1'')],
       status_key ''s1'' \<mapsto> [encoded (sd_status sample_serde) default_status],
       ''scans'' \<mapsto> stored (encrypted_view sample_ks [1] unary_index (fo_storage sample_file_state) ''scans'') @ [encoded (sd_id sample_serde) ''s1''])"
    using encrypted_scans.insert_content [OF sample_valid sample_serde_ok(1,2) ok] unfolding i .
  have "holds (encrypted_view sample_ks [1] unary_index) (sd_id sample_serde) ''scans'' s0 [''s1'']"
    using sample_serde_ok(3) by (simp add: holds_def s0(3) sample_view)
  moreover have "fo_get_scan (encrypted_db sample_ks [1] unary_index) sample_serde ''s1'' s0 = Ret (Inr (sample_scan_model ''s1'', default_status))"
    by (rule encrypted_scans.get_scan_values [OF s0(2) _ sample_serde_ok(1) _ sample_serde_ok(2)]) (simp_all add: s0(3))
  ultimately show ?thesis using file_scan_removed [OF s0(2), of _ _ sample_serde "[''s1'']" "''s1''"] s0(1) by fastforce
qed

text \<open>Once a scan was taken from the clients, no client is allowed to access it, and every client is allowed to access the same other
  scans as before.\<close>

theorem file_client_removed:
  fixes s :: "(directory chacha, 'e) file_state"
  assumes "encrypted_valid ij s" "holds (encrypted_view ks key ij) (sd_idmap sd) ''idmap'' s cs" "cs \<noteq> []"
  shows "\<exists>s'. fo_remove_scan_id (encrypted_db ks key ij) sd sid s = Ret (Inr (), s') \<and> encrypted_valid ij s'
    \<and> (\<forall>j c. fo_is_client_allowed (encrypted_db ks key ij) sd j c s' =
        (if j = sid then Ret False else fo_is_client_allowed (encrypted_db ks key ij) sd j c s))"
proof -
  obtain c where "c \<in> set cs" using assms(3) by (cases cs) auto
  from encrypted_scans.holds_present [OF assms(2) this] obtain s' where
    s': "fo_remove_scan_id (encrypted_db ks key ij) sd sid s = Ret (Inr (), s')" "encrypted_valid ij s'"
      "holds (encrypted_view ks key ij) (sd_idmap sd) ''idmap'' s' (filter (\<lambda>(_, x). x \<noteq> sid) cs)"
    using encrypted_scans.remove_client_content [OF assms(1,2), of sid] by metis
  then show ?thesis using encrypted_scans.allowed_values [OF assms(1,2)] encrypted_scans.allowed_values [OF s'(2,3)] by auto
qed

theorem file_client_removed_witness:
  "\<exists>s0 s'. fo_add_scan_client_id (encrypted_db sample_ks [1] unary_index) sample_serde ''s1'' ''c1'' sample_file_state = (Inr (), s0)
    \<and> fo_is_client_allowed (encrypted_db sample_ks [1] unary_index) sample_serde ''s1'' ''c1'' s0 = Ret True
    \<and> fo_remove_scan_id (encrypted_db sample_ks [1] unary_index) sample_serde ''s1'' s0 = Ret (Inr (), s')
    \<and> fo_is_client_allowed (encrypted_db sample_ks [1] unary_index) sample_serde ''s1'' ''c1'' s' = Ret False"
proof -
  obtain s0 where s0: "fo_add_scan_client_id (encrypted_db sample_ks [1] unary_index) sample_serde ''s1'' ''c1'' sample_file_state = (Inr (), s0)"
      "encrypted_valid unary_index s0" "holds (encrypted_view sample_ks [1] unary_index) (sd_idmap sample_serde) ''idmap'' s0 [(''c1'', ''s1'')]"
    using encrypted_scans.add_client_content [where ks = sample_ks and secret = "[1]", OF sample_valid sample_serde_ok(4), of "[]"]
    by (auto simp: holds_def sample_view)
  then show ?thesis using file_client_removed [OF s0(2,3), of "''s1''"] encrypted_scans.allowed_values [OF s0(2,3)] by fastforce
qed

end
